(* ===== verification/Prelude.thy ===== *)
theory Prelude
  imports Complex_Main
begin

text \<open>
  Shared vocabulary of the development: results that may carry an error, a generic account of
  transition systems and their invariants, and the list lemmas the component theories share.

  A JavaScript operation that may throw is a function into \<open>'e + 'a\<close>: \<open>Inl\<close> is the thrown
  error, \<open>Inr\<close> the returned value. Sequencing two such computations is \<open>bindE\<close>, so an
  early throw skips everything after it, as in the source.
\<close>

named_theorems result_simps \<open>unfolding rules for sequenced results\<close>

subsection \<open>Results\<close>

definition bindE :: "'e + 'a \<Rightarrow> ('a \<Rightarrow> 'e + 'b) \<Rightarrow> 'e + 'b" where
  "bindE m f = (case m of Inl e \<Rightarrow> Inl e | Inr x \<Rightarrow> f x)"

definition is_ok :: "'e + 'a \<Rightarrow> bool" where
  "is_ok r = (case r of Inl _ \<Rightarrow> False | Inr _ \<Rightarrow> True)"

lemma bindE_Inl [simp]: "bindE (Inl e) f = Inl e"
  by (simp add: bindE_def)

lemma bindE_Inr [simp]: "bindE (Inr x) f = f x"
  by (simp add: bindE_def)

lemma bindE_eq_Inr [result_simps]: "bindE m f = Inr y \<longleftrightarrow> (\<exists>x. m = Inr x \<and> f x = Inr y)"
  by (cases m) auto

lemma bindE_eq_Inl [result_simps]:
  "bindE m f = Inl e \<longleftrightarrow> m = Inl e \<or> (\<exists>x. m = Inr x \<and> f x = Inl e)"
  by (cases m) auto

lemma bindE_assoc: "bindE (bindE m f) g = bindE m (\<lambda>x. bindE (f x) g)"
  by (cases m) auto

lemma is_ok_simps [simp]: "is_ok (Inr x)" "\<not> is_ok (Inl e)"
  by (simp_all add: is_ok_def)

lemma is_okE: "is_ok r \<Longrightarrow> (\<And>x. r = Inr x \<Longrightarrow> P) \<Longrightarrow> P"
  by (cases r) auto

text \<open>Running a fallible step over a list, left to right, stopping at the first error.\<close>

fun foldE :: "('x \<Rightarrow> 's \<Rightarrow> 'e + 's) \<Rightarrow> 'x list \<Rightarrow> 's \<Rightarrow> 'e + 's" where
  "foldE f [] s = Inr s"
| "foldE f (x # xs) s = bindE (f x s) (foldE f xs)"

lemma foldE_append: "foldE f (xs @ ys) s = bindE (foldE f xs s) (foldE f ys)"
  by (induction xs arbitrary: s) (auto simp: bindE_assoc bindE_def split: sum.splits)

lemma foldE_invariant:
  assumes "foldE f xs s = Inr s'" "P s"
    and "\<And>x s s'. x \<in> set xs \<Longrightarrow> P s \<Longrightarrow> f x s = Inr s' \<Longrightarrow> P s'"
  shows "P s'"
  using assms
proof (induction xs arbitrary: s)
  case Nil
  then show ?case by simp
next
  case (Cons x xs)
  from Cons.prems(1) obtain t where t: "f x s = Inr t" "foldE f xs t = Inr s'"
    by (auto simp: bindE_eq_Inr)
  with Cons.prems have "P t" by auto
  with t(2) Cons.prems(3) show ?case
    by (intro Cons.IH [of t]) auto
qed

text \<open>The results of all elements, or the first error.\<close>

fun collectE :: "('e + 'a) list \<Rightarrow> 'e + 'a list" where
  "collectE [] = Inr []"
| "collectE (r # rs) = bindE r (\<lambda>x. bindE (collectE rs) (\<lambda>xs. Inr (x # xs)))"

lemma collectE_Inr: "collectE rs = Inr xs \<longleftrightarrow> rs = map Inr xs"
  by (induction rs arbitrary: xs) (auto simp: bindE_eq_Inr Cons_eq_map_conv)

lemma collectE_map_Inr [simp]: "collectE (map (\<lambda>x. Inr (f x)) xs) = Inr (map f xs)"
  by (simp add: collectE_Inr)

text \<open>An error of one operation inside the errors of another.\<close>

definition lift_error :: "('e \<Rightarrow> 'f) \<Rightarrow> 'e + 'a \<Rightarrow> 'f + 'a" where
  "lift_error f r = (case r of Inl e \<Rightarrow> Inl (f e) | Inr x \<Rightarrow> Inr x)"

lemma lift_error_simps [simp]: "lift_error f (Inl e) = Inl (f e)" "lift_error f (Inr x) = Inr x"
  by (simp_all add: lift_error_def)

lemma lift_error_Inr [simp]: "lift_error f r = Inr x \<longleftrightarrow> r = Inr x"
  by (cases r) simp_all

subsection \<open>Transition systems and their invariants\<close>

text \<open>
  A component that keeps state is an initial predicate and a step relation. Its reachable states
  are the least set closed under steps, and an inductive invariant holds of all of them. The
  components interpret these locales on their own step relations.
\<close>

inductive reaches :: "('s \<Rightarrow> bool) \<Rightarrow> ('s \<Rightarrow> 's \<Rightarrow> bool) \<Rightarrow> 's \<Rightarrow> bool"
  for start :: "'s \<Rightarrow> bool" and step :: "'s \<Rightarrow> 's \<Rightarrow> bool" where
  reaches_start: "start s \<Longrightarrow> reaches start step s"
| reaches_step: "reaches start step s \<Longrightarrow> step s t \<Longrightarrow> reaches start step t"

locale transition_system =
  fixes start :: "'s \<Rightarrow> bool"
    and step :: "'s \<Rightarrow> 's \<Rightarrow> bool"
begin

lemma reaches_rtranclp: "start s \<Longrightarrow> step\<^sup>*\<^sup>* s t \<Longrightarrow> reaches start step t"
proof (rotate_tac, induction rule: rtranclp_induct)
  case base
  then show ?case by (rule reaches_start)
next
  case (step t u)
  then show ?case by (blast intro: reaches_step)
qed

end

locale invariant_system = transition_system +
  fixes inv :: "'s \<Rightarrow> bool"
  assumes inv_start: "start s \<Longrightarrow> inv s"
    and inv_step: "inv s \<Longrightarrow> step s t \<Longrightarrow> inv t"
begin

lemma reaches_inv: "reaches start step s \<Longrightarrow> inv s"
proof (induction rule: reaches.induct)
  case (reaches_start s)
  then show ?case by (rule inv_start)
next
  case (reaches_step s t)
  then show ?case by (blast intro: inv_step)
qed

lemma run_inv: "inv s \<Longrightarrow> step\<^sup>*\<^sup>* s t \<Longrightarrow> inv t"
  by (rotate_tac, induction rule: rtranclp_induct) (auto intro: inv_step)

end

text \<open>
  A quantity that every step changes by exactly what the step logs: the ledger pattern. \<open>log\<close>
  is the sequence of published entries, \<open>weight\<close> the change one entry announces, and
  \<open>measured\<close> the true quantity. A reader who starts from a snapshot and adds up the entries
  published since then always holds the true value.
\<close>

locale ledger_system =
  fixes step :: "'s \<Rightarrow> 's \<Rightarrow> bool"
    and log :: "'s \<Rightarrow> 'l list"
    and weight :: "'l \<Rightarrow> 'k \<Rightarrow> int"
    and measured :: "'s \<Rightarrow> 'k \<Rightarrow> int"
    and inv :: "'s \<Rightarrow> bool"
  assumes ledger_inv: "inv s \<Longrightarrow> step s t \<Longrightarrow> inv t"
    and ledger_step: "inv s \<Longrightarrow> step s t \<Longrightarrow>
      \<exists>es. log t = log s @ es \<and> (\<forall>k. measured t k = measured s k + (\<Sum>e\<leftarrow>es. weight e k))"
begin

lemma ledger_run:
  assumes "step\<^sup>*\<^sup>* s t" "inv s"
  shows "inv t \<and> (\<exists>es. log t = log s @ es \<and> (\<forall>k. measured t k = measured s k + (\<Sum>e\<leftarrow>es. weight e k)))"
  using assms
proof (induction rule: rtranclp_induct)
  case base
  then show ?case by auto
next
  case (step t u)
  then obtain es where "inv t" and t: "log t = log s @ es"
      "\<forall>k. measured t k = measured s k + (\<Sum>e\<leftarrow>es. weight e k)"
    by auto
  from ledger_step [OF \<open>inv t\<close> step.hyps(2)] obtain es' where
      "log u = log t @ es'" "\<forall>k. measured u k = measured t k + (\<Sum>e\<leftarrow>es'. weight e k)"
    by auto
  with t have "log u = log s @ (es @ es')"
      "\<forall>k. measured u k = measured s k + (\<Sum>e\<leftarrow>es @ es'. weight e k)"
    by auto
  then show ?case using ledger_inv [OF \<open>inv t\<close> step.hyps(2)] by blast
qed

end

subsection \<open>Lists\<close>

lemma filter_id_all: "(\<And>x. x \<in> set xs \<Longrightarrow> P x) \<Longrightarrow> filter P xs = xs"
  by (induction xs) auto

lemma sum_list_map_if_zero:
  "(\<And>x. x \<in> set xs \<Longrightarrow> f x = 0) \<Longrightarrow> (\<Sum>x\<leftarrow>xs. f x) = (0 :: int)"
  by (induction xs) auto

lemma distinct_map_inj_on_eq:
  "distinct (map f xs) \<Longrightarrow> x \<in> set xs \<Longrightarrow> y \<in> set xs \<Longrightarrow> f x = f y \<Longrightarrow> x = y"
  by (metis distinct_map inj_onD)

end
