(* ===== verification/Js_Value.thy ===== *)
theory Js_Value
  imports Prelude "HOL-Library.Log_Nat"
begin

text \<open>
  The part of the JavaScript language the modelled sources use: values with their run-time types,
  truthiness, number tests, string whitespace handling, \<open>split\<close>, and the conversion
  \<open>Number(string)\<close>.

  A number is an exact rational, or one of \<open>NaN\<close> and the infinities; the sign of zero is
  not kept, since no modelled code observes it. Where JavaScript rounds a written numeral to the
  nearest double, so does \<open>js_number\<close> (\<open>round_double\<close>). A string is a list of code units
  below 256; white space and case conversion are those of this range.
\<close>

subsection \<open>Values\<close>

datatype jsnum = Fin rat | NaN | PosInf | NegInf

datatype jsval =
    JUndef
  | JNull
  | JBool bool
  | JNum jsnum
  | JStr string
  | JArr "jsval list"
  | JObj "(string \<times> jsval) list"

abbreviation JInt :: "int \<Rightarrow> jsval" where
  "JInt z \<equiv> JNum (Fin (of_int z))"

fun truthy :: "jsval \<Rightarrow> bool" where
  "truthy JUndef = False"
| "truthy JNull = False"
| "truthy (JBool b) = b"
| "truthy (JNum (Fin q)) = (q \<noteq> 0)"
| "truthy (JNum NaN) = False"
| "truthy (JNum _) = True"
| "truthy (JStr s) = (s \<noteq> [])"
| "truthy (JArr _) = True"
| "truthy (JObj _) = True"

text \<open>\<open>a || b\<close> on values, and \<open>x ? String(x) : null\<close> on a nullable text column.\<close>

definition js_or :: "jsval \<Rightarrow> jsval \<Rightarrow> jsval" where
  "js_or a b = (if truthy a then a else b)"

definition text_or_null :: "string option \<Rightarrow> string option" where
  "text_or_null c = (case c of None \<Rightarrow> None | Some s \<Rightarrow> if s = [] then None else Some s)"

lemma text_or_null_simps [simp]:
  "text_or_null None = None" "text_or_null (Some []) = None" "s \<noteq> [] \<Longrightarrow> text_or_null (Some s) = Some s"
  by (simp_all add: text_or_null_def)

lemma text_or_null_eq_Some [simp]: "text_or_null c = Some s \<longleftrightarrow> c = Some s \<and> s \<noteq> []"
  by (auto simp: text_or_null_def split: option.splits if_splits)

subsection \<open>Number tests\<close>

definition is_finite_num :: "jsval \<Rightarrow> bool" where
  "is_finite_num v = (case v of JNum (Fin _) \<Rightarrow> True | _ \<Rightarrow> False)"

definition rat_is_int :: "rat \<Rightarrow> bool" where
  "rat_is_int q = (of_int \<lfloor>q\<rfloor> = q)"

text \<open>\<open>Number.isInteger\<close> and \<open>Number.isSafeInteger\<close>, with the integer they accept.\<close>

definition js_integer :: "jsval \<Rightarrow> int option" where
  "js_integer v = (case v of JNum (Fin q) \<Rightarrow> if rat_is_int q then Some \<lfloor>q\<rfloor> else None | _ \<Rightarrow> None)"

definition MAX_SAFE_INTEGER :: int where
  "MAX_SAFE_INTEGER = 2 ^ 53 - 1"

definition is_safe_int :: "int \<Rightarrow> bool" where
  "is_safe_int z = (\<bar>z\<bar> \<le> MAX_SAFE_INTEGER)"

definition js_safe_integer :: "jsval \<Rightarrow> int option" where
  "js_safe_integer v = (case js_integer v of None \<Rightarrow> None | Some z \<Rightarrow> if is_safe_int z then Some z else None)"

lemma rat_is_int_of_int [simp]: "rat_is_int (of_int z)"
  by (simp add: rat_is_int_def)

lemma js_integer_JInt [simp]: "js_integer (JInt z) = Some z"
  by (simp add: js_integer_def)

lemma js_integer_Some: "js_integer v = Some z \<longleftrightarrow> v = JInt z"
  by (auto simp: js_integer_def rat_is_int_def split: jsval.splits jsnum.splits if_splits)

lemma js_safe_integer_Some: "js_safe_integer v = Some z \<longleftrightarrow> v = JInt z \<and> is_safe_int z"
  by (auto simp: js_safe_integer_def js_integer_Some split: option.splits if_splits)

subsection \<open>White space, case and splitting\<close>

definition is_js_space :: "char \<Rightarrow> bool" where
  "is_js_space c = (of_char c \<in> {9, 10, 11, 12, 13, 32, 160 :: nat})"

definition js_trim :: "string \<Rightarrow> string" where
  "js_trim s = rev (dropWhile is_js_space (rev (dropWhile is_js_space s)))"

definition to_lower_char :: "char \<Rightarrow> char" where
  "to_lower_char c =
     (let n = (of_char c :: nat) in
      if (65 \<le> n \<and> n \<le> 90) \<or> (192 \<le> n \<and> n \<le> 222 \<and> n \<noteq> 215) then char_of (n + 32) else c)"

definition js_toLowerCase :: "string \<Rightarrow> string" where
  "js_toLowerCase s = map to_lower_char s"

text \<open>\<open>s.split(d)\<close> for a one-character separator, and \<open>s.split(/\\s+/)\<close>.\<close>

fun split_char :: "char \<Rightarrow> string \<Rightarrow> string list" where
  "split_char d [] = [[]]"
| "split_char d (c # cs) =
     (if c = d then [] # split_char d cs
      else (case split_char d cs of [] \<Rightarrow> [[c]] | p # ps \<Rightarrow> (c # p) # ps))"

function split_space :: "string \<Rightarrow> string list" where
  "split_space s =
     (case dropWhile (\<lambda>c. \<not> is_js_space c) s of
        [] \<Rightarrow> [s]
      | _ # rest \<Rightarrow> takeWhile (\<lambda>c. \<not> is_js_space c) s # split_space (dropWhile is_js_space rest))"
  by pat_completeness auto
termination
proof (relation "measure length")
  fix s c rest
  assume "dropWhile (\<lambda>c. \<not> is_js_space c) s = c # rest"
  then have "Suc (length rest) \<le> length s"
    by (metis length_Cons length_dropWhile_le)
  moreover have "length (dropWhile is_js_space rest) \<le> length rest"
    by (rule length_dropWhile_le)
  ultimately show "(dropWhile is_js_space rest, s) \<in> measure length" by simp
qed simp

declare split_space.simps [simp del]

text \<open>\<open>s.indexOf(d)\<close> and the two slices around it.\<close>

fun index_of_char :: "char \<Rightarrow> string \<Rightarrow> nat option" where
  "index_of_char d [] = None"
| "index_of_char d (c # cs) = (if c = d then Some 0 else map_option Suc (index_of_char d cs))"

lemma index_of_char_None: "index_of_char d s = None \<longleftrightarrow> d \<notin> set s"
  by (induction s) auto

lemma split_char_nonempty [simp]: "split_char d s \<noteq> []"
  by (induction s) (auto split: list.splits)

lemma split_char_absent: "d \<notin> set s \<Longrightarrow> split_char d s = [s]"
  by (induction s) auto

fun join_char :: "char \<Rightarrow> string list \<Rightarrow> string" where
  "join_char d [] = []"
| "join_char d [p] = p"
| "join_char d (p # ps) = p @ d # join_char d ps"

lemma join_split_char: "join_char d (split_char d s) = s"
proof (induction s)
  case Nil
  then show ?case by simp
next
  case (Cons c cs)
  show ?case
  proof (cases "split_char d cs")
    case Nil
    then show ?thesis by simp
  next
    case (Cons p ps)
    with Cons.IH show ?thesis by (cases ps) auto
  qed
qed

subsection \<open>Rounding to a double\<close>

definition pow2 :: "int \<Rightarrow> rat" where
  "pow2 k = (if 0 \<le> k then 2 ^ nat k else 1 / 2 ^ nat (- k))"

definition round_half_even :: "rat \<Rightarrow> int" where
  "round_half_even q =
     (let f = \<lfloor>q\<rfloor>; d = q - of_int f in
      if d < 1 / 2 then f else if 1 / 2 < d then f + 1 else if even f then f else f + 1)"

text \<open>
  IEEE 754 binary64, round to nearest with ties to even: \<open>fraction_bits q\<close> is the number of
  bits a double of the binary exponent of \<open>q\<close> keeps after the point (at most 1074, the
  subnormal range), and a magnitude of \<open>2 ^ 1024\<close> or more is an infinity.
\<close>

definition fraction_bits :: "rat \<Rightarrow> int" where
  "fraction_bits q =
     (let (n, d) = quotient_of \<bar>q\<bar>;
          k = bitlen n - bitlen d;
          e = (if pow2 k \<le> \<bar>q\<bar> then k else k - 1)
      in min (52 - e) 1074)"

definition double_magnitude :: "rat \<Rightarrow> rat" where
  "double_magnitude q =
     (let s = fraction_bits q in of_int (round_half_even (\<bar>q\<bar> * pow2 s)) / pow2 s)"

definition round_double :: "rat \<Rightarrow> jsnum" where
  "round_double q =
     (if q = 0 then Fin 0
      else if 2 ^ 1024 \<le> double_magnitude q then (if q < 0 then NegInf else PosInf)
      else Fin (sgn q * double_magnitude q))"

lemma round_half_even_of_int [simp]: "round_half_even (of_int z) = z"
  by (simp add: round_half_even_def)

lemma pow2_pos: "0 < pow2 k"
  by (simp add: pow2_def)

lemma fraction_bits_of_int:
  assumes "z \<noteq> 0" "\<bar>z\<bar> < 2 ^ 53"
  shows "0 \<le> fraction_bits (of_int z)"
proof -
  have a: "0 < \<bar>z\<bar>" using assms(1) by simp
  have "2 ^ nat (bitlen \<bar>z\<bar> - 1) \<le> \<bar>z\<bar>" using bitlen_bounds [OF a] by simp
  with assms(2) have "(2::int) ^ nat (bitlen \<bar>z\<bar> - 1) < 2 ^ 53" by linarith
  then have "nat (bitlen \<bar>z\<bar> - 1) < 53"
    by (simp only: power_strict_increasing_iff [of "2::int"] one_less_numeral_iff semiring_norm)
  then have "bitlen \<bar>z\<bar> - bitlen 1 \<le> 52" by (simp add: bitlen_alt_def [of 1])
  moreover have "quotient_of \<bar>of_int z :: rat\<bar> = (\<bar>z\<bar>, 1)"
    by (simp add: quotient_of_int [unfolded Rat.of_int_def] flip: of_int_abs)
  ultimately show ?thesis by (simp add: fraction_bits_def Let_def)
qed

lemma double_magnitude_of_int:
  assumes "0 \<le> fraction_bits (of_int z)"
  shows "double_magnitude (of_int z) = of_int \<bar>z\<bar>"
proof -
  have "\<bar>of_int z\<bar> * pow2 (fraction_bits (of_int z)) = (of_int (\<bar>z\<bar> * 2 ^ nat (fraction_bits (of_int z))) :: rat)"
    using assms by (simp add: pow2_def)
  then have "round_half_even (\<bar>of_int z\<bar> * pow2 (fraction_bits (of_int z))) = \<bar>z\<bar> * 2 ^ nat (fraction_bits (of_int z))"
    by (simp only: round_half_even_of_int)
  with assms show ?thesis by (simp add: double_magnitude_def Let_def pow2_def)
qed

lemma round_double_of_int:
  assumes "\<bar>z\<bar> < 2 ^ 53"
  shows "round_double (of_int z) = Fin (of_int z)"
proof (cases "z = 0")
  case True
  then show ?thesis by (simp add: round_double_def)
next
  case False
  have m: "double_magnitude (of_int z) = of_int \<bar>z\<bar>"
    using fraction_bits_of_int [OF False assms] by (rule double_magnitude_of_int)
  have "(of_int \<bar>z\<bar> :: rat) < of_int (2 ^ 53)" using assms by (simp only: of_int_less_iff)
  also have "\<dots> \<le> 2 ^ 1024" by simp
  finally have "\<not> 2 ^ 1024 \<le> double_magnitude (of_int z)" by (simp add: m)
  moreover have "sgn (of_int z) * of_int \<bar>z\<bar> = (of_int z :: rat)" by (simp add: sgn_if)
  ultimately show ?thesis unfolding round_double_def m using False by simp
qed

text \<open>Small integers are doubles, which is how evaluation rounds them.\<close>

definition round_general :: "rat \<Rightarrow> jsnum" where
  "round_general q =
     (if q = 0 then Fin 0
      else if 2 ^ 1024 \<le> double_magnitude q then (if q < 0 then NegInf else PosInf)
      else Fin (sgn q * double_magnitude q))"

lemma round_double_code [code]:
  "round_double q = (if rat_is_int q \<and> \<bar>q\<bar> < 9007199254740992 then Fin q else round_general q)"
proof (cases "rat_is_int q \<and> \<bar>q\<bar> < 9007199254740992")
  case True
  then obtain z where z: "q = of_int z" by (metis Ints_cases rat_is_int_def floor_of_int rat_is_int_of_int)
  with True have "\<bar>of_int z :: rat\<bar> < of_int (2 ^ 53)" by simp
  then have "\<bar>z\<bar> < 2 ^ 53" by (simp only: of_int_abs [symmetric] of_int_less_iff)
  with True z round_double_of_int show ?thesis by simp
next
  case False
  then show ?thesis by (simp only: round_general_def round_double_def if_False)
qed

subsection \<open>\<open>Number(string)\<close>\<close>

definition digit_value :: "char \<Rightarrow> nat" where
  "digit_value c =
     (let n = (of_char c :: nat) in
      if 48 \<le> n \<and> n \<le> 57 then n - 48
      else if 97 \<le> n \<and> n \<le> 102 then n - 87
      else if 65 \<le> n \<and> n \<le> 70 then n - 55 else 99)"

definition is_digit :: "nat \<Rightarrow> char \<Rightarrow> bool" where
  "is_digit b c = (digit_value c < b)"

definition digits_value :: "nat \<Rightarrow> string \<Rightarrow> int" where
  "digits_value b s = foldl (\<lambda>acc c. acc * int b + int (digit_value c)) 0 s"

definition radix_literal :: "nat \<Rightarrow> string \<Rightarrow> jsnum" where
  "radix_literal b s =
     (if s \<noteq> [] \<and> list_all (is_digit b) s then round_double (of_int (digits_value b s)) else NaN)"

text \<open>An exponent part: empty, or \<open>e\<close> with an optional sign and at least one digit.\<close>

definition exponent_part :: "string \<Rightarrow> int option" where
  "exponent_part s =
     (case s of
        [] \<Rightarrow> Some 0
      | c # rest \<Rightarrow>
          if c \<noteq> CHR ''e'' \<and> c \<noteq> CHR ''E'' then None
          else let neg = (rest \<noteq> [] \<and> hd rest = CHR ''-'');
                   ds = (if rest \<noteq> [] \<and> (hd rest = CHR ''-'' \<or> hd rest = CHR ''+'') then tl rest else rest)
               in if ds \<noteq> [] \<and> list_all (is_digit 10) ds
                  then Some ((if neg then - 1 else 1) * digits_value 10 ds) else None)"

definition unsigned_decimal :: "string \<Rightarrow> rat option" where
  "unsigned_decimal s =
     (let ip = takeWhile (is_digit 10) s; r1 = dropWhile (is_digit 10) s;
          dot = (r1 \<noteq> [] \<and> hd r1 = CHR ''.'');
          fp = (if dot then takeWhile (is_digit 10) (tl r1) else []);
          r2 = (if dot then dropWhile (is_digit 10) (tl r1) else r1)
      in if ip = [] \<and> fp = [] then None
         else (case exponent_part r2 of
                 None \<Rightarrow> None
               | Some x \<Rightarrow>
                   let m = of_int (digits_value 10 (ip @ fp)); p = x - int (length fp)
                   in Some (if 0 \<le> p then m * 10 ^ nat p else m / 10 ^ nat (- p))))"

definition unsigned_literal :: "string \<Rightarrow> jsnum" where
  "unsigned_literal s =
     (if s = ''Infinity'' then PosInf
      else (case unsigned_decimal s of None \<Rightarrow> NaN | Some q \<Rightarrow> round_double q))"

definition jsnum_negate :: "jsnum \<Rightarrow> jsnum" where
  "jsnum_negate n = (case n of Fin q \<Rightarrow> Fin (- q) | NaN \<Rightarrow> NaN | PosInf \<Rightarrow> NegInf | NegInf \<Rightarrow> PosInf)"

definition js_number :: "string \<Rightarrow> jsnum" where
  "js_number str =
     (let s = js_trim str; pre = take 2 s; body = drop 2 s in
      if s = [] then Fin 0
      else if pre = ''0x'' \<or> pre = ''0X'' then radix_literal 16 body
      else if pre = ''0o'' \<or> pre = ''0O'' then radix_literal 8 body
      else if pre = ''0b'' \<or> pre = ''0B'' then radix_literal 2 body
      else if hd s = CHR ''-'' then jsnum_negate (unsigned_literal (tl s))
      else if hd s = CHR ''+'' then unsigned_literal (tl s)
      else unsigned_literal s)"

subsection \<open>Decimal numerals\<close>

text \<open>\<open>bigint.toString()\<close>, which is also how an integer below \<open>10 ^ 21\<close> is printed.\<close>

function decimal :: "nat \<Rightarrow> string" where
  "decimal n = (if n < 10 then [char_of (48 + n)] else decimal (n div 10) @ [char_of (48 + n mod 10)])"
  by pat_completeness auto
termination by (relation "measure id") auto

declare decimal.simps [simp del]

definition bigint_string :: "int \<Rightarrow> string" where
  "bigint_string z = (if z < 0 then CHR ''-'' # decimal (nat (- z)) else decimal (nat z))"

lemma digit_of_char [simp]: "d < 10 \<Longrightarrow> digit_value (char_of (48 + d)) = d"
  by (simp add: digit_value_def Let_def)

lemma digits_value_snoc: "digits_value 10 (s @ [c]) = digits_value 10 s * 10 + int (digit_value c)"
  by (simp add: digits_value_def)

lemma decimal_props: "decimal n \<noteq> [] \<and> list_all (is_digit 10) (decimal n) \<and> digits_value 10 (decimal n) = int n"
proof (induction n rule: decimal.induct)
  case (1 n)
  show ?case
  proof (cases "n < 10")
    case True
    then show ?thesis by (simp add: decimal.simps [of n] is_digit_def digits_value_def)
  next
    case False
    with 1 have "digits_value 10 (decimal n) = int (n div 10) * 10 + int (n mod 10)"
      by (simp add: decimal.simps [of n] digits_value_snoc)
    also have "\<dots> = int (n div 10 * 10 + n mod 10)" by (simp only: of_nat_add of_nat_mult of_nat_numeral)
    finally have "digits_value 10 (decimal n) = int n" by (simp only: div_mult_mod_eq)
    with 1 False show ?thesis by (simp add: decimal.simps [of n] is_digit_def)
  qed
qed

lemma decimal_cons: "decimal n = c # cs \<Longrightarrow> is_digit 10 c \<and> list_all (is_digit 10) cs \<and> c \<noteq> CHR ''-''"
  using decimal_props [of n] by (auto simp: is_digit_def digit_value_def)

lemma decimal_hd: "hd (decimal n) \<noteq> CHR ''-''"
  using decimal_props [of n] decimal_cons [of n] by (cases "decimal n") auto

text \<open>\<open>BigInt(string)\<close> for an optional minus sign and digits.\<close>

definition bigint_of :: "string \<Rightarrow> int" where
  "bigint_of s = (if s \<noteq> [] \<and> hd s = CHR ''-'' then - digits_value 10 (tl s) else digits_value 10 s)"

lemma bigint_of_string [simp]: "bigint_of (bigint_string z) = z"
  using decimal_props [of "nat z"] decimal_props [of "nat (- z)"] decimal_hd [of "nat z"]
  by (simp add: bigint_of_def bigint_string_def)

end
