(* ===== verification/Job_Semantics.thy ===== *)
theory Job_Semantics
  imports Js_Value "HOL-Library.Sublist"
begin

text \<open>
  Shared background-job semantics (\<open>src/src/background-jobs/job-semantics.js\<close>): how a job's
  options are normalised before it is persisted, the retry back-off, and the resolution of an
  explicit or queue-derived concurrency contract.

  Options are read as JavaScript values, \<open>JUndef\<close> for an absent one, because the source tests
  their run-time types. An epoch timestamp is an \<open>int\<close>.
\<close>

subsection \<open>Data\<close>

datatype execution_mode = Inline | Forked | Pooled | Spawned

record job_options =
  opt_forked_present :: bool
  opt_executionMode :: jsval
  opt_maxRetries :: jsval
  opt_queue :: jsval
  opt_concurrencyKey :: jsval
  opt_maxConcurrency :: jsval
  opt_deduplicateWhileQueued :: jsval
  opt_idempotencyKey :: jsval
  opt_scheduledAtMs :: jsval
  opt_timeoutMs :: jsval

definition no_options :: job_options where
  "no_options = \<lparr>opt_forked_present = False, opt_executionMode = JUndef, opt_maxRetries = JUndef,
     opt_queue = JUndef, opt_concurrencyKey = JUndef, opt_maxConcurrency = JUndef,
     opt_deduplicateWhileQueued = JUndef, opt_idempotencyKey = JUndef, opt_scheduledAtMs = JUndef,
     opt_timeoutMs = JUndef\<rparr>"

record queue_config =
  maxConcurrent :: jsval
  priority :: jsval

type_synonym queues_config = "(string \<times> queue_config) list"

record resolved_concurrency =
  rc_concurrencyKey :: string
  rc_maxConcurrency :: int
  rc_queueDerived :: bool

datatype semantics_error =
    ForkedOptionRemoved
  | InvalidExecutionMode jsval
  | UnsupportedExecutionMode execution_mode
  | InvalidScheduledAtMs
  | InvalidRescheduleDelay
  | UnsafeRescheduleTime
  | UnpairedConcurrency
  | ReservedConcurrencyKey

definition DEFAULT_BACKGROUND_JOB_EXECUTION_MODE :: execution_mode where
  "DEFAULT_BACKGROUND_JOB_EXECUTION_MODE = Pooled"

definition DEFAULT_BACKGROUND_JOB_MAX_RETRIES :: int where
  "DEFAULT_BACKGROUND_JOB_MAX_RETRIES = 10"

definition DEFAULT_BACKGROUND_JOB_QUEUE :: string where
  "DEFAULT_BACKGROUND_JOB_QUEUE = ''default''"

definition QUEUE_CONCURRENCY_KEY_PREFIX :: string where
  "QUEUE_CONCURRENCY_KEY_PREFIX = ''queue:''"

fun mode_name :: "execution_mode \<Rightarrow> string" where
  "mode_name Inline = ''inline''"
| "mode_name Forked = ''forked''"
| "mode_name Pooled = ''pooled''"
| "mode_name Spawned = ''spawned''"

definition BACKGROUND_JOB_EXECUTION_MODES :: "execution_mode list" where
  "BACKGROUND_JOB_EXECUTION_MODES = [Inline, Forked, Pooled, Spawned]"

subsection \<open>Operations\<close>

definition normalizeBackgroundJobQueue :: "job_options \<Rightarrow> string" where
  "normalizeBackgroundJobQueue options =
     (case opt_queue options of
        JStr q \<Rightarrow> if length (js_trim q) > 0 then js_trim q else DEFAULT_BACKGROUND_JOB_QUEUE
      | _ \<Rightarrow> DEFAULT_BACKGROUND_JOB_QUEUE)"

text \<open>The loop of the source keeps the last candidate that matches; names are distinct.\<close>

definition mode_of_value :: "jsval \<Rightarrow> execution_mode option" where
  "mode_of_value v =
     foldl (\<lambda>found candidate. if v = JStr (mode_name candidate) then Some candidate else found)
       None BACKGROUND_JOB_EXECUTION_MODES"

definition normalizeBackgroundJobExecutionMode ::
    "job_options \<Rightarrow> execution_mode \<Rightarrow> execution_mode list \<Rightarrow> semantics_error + execution_mode" where
  "normalizeBackgroundJobExecutionMode options defaultMode supported =
     (if opt_forked_present options then Inl ForkedOptionRemoved
      else let requested = js_or (opt_executionMode options) (JStr (mode_name defaultMode))
           in case mode_of_value requested of
                None \<Rightarrow> Inl (InvalidExecutionMode requested)
              | Some m \<Rightarrow> if m \<notin> set supported then Inl (UnsupportedExecutionMode m) else Inr m)"

definition normalizeBackgroundJobMaxRetries :: "jsval \<Rightarrow> int" where
  "normalizeBackgroundJobMaxRetries v =
     (case v of
        JNum (Fin q) \<Rightarrow> if 0 \<le> q then \<lfloor>q\<rfloor> else DEFAULT_BACKGROUND_JOB_MAX_RETRIES
      | _ \<Rightarrow> DEFAULT_BACKGROUND_JOB_MAX_RETRIES)"

definition normalizeBackgroundJobScheduledAtMs :: "jsval \<Rightarrow> int \<Rightarrow> semantics_error + int" where
  "normalizeBackgroundJobScheduledAtMs v defaultScheduledAtMs =
     (if v = JUndef then Inr defaultScheduledAtMs
      else case js_safe_integer v of
             Some z \<Rightarrow> if 0 \<le> z then Inr z else Inl InvalidScheduledAtMs
           | None \<Rightarrow> Inl InvalidScheduledAtMs)"

definition rescheduledBackgroundJobAtMs :: "jsval \<Rightarrow> int \<Rightarrow> semantics_error + int" where
  "rescheduledBackgroundJobAtMs delayMs nowMs =
     (case js_safe_integer delayMs of
        None \<Rightarrow> Inl InvalidRescheduleDelay
      | Some d \<Rightarrow>
          if d < 0 then Inl InvalidRescheduleDelay
          else if \<not> is_safe_int (nowMs + d) then Inl UnsafeRescheduleTime
          else Inr (nowMs + d))"

text \<open>
  \<open>retryDelayMs\<close> indexes its four-entry schedule with \<open>retryCount - 1\<close>; below the array the
  read is \<open>undefined\<close> and the product \<open>NaN\<close>, here \<open>None\<close>.
\<close>

definition schedule_seconds :: "int list" where
  "schedule_seconds = [10, 60, 600, 3600]"

definition retryDelayMs :: "int \<Rightarrow> int option" where
  "retryDelayMs retryCount =
     (if retryCount \<le> int (length schedule_seconds)
      then (if 1 \<le> retryCount then Some (schedule_seconds ! nat (retryCount - 1) * 1000) else None)
      else Some ((retryCount - 3) * 60 * 60 * 1000))"

definition normalizeBackgroundJobConcurrency ::
    "job_options \<Rightarrow> string \<Rightarrow> queues_config \<Rightarrow> semantics_error + resolved_concurrency option" where
  "normalizeBackgroundJobConcurrency options queue queues =
     (let key = opt_concurrencyKey options; cap = opt_maxConcurrency options in
      if key \<noteq> JUndef \<or> cap \<noteq> JUndef
      then (case (key, js_integer cap) of
              (JStr k, Some c) \<Rightarrow>
                if length k = 0 \<or> c \<le> 0 then Inl UnpairedConcurrency
                else if prefix QUEUE_CONCURRENCY_KEY_PREFIX k then Inl ReservedConcurrencyKey
                else Inr (Some \<lparr>rc_concurrencyKey = k, rc_maxConcurrency = c, rc_queueDerived = False\<rparr>)
            | _ \<Rightarrow> Inl UnpairedConcurrency)
      else (case map_of queues queue of
              None \<Rightarrow> Inr None
            | Some qc \<Rightarrow>
                (case js_integer (maxConcurrent qc) of
                   None \<Rightarrow> Inr None
                 | Some c \<Rightarrow>
                     if c \<le> 0 then Inr None
                     else Inr (Some \<lparr>rc_concurrencyKey = QUEUE_CONCURRENCY_KEY_PREFIX @ queue,
                                     rc_maxConcurrency = c, rc_queueDerived = True\<rparr>))))"

subsection \<open>Lemmas\<close>

lemma mode_of_value_name [simp]: "mode_of_value (JStr (mode_name m)) = Some m"
  by (cases m) (simp_all add: mode_of_value_def BACKGROUND_JOB_EXECUTION_MODES_def)

lemma mode_of_value_Some: "mode_of_value v = Some m \<longleftrightarrow> v = JStr (mode_name m)"
proof
  assume "mode_of_value v = Some m"
  then show "v = JStr (mode_name m)"
    by (cases m) (simp_all add: mode_of_value_def BACKGROUND_JOB_EXECUTION_MODES_def split: if_split_asm)
qed simp

lemma normalize_queue_nonempty: "normalizeBackgroundJobQueue options \<noteq> []"
  by (simp add: normalizeBackgroundJobQueue_def DEFAULT_BACKGROUND_JOB_QUEUE_def split: jsval.split)

lemma normalize_max_retries_nonneg: "0 \<le> normalizeBackgroundJobMaxRetries v"
  by (simp add: normalizeBackgroundJobMaxRetries_def DEFAULT_BACKGROUND_JOB_MAX_RETRIES_def
        split: jsval.split jsnum.split)

lemma normalize_max_retries_nat [simp]: "0 \<le> n \<Longrightarrow> normalizeBackgroundJobMaxRetries (JInt n) = n"
  by (simp add: normalizeBackgroundJobMaxRetries_def)

lemma rescheduled_Inr:
  "rescheduledBackgroundJobAtMs v now = Inr t \<longleftrightarrow>
     (\<exists>d. v = JInt d \<and> is_safe_int d \<and> 0 \<le> d \<and> is_safe_int t \<and> t = now + d)"
proof (cases "js_safe_integer v")
  case None
  then show ?thesis
    by (metis (no_types, lifting) Inl_Inr_False js_safe_integer_Some option.simps(3,4) rescheduledBackgroundJobAtMs_def)
next
  case (Some d)
  moreover from Some have "v = JInt d" "is_safe_int d" by (auto simp: js_safe_integer_Some)
  ultimately show ?thesis by (auto simp: rescheduledBackgroundJobAtMs_def)
qed

lemma retryDelayMs_Some: "1 \<le> n \<Longrightarrow> \<exists>d > 0. retryDelayMs n = Some d"
proof -
  assume n: "1 \<le> n"
  show ?thesis
  proof (cases "n \<le> 4")
    case True
    with n have "n = 1 \<or> n = 2 \<or> n = 3 \<or> n = 4" by auto
    then show ?thesis by (auto simp: retryDelayMs_def schedule_seconds_def)
  next
    case False
    then show ?thesis by (simp add: retryDelayMs_def schedule_seconds_def)
  qed
qed

lemma concurrency_Inr_Some:
  assumes "normalizeBackgroundJobConcurrency options queue queues = Inr (Some c)"
  shows "0 < rc_maxConcurrency c" and "rc_concurrencyKey c \<noteq> []"
    and "rc_queueDerived c \<longleftrightarrow> prefix QUEUE_CONCURRENCY_KEY_PREFIX (rc_concurrencyKey c)"
  using assms
  by (auto simp: normalizeBackgroundJobConcurrency_def Let_def QUEUE_CONCURRENCY_KEY_PREFIX_def
        split: if_splits jsval.splits option.splits)

end
