(* ===== verification/Stable_Json.thy ===== *)
theory Stable_Json
  imports Js_Value "HOL-Library.Multiset" "HOL-Library.List_Lexorder" "HOL-Library.Char_ord"
begin

text \<open>
  Canonical JSON (\<open>src/src/utils/stable-json.js\<close>), which the durable idempotency digests are
  computed from. An object is the list of its own properties in enumeration order, with distinct
  names. Assigning a property follows JavaScript: an existing name keeps its place, an array index
  goes before the other names in numeric order, any other name goes last, and assigning
  \<open>__proto__\<close> creates no own property.

  \<open>JSON.stringify\<close> and the \<open>sha256\<close> of Node's \<open>crypto\<close> belong to the host and are
  fields of the record \<open>host\<close> that the definitions using them take.
\<close>

record host =
  json_stringify :: "jsval \<Rightarrow> string"
  json_parse :: "string \<Rightarrow> jsval option"
  sha256_hex :: "string \<Rightarrow> string"

subsection \<open>Objects\<close>

definition array_index :: "string \<Rightarrow> int option" where
  "array_index k =
     (if k \<noteq> [] \<and> list_all (is_digit 10) k \<and> (k = ''0'' \<or> hd k \<noteq> CHR ''0'') \<and> digits_value 10 k < 2 ^ 32 - 1
      then Some (digits_value 10 k) else None)"

fun insert_index :: "int \<Rightarrow> string \<times> jsval \<Rightarrow> (string \<times> jsval) list \<Rightarrow> (string \<times> jsval) list" where
  "insert_index i p [] = [p]"
| "insert_index i p (q # qs) =
     (case array_index (fst q) of
        Some j \<Rightarrow> if j < i then q # insert_index i p qs else p # q # qs
      | None \<Rightarrow> p # q # qs)"

definition obj_set :: "(string \<times> jsval) list \<Rightarrow> string \<Rightarrow> jsval \<Rightarrow> (string \<times> jsval) list" where
  "obj_set fs k v =
     (if k = ''__proto__'' then fs
      else if k \<in> fst ` set fs then map (\<lambda>(k', v'). if k' = k then (k', v) else (k', v')) fs
      else case array_index k of Some i \<Rightarrow> insert_index i (k, v) fs | None \<Rightarrow> fs @ [(k, v)])"

definition obj_get :: "jsval \<Rightarrow> string \<Rightarrow> jsval" where
  "obj_get v k = (case v of JObj fs \<Rightarrow> (case map_of fs k of None \<Rightarrow> JUndef | Some x \<Rightarrow> x) | _ \<Rightarrow> JUndef)"

subsection \<open>The canonical form\<close>

fun stableJsonValue :: "jsval \<Rightarrow> jsval" where
  "stableJsonValue (JArr xs) = JArr (map stableJsonValue xs)"
| "stableJsonValue (JObj fs) =
     JObj (foldl (\<lambda>memo (k, v). obj_set memo k v) []
       (sort_key fst (map (\<lambda>(k, v). (k, stableJsonValue v)) fs)))"
| "stableJsonValue v = v"

definition stableJsonStringify :: "host \<Rightarrow> jsval \<Rightarrow> string" where
  "stableJsonStringify h v = json_stringify h (stableJsonValue v)"

subsection \<open>Equality up to the order of properties\<close>

inductive same_json :: "jsval \<Rightarrow> jsval \<Rightarrow> bool" where
  same_refl: "same_json v v"
| same_arr: "list_all2 same_json xs ys \<Longrightarrow> same_json (JArr xs) (JArr ys)"
| same_obj: "mset gs' = mset gs \<Longrightarrow> list_all2 (\<lambda>p q. fst p = fst q \<and> same_json (snd p) (snd q)) fs gs' \<Longrightarrow>
    same_json (JObj fs) (JObj gs)"

text \<open>Well-formed values: property names are distinct at every level, and none is \<open>__proto__\<close>.\<close>

fun plain_json :: "jsval \<Rightarrow> bool" where
  "plain_json (JArr xs) = list_all plain_json xs"
| "plain_json (JObj fs) =
     (distinct (map fst fs) \<and> ''__proto__'' \<notin> fst ` set fs \<and> list_all (\<lambda>p. plain_json (snd p)) fs)"
| "plain_json v = True"

lemma mset_insert_index: "mset (insert_index i p fs) = add_mset p (mset fs)"
  by (induction fs) (auto split: option.splits)

lemma mset_obj_set:
  "k \<noteq> ''__proto__'' \<Longrightarrow> k \<notin> fst ` set fs \<Longrightarrow> mset (obj_set fs k v) = add_mset (k, v) (mset fs)"
  by (auto simp: obj_set_def mset_insert_index split: option.split)

lemma map_of_insert_index: "k \<noteq> fst p \<Longrightarrow> map_of (insert_index i p fs) k = map_of fs k"
  by (induction fs) (auto split: option.splits)

lemma map_of_obj_set_other: "k \<noteq> k' \<Longrightarrow> map_of (obj_set fs k' v) k = map_of fs k"
proof -
  assume ne: "k \<noteq> k'"
  have "map_of (map (\<lambda>(a, b). if a = k' then (a, v) else (a, b)) fs) k = map_of fs k"
    using ne by (induction fs) auto
  with ne show ?thesis by (auto simp: obj_set_def map_of_insert_index map_add_def split: option.splits)
qed

lemma obj_get_obj_set_other: "k \<noteq> k' \<Longrightarrow> obj_get (JObj (obj_set fs k' v)) k = obj_get (JObj fs) k"
  by (simp add: obj_get_def map_of_obj_set_other)

lemma map_of_insert_index_same: "k \<notin> fst ` set fs \<Longrightarrow> map_of (insert_index i (k, v) fs) k = Some v"
  by (induction fs) (auto split: option.splits)

lemma obj_get_obj_set_same: "k \<noteq> ''__proto__'' \<Longrightarrow> obj_get (JObj (obj_set fs k v)) k = v"
proof -
  assume np: "k \<noteq> ''__proto__''"
  have "map_of (map (\<lambda>(a, b). if a = k then (a, v) else (a, b)) fs) k = Some v" if "k \<in> fst ` set fs"
    using that by (induction fs) auto
  moreover have "map_of fs k = None" if "k \<notin> fst ` set fs" using that by (simp add: map_of_eq_None_iff)
  ultimately show ?thesis
    using np by (auto simp: obj_set_def obj_get_def map_of_insert_index_same map_add_def split: option.split)
qed

lemma mset_foldl_obj_set:
  assumes "distinct (map fst fs)" "''__proto__'' \<notin> fst ` set fs" "fst ` set fs \<inter> fst ` set memo = {}"
  shows "mset (foldl (\<lambda>memo (k, v). obj_set memo k v) memo fs) = mset memo + mset fs"
  using assms
proof (induction fs arbitrary: memo)
  case Nil
  then show ?case by simp
next
  case (Cons p fs)
  obtain k v where p: "p = (k, v)" by (cases p)
  from Cons.prems p have k: "k \<noteq> ''__proto__''" "k \<notin> fst ` set memo" by auto
  have m: "mset (obj_set memo k v) = add_mset (k, v) (mset memo)"
    using k by (rule mset_obj_set)
  then have "set (obj_set memo k v) = insert (k, v) (set memo)"
    by (metis set_mset_add_mset_insert set_mset_mset)
  then have "mset (foldl (\<lambda>memo (k, v). obj_set memo k v) (obj_set memo k v) fs) = mset (obj_set memo k v) + mset fs"
    using Cons.prems p by (intro Cons.IH) (auto simp: image_iff)
  then show ?case by (simp add: p m)
qed

lemma mset_stable_obj:
  assumes "distinct (map fst fs)" "''__proto__'' \<notin> fst ` set fs"
  shows "mset (foldl (\<lambda>memo (k, v). obj_set memo k v) [] (sort_key fst (map (\<lambda>(k, v). (k, f v)) fs))) =
    mset (map (\<lambda>(k, v). (k, f v)) fs)"
proof -
  let ?gs = "sort_key fst (map (\<lambda>(k, v). (k, f v)) fs)"
  have "distinct (map fst (map (\<lambda>(k, v). (k, f v)) fs))"
    using assms(1) by (simp add: comp_def case_prod_unfold)
  then have "distinct (map fst ?gs)"
    by (metis (no_types, lifting) distinct_map distinct_sort set_sort)
  moreover have "fst ` set ?gs = fst ` set fs" by (force simp: image_iff)
  ultimately show ?thesis
    using assms(2) by (subst mset_foldl_obj_set) (auto simp del: set_sort)
qed

lemma sort_key_mset_eq:
  assumes "distinct (map fst fs)" "mset fs = mset gs"
  shows "sort_key fst fs = sort_key fst gs"
proof (rule properties_for_sort_key)
  show "mset (sort_key fst gs) = mset fs" using assms(2) by simp
  show "sorted (map fst (sort_key fst gs))" by simp
  show "\<And>k. k \<in> set (sort_key fst gs) \<Longrightarrow>
      filter (\<lambda>x. fst k = fst x) (sort_key fst gs) = filter (\<lambda>x. fst k = fst x) fs"
  proof -
    fix k
    assume k: "k \<in> set (sort_key fst gs)"
    have single: "\<And>hs. distinct (map fst hs) \<Longrightarrow> k \<in> set hs \<Longrightarrow> filter (\<lambda>x. fst k = fst x) hs = [k]"
      subgoal for hs by (induction hs) (auto simp: filter_empty_conv)
      done
    have "distinct (map fst gs)"
      using assms by (metis mset_eq_imp_distinct_iff mset_map)
    then have "distinct (map fst (sort_key fst gs))"
      by (metis distinct_map distinct_sort set_sort)
    moreover have "k \<in> set fs" using k assms(2) by (metis set_mset_mset set_sort)
    ultimately show "filter (\<lambda>x. fst k = fst x) (sort_key fst gs) = filter (\<lambda>x. fst k = fst x) fs"
      using single [OF assms(1)] single [OF _ k] by simp
  qed
qed

lemma sort_key_map_snd:
  "sort_key fst (map (\<lambda>p. (fst p, f (snd p))) fs) = map (\<lambda>p. (fst p, f (snd p))) (sort_key fst fs)"
proof -
  have ins: "insort_key fst (fst p, f (snd p)) (map (\<lambda>p. (fst p, f (snd p))) xs) =
      map (\<lambda>p. (fst p, f (snd p))) (insort_key fst p xs)" for p xs
    by (induction xs) auto
  show ?thesis
  proof (induction fs)
    case Nil
    show ?case by simp
  next
    case (Cons p fs)
    then show ?case using ins [of p "sort_key fst fs"] by simp
  qed
qed

lemma distinct_map_sort [simp]: "distinct (map f (sort_key g xs)) = distinct (map f xs)"
  by (metis mset_eq_imp_distinct_iff mset_map mset_sort)

lemma mset_map_split:
  "mset xs = mset (map f gs) \<Longrightarrow> \<exists>gs'. mset gs' = mset gs \<and> xs = map f gs'"
proof (induction xs arbitrary: gs)
  case Nil
  then show ?case by simp
next
  case (Cons x xs)
  then have "x \<in> set (map f gs)" by (metis list.set_intros(1) set_mset_mset)
  then obtain g where g: "g \<in> set gs" "x = f g" by auto
  then obtain g1 g2 where gs: "gs = g1 @ g # g2" by (meson split_list)
  with Cons.prems g have "mset xs = mset (map f (g1 @ g2))" by simp
  from Cons.IH [OF this] obtain gs' where "mset gs' = mset (g1 @ g2)" "xs = map f gs'" by auto
  then have "mset (g # gs') = mset gs" "x # xs = map f (g # gs')" by (simp_all add: gs g)
  then show ?case by (intro exI [of _ "g # gs'"] conjI)
qed

lemma stable_same_obj:
  assumes "distinct (map fst fs)" "mset gs' = mset gs"
    and "list_all2 (\<lambda>p q. fst p = fst q \<and> f (snd p) = f (snd q)) fs gs'"
  shows "sort_key fst (map (\<lambda>(k, v). (k, f v)) fs) = sort_key fst (map (\<lambda>(k, v). (k, f v)) gs)"
proof (rule sort_key_mset_eq)
  show "distinct (map fst (map (\<lambda>(k, v). (k, f v)) fs))"
    using assms(1) by (simp add: comp_def case_prod_unfold)
  have "map (\<lambda>(k, v). (k, f v)) fs = map (\<lambda>(k, v). (k, f v)) gs'"
    using assms(3) by (induction fs gs' rule: list_all2_induct) auto
  then show "mset (map (\<lambda>(k, v). (k, f v)) fs) = mset (map (\<lambda>(k, v). (k, f v)) gs)"
    using assms(2) by (metis mset_map)
qed

lemma stable_of_same:
  "same_json a b \<Longrightarrow> plain_json a \<Longrightarrow> plain_json b \<Longrightarrow> stableJsonValue a = stableJsonValue b"
proof (induction rule: same_json.induct)
  case (same_refl v)
  then show ?case by simp
next
  case (same_arr xs ys)
  then have "list_all2 (\<lambda>x y. stableJsonValue x = stableJsonValue y) xs ys"
    by (auto simp: list_all2_conv_all_nth list_all_length)
  then have "map stableJsonValue xs = map stableJsonValue ys"
    by (induction xs ys rule: list_all2_induct) auto
  then show ?case by simp
next
  case (same_obj gs' gs fs)
  have "set gs' = set gs" using same_obj.hyps(1) by (metis set_mset_mset)
  with same_obj.prems(2) have "list_all (\<lambda>p. plain_json (snd p)) gs'" by (simp add: list_all_iff)
  with same_obj.IH same_obj.prems(1) have
    "list_all2 (\<lambda>p q. fst p = fst q \<and> stableJsonValue (snd p) = stableJsonValue (snd q)) fs gs'"
    by (auto simp: list_all2_conv_all_nth list_all_length)
  with same_obj.prems(1) same_obj.hyps(1) show ?case
    by (simp add: stable_same_obj [where gs' = gs'])
qed

lemma same_of_stable:
  "plain_json a \<Longrightarrow> plain_json b \<Longrightarrow> stableJsonValue a = stableJsonValue b \<Longrightarrow> same_json a b"
proof (induction a arbitrary: b rule: stableJsonValue.induct)
  case (1 xs)
  from "1.prems"(3) obtain ys where b: "b = JArr ys" by (cases b) simp_all
  with "1.prems" have eq: "map stableJsonValue xs = map stableJsonValue ys"
    and pl: "\<And>x. x \<in> set xs \<Longrightarrow> plain_json x" "\<And>y. y \<in> set ys \<Longrightarrow> plain_json y"
    by (auto simp: list_all_iff)
  have "length xs = length ys" using eq by (metis length_map)
  moreover have "\<And>i. i < length xs \<Longrightarrow> same_json (xs ! i) (ys ! i)"
    using eq pl "1.IH" calculation by (metis nth_map nth_mem)
  ultimately show ?case unfolding b by (intro same_arr) (simp add: list_all2_conv_all_nth)
next
  case (2 fs)
  let ?st = "\<lambda>(k, v). (k, stableJsonValue v)"
  from "2.prems"(3) obtain gs where b: "b = JObj gs" by (cases b) simp_all
  have "mset (map ?st fs) = mset (foldl (\<lambda>memo (k, v). obj_set memo k v) [] (sort_key fst (map ?st fs)))"
    using "2.prems"(1) by (intro mset_stable_obj [symmetric]) simp_all
  also have "\<dots> = mset (foldl (\<lambda>memo (k, v). obj_set memo k v) [] (sort_key fst (map ?st gs)))"
    using "2.prems"(3) by (simp add: b)
  also have "\<dots> = mset (map ?st gs)"
    using "2.prems"(2) by (intro mset_stable_obj) (simp_all add: b)
  finally have "mset (map ?st fs) = mset (map ?st gs)" .
  from mset_map_split [OF this] obtain gs' where gs': "mset gs' = mset gs" "map ?st fs = map ?st gs'"
    by (elim exE conjE)
  have set: "set gs' = set gs" using gs'(1) by (metis set_mset_mset)
  have len: "length fs = length gs'" using gs'(2) by (metis length_map)
  have "fst (fs ! i) = fst (gs' ! i) \<and> same_json (snd (fs ! i)) (snd (gs' ! i))" if i: "i < length fs" for i
  proof -
    have "map ?st fs ! i = map ?st gs' ! i" by (simp only: gs'(2))
    then have "?st (fs ! i) = ?st (gs' ! i)" using i len by (simp only: nth_map)
    then have k: "fst (fs ! i) = fst (gs' ! i)"
      and v: "stableJsonValue (snd (fs ! i)) = stableJsonValue (snd (gs' ! i))"
      by (auto simp: case_prod_unfold)
    have "fs ! i \<in> set fs" "gs' ! i \<in> set gs'" using i len by simp_all
    with set have "fs ! i \<in> set fs" "gs' ! i \<in> set gs" by simp_all
    with "2.prems" have "plain_json (snd (fs ! i))" "plain_json (snd (gs' ! i))"
      by (auto simp: b list_all_iff)
    with k v "2.IH" [OF \<open>fs ! i \<in> set fs\<close> prod.collapse] show ?thesis by simp
  qed
  with len have "list_all2 (\<lambda>p q. fst p = fst q \<and> same_json (snd p) (snd q)) fs gs'"
    by (simp add: list_all2_conv_all_nth)
  with gs'(1) show ?case unfolding b by (rule same_obj)
next
  case "3_1"
  then show ?case by (cases b) (simp_all add: same_refl)
next
  case "3_2"
  then show ?case by (cases b) (simp_all add: same_refl)
next
  case "3_3"
  then show ?case by (cases b) (simp_all add: same_refl)
next
  case "3_4"
  then show ?case by (cases b) (simp_all add: same_refl)
next
  case "3_5"
  then show ?case by (cases b) (simp_all add: same_refl)
qed

end
