(* ===== verification/Sql_Table.thy ===== *)
theory Sql_Table
  imports Prelude
begin

text \<open>
  The relational layer the stores issue their statements against. A table is the list of its rows
  in the order the engine would scan them; that order is arbitrary, so every theorem of the
  development quantifies over it. Conditions are predicates on rows, and the operations below are
  the statements the source sends: a conditional \<open>UPDATE\<close> with its affected-row count, an
  \<open>INSERT\<close> guarded by the primary key, a conditional \<open>DELETE\<close>, a \<open>COUNT\<close>, and a
  \<open>SELECT \<dots> LIMIT 1\<close>. SQL \<open>NULL\<close> is \<open>None\<close>, and a comparison with
  \<open>NULL\<close> is never true (\<open>sql_eq\<close>).
\<close>

named_theorems sql_simps \<open>how table statements act on counts, keys and members\<close>

definition sql_eq :: "'a option \<Rightarrow> 'a option \<Rightarrow> bool" where
  "sql_eq a b = (case a of None \<Rightarrow> False | Some x \<Rightarrow> (case b of None \<Rightarrow> False | Some y \<Rightarrow> x = y))"

definition sql_le :: "'a::linorder option \<Rightarrow> 'a \<Rightarrow> bool" where
  "sql_le a y = (case a of None \<Rightarrow> False | Some x \<Rightarrow> x \<le> y)"

definition sql_update :: "('r \<Rightarrow> bool) \<Rightarrow> ('r \<Rightarrow> 'r) \<Rightarrow> 'r list \<Rightarrow> 'r list" where
  "sql_update p f rows = map (\<lambda>r. if p r then f r else r) rows"

definition sql_delete :: "('r \<Rightarrow> bool) \<Rightarrow> 'r list \<Rightarrow> 'r list" where
  "sql_delete p rows = filter (\<lambda>r. \<not> p r) rows"

definition sql_count :: "('r \<Rightarrow> bool) \<Rightarrow> 'r list \<Rightarrow> nat" where
  "sql_count p rows = length (filter p rows)"

definition sql_first :: "('r \<Rightarrow> bool) \<Rightarrow> 'r list \<Rightarrow> 'r option" where
  "sql_first p rows = find p rows"

text \<open>An \<open>INSERT\<close> fails when a row with the same primary key exists.\<close>

definition sql_insert :: "'e \<Rightarrow> ('r \<Rightarrow> 'k) \<Rightarrow> 'r \<Rightarrow> 'r list \<Rightarrow> 'e + 'r list" where
  "sql_insert dup key r rows = (if key r \<in> key ` set rows then Inl dup else Inr (rows @ [r]))"

subsection \<open>Laws\<close>

lemma sql_eq_Some [simp]: "sql_eq a (Some y) \<longleftrightarrow> a = Some y" "sql_eq (Some y) a \<longleftrightarrow> a = Some y"
  by (auto simp: sql_eq_def split: option.splits)

lemma sql_eq_None [simp]: "\<not> sql_eq a None" "\<not> sql_eq None a"
  by (simp_all add: sql_eq_def split: option.split)

lemma sql_update_Nil [simp]: "sql_update p f [] = []"
  and sql_update_Cons [simp]: "sql_update p f (r # rows) = (if p r then f r else r) # sql_update p f rows"
  by (simp_all add: sql_update_def)

lemma sql_count_Nil [simp]: "sql_count p [] = 0"
  and sql_count_Cons [simp]: "sql_count p (r # rows) = (if p r then Suc (sql_count p rows) else sql_count p rows)"
  and sql_count_append [simp]: "sql_count p (rows @ rows') = sql_count p rows + sql_count p rows'"
  by (simp_all add: sql_count_def)

lemma sql_count_zero: "(\<And>r. r \<in> set rows \<Longrightarrow> \<not> p r) \<Longrightarrow> sql_count p rows = 0"
  by (induction rows) auto

lemma sql_count_cong: "(\<And>r. r \<in> set rows \<Longrightarrow> p r = q r) \<Longrightarrow> sql_count p rows = sql_count q rows"
  by (induction rows) auto

lemma sql_count_pos_iff: "0 < sql_count p rows \<longleftrightarrow> (\<exists>r \<in> set rows. p r)"
  by (induction rows) auto

lemma sql_first_None: "sql_first p rows = None \<longleftrightarrow> (\<forall>r \<in> set rows. \<not> p r)"
  by (auto simp: sql_first_def find_None_iff)

lemma sql_first_Some: "sql_first p rows = Some r \<Longrightarrow> r \<in> set rows \<and> p r"
  by (auto simp: sql_first_def find_Some_iff)

lemma sql_first_unique:
  "distinct (map key rows) \<Longrightarrow> r \<in> set rows \<Longrightarrow> sql_first (\<lambda>r'. key r' = key r) rows = Some r"
  by (induction rows) (auto simp: sql_first_def)

lemma set_sql_update: "set (sql_update p f rows) = (\<lambda>r. if p r then f r else r) ` set rows"
  by (simp add: sql_update_def)

lemma length_sql_update [simp]: "length (sql_update p f rows) = length rows"
  by (simp add: sql_update_def)

lemma map_key_sql_update [sql_simps]:
  "(\<And>r. key (f r) = key r) \<Longrightarrow> map key (sql_update p f rows) = map key rows"
  by (induction rows) auto

lemma sql_update_no_match: "(\<And>r. r \<in> set rows \<Longrightarrow> \<not> p r) \<Longrightarrow> sql_update p f rows = rows"
  by (induction rows) auto

lemma sql_count_update_irrelevant:
  "(\<And>r. q (f r) = q r) \<Longrightarrow> sql_count q (sql_update p f rows) = sql_count q rows"
  by (induction rows) auto

text \<open>
  The workhorse: under a primary key, an update whose condition pins the key touches one row, so a
  count moves by the difference between that row before and after.
\<close>

lemma sql_count_update_one:
  assumes "distinct (map key rows)" "r \<in> set rows" "p r"
    and "\<And>r'. r' \<in> set rows \<Longrightarrow> p r' \<Longrightarrow> key r' = key r"
  shows "int (sql_count q (sql_update p f rows)) =
    int (sql_count q rows) - of_bool (q r) + of_bool (q (f r))"
  using assms
proof (induction rows)
  case Nil
  then show ?case by simp
next
  case (Cons x rows)
  show ?case
  proof (cases "x = r")
    case True
    with Cons.prems have "\<And>r'. r' \<in> set rows \<Longrightarrow> \<not> p r'"
      by (metis distinct.simps(2) image_eqI list.set_intros(2) list.set_map list.simps(9))
    then have "sql_update p f rows = rows"
      by (rule sql_update_no_match)
    with True Cons.prems(3) show ?thesis by simp
  next
    case False
    with Cons.prems have r: "r \<in> set rows" and d: "distinct (map key rows)" by auto
    have "\<not> p x"
      using Cons.prems(1,4) r by (metis distinct.simps(2) image_eqI list.set_intros(1) list.set_map list.simps(9))
    with Cons.IH [OF d r Cons.prems(3)] Cons.prems(4) show ?thesis by simp
  qed
qed

lemma sql_count_one:
  assumes "distinct (map key rows)" "r \<in> set rows" "p r"
    and "\<And>r'. r' \<in> set rows \<Longrightarrow> p r' \<Longrightarrow> key r' = key r"
  shows "sql_count p rows = 1"
  using assms
proof (induction rows)
  case Nil
  then show ?case by simp
next
  case (Cons x rows)
  show ?case
  proof (cases "x = r")
    case True
    with Cons.prems have "\<And>r'. r' \<in> set rows \<Longrightarrow> \<not> p r'"
      by (metis distinct.simps(2) image_eqI list.set_intros(2) list.set_map list.simps(9))
    with True Cons.prems(3) show ?thesis by (simp add: sql_count_zero)
  next
    case False
    with Cons.prems have r: "r \<in> set rows" and d: "distinct (map key rows)" by auto
    have "\<not> p x"
      using Cons.prems(1,4) r by (metis distinct.simps(2) image_eqI list.set_intros(1) list.set_map list.simps(9))
    with Cons.IH [OF d r Cons.prems(3)] Cons.prems(4) show ?thesis by simp
  qed
qed

lemma sql_count_delete: "sql_count q (sql_delete p rows) = sql_count (\<lambda>r. q r \<and> \<not> p r) rows"
  by (induction rows) (auto simp: sql_delete_def)

lemma sql_count_split: "sql_count q rows = sql_count (\<lambda>r. q r \<and> p r) rows + sql_count (\<lambda>r. q r \<and> \<not> p r) rows"
  by (induction rows) auto

lemma set_sql_delete [simp]: "set (sql_delete p rows) = {r \<in> set rows. \<not> p r}"
  by (auto simp: sql_delete_def)

lemma distinct_key_sql_delete [sql_simps]:
  "distinct (map key rows) \<Longrightarrow> distinct (map key (sql_delete p rows))"
  by (simp add: sql_delete_def distinct_map_filter)

lemma sql_insert_Inr [sql_simps]:
  "sql_insert dup key r rows = Inr rows' \<longleftrightarrow> key r \<notin> key ` set rows \<and> rows' = rows @ [r]"
  by (auto simp: sql_insert_def)

lemma sql_insert_Inl [sql_simps]:
  "sql_insert dup key r rows = Inl e \<longleftrightarrow> key r \<in> key ` set rows \<and> e = dup"
  by (auto simp: sql_insert_def)

end
