(* ===== verification/Mail_Delivery.thy ===== *)
theory Mail_Delivery
  imports Stable_Json Sql_Table
begin

text \<open>
  Required mail delivery operations (\<open>src/src/mailer/delivery-operation.js\<close> and
  \<open>src/src/mailer/delivery-operation-store.js\<close>): the immutable metadata a queued mail carries,
  its payload digest, and the durable guard that starts the provider's idempotency window once and
  refuses every attempt after it has closed.

  \<open>localeCompare\<close>, by which header names are sorted, is the parameter \<open>locale_le\<close>.
\<close>

subsection \<open>Data\<close>

record mail_operation =
  op_id :: string
  op_payloadDigest :: string
  op_providerKind :: string
  op_providerRetentionMs :: int

record mail_capability =
  cap_providerKind :: string
  cap_retentionMs :: int

record mail_row =
  m_operation_key :: string
  m_operation_id :: string
  m_payload_digest :: string
  m_background_job_id :: string
  m_first_attempt_started_at_ms :: "int option"
  m_provider_kind :: string
  m_provider_retention_ms :: int
  m_created_at_ms :: int

datatype mail_error =
    OperationNotObject
  | OperationIdInvalid
  | OperationIdempotencyInvalid
  | OperationUnsupportedFields
  | PersistedIdempotencyInvalid
  | PersistedIdMissing
  | PersistedDigestInvalid
  | PersistedProviderKindMissing
  | PersistedRetentionInvalid
  | DuplicateHeaders
  | ExpectedPersistedOperation
  | ProviderMismatch
  | PayloadMismatch
  | ClockInvalid
  | TransactionActive
  | NotRegistered
  | DurableConflict
  | RetentionNotStarted
  | WindowExpired int int

definition MAIL_DELIVERY_JOB_NAME :: string where
  "MAIL_DELIVERY_JOB_NAME = ''MailDeliveryJob''"

subsection \<open>Payload metadata\<close>

fun insert_by :: "(string \<Rightarrow> string \<Rightarrow> bool) \<Rightarrow> string \<times> jsval \<Rightarrow> (string \<times> jsval) list \<Rightarrow> (string \<times> jsval) list" where
  "insert_by le p [] = [p]"
| "insert_by le p (q # qs) = (if le (fst p) (fst q) then p # q # qs else q # insert_by le p qs)"

definition sort_pairs :: "(string \<Rightarrow> string \<Rightarrow> bool) \<Rightarrow> (string \<times> jsval) list \<Rightarrow> (string \<times> jsval) list" where
  "sort_pairs le ps = foldr (insert_by le) ps []"

definition canonicalHeaders :: "(string \<Rightarrow> string \<Rightarrow> bool) \<Rightarrow> jsval \<Rightarrow> mail_error + jsval" where
  "canonicalHeaders locale_le headers =
     (case headers of
        JObj fs \<Rightarrow>
          let pairs = map (\<lambda>(name, value). (js_toLowerCase name, value)) fs
          in if distinct (map fst pairs)
             then Inr (JArr (map (\<lambda>(name, value). JArr [JStr name, value]) (sort_pairs locale_le pairs)))
             else Inl DuplicateHeaders
      | _ \<Rightarrow> Inr (JArr []))"

definition null_if_missing :: "jsval \<Rightarrow> jsval" where
  "null_if_missing v = (if v = JUndef then JNull else v)"

definition mailDeliveryPayloadDigest ::
    "host \<Rightarrow> (string \<Rightarrow> string \<Rightarrow> bool) \<Rightarrow> string \<Rightarrow> jsval \<Rightarrow> mail_error + string" where
  "mailDeliveryPayloadDigest h locale_le operationId payload =
     bindE (canonicalHeaders locale_le (obj_get payload ''headers'')) (\<lambda>headers.
       let canonicalPayload = JObj
             [(''action'', obj_get payload ''action''),
              (''bcc'', null_if_missing (obj_get payload ''bcc'')),
              (''cc'', null_if_missing (obj_get payload ''cc'')),
              (''format'', JStr ''velocious-mail-delivery-payload-v1''),
              (''from'', null_if_missing (obj_get payload ''from'')),
              (''headers'', headers),
              (''html'', obj_get payload ''html''),
              (''mailer'', obj_get payload ''mailer''),
              (''operationId'', JStr operationId),
              (''replyTo'', null_if_missing (obj_get payload ''replyTo'')),
              (''subject'', obj_get payload ''subject''),
              (''to'', obj_get payload ''to'')]
       in Inr (''sha256:v1:'' @ sha256_hex h (stableJsonStringify h canonicalPayload)))"

definition validateDeliveryOperationRequest :: "jsval \<Rightarrow> mail_error + string" where
  "validateDeliveryOperationRequest deliveryOperation =
     (case deliveryOperation of
        JObj fs \<Rightarrow>
          (case obj_get deliveryOperation ''id'' of
             JStr i \<Rightarrow>
               if i = [] then Inl OperationIdInvalid
               else if obj_get deliveryOperation ''idempotency'' \<noteq> JStr ''required'' then Inl OperationIdempotencyInvalid
               else if list_ex (\<lambda>(key, _). key \<noteq> ''id'' \<and> key \<noteq> ''idempotency'') fs then Inl OperationUnsupportedFields
               else Inr i
           | _ \<Rightarrow> Inl OperationIdInvalid)
      | _ \<Rightarrow> Inl OperationNotObject)"

definition operation_object :: "mail_operation \<Rightarrow> jsval" where
  "operation_object operation = JObj
     [(''id'', JStr (op_id operation)),
      (''idempotency'', JStr ''required''),
      (''payloadDigest'', JStr (op_payloadDigest operation)),
      (''providerKind'', JStr (op_providerKind operation)),
      (''providerRetentionMs'', JInt (op_providerRetentionMs operation))]"

definition prepareRequiredDeliveryPayload ::
    "host \<Rightarrow> (string \<Rightarrow> string \<Rightarrow> bool) \<Rightarrow> mail_capability \<Rightarrow> jsval \<Rightarrow> (string \<times> jsval) list \<Rightarrow> mail_error + jsval" where
  "prepareRequiredDeliveryPayload h locale_le capability deliveryOperation pairs =
     bindE (validateDeliveryOperationRequest deliveryOperation) (\<lambda>operationId.
       bindE (mailDeliveryPayloadDigest h locale_le operationId (JObj pairs)) (\<lambda>payloadDigest.
         Inr (JObj (obj_set pairs ''deliveryOperation'' (operation_object
           \<lparr>op_id = operationId, op_payloadDigest = payloadDigest,
            op_providerKind = cap_providerKind capability,
            op_providerRetentionMs = cap_retentionMs capability\<rparr>)))))"

text \<open>The checks run in the order of the source; the first one that fails is thrown.\<close>

definition deliveryOperationFromPayload :: "jsval \<Rightarrow> mail_error + mail_operation option" where
  "deliveryOperationFromPayload payload =
     (let operation = obj_get payload ''deliveryOperation'' in
      if \<not> truthy operation then Inr None
      else if obj_get operation ''idempotency'' \<noteq> JStr ''required'' then Inl PersistedIdempotencyInvalid
      else (case obj_get operation ''id'' of
        JStr i \<Rightarrow> if i = [] then Inl PersistedIdMissing
          else (case obj_get operation ''payloadDigest'' of
            JStr d \<Rightarrow> if take 10 d \<noteq> ''sha256:v1:'' then Inl PersistedDigestInvalid
              else (case obj_get operation ''providerKind'' of
                JStr k \<Rightarrow> if k = [] then Inl PersistedProviderKindMissing
                  else (case js_safe_integer (obj_get operation ''providerRetentionMs'') of
                    Some r \<Rightarrow> if r \<le> 0 then Inl PersistedRetentionInvalid
                      else Inr (Some \<lparr>op_id = i, op_payloadDigest = d, op_providerKind = k, op_providerRetentionMs = r\<rparr>)
                  | None \<Rightarrow> Inl PersistedRetentionInvalid)
              | _ \<Rightarrow> Inl PersistedProviderKindMissing)
          | _ \<Rightarrow> Inl PersistedDigestInvalid)
      | _ \<Rightarrow> Inl PersistedIdMissing))"

definition mailDeliveryOperationForJob :: "string \<Rightarrow> jsval list \<Rightarrow> mail_error + mail_operation option" where
  "mailDeliveryOperationForJob jobName args =
     (if jobName \<noteq> MAIL_DELIVERY_JOB_NAME then Inr None
      else case args of
             JObj fs # _ \<Rightarrow> deliveryOperationFromPayload (JObj fs)
           | _ \<Rightarrow> Inr None)"

definition mailDeliveryOperationKey :: "host \<Rightarrow> string \<Rightarrow> string" where
  "mailDeliveryOperationKey h operationId = sha256_hex h (''velocious-mail-delivery-operation:'' @ operationId)"

definition validateAttemptPayload ::
    "host \<Rightarrow> (string \<Rightarrow> string \<Rightarrow> bool) \<Rightarrow> mail_capability \<Rightarrow> jsval \<Rightarrow> mail_error + mail_operation" where
  "validateAttemptPayload h locale_le capability payload =
     bindE (deliveryOperationFromPayload payload) (\<lambda>found.
       case found of
         None \<Rightarrow> Inl ExpectedPersistedOperation
       | Some operation \<Rightarrow>
           if op_providerKind operation \<noteq> cap_providerKind capability
              \<or> op_providerRetentionMs operation \<noteq> cap_retentionMs capability
           then Inl ProviderMismatch
           else bindE (mailDeliveryPayloadDigest h locale_le (op_id operation) payload) (\<lambda>currentDigest.
             if currentDigest \<noteq> op_payloadDigest operation then Inl PayloadMismatch else Inr operation))"

subsection \<open>The durable first-attempt guard\<close>

definition mail_operation_row :: "host \<Rightarrow> string \<Rightarrow> mail_row list \<Rightarrow> mail_row option" where
  "mail_operation_row h operationId rows =
     sql_first (\<lambda>r. m_operation_key r = mailDeliveryOperationKey h operationId) rows"

definition validate_mail_row :: "mail_operation \<Rightarrow> mail_row \<Rightarrow> bool" where
  "validate_mail_row operation row =
     (m_operation_id row = op_id operation \<and> m_payload_digest row = op_payloadDigest operation
      \<and> m_provider_kind row = op_providerKind operation
      \<and> m_provider_retention_ms row = op_providerRetentionMs operation)"

text \<open>
  One attempt, as the transaction that runs it: \<open>inside\<close> says whether the connection is already
  in a transaction, \<open>nowMs\<close> is the clock. A throw rolls the transaction back, so the rows are
  those of the caller.
\<close>

definition beginAttempt ::
    "host \<Rightarrow> (string \<Rightarrow> string \<Rightarrow> bool) \<Rightarrow> mail_capability \<Rightarrow> jsval \<Rightarrow> int \<Rightarrow> bool \<Rightarrow> mail_row list
     \<Rightarrow> mail_error + ((int \<times> int) \<times> mail_row list)" where
  "beginAttempt h locale_le capability payload nowMs inside rows =
     bindE (validateAttemptPayload h locale_le capability payload) (\<lambda>operation.
       if \<not> is_safe_int nowMs \<or> nowMs < 0 then Inl ClockInvalid
       else if inside then Inl TransactionActive
       else let key = mailDeliveryOperationKey h (op_id operation) in
         (case mail_operation_row h (op_id operation) rows of
            None \<Rightarrow> Inl NotRegistered
          | Some row \<Rightarrow>
              if \<not> validate_mail_row operation row then Inl DurableConflict
              else bindE
                (case m_first_attempt_started_at_ms row of
                   Some t \<Rightarrow> Inr (t, rows)
                 | None \<Rightarrow>
                     let rows' = sql_update (\<lambda>r. m_operation_key r = key)
                                   (\<lambda>r. r\<lparr>m_first_attempt_started_at_ms := Some nowMs\<rparr>) rows
                     in (case mail_operation_row h (op_id operation) rows' of
                           None \<Rightarrow> Inl RetentionNotStarted
                         | Some row' \<Rightarrow>
                             (case m_first_attempt_started_at_ms row' of
                                None \<Rightarrow> Inl RetentionNotStarted
                              | Some t \<Rightarrow> Inr (t, rows'))))
                (\<lambda>(firstAttemptStartedAtMs, rows').
                   let expiresAtMs = firstAttemptStartedAtMs + op_providerRetentionMs operation in
                   if expiresAtMs \<le> nowMs then Inl (WindowExpired expiresAtMs firstAttemptStartedAtMs)
                   else Inr ((expiresAtMs, firstAttemptStartedAtMs), rows'))))"

subsection \<open>Lemmas\<close>

lemma digest_ignores_operation:
  "mailDeliveryPayloadDigest h le i (JObj (obj_set fs ''deliveryOperation'' v)) =
     mailDeliveryPayloadDigest h le i (JObj fs)"
  by (simp add: mailDeliveryPayloadDigest_def obj_get_obj_set_other)

lemma digest_prefix: "mailDeliveryPayloadDigest h le i p = Inr d \<Longrightarrow> take 10 d = ''sha256:v1:''"
  by (auto simp: mailDeliveryPayloadDigest_def bindE_eq_Inr Let_def)

lemma operation_object_get:
  "obj_get (operation_object m) ''idempotency'' = JStr ''required''"
  "obj_get (operation_object m) ''id'' = JStr (op_id m)"
  "obj_get (operation_object m) ''payloadDigest'' = JStr (op_payloadDigest m)"
  "obj_get (operation_object m) ''providerKind'' = JStr (op_providerKind m)"
  "obj_get (operation_object m) ''providerRetentionMs'' = JInt (op_providerRetentionMs m)"
  "truthy (operation_object m)"
  by (simp_all add: operation_object_def obj_get_def)

lemma operation_roundtrip:
  assumes "op_id m \<noteq> []" "take 10 (op_payloadDigest m) = ''sha256:v1:''" "op_providerKind m \<noteq> []"
    and "0 < op_providerRetentionMs m" "is_safe_int (op_providerRetentionMs m)"
  shows "deliveryOperationFromPayload (JObj (obj_set fs ''deliveryOperation'' (operation_object m))) = Inr (Some m)"
proof -
  have "js_safe_integer (JInt (op_providerRetentionMs m)) = Some (op_providerRetentionMs m)"
    using assms(5) by (simp add: js_safe_integer_Some)
  with assms show ?thesis
    by (simp add: deliveryOperationFromPayload_def obj_get_obj_set_same operation_object_get Let_def)
qed

lemma validate_request_nonempty: "validateDeliveryOperationRequest d = Inr i \<Longrightarrow> i \<noteq> []"
  by (auto simp: validateDeliveryOperationRequest_def split: jsval.splits if_splits)

lemma first_attempt_set:
  assumes "mail_operation_row h i rows = Some row"
  shows "mail_operation_row h i (sql_update (\<lambda>r. m_operation_key r = mailDeliveryOperationKey h i)
    (\<lambda>r. r\<lparr>m_first_attempt_started_at_ms := Some t\<rparr>) rows) = Some (row\<lparr>m_first_attempt_started_at_ms := Some t\<rparr>)"
  using assms unfolding mail_operation_row_def
  by (induction rows) (auto simp: sql_first_def split: if_splits)

text \<open>A successful attempt leaves the row with the start it reports, unchanged if it had one.\<close>

lemma beginAttempt_Inr:
  assumes "beginAttempt h le c p now inside rows = Inr ((expires, first), rows')"
  obtains operation row where
    "validateAttemptPayload h le c p = Inr operation"
    "mail_operation_row h (op_id operation) rows = Some row" "validate_mail_row operation row"
    "mail_operation_row h (op_id operation) rows' = Some (row\<lparr>m_first_attempt_started_at_ms := Some first\<rparr>)"
    "first = (case m_first_attempt_started_at_ms row of None \<Rightarrow> now | Some t \<Rightarrow> t)"
    "expires = first + op_providerRetentionMs operation" "now < expires"
proof -
  from assms obtain operation row where
      op: "validateAttemptPayload h le c p = Inr operation"
    and row: "mail_operation_row h (op_id operation) rows = Some row" "validate_mail_row operation row"
    by (auto simp: beginAttempt_def bindE_eq_Inr Let_def split: if_splits option.splits)
  show thesis
  proof (cases "m_first_attempt_started_at_ms row")
    case None
    with assms op row first_attempt_set [OF row(1), of now] show thesis
      by (intro that [of operation row]) (auto simp: beginAttempt_def Let_def split: if_splits)
  next
    case (Some t)
    then have "row\<lparr>m_first_attempt_started_at_ms := Some t\<rparr> = row" by simp
    with Some assms op row show thesis
      by (intro that [of operation row]) (auto simp: beginAttempt_def Let_def split: if_splits)
  qed
qed

end
