(* ===== verification/Job_Store.thy ===== *)
theory Job_Store
  imports Job_Semantics Mail_Delivery "HOL-Library.Product_Lexorder"
begin

text \<open>
  The durable background-job store (\<open>src/src/background-jobs/store.js\<close>): its tables, the
  normalisation of rows and requests, and every operation that reads or changes them.

  The database is the record \<open>db\<close>: the jobs table, the durable idempotency owners, the
  schedule-key owners, the concurrency counters, the mail operations, the singleton count revision
  (\<open>None\<close> when its row is missing), and the count deltas broadcast after commit. An operation
  that runs inside \<open>_serializedCountMutation\<close> is one function on \<open>db\<close>: that wrapper locks
  the revision row first, so such transactions run one after another; \<open>Inl\<close> is a throw, which
  rolls the transaction back together with its pending broadcasts. The clock readings
  (\<open>Date.now\<close>), generated ids and lock outcomes an operation uses are its arguments. The schema
  is assumed to be present, as \<open>ensureReady\<close> leaves it.
\<close>

subsection \<open>Rows\<close>

datatype job_status = Queued | Handed_Off | Completed | Failed | Orphaned | Cancelled | Other_Status string

text \<open>A row of the jobs table, column by column; nullable columns are options.\<close>

record job_rec =
  c_id :: string
  c_job_name :: string
  c_args_json :: string
  c_execution_mode :: string
  c_queue :: "string option"
  c_max_retries :: int
  c_attempts :: int
  c_status :: job_status
  c_scheduled_at_ms :: int
  c_created_at_ms :: int
  c_schedule_key :: "string option"
  c_handed_off_at_ms :: "int option"
  c_handoff_id :: "string option"
  c_completed_at_ms :: "int option"
  c_failed_at_ms :: "int option"
  c_orphaned_at_ms :: "int option"
  c_worker_id :: "string option"
  c_last_error :: "string option"
  c_concurrency_key :: "string option"
  c_max_concurrency :: "int option"
  c_timeout_ms :: "int option"

text \<open>The normalised row the store hands out (\<open>BackgroundJobRow\<close>).\<close>

record job_row =
  r_id :: string
  r_jobName :: string
  r_args :: "jsval list"
  r_executionMode :: execution_mode
  r_queue :: string
  r_scheduleKey :: "string option"
  r_status :: job_status
  r_attempts :: int
  r_maxRetries :: int
  r_scheduledAtMs :: int
  r_createdAtMs :: int
  r_handedOffAtMs :: "int option"
  r_handoffId :: "string option"
  r_completedAtMs :: "int option"
  r_failedAtMs :: "int option"
  r_orphanedAtMs :: "int option"
  r_workerId :: "string option"
  r_lastError :: "string option"
  r_concurrencyKey :: "string option"
  r_maxConcurrency :: "int option"
  r_timeoutMs :: "int option"

record concurrency_row =
  k_concurrency_key :: string
  k_max_concurrency :: int
  k_active_count :: int

record idempotency_row =
  i_scope_digest :: string
  i_job_name :: string
  i_queue :: string
  i_idempotency_key :: string
  i_job_id :: string
  i_request_digest :: string
  i_created_at_ms :: int

text \<open>The canonical count buckets, and a broadcast count delta.\<close>

datatype bucket = B_all | B_queued | B_handed_off | B_completed | B_failed | B_orphaned

record count_event =
  ev_deltas :: "(bucket \<times> int) list"
  ev_revision :: int

record db =
  jobs :: "job_rec list"
  idem_keys :: "idempotency_row list"
  sched_keys :: "(string \<times> string) list"
  concurrency :: "concurrency_row list"
  mail_ops :: "mail_row list"
  count_revision :: "int option"
  broadcasts :: "count_event list"

record prepared_job =
  p_argsJson :: string
  p_concurrency :: "resolved_concurrency option"
  p_createdAtMs :: int
  p_executionMode :: execution_mode
  p_jobId :: string
  p_jobName :: string
  p_maxRetries :: int
  p_queue :: string
  p_scheduledAtMs :: int
  p_timeoutMs :: "int option"

record store_cfg =
  cfg_host :: host
  cfg_queues :: queues_config

datatype store_error =
    Semantics semantics_error
  | Mail mail_error
  | InvalidTimeoutMs
  | InvalidScheduleKey
  | LockNotAcquired
  | DuplicateKey
  | CountRevisionMissing
  | InvalidCountRevision int
  | UnknownStatus job_status
  | ConflictingMaxConcurrency string
  | IdempotencyKeyInvalid
  | IdempotencyConflict
  | MailKeyMismatch
  | MailOperationMissing
  | MailConflict
  | RetryDelayNaN
  | SqlSyntaxError

subsection \<open>Normalising rows\<close>

definition parseArgs :: "store_cfg \<Rightarrow> string \<Rightarrow> jsval list" where
  "parseArgs cfg value =
     (if value = [] then []
      else case json_parse (cfg_host cfg) value of Some (JArr xs) \<Rightarrow> xs | _ \<Rightarrow> [])"

definition normalizeExecutionModeName :: "string \<Rightarrow> store_error + execution_mode" where
  "normalizeExecutionModeName name =
     lift_error Semantics (normalizeBackgroundJobExecutionMode
       (no_options\<lparr>opt_executionMode := JStr name\<rparr>) DEFAULT_BACKGROUND_JOB_EXECUTION_MODE
       BACKGROUND_JOB_EXECUTION_MODES)"

definition normalizeJobRow :: "store_cfg \<Rightarrow> job_rec \<Rightarrow> store_error + job_row" where
  "normalizeJobRow cfg row =
     bindE (if c_execution_mode row \<noteq> [] then normalizeExecutionModeName (c_execution_mode row)
            else Inr DEFAULT_BACKGROUND_JOB_EXECUTION_MODE) (\<lambda>mode.
       Inr \<lparr>r_id = c_id row,
            r_jobName = c_job_name row,
            r_args = parseArgs cfg (c_args_json row),
            r_executionMode = mode,
            r_queue = (case text_or_null (c_queue row) of None \<Rightarrow> DEFAULT_BACKGROUND_JOB_QUEUE | Some q \<Rightarrow> q),
            r_scheduleKey = text_or_null (c_schedule_key row),
            r_status = (if c_status row = Other_Status [] then Queued else c_status row),
            r_attempts = c_attempts row,
            r_maxRetries = c_max_retries row,
            r_scheduledAtMs = c_scheduled_at_ms row,
            r_createdAtMs = c_created_at_ms row,
            r_handedOffAtMs = c_handed_off_at_ms row,
            r_handoffId = text_or_null (c_handoff_id row),
            r_completedAtMs = c_completed_at_ms row,
            r_failedAtMs = c_failed_at_ms row,
            r_orphanedAtMs = c_orphaned_at_ms row,
            r_workerId = text_or_null (c_worker_id row),
            r_lastError = text_or_null (c_last_error row),
            r_concurrencyKey = text_or_null (c_concurrency_key row),
            r_maxConcurrency = c_max_concurrency row,
            r_timeoutMs = c_timeout_ms row\<rparr>)"

definition getJobRowById :: "store_cfg \<Rightarrow> db \<Rightarrow> string \<Rightarrow> store_error + job_row option" where
  "getJobRowById cfg d jobId =
     (case sql_first (\<lambda>r. c_id r = jobId) (jobs d) of
        None \<Rightarrow> Inr None
      | Some row \<Rightarrow> bindE (normalizeJobRow cfg row) (\<lambda>job. Inr (Some job)))"

subsection \<open>The count ledger\<close>

definition BACKGROUND_JOB_COUNT_BUCKETS :: "bucket list" where
  "BACKGROUND_JOB_COUNT_BUCKETS = [B_all, B_queued, B_handed_off, B_completed, B_failed, B_orphaned]"

fun counted_bucket :: "job_status \<Rightarrow> bucket option" where
  "counted_bucket Queued = Some B_queued"
| "counted_bucket Handed_Off = Some B_handed_off"
| "counted_bucket Completed = Some B_completed"
| "counted_bucket Failed = Some B_failed"
| "counted_bucket Orphaned = Some B_orphaned"
| "counted_bucket Cancelled = None"
| "counted_bucket (Other_Status _) = None"

definition countRevision :: "db \<Rightarrow> store_error + int" where
  "countRevision d =
     (case count_revision d of
        None \<Rightarrow> Inl CountRevisionMissing
      | Some r \<Rightarrow> if \<not> is_safe_int r \<or> r < 0 then Inl (InvalidCountRevision r) else Inr r)"

definition recordCountDelta :: "(bucket \<Rightarrow> int) \<Rightarrow> db \<Rightarrow> store_error + db" where
  "recordCountDelta requestedDeltas d =
     (let deltas = filter (\<lambda>(_, amount). amount \<noteq> 0)
                     (map (\<lambda>b. (b, requestedDeltas b)) BACKGROUND_JOB_COUNT_BUCKETS)
      in if deltas = [] then Inr d
         else case count_revision d of
                None \<Rightarrow> Inl CountRevisionMissing
              | Some r \<Rightarrow>
                  let d' = d\<lparr>count_revision := Some (r + 1)\<rparr> in
                  bindE (countRevision d') (\<lambda>revision.
                    Inr (d'\<lparr>broadcasts := broadcasts d' @ [\<lparr>ev_deltas = deltas, ev_revision = revision\<rparr>]\<rparr>)))"

definition delta1 :: "bucket \<Rightarrow> int \<Rightarrow> bucket \<Rightarrow> int" where
  "delta1 b n = (\<lambda>b'. if b' = b then n else 0)"

definition delta2 :: "bucket \<Rightarrow> int \<Rightarrow> bucket \<Rightarrow> int \<Rightarrow> bucket \<Rightarrow> int" where
  "delta2 b n b' n' = (\<lambda>x. delta1 b n x + delta1 b' n' x)"

definition transition_deltas :: "job_status \<Rightarrow> job_status \<Rightarrow> bucket \<Rightarrow> int" where
  "transition_deltas old new = (\<lambda>b.
     (if counted_bucket old = Some b then - 1 else 0) +
     (if counted_bucket new = Some b then 1 else 0) +
     (if b = B_all \<and> (counted_bucket old = None) \<noteq> (counted_bucket new = None)
      then (if counted_bucket new \<noteq> None then 1 else - 1) else 0))"

definition recordStatusTransition :: "job_status \<Rightarrow> job_status \<Rightarrow> db \<Rightarrow> store_error + db" where
  "recordStatusTransition old new d =
     (if counted_bucket old = None \<and> old \<noteq> Cancelled then Inl (UnknownStatus old)
      else if counted_bucket new = None \<and> new \<noteq> Cancelled then Inl (UnknownStatus new)
      else if old = new then Inr d
      else recordCountDelta (transition_deltas old new) d)"

definition statusCounts :: "job_row list \<Rightarrow> store_error + (bucket \<Rightarrow> int)" where
  "statusCounts js =
     foldE (\<lambda>job counts. case counted_bucket (r_status job) of
              None \<Rightarrow> Inl (UnknownStatus (r_status job))
            | Some b \<Rightarrow> Inr (counts(b := counts b + 1))) js (\<lambda>_. 0)"

definition status_total :: "job_status \<Rightarrow> db \<Rightarrow> int" where
  "status_total s d = int (sql_count (\<lambda>r. c_status r = s) (jobs d))"

text \<open>The grouped count query, bucket by bucket, with \<open>all\<close> the sum of the counted ones.\<close>

fun bucket_count :: "db \<Rightarrow> bucket \<Rightarrow> int" where
  "bucket_count d B_queued = status_total Queued d"
| "bucket_count d B_handed_off = status_total Handed_Off d"
| "bucket_count d B_completed = status_total Completed d"
| "bucket_count d B_failed = status_total Failed d"
| "bucket_count d B_orphaned = status_total Orphaned d"
| "bucket_count d B_all = status_total Queued d + status_total Handed_Off d + status_total Completed d
     + status_total Failed d + status_total Orphaned d"

definition countSnapshot :: "db \<Rightarrow> store_error + ((bucket \<Rightarrow> int) \<times> int \<times> int)" where
  "countSnapshot d = bindE (countRevision d) (\<lambda>revision. Inr (bucket_count d, revision, int (length (jobs d))))"

subsection \<open>Concurrency reservations\<close>

definition find_concurrency :: "string \<Rightarrow> db \<Rightarrow> concurrency_row option" where
  "find_concurrency key d = sql_first (\<lambda>r. k_concurrency_key r = key) (concurrency d)"

definition insertConcurrencyRow :: "string \<Rightarrow> int \<Rightarrow> db \<Rightarrow> store_error + db" where
  "insertConcurrencyRow key cap d =
     bindE (sql_insert DuplicateKey k_concurrency_key
              \<lparr>k_concurrency_key = key, k_max_concurrency = cap, k_active_count = 0\<rparr> (concurrency d))
       (\<lambda>rows. Inr (d\<lparr>concurrency := rows\<rparr>))"

definition ensureConcurrencyKey :: "string \<Rightarrow> int \<Rightarrow> db \<Rightarrow> store_error + db" where
  "ensureConcurrencyKey key cap d =
     (let verify = (\<lambda>row. if k_max_concurrency row \<noteq> cap then Inl (ConflictingMaxConcurrency key) else Inr d) in
      case find_concurrency key d of
        Some row \<Rightarrow> verify row
      | None \<Rightarrow> (case insertConcurrencyRow key cap d of
                  Inr d' \<Rightarrow> Inr d'
                | Inl e \<Rightarrow> (case find_concurrency key d of None \<Rightarrow> Inl e | Some raced \<Rightarrow> verify raced)))"

definition ensureQueueConcurrencyKey :: "string \<Rightarrow> int \<Rightarrow> db \<Rightarrow> store_error + db" where
  "ensureQueueConcurrencyKey key cap d =
     (let sync = (\<lambda>row. if k_max_concurrency row \<noteq> cap
                then Inr (d\<lparr>concurrency := sql_update (\<lambda>r. k_concurrency_key r = key)
                            (\<lambda>r. r\<lparr>k_max_concurrency := cap\<rparr>) (concurrency d)\<rparr>)
                else Inr d) in
      case find_concurrency key d of
        Some row \<Rightarrow> sync row
      | None \<Rightarrow> (case insertConcurrencyRow key cap d of
                  Inr d' \<Rightarrow> Inr d'
                | Inl e \<Rightarrow> (case find_concurrency key d of None \<Rightarrow> Inl e | Some raced \<Rightarrow> sync raced)))"

text \<open>
  \<open>UPDATE \<dots> SET active_count = active_count + 1 WHERE concurrency_key = key AND active_count <
  max_concurrency\<close>; it reports whether exactly one row was affected.
\<close>

definition reserveConcurrency :: "string \<Rightarrow> db \<Rightarrow> bool \<times> db" where
  "reserveConcurrency key d =
     (let cond = (\<lambda>r. k_concurrency_key r = key \<and> k_active_count r < k_max_concurrency r)
      in (sql_count cond (concurrency d) = 1,
          d\<lparr>concurrency := sql_update cond (\<lambda>r. r\<lparr>k_active_count := k_active_count r + 1\<rparr>) (concurrency d)\<rparr>))"

definition releaseConcurrency :: "string option \<Rightarrow> db \<Rightarrow> db" where
  "releaseConcurrency key d =
     (case key of
        None \<Rightarrow> d
      | Some k \<Rightarrow> d\<lparr>concurrency := sql_update (\<lambda>r. k_concurrency_key r = k \<and> 0 < k_active_count r)
                        (\<lambda>r. r\<lparr>k_active_count := k_active_count r - 1\<rparr>) (concurrency d)\<rparr>)"

definition reconcileConcurrency :: "db \<Rightarrow> db" where
  "reconcileConcurrency d =
     d\<lparr>concurrency := map (\<lambda>k. k\<lparr>k_active_count :=
         int (sql_count (\<lambda>r. c_status r = Handed_Off \<and> c_concurrency_key r = Some (k_concurrency_key k)) (jobs d))\<rparr>)
       (concurrency d)\<rparr>"

subsection \<open>Preparing and inserting jobs\<close>

definition MAX_JOB_TIMEOUT_MS :: int where
  "MAX_JOB_TIMEOUT_MS = 2147483647"

definition normalizeJobTimeoutMs :: "jsval \<Rightarrow> store_error + int option" where
  "normalizeJobTimeoutMs v =
     (case v of
        JUndef \<Rightarrow> Inr None
      | JNum (Fin q) \<Rightarrow>
          if q \<le> 0 then Inr (Some 0)
          else if \<not> rat_is_int q \<or> of_int MAX_JOB_TIMEOUT_MS < q then Inl InvalidTimeoutMs
          else Inr (Some \<lfloor>q\<rfloor>)
      | _ \<Rightarrow> Inl InvalidTimeoutMs)"

definition prepareJob ::
    "store_cfg \<Rightarrow> int \<Rightarrow> string \<Rightarrow> string \<Rightarrow> jsval list \<Rightarrow> job_options \<Rightarrow> store_error + prepared_job" where
  "prepareJob cfg now uuid jobName args options =
     (let queue = normalizeBackgroundJobQueue options in
      bindE (lift_error Semantics (normalizeBackgroundJobConcurrency options queue (cfg_queues cfg))) (\<lambda>conc.
      bindE (lift_error Semantics (normalizeBackgroundJobExecutionMode options
               DEFAULT_BACKGROUND_JOB_EXECUTION_MODE BACKGROUND_JOB_EXECUTION_MODES)) (\<lambda>mode.
      bindE (lift_error Semantics (normalizeBackgroundJobScheduledAtMs (opt_scheduledAtMs options) now)) (\<lambda>scheduledAt.
      bindE (normalizeJobTimeoutMs (opt_timeoutMs options)) (\<lambda>timeout.
        Inr \<lparr>p_argsJson = json_stringify (cfg_host cfg) (JArr args),
             p_concurrency = conc,
             p_createdAtMs = now,
             p_executionMode = mode,
             p_jobId = uuid,
             p_jobName = jobName,
             p_maxRetries = normalizeBackgroundJobMaxRetries (opt_maxRetries options),
             p_queue = queue,
             p_scheduledAtMs = scheduledAt,
             p_timeoutMs = timeout\<rparr>)))))"

definition ensure_prepared_concurrency :: "prepared_job \<Rightarrow> db \<Rightarrow> store_error + db" where
  "ensure_prepared_concurrency p d =
     (case p_concurrency p of
        None \<Rightarrow> Inr d
      | Some c \<Rightarrow> if rc_queueDerived c
                 then ensureQueueConcurrencyKey (rc_concurrencyKey c) (rc_maxConcurrency c) d
                 else ensureConcurrencyKey (rc_concurrencyKey c) (rc_maxConcurrency c) d)"

definition prepared_row :: "prepared_job \<Rightarrow> string option \<Rightarrow> job_rec" where
  "prepared_row p scheduleKey =
     \<lparr>c_id = p_jobId p, c_job_name = p_jobName p, c_args_json = p_argsJson p,
      c_execution_mode = mode_name (p_executionMode p), c_queue = Some (p_queue p),
      c_max_retries = p_maxRetries p, c_attempts = 0, c_status = Queued,
      c_scheduled_at_ms = p_scheduledAtMs p, c_created_at_ms = p_createdAtMs p,
      c_schedule_key = scheduleKey, c_handed_off_at_ms = None, c_handoff_id = None,
      c_completed_at_ms = None, c_failed_at_ms = None, c_orphaned_at_ms = None,
      c_worker_id = None, c_last_error = None,
      c_concurrency_key = map_option rc_concurrencyKey (p_concurrency p),
      c_max_concurrency = map_option rc_maxConcurrency (p_concurrency p),
      c_timeout_ms = p_timeoutMs p\<rparr>"

definition insertPreparedJob :: "prepared_job \<Rightarrow> string option \<Rightarrow> db \<Rightarrow> store_error + db" where
  "insertPreparedJob p scheduleKey d =
     bindE (ensure_prepared_concurrency p d) (\<lambda>d1.
       bindE (sql_insert DuplicateKey c_id (prepared_row p scheduleKey) (jobs d1)) (\<lambda>rows.
         Inr (d1\<lparr>jobs := rows\<rparr>)))"

end
