(* ===== verification/Job_Store_Ops.thy ===== *)
theory Job_Store_Ops
  imports Job_Store
begin

text \<open>
  The public operations of \<open>src/src/background-jobs/store.js\<close>, each a function from the
  database before to its result and the database after. \<open>Inl\<close> means the operation threw and
  its transaction was rolled back.
\<close>

subsection \<open>Enqueueing\<close>

definition find_duplicate :: "prepared_job \<Rightarrow> db \<Rightarrow> job_rec option" where
  "find_duplicate p d =
     (case sort_key c_scheduled_at_ms (filter (\<lambda>r. c_status r = Queued \<and> c_job_name r = p_jobName p
             \<and> c_args_json r = p_argsJson p \<and> c_queue r = Some (p_queue p)
             \<and> c_scheduled_at_ms r \<le> p_scheduledAtMs p) (jobs d)) of
        [] \<Rightarrow> None | r # _ \<Rightarrow> Some r)"

definition enqueue_plain :: "prepared_job \<Rightarrow> job_options \<Rightarrow> db \<Rightarrow> store_error + string \<times> db" where
  "enqueue_plain p options d =
     (case (if truthy (opt_deduplicateWhileQueued options) then find_duplicate p d else None) of
        Some existing \<Rightarrow> Inr (c_id existing, d)
      | None \<Rightarrow>
          bindE (insertPreparedJob p None d) (\<lambda>d1.
          bindE (recordCountDelta (delta2 B_all 1 B_queued 1) d1) (\<lambda>d2.
            Inr (p_jobId p, d2))))"

definition normalizeIdempotencyKey :: "jsval \<Rightarrow> store_error + string" where
  "normalizeIdempotencyKey v =
     (case v of JStr s \<Rightarrow> if s = [] then Inl IdempotencyKeyInvalid else Inr s | _ \<Rightarrow> Inl IdempotencyKeyInvalid)"

definition concurrency_value :: "resolved_concurrency option \<Rightarrow> jsval" where
  "concurrency_value c =
     (case c of
        None \<Rightarrow> JNull
      | Some r \<Rightarrow> JObj [(''concurrencyKey'', JStr (rc_concurrencyKey r)),
                        (''maxConcurrency'', JInt (rc_maxConcurrency r)),
                        (''queueDerived'', JBool (rc_queueDerived r))])"

definition idempotencyRequestDigest :: "store_cfg \<Rightarrow> jsval list \<Rightarrow> job_options \<Rightarrow> prepared_job \<Rightarrow> string" where
  "idempotencyRequestDigest cfg args options p =
     (let immediate = (opt_scheduledAtMs options = JUndef) in
      sha256_hex (cfg_host cfg) (stableJsonStringify (cfg_host cfg) (JObj
        ([(''args'', JArr args),
          (''concurrency'', concurrency_value (p_concurrency p)),
          (''executionMode'', JStr (mode_name (p_executionMode p))),
          (''format'', JStr ''velocious-background-job-idempotency-v1''),
          (''jobName'', JStr (p_jobName p)),
          (''maxRetries'', JInt (p_maxRetries p)),
          (''queue'', JStr (p_queue p)),
          (''scheduledAtMs'', if immediate then JNull else JInt (p_scheduledAtMs p)),
          (''scheduling'', JStr (if immediate then ''immediate'' else ''scheduled''))]
         @ (case p_timeoutMs p of None \<Rightarrow> [] | Some t \<Rightarrow> [(''timeoutMs'', JInt t)])))))"

definition idempotencyScopeDigest :: "store_cfg \<Rightarrow> string \<Rightarrow> string \<Rightarrow> string \<Rightarrow> string" where
  "idempotencyScopeDigest cfg idempotencyKey jobName queue =
     sha256_hex (cfg_host cfg) (stableJsonStringify (cfg_host cfg) (JObj
       [(''format'', JStr ''velocious-background-job-idempotency-scope-v1''),
        (''idempotencyKey'', JStr idempotencyKey),
        (''jobName'', JStr jobName),
        (''queue'', JStr queue)]))"

definition idempotencyOwnership :: "string \<Rightarrow> db \<Rightarrow> idempotency_row option" where
  "idempotencyOwnership scopeDigest d = sql_first (\<lambda>r. i_scope_digest r = scopeDigest) (idem_keys d)"

definition validateIdempotencyOwnership :: "idempotency_row \<Rightarrow> idempotency_row \<Rightarrow> store_error + unit" where
  "validateIdempotencyOwnership existing ownership =
     (let exactScope = (i_job_name existing = i_job_name ownership \<and> i_queue existing = i_queue ownership
                        \<and> i_idempotency_key existing = i_idempotency_key ownership)
      in if \<not> exactScope \<or> i_request_digest existing \<noteq> i_request_digest ownership
         then Inl IdempotencyConflict else Inr ())"

definition claimIdempotencyOwnership :: "idempotency_row \<Rightarrow> db \<Rightarrow> store_error + (bool \<times> idempotency_row \<times> db)" where
  "claimIdempotencyOwnership ownership d =
     (case sql_insert DuplicateKey i_scope_digest ownership (idem_keys d) of
        Inr rows \<Rightarrow> Inr (True, ownership, d\<lparr>idem_keys := rows\<rparr>)
      | Inl e \<Rightarrow> (case idempotencyOwnership (i_scope_digest ownership) d of
                   None \<Rightarrow> Inl e
                 | Some raced \<Rightarrow> Inr (False, raced, d)))"

definition mailDeliveryOperation :: "string \<Rightarrow> db \<Rightarrow> mail_row option" where
  "mailDeliveryOperation operationKey d = sql_first (\<lambda>r. m_operation_key r = operationKey) (mail_ops d)"

definition validateMailDeliveryOperationRow :: "mail_row \<Rightarrow> mail_operation \<Rightarrow> string \<Rightarrow> store_error + unit" where
  "validateMailDeliveryOperationRow existing operation jobId =
     (if m_operation_id existing = op_id operation \<and> m_payload_digest existing = op_payloadDigest operation
         \<and> m_background_job_id existing = jobId \<and> m_provider_kind existing = op_providerKind operation
         \<and> m_provider_retention_ms existing = op_providerRetentionMs operation
      then Inr () else Inl MailConflict)"

definition validateMailDeliveryOperation ::
    "store_cfg \<Rightarrow> string \<Rightarrow> mail_operation option \<Rightarrow> db \<Rightarrow> store_error + unit" where
  "validateMailDeliveryOperation cfg jobId mailOperation d =
     (case mailOperation of
        None \<Rightarrow> Inr ()
      | Some operation \<Rightarrow>
          (case mailDeliveryOperation (mailDeliveryOperationKey (cfg_host cfg) (op_id operation)) d of
             None \<Rightarrow> Inl MailOperationMissing
           | Some existing \<Rightarrow> validateMailDeliveryOperationRow existing operation jobId))"

definition persistMailDeliveryOperation ::
    "store_cfg \<Rightarrow> int \<Rightarrow> string \<Rightarrow> mail_operation option \<Rightarrow> db \<Rightarrow> store_error + db" where
  "persistMailDeliveryOperation cfg createdAtMs jobId mailOperation d =
     (case mailOperation of
        None \<Rightarrow> Inr d
      | Some operation \<Rightarrow>
          let key = mailDeliveryOperationKey (cfg_host cfg) (op_id operation);
              row = \<lparr>m_operation_key = key, m_operation_id = op_id operation,
                     m_payload_digest = op_payloadDigest operation, m_background_job_id = jobId,
                     m_first_attempt_started_at_ms = None, m_provider_kind = op_providerKind operation,
                     m_provider_retention_ms = op_providerRetentionMs operation,
                     m_created_at_ms = createdAtMs\<rparr>
          in (case sql_insert DuplicateKey m_operation_key row (mail_ops d) of
                Inr rows \<Rightarrow> Inr (d\<lparr>mail_ops := rows\<rparr>)
              | Inl e \<Rightarrow> (case mailDeliveryOperation key d of
                           None \<Rightarrow> Inl e
                         | Some existing \<Rightarrow>
                             bindE (validateMailDeliveryOperationRow existing operation jobId) (\<lambda>_. Inr d))))"

text \<open>
  The idempotent path reads the owner before it locks the count revision, so another process may
  commit between that read and the claim: \<open>env\<close> is what it commits. The claim's primary key
  decides who owns the scope.
\<close>

definition idempotency_replay ::
    "store_cfg \<Rightarrow> idempotency_row \<Rightarrow> idempotency_row \<Rightarrow> mail_operation option \<Rightarrow> db \<Rightarrow> store_error + string \<times> db" where
  "idempotency_replay cfg existing ownership mailOperation d =
     bindE (validateIdempotencyOwnership existing ownership) (\<lambda>_.
     bindE (validateMailDeliveryOperation cfg (i_job_id existing) mailOperation d) (\<lambda>_.
       Inr (i_job_id existing, d)))"

definition idempotency_owner :: "store_cfg \<Rightarrow> string \<Rightarrow> jsval list \<Rightarrow> job_options \<Rightarrow> prepared_job \<Rightarrow> idempotency_row" where
  "idempotency_owner cfg key args options p =
     \<lparr>i_scope_digest = idempotencyScopeDigest cfg key (p_jobName p) (p_queue p),
      i_job_name = p_jobName p, i_queue = p_queue p, i_idempotency_key = key, i_job_id = p_jobId p,
      i_request_digest = idempotencyRequestDigest cfg args options p, i_created_at_ms = p_createdAtMs p\<rparr>"

definition enqueueIdempotently ::
    "store_cfg \<Rightarrow> (db \<Rightarrow> db) \<Rightarrow> jsval list \<Rightarrow> job_options \<Rightarrow> prepared_job \<Rightarrow> db \<Rightarrow> store_error + string \<times> db" where
  "enqueueIdempotently cfg env args options p d =
     bindE (normalizeIdempotencyKey (opt_idempotencyKey options)) (\<lambda>key.
     bindE (lift_error Mail (mailDeliveryOperationForJob (p_jobName p) args)) (\<lambda>mailOperation.
       let ownership = idempotency_owner cfg key args options p in
       if (case mailOperation of None \<Rightarrow> False | Some operation \<Rightarrow> op_id operation \<noteq> key) then Inl MailKeyMismatch
       else case idempotencyOwnership (i_scope_digest ownership) d of
              Some existing \<Rightarrow> idempotency_replay cfg existing ownership mailOperation d
            | None \<Rightarrow>
                bindE (claimIdempotencyOwnership ownership (env d)) (\<lambda>(created, row, d1).
                  if \<not> created then idempotency_replay cfg row ownership mailOperation d1
                  else bindE (insertPreparedJob p None d1) (\<lambda>d2.
                       bindE (persistMailDeliveryOperation cfg (p_createdAtMs p) (p_jobId p) mailOperation d2) (\<lambda>d3.
                       bindE (recordCountDelta (delta2 B_all 1 B_queued 1) d3) (\<lambda>d4.
                         Inr (p_jobId p, d4)))))))"

definition enqueue ::
    "store_cfg \<Rightarrow> (db \<Rightarrow> db) \<Rightarrow> int \<Rightarrow> string \<Rightarrow> string \<Rightarrow> jsval list \<Rightarrow> job_options \<Rightarrow> db \<Rightarrow> store_error + string \<times> db" where
  "enqueue cfg env now uuid jobName args options d =
     bindE (prepareJob cfg now uuid jobName args options) (\<lambda>p.
       if opt_idempotencyKey options \<noteq> JUndef then enqueueIdempotently cfg env args options p d
       else enqueue_plain p options d)"

subsection \<open>Schedule keys\<close>

definition normalizeScheduleKey :: "jsval \<Rightarrow> store_error + string" where
  "normalizeScheduleKey v =
     (case v of JStr s \<Rightarrow> if 0 < length s \<and> length s \<le> 255 then Inr s else Inl InvalidScheduleKey
      | _ \<Rightarrow> Inl InvalidScheduleKey)"

definition schedule_owner :: "string \<Rightarrow> db \<Rightarrow> string option" where
  "schedule_owner key d = map_option snd (sql_first (\<lambda>r. fst r = key) (sched_keys d))"

definition upsert_schedule_owner :: "string \<Rightarrow> string \<Rightarrow> db \<Rightarrow> db" where
  "upsert_schedule_owner key jobId d =
     (if key \<in> fst ` set (sched_keys d)
      then d\<lparr>sched_keys := sql_update (\<lambda>r. fst r = key) (\<lambda>r. (fst r, jobId)) (sched_keys d)\<rparr>
      else d\<lparr>sched_keys := sched_keys d @ [(key, jobId)]\<rparr>)"

definition releaseScheduleOwnership :: "string \<Rightarrow> string \<Rightarrow> db \<Rightarrow> db" where
  "releaseScheduleOwnership jobId scheduleKey d =
     d\<lparr>sched_keys := sql_delete (\<lambda>r. snd r = jobId \<and> fst r = scheduleKey) (sched_keys d)\<rparr>"

definition releaseScheduleOwnershipForJob :: "job_row \<Rightarrow> db \<Rightarrow> db" where
  "releaseScheduleOwnershipForJob job d =
     (case r_scheduleKey job of None \<Rightarrow> d | Some key \<Rightarrow> releaseScheduleOwnership (r_id job) key d)"

text \<open>A conditional update of the jobs table with its affected-row count.\<close>

definition update_jobs :: "(job_rec \<Rightarrow> bool) \<Rightarrow> (job_rec \<Rightarrow> job_rec) \<Rightarrow> db \<Rightarrow> nat \<times> db" where
  "update_jobs cond f d = (sql_count cond (jobs d), d\<lparr>jobs := sql_update cond f (jobs d)\<rparr>)"

definition cancel_queued :: "string \<Rightarrow> db \<Rightarrow> nat \<times> db" where
  "cancel_queued jobId = update_jobs (\<lambda>r. c_id r = jobId \<and> c_status r = Queued) (\<lambda>r. r\<lparr>c_status := Cancelled\<rparr>)"

datatype previous_status = Previous_Queued | Previous_Handed_Off

definition replace_owner ::
    "store_cfg \<Rightarrow> job_row option \<Rightarrow> db \<Rightarrow> store_error + ((string \<times> previous_status) option \<times> db)" where
  "replace_owner cfg owner d =
     (case owner of
        None \<Rightarrow> Inr (None, d)
      | Some job \<Rightarrow>
          if r_status job = Queued
          then (let (affected, d1) = cancel_queued (r_id job) d in
                if affected = 1 then Inr (Some (r_id job, Previous_Queued), d1)
                else bindE (getJobRowById cfg d1 (r_id job)) (\<lambda>current.
                  case current of
                    Some c \<Rightarrow> if r_status c = Handed_Off then Inr (Some (r_id c, Previous_Handed_Off), d1) else Inr (None, d1)
                  | None \<Rightarrow> Inr (None, d1)))
          else if r_status job = Handed_Off then Inr (Some (r_id job, Previous_Handed_Off), d)
          else Inr (None, d))"

definition replaceScheduled ::
    "store_cfg \<Rightarrow> bool \<Rightarrow> int \<Rightarrow> string \<Rightarrow> jsval \<Rightarrow> string \<Rightarrow> jsval list \<Rightarrow> job_options \<Rightarrow> db
     \<Rightarrow> store_error + ((string \<times> (string \<times> previous_status) option) \<times> db)" where
  "replaceScheduled cfg acquired now uuid scheduleKey jobName args options d =
     bindE (normalizeScheduleKey scheduleKey) (\<lambda>key.
     bindE (prepareJob cfg now uuid jobName args options) (\<lambda>p.
       if \<not> acquired then Inl LockNotAcquired
       else bindE (case schedule_owner key d of None \<Rightarrow> Inr None | Some ownerId \<Rightarrow> getJobRowById cfg d ownerId) (\<lambda>owner.
            bindE (replace_owner cfg owner d) (\<lambda>(previous, d1).
            bindE (insertPreparedJob p (Some key) d1) (\<lambda>d2.
              let d3 = upsert_schedule_owner key (p_jobId p) d2 in
              bindE (if (case previous of Some (_, Previous_Queued) \<Rightarrow> False | _ \<Rightarrow> True)
                     then recordCountDelta (delta2 B_all 1 B_queued 1) d3 else Inr d3) (\<lambda>d4.
                Inr ((p_jobId p, previous), d4)))))))"

datatype cancellation = Outcome_Cancelled string | Outcome_Handed_Off string | Outcome_Not_Found

definition cancelScheduled ::
    "store_cfg \<Rightarrow> bool \<Rightarrow> jsval \<Rightarrow> db \<Rightarrow> store_error + (cancellation \<times> db)" where
  "cancelScheduled cfg acquired scheduleKey d =
     bindE (normalizeScheduleKey scheduleKey) (\<lambda>key.
       if \<not> acquired then Inl LockNotAcquired
       else case schedule_owner key d of
              None \<Rightarrow> Inr (Outcome_Not_Found, d)
            | Some jobId \<Rightarrow>
                bindE (getJobRowById cfg d jobId) (\<lambda>job.
                  let (affected, d1) = (case job of
                        Some j \<Rightarrow> if r_status j = Queued then cancel_queued (r_id j) d else (0, d)
                      | None \<Rightarrow> (0, d))
                  in if affected = 1
                     then bindE (recordStatusTransition Queued Cancelled (releaseScheduleOwnership jobId key d1)) (\<lambda>d2.
                            Inr (Outcome_Cancelled jobId, d2))
                     else bindE (getJobRowById cfg d1 jobId) (\<lambda>current.
                            let d2 = releaseScheduleOwnership jobId key d1 in
                            case current of
                              Some c \<Rightarrow> if r_status c = Handed_Off then Inr (Outcome_Handed_Off jobId, d2)
                                        else Inr (Outcome_Not_Found, d2)
                            | None \<Rightarrow> Inr (Outcome_Not_Found, d2))))"

subsection \<open>Dispatch\<close>

definition prioritized_queues :: "queues_config \<Rightarrow> (string \<times> rat) list" where
  "prioritized_queues queues =
     List.map_filter (\<lambda>(queue, qc). case priority qc of
         JNum (Fin q) \<Rightarrow> if q \<noteq> 0 then Some (queue, q) else None
       | _ \<Rightarrow> None) queues"

definition queue_priority :: "store_cfg \<Rightarrow> job_rec \<Rightarrow> rat" where
  "queue_priority cfg r =
     (let queue = (case c_queue r of None \<Rightarrow> DEFAULT_BACKGROUND_JOB_QUEUE | Some q \<Rightarrow> q)
      in case map_of (prioritized_queues (cfg_queues cfg)) queue of None \<Rightarrow> 0 | Some p \<Rightarrow> p)"

definition has_capacity :: "db \<Rightarrow> job_rec \<Rightarrow> bool" where
  "has_capacity d r =
     (case c_concurrency_key r of
        None \<Rightarrow> True
      | Some key \<Rightarrow> list_ex (\<lambda>k. k_concurrency_key k = key \<and> k_active_count k < k_max_concurrency k) (concurrency d))"

definition mode_matches :: "execution_mode list option \<Rightarrow> job_rec \<Rightarrow> bool" where
  "mode_matches modes r =
     (case modes of None \<Rightarrow> True | Some ms \<Rightarrow> list_ex (\<lambda>m. c_execution_mode r = mode_name m) ms)"

definition dispatchable :: "int \<Rightarrow> execution_mode list option \<Rightarrow> db \<Rightarrow> job_rec \<Rightarrow> bool" where
  "dispatchable now modes d r =
     (c_status r = Queued \<and> c_scheduled_at_ms r \<le> now \<and> has_capacity d r \<and> mode_matches modes r)"

definition dispatch_order :: "store_cfg \<Rightarrow> job_rec \<Rightarrow> rat \<times> int \<times> int" where
  "dispatch_order cfg r = (- queue_priority cfg r, c_scheduled_at_ms r, c_created_at_ms r)"

definition first_row :: "store_cfg \<Rightarrow> job_rec list \<Rightarrow> store_error + job_row option" where
  "first_row cfg rows =
     (case rows of [] \<Rightarrow> Inr None | r # _ \<Rightarrow> bindE (normalizeJobRow cfg r) (\<lambda>job. Inr (Some job)))"

definition nextAvailableJob ::
    "store_cfg \<Rightarrow> int \<Rightarrow> execution_mode list option \<Rightarrow> db \<Rightarrow> store_error + job_row option" where
  "nextAvailableJob cfg now modes d =
     (if modes = Some [] then Inl SqlSyntaxError
      else first_row cfg (sort_key (dispatch_order cfg) (filter (dispatchable now modes d) (jobs d))))"

definition nextScheduledJob :: "store_cfg \<Rightarrow> int \<Rightarrow> db \<Rightarrow> store_error + job_row option" where
  "nextScheduledJob cfg now d =
     first_row cfg (sort_key (\<lambda>r. (c_scheduled_at_ms r, c_created_at_ms r))
       (filter (\<lambda>r. c_status r = Queued \<and> now < c_scheduled_at_ms r) (jobs d)))"

definition markHandedOff ::
    "store_cfg \<Rightarrow> int \<Rightarrow> string \<Rightarrow> string \<Rightarrow> string option \<Rightarrow> db \<Rightarrow> store_error + ((int \<times> string) option \<times> db)" where
  "markHandedOff cfg now jobId handoffId workerId d =
     bindE (getJobRowById cfg d jobId) (\<lambda>queuedJob.
       case queuedJob of
         None \<Rightarrow> Inr (None, d)
       | Some job \<Rightarrow>
           if r_status job \<noteq> Queued then Inr (None, d)
           else let (reserved, d1) = (case r_concurrencyKey job of
                      None \<Rightarrow> (True, d) | Some key \<Rightarrow> reserveConcurrency key d)
                in if \<not> reserved then Inr (None, d1)
                   else let (affected, d2) = update_jobs (\<lambda>r. c_id r = jobId \<and> c_status r = Queued)
                          (\<lambda>r. r\<lparr>c_status := Handed_Off, c_handed_off_at_ms := Some now,
                                 c_handoff_id := Some handoffId, c_worker_id := text_or_null workerId\<rparr>) d1
                        in if affected \<noteq> 1 then Inr (None, releaseConcurrency (r_concurrencyKey job) d2)
                           else bindE (recordStatusTransition Queued Handed_Off d2) (\<lambda>d3.
                             Inr (Some (now, handoffId), d3)))"

subsection \<open>Reports from workers\<close>

text \<open>A report: the handoff id, worker id and handoff time it carries, where given.\<close>

record report =
  rep_handoffId :: "string option"
  rep_workerId :: "string option"
  rep_handedOffAtMs :: "int option"

definition handoffIdReportMatches :: "job_row \<Rightarrow> report \<Rightarrow> bool" where
  "handoffIdReportMatches job rep =
     (case r_handoffId job of None \<Rightarrow> True | Some h \<Rightarrow> rep_handoffId rep = Some h)"

definition workerReportMatches :: "job_row \<Rightarrow> report \<Rightarrow> bool" where
  "workerReportMatches job rep =
     (case text_or_null (rep_workerId rep) of
        None \<Rightarrow> True
      | Some w \<Rightarrow> (case r_workerId job of None \<Rightarrow> True | Some w' \<Rightarrow> w = w'))"

definition handoffReportMatches :: "job_row \<Rightarrow> report \<Rightarrow> bool" where
  "handoffReportMatches job rep =
     (case rep_handedOffAtMs rep of
        None \<Rightarrow> True
      | Some t \<Rightarrow> t = 0 \<or> (case r_handedOffAtMs job of None \<Rightarrow> True | Some t' \<Rightarrow> t' = 0 \<or> t = t'))"

definition shouldAcceptReport :: "job_row \<Rightarrow> report \<Rightarrow> bool" where
  "shouldAcceptReport job rep =
     (r_status job = Handed_Off \<and> handoffIdReportMatches job rep \<and> workerReportMatches job rep
      \<and> handoffReportMatches job rep)"

text \<open>The fence: with no handoff id the condition is \<open>handoff_id = NULL\<close>, which no row meets.\<close>

definition activeHandoffConditions :: "job_row \<Rightarrow> job_rec \<Rightarrow> bool" where
  "activeHandoffConditions job r =
     (sql_eq (c_handoff_id r) (r_handoffId job) \<and> c_id r = r_id job \<and> c_status r = Handed_Off)"

definition accepted_job :: "store_cfg \<Rightarrow> string \<Rightarrow> report \<Rightarrow> db \<Rightarrow> store_error + job_row option" where
  "accepted_job cfg jobId rep d =
     bindE (getJobRowById cfg d jobId) (\<lambda>found.
       case found of
         None \<Rightarrow> Inr None
       | Some job \<Rightarrow> if shouldAcceptReport job rep then Inr (Some job) else Inr None)"

definition markCompleted :: "store_cfg \<Rightarrow> int \<Rightarrow> string \<Rightarrow> report \<Rightarrow> db \<Rightarrow> store_error + (bool \<times> db)" where
  "markCompleted cfg now jobId rep d =
     bindE (accepted_job cfg jobId rep d) (\<lambda>accepted.
       case accepted of
         None \<Rightarrow> Inr (False, d)
       | Some job \<Rightarrow>
           let (affected, d1) = update_jobs (activeHandoffConditions job)
                 (\<lambda>r. r\<lparr>c_status := Completed, c_completed_at_ms := Some now\<rparr>) d
           in if affected \<noteq> 1 then Inr (False, d1)
              else bindE (recordStatusTransition Handed_Off Completed
                     (releaseConcurrency (r_concurrencyKey job) (releaseScheduleOwnershipForJob job d1))) (\<lambda>d2.
                     Inr (True, d2)))"

definition requeue_update :: "int \<Rightarrow> job_rec \<Rightarrow> job_rec" where
  "requeue_update scheduledAt r =
     r\<lparr>c_status := Queued, c_scheduled_at_ms := scheduledAt, c_handed_off_at_ms := None,
       c_handoff_id := None, c_worker_id := None\<rparr>"

definition markRescheduled ::
    "store_cfg \<Rightarrow> int \<Rightarrow> string \<Rightarrow> jsval \<Rightarrow> report \<Rightarrow> db \<Rightarrow> store_error + (bool \<times> db)" where
  "markRescheduled cfg now jobId delayMs rep d =
     bindE (lift_error Semantics (rescheduledBackgroundJobAtMs delayMs 0)) (\<lambda>_.
     bindE (accepted_job cfg jobId rep d) (\<lambda>accepted.
       case accepted of
         None \<Rightarrow> Inr (False, d)
       | Some job \<Rightarrow>
           bindE (lift_error Semantics (rescheduledBackgroundJobAtMs delayMs now)) (\<lambda>scheduledAt.
             let (affected, d1) = update_jobs (activeHandoffConditions job) (requeue_update scheduledAt) d
             in if affected \<noteq> 1 then Inr (False, d1)
                else bindE (recordStatusTransition Handed_Off Queued (releaseConcurrency (r_concurrencyKey job) d1)) (\<lambda>d2.
                       Inr (True, d2)))))"

definition markReturnedToQueue :: "store_cfg \<Rightarrow> int \<Rightarrow> string \<Rightarrow> string \<Rightarrow> db \<Rightarrow> store_error + (unit \<times> db)" where
  "markReturnedToQueue cfg now jobId handoffId d =
     bindE (getJobRowById cfg d jobId) (\<lambda>found.
       case found of
         None \<Rightarrow> Inr ((), d)
       | Some job \<Rightarrow>
           if r_handoffId job \<noteq> Some handoffId \<or> r_status job \<noteq> Handed_Off then Inr ((), d)
           else let (affected, d1) = update_jobs
                      (\<lambda>r. c_handoff_id r = Some handoffId \<and> c_id r = jobId \<and> c_status r = Handed_Off)
                      (requeue_update now) d
                in if affected = 1
                   then bindE (recordStatusTransition Handed_Off Queued (releaseConcurrency (r_concurrencyKey job) d1)) (\<lambda>d2.
                          Inr ((), d2))
                   else Inr ((), d1))"

definition handedOffJobsForWorker ::
    "store_cfg \<Rightarrow> string \<Rightarrow> db \<Rightarrow> store_error + (string \<times> string) list" where
  "handedOffJobsForWorker cfg workerId d =
     foldE (\<lambda>row acc. bindE (normalizeJobRow cfg row) (\<lambda>job.
              Inr (case r_handoffId job of None \<Rightarrow> acc | Some h \<Rightarrow> acc @ [(r_id job, h)])))
       (filter (\<lambda>r. c_status r = Handed_Off \<and> c_worker_id r = Some workerId) (jobs d)) []"

subsection \<open>Failures and orphans\<close>

text \<open>What a worker reports as the failure: an \<open>Error\<close> with its stack, or any other value.\<close>

datatype failure = Error_Instance "string option" string | Error_Value jsval

definition normalizeBackgroundJobError :: "store_cfg \<Rightarrow> failure \<Rightarrow> string" where
  "normalizeBackgroundJobError cfg e =
     (case e of
        Error_Instance stack message \<Rightarrow> (case text_or_null stack of None \<Rightarrow> message | Some s \<Rightarrow> s)
      | Error_Value (JStr s) \<Rightarrow> s
      | Error_Value v \<Rightarrow> json_stringify (cfg_host cfg) v)"

definition failureUpdate :: "string \<Rightarrow> bool \<Rightarrow> int \<Rightarrow> int \<Rightarrow> int \<Rightarrow> bool \<Rightarrow> job_rec \<Rightarrow> job_rec" where
  "failureUpdate failureMessage markOrphaned nextAttempt now scheduledAt shouldRetry r =
     (let r1 = r\<lparr>c_attempts := nextAttempt, c_handed_off_at_ms := None, c_worker_id := None,
                 c_last_error := Some failureMessage\<rparr>;
          r2 = (if markOrphaned then r1\<lparr>c_orphaned_at_ms := Some now\<rparr> else r1)
      in if shouldRetry then r2\<lparr>c_status := Queued, c_scheduled_at_ms := scheduledAt\<rparr>
         else if markOrphaned then r2\<lparr>c_status := Orphaned\<rparr>
         else r2\<lparr>c_status := Failed, c_failed_at_ms := Some now\<rparr>)"

definition failed_job :: "job_row \<Rightarrow> string \<Rightarrow> bool \<Rightarrow> int \<Rightarrow> int \<Rightarrow> int \<Rightarrow> bool \<Rightarrow> job_row" where
  "failed_job job failureMessage markOrphaned nextAttempt now scheduledAt shouldRetry =
     (let j1 = job\<lparr>r_attempts := nextAttempt, r_handedOffAtMs := None, r_lastError := Some failureMessage,
                   r_status := (if shouldRetry then Queued else if markOrphaned then Orphaned else Failed),
                   r_workerId := None\<rparr>;
          j2 = (if markOrphaned then j1\<lparr>r_orphanedAtMs := Some now\<rparr> else j1)
      in if shouldRetry then j2\<lparr>r_scheduledAtMs := scheduledAt\<rparr>
         else if \<not> markOrphaned then j2\<lparr>r_failedAtMs := Some now\<rparr> else j2)"

definition applyFailure ::
    "store_cfg \<Rightarrow> int \<Rightarrow> job_row \<Rightarrow> failure \<Rightarrow> bool \<Rightarrow> (job_rec \<Rightarrow> bool) \<Rightarrow> db \<Rightarrow> store_error + (job_row option \<times> db)" where
  "applyFailure cfg now job e markOrphaned conditions d =
     (let nextAttempt = r_attempts job + 1;
          maxRetries = normalizeBackgroundJobMaxRetries (JInt (r_maxRetries job));
          shouldRetry = (nextAttempt \<le> maxRetries);
          failureMessage = normalizeBackgroundJobError cfg e
      in bindE (if shouldRetry
                then (case retryDelayMs nextAttempt of None \<Rightarrow> Inl RetryDelayNaN | Some delay \<Rightarrow> Inr (now + delay))
                else Inr (r_scheduledAtMs job)) (\<lambda>scheduledAt.
         let (affected, d1) = update_jobs conditions
               (failureUpdate failureMessage markOrphaned nextAttempt now scheduledAt shouldRetry) d
         in if affected \<noteq> 1 then Inr (None, d1)
            else let d2 = (if shouldRetry then d1 else releaseScheduleOwnershipForJob job d1);
                     d3 = releaseConcurrency (r_concurrencyKey job) d2
                 in Inr (Some (failed_job job failureMessage markOrphaned nextAttempt now scheduledAt shouldRetry), d3)))"

definition markFailed ::
    "store_cfg \<Rightarrow> int \<Rightarrow> string \<Rightarrow> failure \<Rightarrow> report \<Rightarrow> db \<Rightarrow> store_error + (job_row option \<times> db)" where
  "markFailed cfg now jobId e rep d =
     bindE (accepted_job cfg jobId rep d) (\<lambda>accepted.
       case accepted of
         None \<Rightarrow> Inr (None, d)
       | Some job \<Rightarrow>
           bindE (applyFailure cfg now job e False (activeHandoffConditions job) d) (\<lambda>(updated, d1).
             case updated of
               None \<Rightarrow> Inr (None, d1)
             | Some job' \<Rightarrow> bindE (recordStatusTransition (r_status job) (r_status job') d1) (\<lambda>d2. Inr (Some job', d2))))"

definition ORPHANED_AFTER_MS :: int where
  "ORPHANED_AFTER_MS = 2 * 60 * 60 * 1000"

text \<open>
  One row of the orphan sweep, fenced on the exact handoff time the sweep selected; \<open>clock\<close> is
  the reading \<open>_applyFailure\<close> takes for that row.
\<close>

definition orphan_one ::
    "store_cfg \<Rightarrow> (string \<Rightarrow> int) \<Rightarrow> job_rec \<Rightarrow> job_row list \<times> db \<Rightarrow> store_error + job_row list \<times> db" where
  "orphan_one cfg clock row = (\<lambda>(acc, d).
     bindE (normalizeJobRow cfg row) (\<lambda>job.
     bindE (applyFailure cfg (clock (r_id job)) job (Error_Value (JStr ''Job orphaned after timeout'')) True
              (\<lambda>r. c_id r = r_id job \<and> c_status r = Handed_Off \<and> sql_eq (c_handed_off_at_ms r) (r_handedOffAtMs job)) d)
       (\<lambda>(updated, d1). Inr (case updated of None \<Rightarrow> (acc, d1) | Some job' \<Rightarrow> (acc @ [job'], d1)))))"

definition orphan_deltas :: "(bucket \<Rightarrow> int) \<Rightarrow> bucket \<Rightarrow> int" where
  "orphan_deltas counts = (\<lambda>b. counts b - (if b = B_handed_off
     then (\<Sum>b'\<leftarrow>BACKGROUND_JOB_COUNT_BUCKETS. counts b') else 0))"

definition markOrphanedJobs ::
    "store_cfg \<Rightarrow> int \<Rightarrow> (string \<Rightarrow> int) \<Rightarrow> int \<Rightarrow> db \<Rightarrow> store_error + (job_row list \<times> db)" where
  "markOrphanedJobs cfg now clock orphanedAfterMs d =
     (let cutoff = now - orphanedAfterMs;
          rows = filter (\<lambda>r. c_status r = Handed_Off \<and> sql_le (c_handed_off_at_ms r) cutoff) (jobs d)
      in bindE (foldE (orphan_one cfg clock) rows ([], d)) (\<lambda>(orphaned, d1).
         bindE (statusCounts orphaned) (\<lambda>counts.
         bindE (recordCountDelta (orphan_deltas counts) d1) (\<lambda>d2.
           Inr (orphaned, d2)))))"

subsection \<open>Cancellation, retention and reconciliation\<close>

definition cancel :: "store_cfg \<Rightarrow> string \<Rightarrow> db \<Rightarrow> store_error + (bool \<times> db)" where
  "cancel cfg jobId d =
     bindE (getJobRowById cfg d jobId) (\<lambda>found.
       case found of
         None \<Rightarrow> Inr (False, d)
       | Some job \<Rightarrow>
           if r_status job \<noteq> Queued \<and> r_status job \<noteq> Handed_Off then Inr (False, d)
           else let (affected, d1) = update_jobs (\<lambda>r. c_id r = r_id job \<and> c_status r = r_status job)
                      (\<lambda>r. r\<lparr>c_status := Cancelled\<rparr>) d
                in if affected \<noteq> 1 then Inr (False, d1)
                   else let d2 = releaseScheduleOwnershipForJob job d1;
                            d3 = (if r_status job = Handed_Off then releaseConcurrency (r_concurrencyKey job) d2 else d2)
                        in bindE (recordStatusTransition (r_status job) Cancelled d3) (\<lambda>d4. Inr (True, d4)))"

text \<open>The terminal statuses a retention sweep removes, with the timestamp column each compares.\<close>

datatype prune_kind = Prune_Completed | Prune_Failed | Prune_Orphaned

fun prune_status :: "prune_kind \<Rightarrow> job_status" where
  "prune_status Prune_Completed = Completed"
| "prune_status Prune_Failed = Failed"
| "prune_status Prune_Orphaned = Orphaned"

fun prune_bucket :: "prune_kind \<Rightarrow> bucket" where
  "prune_bucket Prune_Completed = B_completed"
| "prune_bucket Prune_Failed = B_failed"
| "prune_bucket Prune_Orphaned = B_orphaned"

fun prune_column :: "prune_kind \<Rightarrow> job_rec \<Rightarrow> int option" where
  "prune_column Prune_Completed = c_completed_at_ms"
| "prune_column Prune_Failed = c_failed_at_ms"
| "prune_column Prune_Orphaned = c_orphaned_at_ms"

definition prune_batch :: "prune_kind \<Rightarrow> int \<Rightarrow> nat \<Rightarrow> db \<Rightarrow> store_error + (nat \<times> db)" where
  "prune_batch kind cutoff batchSize d =
     (let ids = map c_id (take batchSize (filter (\<lambda>r. c_status r = prune_status kind
                  \<and> sql_le (prune_column kind r) cutoff) (jobs d)))
      in if ids = [] then Inr (0, d)
         else let removed = sql_count (\<lambda>r. c_id r \<in> set ids) (jobs d);
                  d1 = d\<lparr>jobs := sql_delete (\<lambda>r. c_id r \<in> set ids) (jobs d)\<rparr>
              in bindE (recordCountDelta (delta2 B_all (- int removed) (prune_bucket kind) (- int removed)) d1) (\<lambda>d2.
                   Inr (removed, d2)))"

text \<open>
  The batch loop, each batch a transaction of its own: an error stops it with the batches before
  already committed. It has no bound of its own, so it is a partial function; \<open>None\<close> is a loop
  that never ends.
\<close>

partial_function (option) pruneStatusBatches ::
    "prune_kind \<Rightarrow> int \<Rightarrow> nat \<Rightarrow> nat \<Rightarrow> db \<Rightarrow> ((store_error + nat) \<times> db) option" where
  "pruneStatusBatches kind cutoff batchSize deleted d =
     (case prune_batch kind cutoff batchSize d of
        Inl e \<Rightarrow> Some (Inl e, d)
      | Inr (removed, d1) \<Rightarrow>
          if removed < batchSize then Some (Inr (deleted + removed), d1)
          else pruneStatusBatches kind cutoff batchSize (deleted + removed) d1)"

definition ttl_enabled :: "int option \<Rightarrow> bool" where
  "ttl_enabled ttl = (case ttl of None \<Rightarrow> False | Some t \<Rightarrow> 0 < t)"

definition prune_next ::
    "bool \<Rightarrow> prune_kind \<Rightarrow> int \<Rightarrow> nat \<Rightarrow> (store_error + nat) \<times> db \<Rightarrow> ((store_error + nat) \<times> db) option" where
  "prune_next enabled kind cutoff pageSize acc =
     (case acc of
        (Inl e, d) \<Rightarrow> Some (Inl e, d)
      | (Inr deleted, d) \<Rightarrow>
          if \<not> enabled then Some (Inr deleted, d)
          else Option.bind (pruneStatusBatches kind cutoff pageSize 0 d) (\<lambda>(r, d1).
                 Some (case r of Inl e \<Rightarrow> Inl e | Inr n \<Rightarrow> Inr (deleted + n), d1)))"

definition pruneTerminalJobs ::
    "int \<Rightarrow> int option \<Rightarrow> int option \<Rightarrow> nat \<Rightarrow> db \<Rightarrow> ((store_error + nat) \<times> db) option" where
  "pruneTerminalJobs now completedTtlMs failedTtlMs batchSize d =
     (let pageSize = (if 0 < batchSize then batchSize else 1000);
          completedCutoff = now - (case completedTtlMs of None \<Rightarrow> 0 | Some t \<Rightarrow> t);
          failedCutoff = now - (case failedTtlMs of None \<Rightarrow> 0 | Some t \<Rightarrow> t)
      in Option.bind (prune_next (ttl_enabled completedTtlMs) Prune_Completed completedCutoff pageSize (Inr 0, d)) (\<lambda>a1.
         Option.bind (prune_next (ttl_enabled failedTtlMs) Prune_Failed failedCutoff pageSize a1) (\<lambda>a2.
           prune_next (ttl_enabled failedTtlMs) Prune_Orphaned failedCutoff pageSize a2)))"

definition clearAll :: "db \<Rightarrow> store_error + (unit \<times> db)" where
  "clearAll d =
     bindE (countSnapshot d) (\<lambda>(counts, _, _).
       let d1 = d\<lparr>mail_ops := [], idem_keys := [], sched_keys := [], jobs := [], concurrency := []\<rparr>
       in bindE (recordCountDelta (\<lambda>b. - counts b) d1) (\<lambda>d2. Inr ((), d2)))"

definition queueMaxConcurrency :: "store_cfg \<Rightarrow> string \<Rightarrow> int option" where
  "queueMaxConcurrency cfg queue =
     (case map_of (cfg_queues cfg) queue of
        None \<Rightarrow> None
      | Some qc \<Rightarrow> (case js_integer (maxConcurrent qc) of
                     None \<Rightarrow> None | Some c \<Rightarrow> if 0 < c then Some c else None))"

definition non_terminal :: "job_rec \<Rightarrow> bool" where
  "non_terminal r = (c_status r = Queued \<or> c_status r = Handed_Off)"

definition adopt_queue :: "store_cfg \<Rightarrow> string \<Rightarrow> db \<Rightarrow> store_error + db" where
  "adopt_queue cfg queue d =
     (case queueMaxConcurrency cfg queue of
        None \<Rightarrow> Inr d
      | Some cap \<Rightarrow>
          let key = QUEUE_CONCURRENCY_KEY_PREFIX @ queue in
          bindE (ensureQueueConcurrencyKey key cap d) (\<lambda>d1.
            Inr (d1\<lparr>jobs := sql_update (\<lambda>r. c_queue r = Some queue \<and> c_concurrency_key r = None \<and> non_terminal r)
                   (\<lambda>r. r\<lparr>c_concurrency_key := Some key, c_max_concurrency := Some cap\<rparr>) (jobs d1)\<rparr>)))"

definition release_unconfigured :: "store_cfg \<Rightarrow> string \<Rightarrow> db \<Rightarrow> db" where
  "release_unconfigured cfg key d =
     (if \<not> prefix QUEUE_CONCURRENCY_KEY_PREFIX key then d
      else if queueMaxConcurrency cfg (drop (length QUEUE_CONCURRENCY_KEY_PREFIX) key) \<noteq> None then d
      else d\<lparr>jobs := sql_update (\<lambda>r. c_concurrency_key r = Some key \<and> non_terminal r)
               (\<lambda>r. r\<lparr>c_concurrency_key := None, c_max_concurrency := None\<rparr>) (jobs d)\<rparr>)"

definition reconcileQueueConcurrency_tables :: "store_cfg \<Rightarrow> db \<Rightarrow> store_error + db" where
  "reconcileQueueConcurrency_tables cfg d =
     bindE (foldE (adopt_queue cfg) (map fst (cfg_queues cfg)) d) (\<lambda>d1.
       Inr (foldl (\<lambda>d' row. release_unconfigured cfg (k_concurrency_key row) d') d1 (concurrency d1)))"

text \<open>
  The start-up reconciliation; \<open>reconciled\<close> is the store's memo, set only when both steps ran.
\<close>

definition reconcileQueueConcurrency ::
    "store_cfg \<Rightarrow> bool \<Rightarrow> bool \<Rightarrow> db \<Rightarrow> store_error + (bool \<times> db)" where
  "reconcileQueueConcurrency cfg acquired reconciled d =
     (if reconciled then Inr (True, d)
      else if \<not> acquired then Inl LockNotAcquired
      else bindE (reconcileQueueConcurrency_tables cfg d) (\<lambda>d1. Inr (True, reconcileConcurrency d1)))"

end
