(* ===== verification/Job_Store_Inv.thy ===== *)
theory Job_Store_Inv
  imports Job_Store_Ops
begin

text \<open>
  The invariant of the job store and the building blocks of its preservation. \<open>tables_ok\<close>
  speaks about the three tables that constrain each other: job ids are unique, a concurrency
  counter equals the number of handed-off jobs holding its key, every live job's key is registered,
  and every schedule key is owned by a live job that carries it. \<open>ledger_ext\<close> says that a state
  extends another by a sequence of broadcast count deltas that account exactly for the change of
  the counts, with consecutive revisions.
\<close>

subsection \<open>The invariant\<close>

definition known_status :: "job_status \<Rightarrow> bool" where
  "known_status s = (case s of Other_Status _ \<Rightarrow> False | _ \<Rightarrow> True)"

definition holds :: "string \<Rightarrow> job_rec \<Rightarrow> bool" where
  "holds key r = (c_status r = Handed_Off \<and> c_concurrency_key r = Some key)"

definition row_ok :: "string set \<Rightarrow> job_rec \<Rightarrow> bool" where
  "row_ok keys r =
     ((\<exists>m. c_execution_mode r = mode_name m) \<and> 0 \<le> c_attempts r \<and> 0 \<le> c_max_retries r
      \<and> known_status (c_status r) \<and> c_schedule_key r \<noteq> Some [] \<and> c_concurrency_key r \<noteq> Some []
      \<and> (non_terminal r \<longrightarrow> (\<forall>key. c_concurrency_key r = Some key \<longrightarrow> key \<in> keys)))"

definition owned :: "job_rec list \<Rightarrow> string \<times> string \<Rightarrow> bool" where
  "owned js ow = (fst ow \<noteq> [] \<and> (\<exists>r \<in> set js. c_id r = snd ow \<and> c_schedule_key r = Some (fst ow) \<and> non_terminal r))"

definition tables_ok :: "job_rec list \<Rightarrow> concurrency_row list \<Rightarrow> (string \<times> string) list \<Rightarrow> bool" where
  "tables_ok js ks ss =
     (distinct (map c_id js) \<and> (\<forall>r \<in> set js. row_ok (k_concurrency_key ` set ks) r)
      \<and> distinct (map k_concurrency_key ks)
      \<and> (\<forall>k \<in> set ks. k_active_count k = int (sql_count (holds (k_concurrency_key k)) js))
      \<and> distinct (map fst ss) \<and> (\<forall>ow \<in> set ss. owned js ow))"

definition store_inv :: "db \<Rightarrow> bool" where
  "store_inv d = (tables_ok (jobs d) (concurrency d) (sched_keys d) \<and> (\<exists>r. count_revision d = Some r))"

subsection \<open>The ledger\<close>

definition event_weight :: "count_event \<Rightarrow> bucket \<Rightarrow> int" where
  "event_weight e b = (\<Sum>p\<leftarrow>ev_deltas e. if fst p = b then snd p else 0)"

definition ledger_ext :: "db \<Rightarrow> db \<Rightarrow> bool" where
  "ledger_ext d d' =
     (\<exists>es r. broadcasts d' = broadcasts d @ es \<and> count_revision d = Some r
        \<and> count_revision d' = Some (r + int (length es))
        \<and> map ev_revision es = map (\<lambda>i. r + 1 + int i) [0..<length es]
        \<and> (\<forall>b. bucket_count d' b = bucket_count d b + (\<Sum>e\<leftarrow>es. event_weight e b)))"

lemma event_weight_filter:
  "(\<Sum>p\<leftarrow>filter (\<lambda>(_, n). n \<noteq> 0) (map (\<lambda>b. (b, f b)) bs). if fst p = b then snd p else 0) =
     (\<Sum>x\<leftarrow>bs. if x = b then f x else (0::int))"
  by (induction bs) auto

lemma buckets_sum: "(\<Sum>x\<leftarrow>BACKGROUND_JOB_COUNT_BUCKETS. if x = b then f x else (0::int)) = f b"
  by (cases b) (simp_all add: BACKGROUND_JOB_COUNT_BUCKETS_def)

lemma recordCountDelta_cases:
  assumes "recordCountDelta req d = Inr d'"
  obtains (none) "d' = d" "\<And>b. req b = 0"
  | (some) r e where "count_revision d = Some r" "ev_revision e = r + 1" "\<And>b. event_weight e b = req b"
      "d' = d\<lparr>count_revision := Some (r + 1), broadcasts := broadcasts d @ [e]\<rparr>"
proof -
  let ?ds = "filter (\<lambda>(_, amount). amount \<noteq> 0) (map (\<lambda>b. (b, req b)) BACKGROUND_JOB_COUNT_BUCKETS)"
  show thesis
  proof (cases "?ds = []")
    case True
    then have "req b = 0" for b
      by (cases b) (auto simp: BACKGROUND_JOB_COUNT_BUCKETS_def split: if_splits)
    with True assms show thesis by (intro none) (auto simp: recordCountDelta_def Let_def)
  next
    case False
    let ?e = "\<lambda>r. \<lparr>ev_deltas = ?ds, ev_revision = r + 1\<rparr>"
    from False assms obtain r where r: "count_revision d = Some r"
        "d' = d\<lparr>count_revision := Some (r + 1), broadcasts := broadcasts d @ [?e r]\<rparr>"
      by (auto simp: recordCountDelta_def Let_def countRevision_def bindE_eq_Inr
            split: option.splits if_splits)
    show thesis
      by (rule some [of r "?e r"]) (use r in \<open>simp_all add: event_weight_def event_weight_filter buckets_sum\<close>)
  qed
qed

lemma recordCountDelta_tables:
  assumes "recordCountDelta req d = Inr d'"
  shows "jobs d' = jobs d" "concurrency d' = concurrency d" "sched_keys d' = sched_keys d"
    "idem_keys d' = idem_keys d" "mail_ops d' = mail_ops d"
  using assms by (elim recordCountDelta_cases; simp)+

lemma bucket_count_jobs: "jobs d = jobs d' \<Longrightarrow> bucket_count d b = bucket_count d' b"
  by (cases b) (simp_all add: status_total_def)

lemma ledger_record:
  assumes rec: "recordCountDelta req d1 = Inr d2"
    and frame: "broadcasts d1 = broadcasts d" "count_revision d1 = count_revision d"
    and some: "\<exists>r. count_revision d = Some r"
    and counts: "\<And>b. bucket_count d1 b = bucket_count d b + req b"
  shows "ledger_ext d d2"
  using rec
proof (cases rule: recordCountDelta_cases)
  case none
  with counts frame some show ?thesis unfolding ledger_ext_def by (intro exI [of _ "[]"]) auto
next
  case (some r e)
  moreover have "bucket_count d2 b = bucket_count d1 b" for b
    by (rule bucket_count_jobs) (simp add: some)
  ultimately show ?thesis
    using counts frame unfolding ledger_ext_def by (intro exI [of _ "[e]"] exI [of _ r]) simp
qed

lemma ledger_quiet:
  assumes "broadcasts d' = broadcasts d" "count_revision d' = count_revision d"
    and "\<exists>r. count_revision d = Some r" "\<And>b. bucket_count d' b = bucket_count d b"
  shows "ledger_ext d d'"
  using assms unfolding ledger_ext_def by (intro exI [of _ "[]"]) auto

lemma ledger_refl: "store_inv d \<Longrightarrow> ledger_ext d d"
  by (intro ledger_quiet) (auto simp: store_inv_def)

lemma ledger_revision: "ledger_ext d d' \<Longrightarrow> \<exists>r. count_revision d' = Some r"
  by (auto simp: ledger_ext_def)

subsection \<open>Counts under a change of one row\<close>

definition pins :: "job_rec list \<Rightarrow> (job_rec \<Rightarrow> bool) \<Rightarrow> job_rec \<Rightarrow> bool" where
  "pins js cond r = (r \<in> set js \<and> cond r \<and> (\<forall>r' \<in> set js. cond r' \<longrightarrow> c_id r' = c_id r))"

lemma pins_count:
  "distinct (map c_id js) \<Longrightarrow> pins js cond r \<Longrightarrow> sql_count cond js = 1"
  unfolding pins_def by (rule sql_count_one [where key = c_id and r = r and p = cond]) blast+

lemma pins_only: "distinct (map c_id js) \<Longrightarrow> pins js cond r \<Longrightarrow> r' \<in> set js \<Longrightarrow> cond r' \<Longrightarrow> r' = r"
  unfolding pins_def by (metis distinct_map_inj_on_eq)

lemma count_move:
  assumes "distinct (map c_id js)" "pins js cond r"
  shows "int (sql_count q (sql_update cond f js)) = int (sql_count q js) - of_bool (q r) + of_bool (q (f r))"
  using assms unfolding pins_def
  by (intro sql_count_update_one [where key = c_id and r = r and p = cond and q = q and f = f]) blast+

lemma bucket_count_move:
  assumes "distinct (map c_id (jobs d))" "pins (jobs d) cond r"
    and "jobs d' = sql_update cond f (jobs d)" "known_status (c_status r)" "known_status (c_status (f r))"
    and "c_status r \<noteq> c_status (f r)"
  shows "bucket_count d' b = bucket_count d b + transition_deltas (c_status r) (c_status (f r)) b"
proof -
  have m: "status_total s d' = status_total s d - of_bool (c_status r = s) + of_bool (c_status (f r) = s)" for s
    unfolding status_total_def assms(3)
    using count_move [OF assms(1,2), where q = "\<lambda>r. c_status r = s" and f = f] .
  from assms(4-6) show ?thesis
    by (cases "c_status r"; cases "c_status (f r)"; cases b; simp add: m transition_deltas_def known_status_def)
qed

lemma bucket_count_insert:
  assumes "jobs d' = jobs d @ [r]" "c_status r = Queued"
  shows "bucket_count d' b = bucket_count d b + delta2 B_all 1 B_queued 1 b"
  using assms by (cases b) (simp_all add: status_total_def delta2_def delta1_def)

subsection \<open>Reservation counters\<close>

lemma active_release:
  assumes "\<forall>k \<in> set ks. k_active_count k = n (k_concurrency_key k)"
    and "n' = n(key := n key - 1)" "0 \<le> n' key"
    and "k \<in> set (sql_update (\<lambda>r. k_concurrency_key r = key \<and> 0 < k_active_count r)
           (\<lambda>r. r\<lparr>k_active_count := k_active_count r - 1\<rparr>) ks)"
  shows "k_active_count k = n' (k_concurrency_key k)"
  using assms by (fastforce simp: set_sql_update)

lemma active_reserve:
  assumes "\<forall>k \<in> set ks. k_active_count k = n (k_concurrency_key k)" "distinct (map k_concurrency_key ks)"
    and one: "sql_count (\<lambda>r. k_concurrency_key r = key \<and> k_active_count r < k_max_concurrency r) ks = 1"
    and k: "k \<in> set (sql_update (\<lambda>r. k_concurrency_key r = key \<and> k_active_count r < k_max_concurrency r)
           (\<lambda>r. r\<lparr>k_active_count := k_active_count r + 1\<rparr>) ks)"
  shows "k_active_count k = (n(key := n key + 1)) (k_concurrency_key k)"
proof -
  from one obtain k0 where k0: "k0 \<in> set ks" "k_concurrency_key k0 = key" "k_active_count k0 < k_max_concurrency k0"
    using sql_count_pos_iff [of "\<lambda>r. k_concurrency_key r = key \<and> k_active_count r < k_max_concurrency r" ks] by auto
  have "k1 = k0" if "k1 \<in> set ks" "k_concurrency_key k1 = key" for k1
    using that k0 assms(2) by (metis distinct_map_inj_on_eq)
  with k k0(3) assms(1) show ?thesis by (fastforce simp: set_sql_update)
qed

lemma release_keys: "map k_concurrency_key (sql_update c (\<lambda>r. r\<lparr>k_active_count := g r\<rparr>) ks) = map k_concurrency_key ks"
  by (rule map_key_sql_update) simp

lemma keys_of_map: "map f xs = map g ys \<Longrightarrow> f ` set xs = g ` set ys"
  by (metis list.set_map)

subsection \<open>Moving one job\<close>

lemma tables_okD:
  assumes "tables_ok js ks ss"
  shows "distinct (map c_id js)" "\<And>r. r \<in> set js \<Longrightarrow> row_ok (k_concurrency_key ` set ks) r"
    "distinct (map k_concurrency_key ks)"
    "\<And>k. k \<in> set ks \<Longrightarrow> k_active_count k = int (sql_count (holds (k_concurrency_key k)) js)"
    "distinct (map fst ss)" "\<And>ow. ow \<in> set ss \<Longrightarrow> owned js ow"
  using assms by (auto simp: tables_ok_def)

text \<open>What an update may do to the row it changes: identity, keys and static columns stay.\<close>

definition benign :: "(job_rec \<Rightarrow> job_rec) \<Rightarrow> job_rec \<Rightarrow> bool" where
  "benign f r =
     (c_id (f r) = c_id r \<and> c_concurrency_key (f r) = c_concurrency_key r \<and> c_schedule_key (f r) = c_schedule_key r
      \<and> c_execution_mode (f r) = c_execution_mode r \<and> c_max_retries (f r) = c_max_retries r
      \<and> 0 \<le> c_attempts (f r) \<and> known_status (c_status (f r)) \<and> (non_terminal (f r) \<longrightarrow> non_terminal r))"

lemma row_ok_benign: "row_ok keys r \<Longrightarrow> benign f r \<Longrightarrow> row_ok keys (f r)"
  by (auto simp: row_ok_def benign_def)

lemma owned_move:
  assumes ok: "tables_ok js ks ss" and pin: "pins js cond r" and ben: "benign f r"
    and ow: "ow \<in> set ss" and live: "non_terminal (f r) \<or> snd ow \<noteq> c_id r"
  shows "owned (sql_update cond f js) ow"
proof -
  from tables_okD(6) [OF ok ow] obtain x where x: "x \<in> set js" "c_id x = snd ow"
      "c_schedule_key x = Some (fst ow)" "non_terminal x" "fst ow \<noteq> []"
    by (auto simp: owned_def)
  let ?y = "if cond x then f x else x"
  have "?y \<in> set (sql_update cond f js)" using x(1) by (auto simp: set_sql_update)
  moreover have "c_id ?y = snd ow \<and> c_schedule_key ?y = Some (fst ow) \<and> non_terminal ?y"
  proof (cases "cond x")
    case True
    with pin x(1) have "x = r" using pins_only [OF tables_okD(1) [OF ok] pin] by blast
    with x ben live True show ?thesis by (auto simp: benign_def)
  next
    case False
    with x show ?thesis by simp
  qed
  ultimately show ?thesis using x(5) unfolding owned_def by blast
qed

lemma tables_move:
  assumes ok: "tables_ok js ks ss" and pin: "pins js cond r" and ben: "benign f r"
    and keys: "map k_concurrency_key ks' = map k_concurrency_key ks"
    and active: "\<And>k. k \<in> set ks' \<Longrightarrow>
      k_active_count k = int (sql_count (holds (k_concurrency_key k)) (sql_update cond f js))"
    and ss': "distinct (map fst ss')" "set ss' \<subseteq> set ss"
    and dead: "non_terminal (f r) \<or> (\<forall>ow \<in> set ss'. snd ow \<noteq> c_id r)"
  shows "tables_ok (sql_update cond f js) ks' ss'"
proof -
  note D = tables_okD [OF ok]
  have img: "k_concurrency_key ` set ks' = k_concurrency_key ` set ks" using keys by (rule keys_of_map)
  have only: "x = r" if "x \<in> set js" "cond x" for x using pins_only [OF D(1) pin] that by blast
  have "c_id (if cond x then f x else x) = c_id x" if "x \<in> set js" for x
    using only that ben by (auto simp: benign_def)
  then have "map c_id (sql_update cond f js) = map c_id js"
    by (simp add: sql_update_def)
  then have ids: "distinct (map c_id (sql_update cond f js))" using D(1) by simp
  have rows: "row_ok (k_concurrency_key ` set ks') x" if "x \<in> set (sql_update cond f js)" for x
    using that only D(2) ben unfolding img set_sql_update
    by (smt (verit, best) image_iff row_ok_benign)
  have owns: "owned (sql_update cond f js) ow" if "ow \<in> set ss'" for ow
    using owned_move [OF ok pin ben] that ss'(2) dead by blast
  show ?thesis
    unfolding tables_ok_def using ids rows keys D(3) active ss'(1) owns by simp
qed

text \<open>The three ways a move touches the reservation counter.\<close>

lemma holds_count_move:
  assumes "tables_ok js ks ss" "pins js cond r" "benign f r"
  shows "int (sql_count (holds key) (sql_update cond f js)) = int (sql_count (holds key) js)
    - of_bool (c_status r = Handed_Off \<and> c_concurrency_key r = Some key)
    + of_bool (c_status (f r) = Handed_Off \<and> c_concurrency_key r = Some key)"
  using count_move [OF tables_okD(1) [OF assms(1)] assms(2), where q = "holds key" and f = f] assms(3)
  by (simp add: holds_def benign_def)

lemma tables_move_release:
  assumes ok: "tables_ok js ks ss" and pin: "pins js cond r" and ben: "benign f r"
    and st: "c_status r = Handed_Off" "c_status (f r) \<noteq> Handed_Off"
    and d: "jobs d = sql_update cond f js" "concurrency d = ks"
    and ss': "distinct (map fst ss')" "set ss' \<subseteq> set ss"
    and dead: "non_terminal (f r) \<or> (\<forall>ow \<in> set ss'. snd ow \<noteq> c_id r)"
  shows "tables_ok (sql_update cond f js) (concurrency (releaseConcurrency (c_concurrency_key r) d)) ss'"
proof (cases "c_concurrency_key r")
  case None
  show ?thesis
    by (rule tables_move [OF ok pin ben _ _ ss' dead])
      (use None d holds_count_move [OF ok pin ben] tables_okD(4) [OF ok] in \<open>auto simp: releaseConcurrency_def\<close>)
next
  case (Some key)
  let ?n = "\<lambda>k. int (sql_count (holds k) js)" and ?n' = "\<lambda>k. int (sql_count (holds k) (sql_update cond f js))"
  have n': "?n' = ?n(key := ?n key - 1)"
    using holds_count_move [OF ok pin ben] st Some by (auto simp: fun_eq_iff)
  show ?thesis
  proof (rule tables_move [OF ok pin ben _ _ ss' dead])
    show "map k_concurrency_key (concurrency (releaseConcurrency (c_concurrency_key r) d)) = map k_concurrency_key ks"
      by (simp add: Some d releaseConcurrency_def release_keys)
    show "k_active_count k = ?n' (k_concurrency_key k)"
      if "k \<in> set (concurrency (releaseConcurrency (c_concurrency_key r) d))" for k
      using that tables_okD(4) [OF ok] unfolding Some
      by (intro active_release [OF _ n', of ks]) (auto simp: releaseConcurrency_def d)
  qed
qed

lemma tables_move_reserve:
  assumes ok: "tables_ok js ks ss" and pin: "pins js cond r" and ben: "benign f r"
    and st: "c_status r \<noteq> Handed_Off" "c_status (f r) = Handed_Off" and key: "c_concurrency_key r = Some key"
    and d: "concurrency d = ks" and res: "reserveConcurrency key d = (True, d1)"
  shows "tables_ok (sql_update cond f js) (concurrency d1) ss"
proof (rule tables_move [OF ok pin ben])
  let ?n = "\<lambda>k. int (sql_count (holds k) js)" and ?n' = "\<lambda>k. int (sql_count (holds k) (sql_update cond f js))"
  have n': "?n' = ?n(key := ?n key + 1)"
    using holds_count_move [OF ok pin ben] st key by (auto simp: fun_eq_iff)
  show "map k_concurrency_key (concurrency d1) = map k_concurrency_key ks"
    using res by (auto simp: d reserveConcurrency_def Let_def release_keys)
  show "k_active_count k = ?n' (k_concurrency_key k)" if "k \<in> set (concurrency d1)" for k
  proof -
    have "k_active_count k = (?n(key := ?n key + 1)) (k_concurrency_key k)"
      using that res tables_okD(3,4) [OF ok]
      by (intro active_reserve [where ks = ks]) (auto simp: d reserveConcurrency_def Let_def)
    then show ?thesis by (simp only: fun_cong [OF n'])
  qed
  show "non_terminal (f r) \<or> (\<forall>ow \<in> set ss. snd ow \<noteq> c_id r)" using st by (simp add: non_terminal_def)
qed (use tables_okD [OF ok] in auto)

lemma tables_move_same:
  assumes ok: "tables_ok js ks ss" and pin: "pins js cond r" and ben: "benign f r"
    and st: "(c_status r = Handed_Off) = (c_status (f r) = Handed_Off) \<or> c_concurrency_key r = None"
    and ss': "distinct (map fst ss')" "set ss' \<subseteq> set ss"
    and dead: "non_terminal (f r) \<or> (\<forall>ow \<in> set ss'. snd ow \<noteq> c_id r)"
  shows "tables_ok (sql_update cond f js) ks ss'"
  by (rule tables_move [OF ok pin ben _ _ ss' dead])
    (use st holds_count_move [OF ok pin ben] tables_okD(4) [OF ok] in auto)

text \<open>Releasing the schedule key of a job that ends leaves no entry for it.\<close>

lemma release_owner_gone:
  assumes ok: "tables_ok js ks ss" and r: "r \<in> set js"
    and ow: "ow \<in> set (sql_delete (\<lambda>ow. snd ow = c_id r \<and> Some (fst ow) = c_schedule_key r) ss)"
  shows "snd ow \<noteq> c_id r"
proof
  assume id: "snd ow = c_id r"
  from ow have "ow \<in> set ss" by simp
  from tables_okD(6) [OF ok this] obtain x where x: "x \<in> set js" "c_id x = snd ow" "c_schedule_key x = Some (fst ow)"
    by (auto simp: owned_def)
  with id r tables_okD(1) [OF ok] have "x = r" by (metis distinct_map_inj_on_eq)
  with x ow id show False by auto
qed

end
