(* ===== verification/Job_Store_Safety.thy ===== *)
theory Job_Store_Safety
  imports Job_Store_Inv
begin

text \<open>
  Every operation of the job store keeps the invariant and accounts for what it changes in the
  count ledger. \<open>sound d d'\<close> is that pair; the lemmas below establish it operation by
  operation, and \<open>store_step\<close> collects the operations into the step relation of the store.
\<close>

definition sound :: "db \<Rightarrow> db \<Rightarrow> bool" where
  "sound d d' = (store_inv d' \<and> ledger_ext d d')"

lemma sound_refl: "store_inv d \<Longrightarrow> sound d d"
  by (simp add: sound_def ledger_refl)

lemma ledger_trans:
  assumes "ledger_ext d d1" "ledger_ext d1 d2"
  shows "ledger_ext d d2"
proof -
  from assms(1) obtain es r where 1: "broadcasts d1 = broadcasts d @ es" "count_revision d = Some r"
      "count_revision d1 = Some (r + int (length es))"
      "map ev_revision es = map (\<lambda>i. r + 1 + int i) [0..<length es]"
      "\<And>b. bucket_count d1 b = bucket_count d b + (\<Sum>e\<leftarrow>es. event_weight e b)"
    unfolding ledger_ext_def by blast
  from assms(2) 1(3) obtain es' where 2: "broadcasts d2 = broadcasts d1 @ es'"
      "count_revision d2 = Some (r + int (length es) + int (length es'))"
      "map ev_revision es' = map (\<lambda>i. r + int (length es) + 1 + int i) [0..<length es']"
      "\<And>b. bucket_count d2 b = bucket_count d1 b + (\<Sum>e\<leftarrow>es'. event_weight e b)"
    unfolding ledger_ext_def by auto
  have "map ev_revision (es @ es') = map (\<lambda>i. r + 1 + int i) [0..<length (es @ es')]"
  proof -
    have "[0..<length (es @ es')] = [0..<length es] @ map (\<lambda>i. i + length es) [0..<length es']"
      using upt_add_eq_append [of 0 "length es" "length es'"] map_add_upt [of "length es" "length es'"]
      by (simp add: add.commute)
    with 1(4) 2(3) show ?thesis by (simp add: algebra_simps)
  qed
  with 1 2 show ?thesis
    unfolding ledger_ext_def by (intro exI [of _ "es @ es'"] exI [of _ r]) (simp add: algebra_simps)
qed

lemma sound_trans: "sound d d1 \<Longrightarrow> sound d1 d2 \<Longrightarrow> sound d d2"
  unfolding sound_def by (blast intro: ledger_trans)

lemma store_invD: "store_inv d \<Longrightarrow> tables_ok (jobs d) (concurrency d) (sched_keys d)"
  by (simp add: store_inv_def)

subsection \<open>Rows as the store hands them out\<close>

lemma text_or_null_keep: "k \<noteq> Some [] \<Longrightarrow> text_or_null k = k"
  by (cases k) (auto simp: text_or_null_def)

lemma normalize_fields:
  assumes "normalizeJobRow cfg r = Inr job" "row_ok keys r"
  shows "r_id job = c_id r" "r_status job = c_status r" "r_concurrencyKey job = c_concurrency_key r"
    "r_scheduleKey job = c_schedule_key r" "r_attempts job = c_attempts r" "r_maxRetries job = c_max_retries r"
    "r_handoffId job = text_or_null (c_handoff_id r)" "r_handedOffAtMs job = c_handed_off_at_ms r"
  using assms by (auto simp: normalizeJobRow_def bindE_eq_Inr row_ok_def known_status_def text_or_null_keep)

lemma normalize_ok: "row_ok keys r \<Longrightarrow> \<exists>job. normalizeJobRow cfg r = Inr job"
proof -
  assume "row_ok keys r"
  then obtain m where "c_execution_mode r = mode_name m" by (auto simp: row_ok_def)
  then show ?thesis
    by (cases m) (simp_all add: normalizeJobRow_def normalizeExecutionModeName_def Let_def
      normalizeBackgroundJobExecutionMode_def no_options_def js_or_def BACKGROUND_JOB_EXECUTION_MODES_def
      mode_of_value_def lift_error_def)
qed

lemma getJobRowById_Some:
  assumes "store_inv d" "getJobRowById cfg d jobId = Inr (Some job)"
  obtains r where "r \<in> set (jobs d)" "c_id r = jobId" "normalizeJobRow cfg r = Inr job"
    "row_ok (k_concurrency_key ` set (concurrency d)) r"
  using assms tables_okD(2) [OF store_invD [OF assms(1)]] sql_first_Some
  by (fastforce simp: getJobRowById_def bindE_eq_Inr split: option.splits)

lemma update_jobs_cases:
  assumes "store_inv d" "r \<in> set (jobs d)" "\<forall>x. cond x \<longrightarrow> c_id x = c_id r"
  obtains (hit) "update_jobs cond f d = (1, d\<lparr>jobs := sql_update cond f (jobs d)\<rparr>)" "pins (jobs d) cond r"
  | (miss) "update_jobs cond f d = (0, d)" "\<not> cond r"
proof (cases "cond r")
  case True
  have "pins (jobs d) cond r" using assms True unfolding pins_def by blast
  with pins_count [OF tables_okD(1) [OF store_invD [OF assms(1)]] this] show thesis
    by (intro hit) (simp_all add: update_jobs_def)
next
  case False
  then have "\<And>x. x \<in> set (jobs d) \<Longrightarrow> \<not> cond x"
    using assms tables_okD(1) [OF store_invD [OF assms(1)]] by (metis distinct_map_inj_on_eq)
  then show thesis using False
    by (intro miss) (simp_all add: update_jobs_def sql_count_zero sql_update_no_match)
qed

subsection \<open>Moving one job to another status\<close>

lemma recordStatusTransition_Inr:
  "recordStatusTransition old new d = Inr d' \<Longrightarrow> old \<noteq> new \<Longrightarrow> recordCountDelta (transition_deltas old new) d = Inr d'"
  by (simp add: recordStatusTransition_def split: if_splits)

lemma sound_transition:
  assumes inv: "store_inv d" and pin: "pins (jobs d) cond r" and ben: "benign f r"
    and d1: "jobs d1 = sql_update cond f (jobs d)" "broadcasts d1 = broadcasts d" "count_revision d1 = count_revision d"
    and ok: "tables_ok (jobs d1) (concurrency d1) (sched_keys d1)"
    and rec: "recordStatusTransition (c_status r) (c_status (f r)) d1 = Inr d2"
    and ne: "c_status r \<noteq> c_status (f r)"
  shows "sound d d2"
proof -
  note T = store_invD [OF inv]
  have "r \<in> set (jobs d)" using pin by (simp add: pins_def)
  then have known: "known_status (c_status r)" "known_status (c_status (f r))"
    using tables_okD(2) [OF T] ben by (simp_all add: row_ok_def benign_def)
  note rec' = recordStatusTransition_Inr [OF rec ne]
  have "ledger_ext d d2"
  proof (rule ledger_record [OF rec' d1(2,3)])
    show "\<exists>r. count_revision d = Some r" using inv by (simp add: store_inv_def)
  qed (rule bucket_count_move [OF tables_okD(1) [OF T] pin d1(1) known ne])
  moreover from ok have "tables_ok (jobs d2) (concurrency d2) (sched_keys d2)"
    by (simp only: recordCountDelta_tables [OF rec'])
  ultimately show ?thesis
    unfolding sound_def store_inv_def using ledger_revision by blast
qed

lemma release_fields [simp]:
  "jobs (releaseConcurrency k d) = jobs d" "broadcasts (releaseConcurrency k d) = broadcasts d"
  "count_revision (releaseConcurrency k d) = count_revision d" "sched_keys (releaseConcurrency k d) = sched_keys d"
  "jobs (releaseScheduleOwnershipForJob j d) = jobs d" "broadcasts (releaseScheduleOwnershipForJob j d) = broadcasts d"
  "count_revision (releaseScheduleOwnershipForJob j d) = count_revision d"
  "concurrency (releaseScheduleOwnershipForJob j d) = concurrency d"
  "jobs (releaseScheduleOwnership i s d) = jobs d" "broadcasts (releaseScheduleOwnership i s d) = broadcasts d"
  "count_revision (releaseScheduleOwnership i s d) = count_revision d"
  "concurrency (releaseScheduleOwnership i s d) = concurrency d"
  by (auto simp: releaseConcurrency_def releaseScheduleOwnershipForJob_def releaseScheduleOwnership_def split: option.splits)

lemma release_owner_sched:
  assumes "r_id job = c_id r" "r_scheduleKey job = c_schedule_key r"
  shows "sched_keys (releaseScheduleOwnershipForJob job d) =
    sql_delete (\<lambda>ow. snd ow = c_id r \<and> Some (fst ow) = c_schedule_key r) (sched_keys d)"
proof (cases "c_schedule_key r")
  case None
  then show ?thesis using assms by (simp add: releaseScheduleOwnershipForJob_def sql_delete_def)
next
  case (Some k)
  then show ?thesis using assms by (simp add: releaseScheduleOwnershipForJob_def releaseScheduleOwnership_def)
qed

text \<open>A handed-off job that ends: its reservation and its schedule key are given back.\<close>

lemma tables_end:
  assumes inv: "store_inv d" and pin: "pins (jobs d) cond r" and ben: "benign f r"
    and st: "c_status r = Handed_Off" "\<not> non_terminal (f r)"
    and job: "r_id job = c_id r" "r_scheduleKey job = c_schedule_key r"
    and d1: "d1 = d\<lparr>jobs := sql_update cond f (jobs d)\<rparr>"
  shows "tables_ok (jobs d1) (concurrency (releaseConcurrency (c_concurrency_key r) (releaseScheduleOwnershipForJob job d1)))
    (sched_keys (releaseScheduleOwnershipForJob job d1))"
proof -
  note T = store_invD [OF inv]
  have r: "r \<in> set (jobs d)" using pin by (simp add: pins_def)
  have jobs1: "jobs d1 = sql_update cond f (jobs d)" by (simp add: d1)
  have conc1: "concurrency (releaseScheduleOwnershipForJob job d1) = concurrency d" by (simp add: d1)
  have sched1: "sched_keys d1 = sched_keys d" by (simp add: d1)
  show ?thesis
    unfolding jobs1 release_owner_sched [OF job] sched1
  proof (rule tables_move_release [OF T pin ben st(1) _ _ conc1])
    show "c_status (f r) \<noteq> Handed_Off" using st by (auto simp: non_terminal_def)
    show "jobs (releaseScheduleOwnershipForJob job d1) = sql_update cond f (jobs d)" by (simp add: jobs1)
    show "non_terminal (f r) \<or> (\<forall>ow\<in>set (sql_delete (\<lambda>ow. snd ow = c_id r \<and> Some (fst ow) = c_schedule_key r)
        (sched_keys d)). snd ow \<noteq> c_id r)"
      using release_owner_gone [OF T r] by blast
  qed (use tables_okD(5) [OF T] in \<open>auto intro: distinct_key_sql_delete\<close>)
qed

text \<open>A handed-off job that goes back to the queue keeps its schedule key and gives back its reservation.\<close>

lemma tables_requeue:
  assumes inv: "store_inv d" and pin: "pins (jobs d) cond r" and ben: "benign f r"
    and st: "c_status r = Handed_Off" "c_status (f r) = Queued"
    and d1: "d1 = d\<lparr>jobs := sql_update cond f (jobs d)\<rparr>"
  shows "tables_ok (jobs d1) (concurrency (releaseConcurrency (c_concurrency_key r) d1)) (sched_keys d1)"
  using tables_move_release [OF store_invD [OF inv] pin ben, where d = d1 and ss' = "sched_keys d"] st
    tables_okD(5) [OF store_invD [OF inv]]
  by (simp add: d1 non_terminal_def)

subsection \<open>Handing a job off\<close>

lemma reserve_fields:
  "reserveConcurrency key d = (b, d1) \<Longrightarrow> jobs d1 = jobs d \<and> sched_keys d1 = sched_keys d
     \<and> broadcasts d1 = broadcasts d \<and> count_revision d1 = count_revision d"
  by (auto simp: reserveConcurrency_def Let_def)

text \<open>A reservation that reports failure has changed nothing: at most one row carries the key.\<close>

lemma reserve_fail:
  assumes "store_inv d" "reserveConcurrency key d = (False, d1)"
  shows "d1 = d"
proof -
  let ?c = "\<lambda>r. k_concurrency_key r = key \<and> k_active_count r < k_max_concurrency r"
  have "\<not> ?c r" if r: "r \<in> set (concurrency d)" for r
  proof
    assume c: "?c r"
    have "sql_count ?c (concurrency d) = 1"
      using tables_okD(3) [OF store_invD [OF assms(1)]] r c
      by (intro sql_count_one [where key = k_concurrency_key and r = r and p = ?c]) blast+
    with assms(2) show False by (simp add: reserveConcurrency_def Let_def)
  qed
  then show ?thesis using assms(2) by (auto simp: reserveConcurrency_def Let_def sql_update_no_match)
qed

text \<open>The row a handoff writes.\<close>

definition handoff_update :: "int \<Rightarrow> string \<Rightarrow> string option \<Rightarrow> job_rec \<Rightarrow> job_rec" where
  "handoff_update now handoffId workerId = (\<lambda>r. r\<lparr>c_status := Handed_Off, c_handed_off_at_ms := Some now,
     c_handoff_id := Some handoffId, c_worker_id := text_or_null workerId\<rparr>)"

lemma handoff_update_fields [simp]:
  "c_status (handoff_update now h w r) = Handed_Off" "c_id (handoff_update now h w r) = c_id r"
  "c_handoff_id (handoff_update now h w r) = Some h"
  by (simp_all add: handoff_update_def)

text \<open>
  A handoff either refuses and changes nothing, or moves exactly the queued row to
  \<open>handed_off\<close> after reserving its key.
\<close>

lemma markHandedOff_cases:
  assumes inv: "store_inv d" and op: "markHandedOff cfg now jobId handoffId workerId d = Inr (lease, d')"
  obtains (refused) "lease = None" "d' = d"
  | (granted) r d1 where "lease = Some (now, handoffId)" "r \<in> set (jobs d)" "c_id r = jobId" "c_status r = Queued"
      "pins (jobs d) (\<lambda>r. c_id r = jobId \<and> c_status r = Queued) r"
      "(case c_concurrency_key r of None \<Rightarrow> (True, d) | Some key \<Rightarrow> reserveConcurrency key d) = (True, d1)"
      "recordStatusTransition Queued Handed_Off (d1\<lparr>jobs := sql_update (\<lambda>r. c_id r = jobId \<and> c_status r = Queued)
         (handoff_update now handoffId workerId) (jobs d)\<rparr>) = Inr d'"
proof (cases "\<exists>job. getJobRowById cfg d jobId = Inr (Some job) \<and> r_status job = Queued")
  case False
  with op show thesis
    by (intro refused) (auto simp: markHandedOff_def bindE_eq_Inr split: option.split_asm if_split_asm)
next
  case True
  then obtain job where job: "getJobRowById cfg d jobId = Inr (Some job)" "r_status job = Queued" by auto
  obtain r where r: "r \<in> set (jobs d)" "c_id r = jobId" "normalizeJobRow cfg r = Inr job"
      "row_ok (k_concurrency_key ` set (concurrency d)) r"
    by (rule getJobRowById_Some [OF inv job(1)])
  note F = normalize_fields [OF r(3,4)]
  let ?c = "\<lambda>r. c_id r = jobId \<and> c_status r = Queued"
  have pin: "pins (jobs d) ?c r" using r F(2) job(2) by (auto simp: pins_def)
  have one: "sql_count ?c (jobs d) = 1" by (rule pins_count [OF tables_okD(1) [OF store_invD [OF inv]] pin])
  obtain b d1 where res: "(case c_concurrency_key r of None \<Rightarrow> (True, d) | Some key \<Rightarrow> reserveConcurrency key d) = (b, d1)"
    by (metis surj_pair)
  then have d1: "jobs d1 = jobs d" by (auto dest: reserve_fields split: option.splits)
  show thesis
  proof (cases b)
    case True
    with op job res one F(3) d1 have "lease = Some (now, handoffId) \<and> recordStatusTransition Queued Handed_Off
        (d1\<lparr>jobs := sql_update ?c (handoff_update now handoffId workerId) (jobs d)\<rparr>) = Inr d'"
      by (auto simp: markHandedOff_def bindE_eq_Inr update_jobs_def handoff_update_def)
    with res True r F(2) job(2) pin show thesis by (intro granted) auto
  next
    case False
    with res have "d1 = d" using reserve_fail [OF inv] by (auto split: option.splits)
    with False op job res F(3) show thesis by (intro refused) (auto simp: markHandedOff_def bindE_eq_Inr)
  qed
qed

lemma sound_markHandedOff:
  assumes inv: "store_inv d" and op: "markHandedOff cfg now jobId handoffId workerId d = Inr (lease, d')"
  shows "sound d d'"
  using inv op
proof (cases rule: markHandedOff_cases)
  case refused
  with inv show ?thesis by (simp add: sound_refl)
next
  case (granted r d1)
  note T = store_invD [OF inv]
  let ?c = "\<lambda>r. c_id r = jobId \<and> c_status r = Queued" and ?f = "handoff_update now handoffId workerId"
  note pin = granted(5)
  have ben: "benign ?f r" using tables_okD(2) [OF T granted(2)] granted(4)
    by (auto simp: benign_def row_ok_def known_status_def non_terminal_def handoff_update_def)
  have d1: "jobs d1 = jobs d" "sched_keys d1 = sched_keys d" "broadcasts d1 = broadcasts d" "count_revision d1 = count_revision d"
    using granted(6) by (auto dest: reserve_fields split: option.splits)
  have rec: "recordStatusTransition (c_status r) (c_status (?f r)) (d1\<lparr>jobs := sql_update ?c ?f (jobs d)\<rparr>) = Inr d'"
    using granted(4,7) by simp
  have "tables_ok (sql_update ?c ?f (jobs d)) (concurrency d1) (sched_keys d)"
  proof (cases "c_concurrency_key r")
    case None
    with granted(6) have d1_d: "d1 = d" by simp
    show ?thesis unfolding d1_d
      by (rule tables_move_same [OF T pin ben]) (use None tables_okD(5) [OF T] in \<open>auto simp: non_terminal_def\<close>)
  next
    case (Some key)
    with granted(4,6) show ?thesis by (intro tables_move_reserve [OF T pin ben]) auto
  qed
  then show ?thesis
    by (intro sound_transition [OF inv pin ben _ _ _ _ rec]) (use d1 granted(4) in auto)
qed

subsection \<open>Reports\<close>

lemma accepted_job_Some:
  assumes "store_inv d" "accepted_job cfg jobId rep d = Inr (Some job)"
  obtains r where "r \<in> set (jobs d)" "c_id r = jobId" "normalizeJobRow cfg r = Inr job"
    "row_ok (k_concurrency_key ` set (concurrency d)) r" "c_status r = Handed_Off" "shouldAcceptReport job rep"
proof -
  from assms(2) have g: "getJobRowById cfg d jobId = Inr (Some job)" "shouldAcceptReport job rep"
    by (auto simp: accepted_job_def bindE_eq_Inr split: option.splits if_splits)
  from getJobRowById_Some [OF assms(1) g(1)] obtain r where r: "r \<in> set (jobs d)" "c_id r = jobId"
      "normalizeJobRow cfg r = Inr job" "row_ok (k_concurrency_key ` set (concurrency d)) r" .
  with g(2) normalize_fields(2) [OF r(3,4)] show thesis
    by (intro that) (auto simp: shouldAcceptReport_def)
qed

lemma sound_markCompleted:
  assumes inv: "store_inv d" and op: "markCompleted cfg now jobId rep d = Inr (ok, d')"
  shows "sound d d'"
proof (cases "d' = d")
  case True
  with inv show ?thesis by (simp add: sound_refl)
next
  case False
  with op obtain job where job: "accepted_job cfg jobId rep d = Inr (Some job)"
    by (auto simp: markCompleted_def bindE_eq_Inr split: option.splits)
  obtain r where r: "r \<in> set (jobs d)" "c_id r = jobId" "normalizeJobRow cfg r = Inr job"
      "row_ok (k_concurrency_key ` set (concurrency d)) r" "c_status r = Handed_Off"
    by (rule accepted_job_Some [OF inv job])
  note F = normalize_fields [OF r(3,4)]
  let ?c = "activeHandoffConditions job" and ?f = "\<lambda>r. r\<lparr>c_status := Completed, c_completed_at_ms := Some now\<rparr>"
  have only: "\<forall>x. ?c x \<longrightarrow> c_id x = c_id r" using F(1) by (simp add: activeHandoffConditions_def)
  have ben: "benign ?f r" using r(4) by (auto simp: benign_def row_ok_def known_status_def non_terminal_def)
  from inv r(1) only show ?thesis
  proof (cases rule: update_jobs_cases [where cond = ?c and f = ?f])
    case hit
    let ?d1 = "d\<lparr>jobs := sql_update ?c ?f (jobs d)\<rparr>"
    have "recordStatusTransition (c_status r) (c_status (?f r))
        (releaseConcurrency (c_concurrency_key r) (releaseScheduleOwnershipForJob job ?d1)) = Inr d'"
      using op job hit(1) r(5) F(3) by (auto simp: markCompleted_def bindE_eq_Inr)
    then show ?thesis
      by (rule sound_transition [OF inv hit(2) ben, rotated 4])
        (use tables_end [OF inv hit(2) ben r(5) _ F(1,4) refl] r(5) in \<open>auto simp: non_terminal_def\<close>)
  next
    case miss
    with op job False show ?thesis by (auto simp: markCompleted_def bindE_eq_Inr)
  qed
qed

text \<open>The two requeueing operations share one argument: the fenced row goes back to the queue.\<close>

lemma requeue_benign: "row_ok keys r \<Longrightarrow> c_status r = Handed_Off \<Longrightarrow> benign (requeue_update t) r"
  by (auto simp: benign_def row_ok_def known_status_def non_terminal_def requeue_update_def)

lemma sound_requeue:
  assumes inv: "store_inv d" and r: "row_ok (k_concurrency_key ` set (concurrency d)) r" "c_status r = Handed_Off"
    and pin: "pins (jobs d) cond r"
    and rec: "recordStatusTransition Handed_Off Queued
      (releaseConcurrency (c_concurrency_key r) (d\<lparr>jobs := sql_update cond (requeue_update t) (jobs d)\<rparr>)) = Inr d'"
  shows "sound d d'"
proof -
  note ben = requeue_benign [OF r, of t]
  have st: "c_status (requeue_update t r) = Queued" by (simp add: requeue_update_def)
  have rec': "recordStatusTransition (c_status r) (c_status (requeue_update t r))
      (releaseConcurrency (c_concurrency_key r) (d\<lparr>jobs := sql_update cond (requeue_update t) (jobs d)\<rparr>)) = Inr d'"
    using rec by (simp only: st r(2))
  show ?thesis
    by (rule sound_transition [OF inv pin ben _ _ _ _ rec'])
      (use tables_requeue [OF inv pin ben r(2) st refl] st r(2) in auto)
qed

lemma sound_markRescheduled:
  assumes inv: "store_inv d" and op: "markRescheduled cfg now jobId delayMs rep d = Inr (ok, d')"
  shows "sound d d'"
proof (cases "d' = d")
  case True
  with inv show ?thesis by (simp add: sound_refl)
next
  case False
  with op obtain job t where job: "accepted_job cfg jobId rep d = Inr (Some job)"
      and t: "rescheduledBackgroundJobAtMs delayMs now = Inr t"
    by (auto simp: markRescheduled_def bindE_eq_Inr split: option.splits)
  obtain r where r: "r \<in> set (jobs d)" "c_id r = jobId" "normalizeJobRow cfg r = Inr job"
      "row_ok (k_concurrency_key ` set (concurrency d)) r" "c_status r = Handed_Off"
    by (rule accepted_job_Some [OF inv job])
  note F = normalize_fields [OF r(3,4)]
  have only: "\<forall>x. activeHandoffConditions job x \<longrightarrow> c_id x = c_id r"
    using F(1) by (simp add: activeHandoffConditions_def)
  from inv r(1) only show ?thesis
  proof (cases rule: update_jobs_cases [where cond = "activeHandoffConditions job" and f = "requeue_update t"])
    case hit
    with op job t F(3) show ?thesis
      by (intro sound_requeue [OF inv r(4,5) hit(2), of t]) (auto simp: markRescheduled_def bindE_eq_Inr)
  next
    case miss
    with op job t False show ?thesis by (auto simp: markRescheduled_def bindE_eq_Inr)
  qed
qed

lemma sound_markReturnedToQueue:
  assumes inv: "store_inv d" and op: "markReturnedToQueue cfg now jobId handoffId d = Inr (u, d')"
  shows "sound d d'"
proof (cases "d' = d")
  case True
  with inv show ?thesis by (simp add: sound_refl)
next
  case False
  with op obtain job where job: "getJobRowById cfg d jobId = Inr (Some job)" "r_status job = Handed_Off"
      "r_handoffId job = Some handoffId"
    by (auto simp: markReturnedToQueue_def bindE_eq_Inr split: option.splits if_splits)
  obtain r where r: "r \<in> set (jobs d)" "c_id r = jobId" "normalizeJobRow cfg r = Inr job"
      "row_ok (k_concurrency_key ` set (concurrency d)) r"
    by (rule getJobRowById_Some [OF inv job(1)])
  note F = normalize_fields [OF r(3,4)]
  let ?c = "\<lambda>r. c_handoff_id r = Some handoffId \<and> c_id r = jobId \<and> c_status r = Handed_Off"
  have only: "\<forall>x. ?c x \<longrightarrow> c_id x = c_id r" using r(2) by simp
  have st: "c_status r = Handed_Off" using job(2) F(2) by simp
  from inv r(1) only show ?thesis
  proof (cases rule: update_jobs_cases [where cond = ?c and f = "requeue_update now"])
    case hit
    with op job F(3) show ?thesis
      by (intro sound_requeue [OF inv r(4) st hit(2), of now]) (auto simp: markReturnedToQueue_def bindE_eq_Inr)
  next
    case miss
    with op job False show ?thesis by (auto simp: markReturnedToQueue_def bindE_eq_Inr)
  qed
qed


subsection \<open>Failures and orphans\<close>

definition failure_status :: "bool \<Rightarrow> bool \<Rightarrow> job_status" where
  "failure_status markOrphaned shouldRetry = (if shouldRetry then Queued else if markOrphaned then Orphaned else Failed)"

lemma failure_fields [simp]:
  "c_status (failureUpdate m o' n now t retry r) = failure_status o' retry"
  "c_attempts (failureUpdate m o' n now t retry r) = n"
  "r_status (failed_job job m o' n now t retry) = failure_status o' retry"
  by (simp_all add: failureUpdate_def failed_job_def failure_status_def Let_def)

lemma failure_status_ne [simp]: "failure_status o' retry \<noteq> Handed_Off" "Handed_Off \<noteq> failure_status o' retry"
  by (simp_all add: failure_status_def)

lemma failure_benign: "row_ok keys r \<Longrightarrow> c_status r = Handed_Off \<Longrightarrow> 0 \<le> n \<Longrightarrow> benign (failureUpdate m o' n now t retry) r"
  by (auto simp: benign_def row_ok_def known_status_def non_terminal_def failureUpdate_def Let_def)

text \<open>
  What applying a failure does to the tables: nothing when the fence misses, otherwise one row
  moves out of \<open>handed_off\<close>, its reservation is given back, and a job that ends also gives back
  its schedule key.
\<close>

lemma applyFailure_cases:
  assumes inv: "store_inv d" and r: "r \<in> set (jobs d)" "normalizeJobRow cfg r = Inr job" "c_status r = Handed_Off"
    and only: "\<forall>x. cond x \<longrightarrow> c_id x = c_id r"
    and op: "applyFailure cfg now job e o' cond d = Inr (upd, d1)"
  obtains (miss) "upd = None" "d1 = d" "\<not> cond r"
  | (hit) job' f retry where "upd = Some job'" "pins (jobs d) cond r" "benign f r"
      "jobs d1 = sql_update cond f (jobs d)" "broadcasts d1 = broadcasts d" "count_revision d1 = count_revision d"
      "c_status (f r) = r_status job'" "r_status job' = failure_status o' retry"
      "tables_ok (jobs d1) (concurrency d1) (sched_keys d1)"
proof -
  have ok: "row_ok (k_concurrency_key ` set (concurrency d)) r"
    using tables_okD(2) [OF store_invD [OF inv] r(1)] .
  note F = normalize_fields [OF r(2) ok]
  define n where "n = r_attempts job + 1"
  define retry where "retry = (n \<le> normalizeBackgroundJobMaxRetries (JInt (r_maxRetries job)))"
  define m where "m = normalizeBackgroundJobError cfg e"
  have n: "0 \<le> n" using ok F(5) by (simp add: n_def row_ok_def)
  from op obtain t where op': "(let (affected, d1) = update_jobs cond (failureUpdate m o' n now t retry) d
         in if affected \<noteq> 1 then Inr (None, d1)
            else let d2 = (if retry then d1 else releaseScheduleOwnershipForJob job d1)
                 in Inr (Some (failed_job job m o' n now t retry), releaseConcurrency (r_concurrencyKey job) d2)) = 
       (Inr (upd, d1) :: store_error + _)"
    unfolding applyFailure_def Let_def n_def [symmetric] retry_def [symmetric] m_def [symmetric]
    by (auto simp: bindE_eq_Inr)
  let ?f = "failureUpdate m o' n now t retry"
  note ben = failure_benign [OF ok r(3) n, of m o' now t retry]
  from inv r(1) only show thesis
  proof (cases rule: update_jobs_cases [where cond = cond and f = ?f])
    case miss
    with op' show thesis by (intro that(1)) (auto simp: Let_def)
  next
    case h: hit
    let ?d1 = "d\<lparr>jobs := sql_update cond ?f (jobs d)\<rparr>"
    let ?d2 = "if retry then ?d1 else releaseScheduleOwnershipForJob job ?d1"
    from op' h(1) have eq: "upd = Some (failed_job job m o' n now t retry)" "d1 = releaseConcurrency (c_concurrency_key r) ?d2"
      by (auto simp: Let_def F(3))
    have "tables_ok (jobs d1) (concurrency d1) (sched_keys d1)"
    proof (cases retry)
      case True
      with tables_requeue [OF inv h(2) ben r(3) _ refl] eq(2) show ?thesis by (simp add: failure_status_def)
    next
      case False
      with tables_end [OF inv h(2) ben r(3) _ F(1,4) refl] eq(2) show ?thesis
        by (simp add: failure_status_def non_terminal_def)
    qed
    with eq h(2) ben show thesis by (intro that(2)) auto
  qed
qed

lemma sound_markFailed:
  assumes inv: "store_inv d" and op: "markFailed cfg now jobId e rep d = Inr (upd, d')"
  shows "sound d d'"
proof (cases "d' = d")
  case True
  with inv show ?thesis by (simp add: sound_refl)
next
  case False
  with op obtain job upd1 d1 where job: "accepted_job cfg jobId rep d = Inr (Some job)"
      and app: "applyFailure cfg now job e False (activeHandoffConditions job) d = Inr (upd1, d1)"
      and rest: "(case upd1 of None \<Rightarrow> Inr (None, d1)
        | Some job' \<Rightarrow> bindE (recordStatusTransition (r_status job) (r_status job') d1) (\<lambda>d2. Inr (Some job', d2)))
        = (Inr (upd, d') :: store_error + _)"
    by (auto simp: markFailed_def bindE_eq_Inr split: option.splits)
  obtain r where r: "r \<in> set (jobs d)" "c_id r = jobId" "normalizeJobRow cfg r = Inr job"
      "row_ok (k_concurrency_key ` set (concurrency d)) r" "c_status r = Handed_Off"
    by (rule accepted_job_Some [OF inv job])
  note F = normalize_fields [OF r(3,4)]
  have only: "\<forall>x. activeHandoffConditions job x \<longrightarrow> c_id x = c_id r"
    using F(1) by (simp add: activeHandoffConditions_def)
  from inv r(1,3,5) only app show ?thesis
  proof (cases rule: applyFailure_cases)
    case miss
    with rest False show ?thesis by simp
  next
    case (hit job' f retry)
    from rest hit(1) F(2) have rec: "recordStatusTransition (c_status r) (c_status (f r)) d1 = Inr d'"
      by (auto simp: bindE_eq_Inr hit(7))
    show ?thesis
      by (rule sound_transition [OF inv hit(2,3,4,5,6,9) rec]) (simp add: r(5) hit(7,8))
  qed
qed

text \<open>The orphan sweep: one ledger entry for the whole batch.\<close>

lemma statusCounts_sum:
  assumes "foldE (\<lambda>job counts. case counted_bucket (r_status job) of None \<Rightarrow> Inl (UnknownStatus (r_status job))
      | Some b \<Rightarrow> Inr (counts(b := counts b + 1))) js c0 = Inr c"
  shows "(c b :: int) = c0 b + (\<Sum>j\<leftarrow>js. of_bool (counted_bucket (r_status j) = Some b))"
  using assms by (induction js arbitrary: c0) (auto simp: bindE_eq_Inr split: option.splits)

definition orphan_weight :: "job_row list \<Rightarrow> bucket \<Rightarrow> int" where
  "orphan_weight js b = (\<Sum>j\<leftarrow>js. transition_deltas Handed_Off (r_status j) b)"

lemma orphan_deltas_weight:
  assumes "statusCounts js = Inr c" "\<forall>j \<in> set js. \<exists>retry. r_status j = failure_status True retry"
  shows "orphan_deltas c b = orphan_weight js b"
proof -
  have c: "c b = (\<Sum>j\<leftarrow>js. of_bool (counted_bucket (r_status j) = Some b))" for b
    using statusCounts_sum [OF assms(1) [unfolded statusCounts_def], of b] by simp
  show ?thesis unfolding orphan_deltas_def orphan_weight_def c using assms(2)
  proof (induction js)
    case (Cons j js)
    then obtain retry where "r_status j = failure_status True retry" by auto
    with Cons show ?case
      by (cases b; cases retry)
        (simp_all add: transition_deltas_def BACKGROUND_JOB_COUNT_BUCKETS_def failure_status_def)
  qed (simp add: BACKGROUND_JOB_COUNT_BUCKETS_def)
qed


definition sweep_inv :: "db \<Rightarrow> job_rec list \<Rightarrow> job_row list \<times> db \<Rightarrow> bool" where
  "sweep_inv d0 pending s = (case s of (acc, d) \<Rightarrow>
     store_inv d \<and> broadcasts d = broadcasts d0 \<and> count_revision d = count_revision d0
     \<and> (\<forall>r \<in> set pending. r \<in> set (jobs d) \<and> c_status r = Handed_Off) \<and> distinct (map c_id pending)
     \<and> (\<forall>b. bucket_count d b = bucket_count d0 b + orphan_weight acc b)
     \<and> (\<forall>j \<in> set acc. \<exists>retry. r_status j = failure_status True retry))"

lemma sweep_step:
  assumes pre: "sweep_inv d0 (row # pending) (acc, d)" and op: "orphan_one cfg clock row (acc, d) = Inr s"
  shows "sweep_inv d0 pending s"
proof -
  let ?c = "\<lambda>job r. c_id r = r_id job \<and> c_status r = Handed_Off \<and> sql_eq (c_handed_off_at_ms r) (r_handedOffAtMs job)"
  from op obtain job upd d1 where job: "normalizeJobRow cfg row = Inr job"
      and app: "applyFailure cfg (clock (r_id job)) job (Error_Value (JStr ''Job orphaned after timeout'')) True (?c job) d = Inr (upd, d1)"
      and s: "s = (case upd of None \<Rightarrow> (acc, d1) | Some job' \<Rightarrow> (acc @ [job'], d1))"
    by (auto simp: orphan_one_def bindE_eq_Inr)
  from pre have inv: "store_inv d" and r: "row \<in> set (jobs d)" "c_status row = Handed_Off"
      and fresh: "c_id row \<notin> c_id ` set pending"
    by (auto simp: sweep_inv_def)
  note ok = tables_okD(2) [OF store_invD [OF inv] r(1)]
  have only: "\<forall>x. ?c job x \<longrightarrow> c_id x = c_id row" using normalize_fields(1) [OF job ok] by simp
  from inv r(1) job r(2) only app show ?thesis
  proof (cases rule: applyFailure_cases)
    case miss
    with pre s show ?thesis by (simp add: sweep_inv_def)
  next
    case (hit job' f retry)
    have "r \<in> set (jobs d1)" if "r \<in> set pending" for r
    proof -
      have "\<not> ?c job r" using fresh that only by (metis image_eqI)
      with pre that show ?thesis unfolding hit(4) set_sql_update sweep_inv_def by (auto simp: image_iff intro!: bexI [of _ r])
    qed
    moreover have "bucket_count d1 b = bucket_count d b + transition_deltas (c_status row) (c_status (f row)) b" for b
      by (rule bucket_count_move [OF tables_okD(1) [OF store_invD [OF inv]] hit(2,4)])
        (use ok hit(3) r(2) in \<open>auto simp: row_ok_def benign_def hit(7,8)\<close>)
    then have "bucket_count d1 b = bucket_count d0 b + orphan_weight (acc @ [job']) b" for b
      using pre by (simp add: sweep_inv_def orphan_weight_def r(2) hit(7))
    moreover have "store_inv d1" using hit(6,9) inv by (simp add: store_inv_def)
    ultimately show ?thesis using pre hit(1,5,6,8) s by (auto simp: sweep_inv_def)
  qed
qed

lemma sweep_run:
  "sweep_inv d0 rows s \<Longrightarrow> foldE (orphan_one cfg clock) rows s = Inr s' \<Longrightarrow> sweep_inv d0 [] s'"
proof (induction rows arbitrary: s)
  case (Cons row rows)
  from Cons.prems(2) obtain s1 where "orphan_one cfg clock row s = Inr s1" "foldE (orphan_one cfg clock) rows s1 = Inr s'"
    by (auto simp: bindE_eq_Inr)
  with Cons.IH [of s1] sweep_step Cons.prems(1) show ?case by (metis surj_pair)
qed simp

lemma sound_markOrphanedJobs:
  assumes inv: "store_inv d" and op: "markOrphanedJobs cfg now clock after d = Inr (js, d')"
  shows "sound d d'"
proof -
  let ?rows = "filter (\<lambda>r. c_status r = Handed_Off \<and> sql_le (c_handed_off_at_ms r) (now - after)) (jobs d)"
  from op obtain d1 c where run: "foldE (orphan_one cfg clock) ?rows ([], d) = Inr (js, d1)"
      and c: "statusCounts js = Inr c" and rec: "recordCountDelta (orphan_deltas c) d1 = Inr d'"
    by (auto simp: markOrphanedJobs_def Let_def bindE_eq_Inr)
  have "sweep_inv d ?rows ([], d)"
    using inv tables_okD(1) [OF store_invD [OF inv]]
    by (simp add: sweep_inv_def orphan_weight_def distinct_map_filter)
  from sweep_run [OF this run] have S: "store_inv d1" "broadcasts d1 = broadcasts d" "count_revision d1 = count_revision d"
      "\<And>b. bucket_count d1 b = bucket_count d b + orphan_weight js b"
      "\<forall>j \<in> set js. \<exists>retry. r_status j = failure_status True retry"
    by (simp_all add: sweep_inv_def)
  have "ledger_ext d d'"
    by (rule ledger_record [OF rec S(2,3)]) (use inv S(4) orphan_deltas_weight [OF c S(5)] in \<open>auto simp: store_inv_def\<close>)
  then show ?thesis
    using S(1) unfolding sound_def store_inv_def recordCountDelta_tables [OF rec] by (auto dest: ledger_revision)
qed

subsection \<open>Cancellation\<close>

lemma cancel_benign: "row_ok keys r \<Longrightarrow> benign (\<lambda>r. r\<lparr>c_status := Cancelled\<rparr>) r"
  by (auto simp: benign_def row_ok_def known_status_def non_terminal_def)

text \<open>A queued job that is cancelled holds no reservation, so only its schedule key is given back.\<close>

lemma tables_cancel_queued:
  assumes inv: "store_inv d" and pin: "pins (jobs d) cond r" and ben: "benign f r"
    and st: "c_status r = Queued" "\<not> non_terminal (f r)"
  shows "tables_ok (sql_update cond f (jobs d)) (concurrency d)
    (sql_delete (\<lambda>ow. snd ow = c_id r \<and> Some (fst ow) = c_schedule_key r) (sched_keys d))"
proof (rule tables_move_same [OF store_invD [OF inv] pin ben])
  have "r \<in> set (jobs d)" using pin by (simp add: pins_def)
  then show "non_terminal (f r) \<or> (\<forall>ow\<in>set (sql_delete (\<lambda>ow. snd ow = c_id r \<and> Some (fst ow) = c_schedule_key r)
      (sched_keys d)). snd ow \<noteq> c_id r)"
    using release_owner_gone [OF store_invD [OF inv]] by blast
qed (use st tables_okD(5) [OF store_invD [OF inv]] in \<open>auto simp: non_terminal_def intro: distinct_key_sql_delete\<close>)

lemma sound_cancel:
  assumes inv: "store_inv d" and op: "cancel cfg jobId d = Inr (ok, d')"
  shows "sound d d'"
proof (cases "d' = d")
  case True
  with inv show ?thesis by (simp add: sound_refl)
next
  case False
  with op obtain job where job: "getJobRowById cfg d jobId = Inr (Some job)" "r_status job = Queued \<or> r_status job = Handed_Off"
    by (auto simp: cancel_def bindE_eq_Inr split: option.splits if_splits)
  obtain r where r: "r \<in> set (jobs d)" "c_id r = jobId" "normalizeJobRow cfg r = Inr job"
      "row_ok (k_concurrency_key ` set (concurrency d)) r"
    by (rule getJobRowById_Some [OF inv job(1)])
  note F = normalize_fields [OF r(3,4)]
  let ?c = "\<lambda>r. c_id r = r_id job \<and> c_status r = r_status job" and ?f = "\<lambda>r. r\<lparr>c_status := Cancelled\<rparr>"
  have only: "\<forall>x. ?c x \<longrightarrow> c_id x = c_id r" using F(1) by simp
  note ben = cancel_benign [OF r(4)]
  from inv r(1) only show ?thesis
  proof (cases rule: update_jobs_cases [where cond = ?c and f = ?f])
    case hit
    let ?d1 = "d\<lparr>jobs := sql_update ?c ?f (jobs d)\<rparr>"
    let ?d2 = "releaseScheduleOwnershipForJob job ?d1"
    let ?d3 = "if c_status r = Handed_Off then releaseConcurrency (c_concurrency_key r) ?d2 else ?d2"
    have rec: "recordStatusTransition (c_status r) (c_status (?f r)) ?d3 = Inr d'"
      using op job hit(1) F(2,3) by (auto simp: cancel_def bindE_eq_Inr)
    have "tables_ok (jobs ?d3) (concurrency ?d3) (sched_keys ?d3)"
    proof (cases "c_status r = Handed_Off")
      case True
      then show ?thesis using tables_end [OF inv hit(2) ben True _ F(1,4) refl] by (simp add: non_terminal_def)
    next
      case False
      then have "c_status r = Queued" using job(2) F(2) by simp
      with tables_cancel_queued [OF inv hit(2) ben this] show ?thesis
        by (simp add: release_owner_sched [OF F(1,4)] non_terminal_def)
    qed
    then show ?thesis
      by (intro sound_transition [OF inv hit(2) ben _ _ _ _ rec]) (use job(2) F(2) in auto)
  next
    case miss
    with op job False show ?thesis by (auto simp: cancel_def bindE_eq_Inr split: if_splits)
  qed
qed


text \<open>Ownership entries may be dropped, or added for live jobs that carry the key.\<close>

lemma tables_owners:
  assumes "tables_ok js ks ss" "distinct (map fst ss')" "\<forall>ow \<in> set ss'. ow \<in> set ss \<or> owned js ow"
  shows "tables_ok js ks ss'"
  using assms by (auto simp: tables_ok_def)

lemma schedule_owner_Some:
  assumes "store_inv d" "schedule_owner key d = Some jobId"
  obtains r where "r \<in> set (jobs d)" "c_id r = jobId" "c_schedule_key r = Some key" "non_terminal r" "key \<noteq> []"
    "(key, jobId) \<in> set (sched_keys d)"
proof -
  from assms(2) obtain ow where "sql_first (\<lambda>r. fst r = key) (sched_keys d) = Some ow" "snd ow = jobId"
    by (auto simp: schedule_owner_def)
  then have ow: "ow \<in> set (sched_keys d)" "ow = (key, jobId)" using sql_first_Some by fastforce+
  from tables_okD(6) [OF store_invD [OF assms(1)] ow(1)] ow that show thesis by (auto simp: owned_def)
qed

lemma getJobRowById_member:
  assumes "store_inv d" "r \<in> set (jobs d)"
  shows "\<exists>job. getJobRowById cfg d (c_id r) = Inr (Some job) \<and> normalizeJobRow cfg r = Inr job"
  using normalize_ok [OF tables_okD(2) [OF store_invD [OF assms(1)] assms(2)], of cfg]
    sql_first_unique [OF tables_okD(1) [OF store_invD [OF assms(1)]] assms(2)]
  by (auto simp: getJobRowById_def)

lemma cancel_queued_hit:
  assumes inv: "store_inv d" and r: "r \<in> set (jobs d)" "c_status r = Queued"
  shows "cancel_queued (c_id r) d = (1, d\<lparr>jobs := sql_update (\<lambda>x. c_id x = c_id r \<and> c_status x = Queued)
      (\<lambda>r. r\<lparr>c_status := Cancelled\<rparr>) (jobs d)\<rparr>)"
    and "pins (jobs d) (\<lambda>x. c_id x = c_id r \<and> c_status x = Queued) r"
proof -
  show pin: "pins (jobs d) (\<lambda>x. c_id x = c_id r \<and> c_status x = Queued) r" using r by (simp add: pins_def)
  show "cancel_queued (c_id r) d = (1, d\<lparr>jobs := sql_update (\<lambda>x. c_id x = c_id r \<and> c_status x = Queued)
      (\<lambda>r. r\<lparr>c_status := Cancelled\<rparr>) (jobs d)\<rparr>)"
    using pins_count [OF tables_okD(1) [OF store_invD [OF inv]] pin] by (simp add: cancel_queued_def update_jobs_def)
qed

lemma sound_cancelScheduled:
  assumes inv: "store_inv d" and op: "cancelScheduled cfg acquired v d = Inr (out, d')"
  shows "sound d d'"
proof (cases "d' = d")
  case True
  with inv show ?thesis by (simp add: sound_refl)
next
  case False
  with op obtain key jobId where key: "normalizeScheduleKey v = Inr key" "acquired" "schedule_owner key d = Some jobId"
    by (auto simp: cancelScheduled_def bindE_eq_Inr split: option.splits if_splits)
  obtain r where r: "r \<in> set (jobs d)" "c_id r = jobId" "c_schedule_key r = Some key" "non_terminal r"
    by (rule schedule_owner_Some [OF inv key(3)])
  note ok = tables_okD(2) [OF store_invD [OF inv] r(1)]
  from getJobRowById_member [OF inv r(1)] obtain job where
    job: "getJobRowById cfg d jobId = Inr (Some job)" "normalizeJobRow cfg r = Inr job" using r(2) by auto
  note F = normalize_fields [OF job(2) ok]
  let ?ss = "sql_delete (\<lambda>ow. snd ow = jobId \<and> fst ow = key) (sched_keys d)"
  show ?thesis
  proof (cases "c_status r = Queued")
    case True
    let ?c = "\<lambda>x. c_id x = c_id r \<and> c_status x = Queued" and ?f = "\<lambda>r. r\<lparr>c_status := Cancelled\<rparr>"
    let ?d1 = "releaseScheduleOwnership jobId key (d\<lparr>jobs := sql_update ?c ?f (jobs d)\<rparr>)"
    note hit = cancel_queued_hit [OF inv r(1) True]
    note ben = cancel_benign [OF ok]
    have rec: "recordStatusTransition (c_status r) (c_status (?f r)) ?d1 = Inr d'"
      using op key job(1) True F(1,2) hit(1) r(2) by (auto simp: cancelScheduled_def bindE_eq_Inr)
    show ?thesis
      by (rule sound_transition [OF inv hit(2) ben _ _ _ _ rec])
        (use tables_cancel_queued [OF inv hit(2) ben True] True r(2,3) in
          \<open>auto simp: releaseScheduleOwnership_def non_terminal_def\<close>)
  next
    case ne: False
    with r(4) F(2) have st: "r_status job = Handed_Off" by (simp add: non_terminal_def)
    then have "d' = releaseScheduleOwnership jobId key d"
      using op key job(1) by (auto simp: cancelScheduled_def bindE_eq_Inr)
    moreover have "tables_ok (jobs d) (concurrency d) ?ss"
      by (rule tables_owners [OF store_invD [OF inv]])
        (use tables_okD(5) [OF store_invD [OF inv]] in \<open>auto intro: distinct_key_sql_delete\<close>)
    ultimately have "store_inv d'" using inv by (simp add: store_inv_def releaseScheduleOwnership_def)
    moreover have "ledger_ext d d'"
      using inv \<open>d' = _\<close> by (intro ledger_quiet bucket_count_jobs) (auto simp: store_inv_def)
    ultimately show ?thesis by (simp add: sound_def)
  qed
qed

subsection \<open>Enqueueing\<close>

definition prepared_ok :: "prepared_job \<Rightarrow> bool" where
  "prepared_ok p = (0 \<le> p_maxRetries p \<and> (\<forall>c. p_concurrency p = Some c \<longrightarrow> rc_concurrencyKey c \<noteq> []))"

lemma prepareJob_ok: "prepareJob cfg now uuid jobName args options = Inr p \<Longrightarrow> prepared_ok p"
  by (auto simp: prepareJob_def Let_def bindE_eq_Inr prepared_ok_def normalize_max_retries_nonneg dest: concurrency_Inr_Some(2))

lemma find_concurrency_None: "find_concurrency key d = None \<longleftrightarrow> key \<notin> k_concurrency_key ` set (concurrency d)"
  by (auto simp: find_concurrency_def sql_first_None)

lemma find_concurrency_Some: "find_concurrency key d = Some row \<Longrightarrow> key \<in> k_concurrency_key ` set (concurrency d)"
  unfolding find_concurrency_def by (auto dest: sql_first_Some)

text \<open>
  Registering a key: the counter table keeps its rows, possibly with another cap, and a new key
  starts at zero, which is right because no live job can hold a key that is not registered.
\<close>

lemma ensure_cases:
  assumes "ensure_prepared_concurrency p d = Inr d'"
  obtains (same) "d' = d" "\<forall>c. p_concurrency p = Some c \<longrightarrow> rc_concurrencyKey c \<in> k_concurrency_key ` set (concurrency d)"
  | (cap) key cap where "d' = d\<lparr>concurrency := sql_update (\<lambda>r. k_concurrency_key r = key) (\<lambda>r. r\<lparr>k_max_concurrency := cap\<rparr>) (concurrency d)\<rparr>"
      "\<forall>c. p_concurrency p = Some c \<longrightarrow> rc_concurrencyKey c \<in> k_concurrency_key ` set (concurrency d)"
  | (new) c where "p_concurrency p = Some c" "rc_concurrencyKey c \<notin> k_concurrency_key ` set (concurrency d)"
      "d' = d\<lparr>concurrency := concurrency d @ [\<lparr>k_concurrency_key = rc_concurrencyKey c,
              k_max_concurrency = rc_maxConcurrency c, k_active_count = 0\<rparr>]\<rparr>"
proof (cases "p_concurrency p")
  case None
  with assms show thesis by (intro same) (auto simp: ensure_prepared_concurrency_def)
next
  case (Some c)
  show thesis
  proof (cases "find_concurrency (rc_concurrencyKey c) d")
    case None
    then have fresh: "rc_concurrencyKey c \<notin> k_concurrency_key ` set (concurrency d)"
      by (simp only: find_concurrency_None not_False_eq_True)
    show thesis
      by (rule new [OF Some fresh])
        (use fresh None Some assms in \<open>auto simp: ensure_prepared_concurrency_def ensureQueueConcurrencyKey_def
           ensureConcurrencyKey_def insertConcurrencyRow_def Let_def sql_insert_def split: if_splits\<close>)
  next
    case (Some row)
    with assms \<open>p_concurrency p = Some c\<close> find_concurrency_Some [OF Some] show thesis
      by (auto simp: ensure_prepared_concurrency_def ensureQueueConcurrencyKey_def ensureConcurrencyKey_def
          Let_def intro: same cap split: if_splits)
  qed
qed

lemma holds_unregistered:
  assumes "tables_ok js ks ss" "key \<notin> k_concurrency_key ` set ks"
  shows "sql_count (holds key) js = 0"
  using assms tables_okD(2) [OF assms(1)]
  by (intro sql_count_zero) (auto simp: holds_def row_ok_def non_terminal_def)

lemma row_ok_mono: "row_ok keys r \<Longrightarrow> keys \<subseteq> keys' \<Longrightarrow> row_ok keys' r"
  by (auto simp: row_ok_def)

lemma ensure_tables:
  assumes ok: "tables_ok (jobs d) (concurrency d) ss" and op: "ensure_prepared_concurrency p d = Inr d'"
  shows "tables_ok (jobs d) (concurrency d') ss"
    and "\<forall>c. p_concurrency p = Some c \<longrightarrow> rc_concurrencyKey c \<in> k_concurrency_key ` set (concurrency d')"
    and "jobs d' = jobs d" "sched_keys d' = sched_keys d" "broadcasts d' = broadcasts d" "count_revision d' = count_revision d"
proof -
  note D = tables_okD [OF ok]
  have "tables_ok (jobs d) (concurrency d') ss
     \<and> (\<forall>c. p_concurrency p = Some c \<longrightarrow> rc_concurrencyKey c \<in> k_concurrency_key ` set (concurrency d'))"
    using op
  proof (cases rule: ensure_cases)
    case same
    with ok show ?thesis by simp
  next
    case (cap key cap)
    let ?ks = "sql_update (\<lambda>r. k_concurrency_key r = key) (\<lambda>r. r\<lparr>k_max_concurrency := cap\<rparr>) (concurrency d)"
    have keys: "map k_concurrency_key ?ks = map k_concurrency_key (concurrency d)" by (rule map_key_sql_update) simp
    have img: "k_concurrency_key ` set ?ks = k_concurrency_key ` set (concurrency d)" using keys by (rule keys_of_map)
    have "k_active_count k = int (sql_count (holds (k_concurrency_key k)) (jobs d))" if "k \<in> set ?ks" for k
      using that D(4) by (auto simp: set_sql_update)
    with ok cap show ?thesis by (simp add: tables_ok_def keys img)
  next
    case (new c)
    let ?keys = "k_concurrency_key ` set (concurrency d)"
    have "\<forall>r \<in> set (jobs d). row_ok (insert (rc_concurrencyKey c) ?keys) r"
      using D(2) row_ok_mono by blast
    with ok new holds_unregistered [OF ok new(2)] show ?thesis
      by (simp add: tables_ok_def)
  qed
  then show "tables_ok (jobs d) (concurrency d') ss"
    "\<forall>c. p_concurrency p = Some c \<longrightarrow> rc_concurrencyKey c \<in> k_concurrency_key ` set (concurrency d')" by auto
  show "jobs d' = jobs d" "sched_keys d' = sched_keys d" "broadcasts d' = broadcasts d" "count_revision d' = count_revision d"
    using op by (auto elim!: ensure_cases)
qed

lemma tables_insert:
  assumes ok: "tables_ok js ks ss" and fresh: "c_id r \<notin> c_id ` set js" and st: "c_status r = Queued"
    and row: "row_ok (k_concurrency_key ` set ks) r"
  shows "tables_ok (js @ [r]) ks ss"
  using assms by (auto simp: tables_ok_def holds_def owned_def)

lemma insert_tables:
  assumes ok: "tables_ok (jobs d) (concurrency d) ss" and p: "prepared_ok p" and k: "k \<noteq> Some []"
    and op: "insertPreparedJob p k d = Inr d'"
  shows "tables_ok (jobs d') (concurrency d') ss" "jobs d' = jobs d @ [prepared_row p k]"
    "sched_keys d' = sched_keys d" "broadcasts d' = broadcasts d" "count_revision d' = count_revision d"
proof -
  from op obtain d1 where d1: "ensure_prepared_concurrency p d = Inr d1"
      and fresh: "p_jobId p \<notin> c_id ` set (jobs d1)" and d': "d' = d1\<lparr>jobs := jobs d1 @ [prepared_row p k]\<rparr>"
    by (auto simp: insertPreparedJob_def bindE_eq_Inr sql_insert_Inr prepared_row_def)
  note E = ensure_tables [OF ok d1]
  have "row_ok (k_concurrency_key ` set (concurrency d1)) (prepared_row p k)"
    using p k E(2) by (auto simp: row_ok_def prepared_row_def prepared_ok_def known_status_def)
  with E(1,3) fresh show "tables_ok (jobs d') (concurrency d') ss"
    unfolding d' by (simp, intro tables_insert) (auto simp: prepared_row_def)
  show "jobs d' = jobs d @ [prepared_row p k]"
    "sched_keys d' = sched_keys d" "broadcasts d' = broadcasts d" "count_revision d' = count_revision d"
    using E(3-6) by (simp_all add: d')
qed

text \<open>Inserting a job and recording it, with any other table left alone in between.\<close>

lemma sound_insert:
  assumes inv: "store_inv d" and p: "prepared_ok p"
    and ins: "insertPreparedJob p None d1 = Inr d2"
    and d1: "jobs d1 = jobs d" "concurrency d1 = concurrency d" "sched_keys d1 = sched_keys d"
      "broadcasts d1 = broadcasts d" "count_revision d1 = count_revision d"
    and d3: "jobs d3 = jobs d2" "concurrency d3 = concurrency d2" "sched_keys d3 = sched_keys d2"
      "broadcasts d3 = broadcasts d2" "count_revision d3 = count_revision d2"
    and rec: "recordCountDelta (delta2 B_all 1 B_queued 1) d3 = Inr d'"
  shows "sound d d'"
proof -
  have "tables_ok (jobs d1) (concurrency d1) (sched_keys d)" using store_invD [OF inv] d1 by simp
  note I = insert_tables [OF this p _ ins, simplified]
  have "ledger_ext d d'"
  proof (rule ledger_record [OF rec])
    show "bucket_count d3 b = bucket_count d b + delta2 B_all 1 B_queued 1 b" for b
      by (rule bucket_count_insert [of _ _ "prepared_row p None"]) (simp_all add: d3 I(2) d1 prepared_row_def)
  qed (use inv I d1 d3 in \<open>auto simp: store_inv_def\<close>)
  moreover have "tables_ok (jobs d') (concurrency d') (sched_keys d')"
    using I(1,3) d1(3) by (simp add: recordCountDelta_tables [OF rec] d3)
  ultimately show ?thesis by (auto simp: sound_def store_inv_def dest: ledger_revision)
qed

end
