(* ===== verification/Job_Store_System.thy ===== *)
theory Job_Store_System
  imports Job_Store_Safety
begin

text \<open>
  The job store as a transition system: the remaining operations (enqueueing, schedule-key
  replacement, retention, clearing, start-up reconciliation) keep the invariant, the operations
  together form the step relation \<open>store_step\<close>, and the invariant and ledger locales are
  interpreted on it.
\<close>

subsection \<open>Enqueueing\<close>

lemma sound_enqueue_plain:
  assumes inv: "store_inv d" and p: "prepared_ok p" and op: "enqueue_plain p options d = Inr (jobId, d')"
  shows "sound d d'"
proof (cases "d' = d")
  case True
  with inv show ?thesis by (simp add: sound_refl)
next
  case False
  with op obtain d1 where "insertPreparedJob p None d = Inr d1" "recordCountDelta (delta2 B_all 1 B_queued 1) d1 = Inr d'"
    by (auto simp: enqueue_plain_def bindE_eq_Inr split: option.splits if_splits)
  then show ?thesis by (intro sound_insert [OF inv p]) auto
qed

lemma persist_fields:
  assumes "persistMailDeliveryOperation cfg now jobId m d = Inr d'"
  shows "jobs d' = jobs d" "concurrency d' = concurrency d" "sched_keys d' = sched_keys d"
    "broadcasts d' = broadcasts d" "count_revision d' = count_revision d"
  using assms by (auto simp: persistMailDeliveryOperation_def Let_def bindE_eq_Inr split: option.splits sum.splits)

lemma claim_fields:
  assumes "claimIdempotencyOwnership ow d = Inr (created, row, d')"
  shows "jobs d' = jobs d" "concurrency d' = concurrency d" "sched_keys d' = sched_keys d"
    "broadcasts d' = broadcasts d" "count_revision d' = count_revision d"
  using assms by (auto simp: claimIdempotencyOwnership_def split: option.splits sum.splits)

lemma claim_not_created: "claimIdempotencyOwnership ow d = Inr (False, row, d') \<Longrightarrow> d' = d"
  by (auto simp: claimIdempotencyOwnership_def split: option.splits sum.splits)

lemma replay_same: "idempotency_replay cfg existing ow m d = Inr (jobId, d') \<Longrightarrow> d' = d \<and> jobId = i_job_id existing"
  by (auto simp: idempotency_replay_def bindE_eq_Inr)

text \<open>
  An idempotent enqueue either replays an existing owner (in the state it read, or in the state
  another process left) or claims the scope and inserts the job in the state the other process left.
\<close>

lemma enqueueIdempotently_cases:
  assumes "enqueueIdempotently cfg env args options p d = Inr (jobId, d')"
  obtains (replay) "d' = d" | (raced) "d' = env d"
  | (created) row d1 m d2 d3 where "claimIdempotencyOwnership row (env d) = Inr (True, row, d1)"
      "insertPreparedJob p None d1 = Inr d2" "persistMailDeliveryOperation cfg (p_createdAtMs p) (p_jobId p) m d2 = Inr d3"
      "recordCountDelta (delta2 B_all 1 B_queued 1) d3 = Inr d'" "jobId = p_jobId p"
proof -
  from assms obtain key m where eq: "(let ownership = idempotency_owner cfg key args options p in
       case idempotencyOwnership (i_scope_digest ownership) d of
              Some existing \<Rightarrow> idempotency_replay cfg existing ownership m d
            | None \<Rightarrow>
                bindE (claimIdempotencyOwnership ownership (env d)) (\<lambda>(created, row, d1).
                  if \<not> created then idempotency_replay cfg row ownership m d1
                  else bindE (insertPreparedJob p None d1) (\<lambda>d2.
                       bindE (persistMailDeliveryOperation cfg (p_createdAtMs p) (p_jobId p) m d2) (\<lambda>d3.
                       bindE (recordCountDelta (delta2 B_all 1 B_queued 1) d3) (\<lambda>d4.
                         Inr (p_jobId p, d4)))))) = Inr (jobId, d')"
    by (auto simp: enqueueIdempotently_def Let_def bindE_eq_Inr split: if_splits)
  let ?ow = "idempotency_owner cfg key args options p"
  show thesis
  proof (cases "idempotencyOwnership (i_scope_digest ?ow) d")
    case (Some existing)
    with eq replay_same show thesis by (intro replay) (auto simp: Let_def)
  next
    case None
    with eq obtain created' row d1 where c: "claimIdempotencyOwnership ?ow (env d) = Inr (created', row, d1)"
        and rest: "(if \<not> created' then idempotency_replay cfg row ?ow m d1
                  else bindE (insertPreparedJob p None d1) (\<lambda>d2.
                       bindE (persistMailDeliveryOperation cfg (p_createdAtMs p) (p_jobId p) m d2) (\<lambda>d3.
                       bindE (recordCountDelta (delta2 B_all 1 B_queued 1) d3) (\<lambda>d4.
                         Inr (p_jobId p, d4))))) = Inr (jobId, d')"
      by (auto simp: Let_def bindE_eq_Inr)
    show thesis
    proof (cases created')
      case True
      moreover from c True have "row = ?ow"
        by (auto simp: claimIdempotencyOwnership_def split: sum.splits option.splits)
      ultimately show thesis using c rest by (auto simp: bindE_eq_Inr intro: created)
    next
      case False
      with c have "d1 = env d" by (simp add: claim_not_created)
      with False rest replay_same show thesis by (intro raced) auto
    qed
  qed
qed

lemma sound_enqueueIdempotently:
  assumes inv: "store_inv d" and p: "prepared_ok p" and env: "sound d (env d)"
    and op: "enqueueIdempotently cfg env args options p d = Inr (jobId, d')"
  shows "sound d d'"
  using op
proof (cases rule: enqueueIdempotently_cases)
  case replay
  with inv show ?thesis by (simp add: sound_refl)
next
  case raced
  with env show ?thesis by simp
next
  case (created row d1 m d2 d3)
  have inv': "store_inv (env d)" using env by (simp add: sound_def)
  have "sound (env d) d'"
    by (rule sound_insert [OF inv' p created(2) claim_fields [OF created(1)] persist_fields [OF created(3)] created(4)])
  with env show ?thesis by (rule sound_trans)
qed

lemma sound_enqueue:
  assumes "store_inv d" "sound d (env d)" "enqueue cfg env now uuid jobName args options d = Inr (jobId, d')"
  shows "sound d d'"
proof -
  from assms(3) obtain p where p: "prepareJob cfg now uuid jobName args options = Inr p"
      and op: "enqueueIdempotently cfg env args options p d = Inr (jobId, d') \<or> enqueue_plain p options d = Inr (jobId, d')"
    by (auto simp: enqueue_def bindE_eq_Inr split: if_splits)
  from op show ?thesis
    using sound_enqueueIdempotently [where env = env, OF assms(1) prepareJob_ok [OF p] assms(2)]
      sound_enqueue_plain [OF assms(1) prepareJob_ok [OF p]] by blast
qed

subsection \<open>Replacing a scheduled job\<close>

lemma upsert_sched:
  "fst ` set (sched_keys (upsert_schedule_owner key jobId d)) = insert key (fst ` set (sched_keys d))"
  "distinct (map fst (sched_keys d)) \<Longrightarrow> distinct (map fst (sched_keys (upsert_schedule_owner key jobId d)))"
  "ow \<in> set (sched_keys (upsert_schedule_owner key jobId d)) \<Longrightarrow> ow = (key, jobId) \<or> ow \<in> set (sched_keys d) \<and> fst ow \<noteq> key"
proof -
  have u: "map fst (sql_update (\<lambda>r. fst r = key) (\<lambda>r. (fst r, jobId)) rows) = map fst rows" for rows :: "(string \<times> string) list"
    by (rule map_key_sql_update) simp
  show "fst ` set (sched_keys (upsert_schedule_owner key jobId d)) = insert key (fst ` set (sched_keys d))"
    using keys_of_map [OF u [of "sched_keys d"]] by (auto simp: upsert_schedule_owner_def)
  show "distinct (map fst (sched_keys d)) \<Longrightarrow> distinct (map fst (sched_keys (upsert_schedule_owner key jobId d)))"
    by (auto simp: upsert_schedule_owner_def u)
  show "ow \<in> set (sched_keys (upsert_schedule_owner key jobId d)) \<Longrightarrow> ow = (key, jobId) \<or> ow \<in> set (sched_keys d) \<and> fst ow \<noteq> key"
    by (auto simp: upsert_schedule_owner_def set_sql_update split: if_splits)
qed

lemma upsert_fields [simp]:
  "jobs (upsert_schedule_owner k i d) = jobs d" "concurrency (upsert_schedule_owner k i d) = concurrency d"
  "broadcasts (upsert_schedule_owner k i d) = broadcasts d" "count_revision (upsert_schedule_owner k i d) = count_revision d"
  by (simp_all add: upsert_schedule_owner_def)

text \<open>
  What happens to the previous owner: a queued one is cancelled, a handed-off one is left running,
  and there is no owner in any other status.
\<close>

lemma replace_owner_cases:
  assumes inv: "store_inv d"
    and own: "(case schedule_owner key d of None \<Rightarrow> Inr None | Some ownerId \<Rightarrow> getJobRowById cfg d ownerId) = Inr owner"
    and op: "replace_owner cfg owner d = Inr (previous, d1)"
  obtains (kept) "d1 = d" "\<forall>i. previous \<noteq> Some (i, Previous_Queued)"
  | (cancelled) r where "r \<in> set (jobs d)" "c_status r = Queued" "c_schedule_key r = Some key"
      "previous = Some (c_id r, Previous_Queued)"
      "d1 = d\<lparr>jobs := sql_update (\<lambda>x. c_id x = c_id r \<and> c_status x = Queued) (\<lambda>r. r\<lparr>c_status := Cancelled\<rparr>) (jobs d)\<rparr>"
proof (cases "schedule_owner key d")
  case None
  with own op show thesis by (intro kept) (auto simp: replace_owner_def)
next
  case (Some ownerId)
  obtain r where r: "r \<in> set (jobs d)" "c_id r = ownerId" "c_schedule_key r = Some key" "non_terminal r"
    by (rule schedule_owner_Some [OF inv Some])
  from getJobRowById_member [OF inv r(1), of cfg] own Some r(2) obtain job where
    job: "owner = Some job" "normalizeJobRow cfg r = Inr job" by auto
  note F = normalize_fields [OF job(2) tables_okD(2) [OF store_invD [OF inv] r(1)]]
  show thesis
  proof (cases "c_status r = Queued")
    case True
    with op job F cancel_queued_hit(1) [OF inv r(1) True] show thesis
      by (intro cancelled [OF r(1) True r(3)]) (auto simp: replace_owner_def)
  next
    case False
    with r(4) F op job show thesis by (intro kept) (auto simp: replace_owner_def non_terminal_def)
  qed
qed


lemma tables_replace:
  assumes ok: "tables_ok (jobs d1) (concurrency d1) ss" and p: "prepared_ok p" and key: "key \<noteq> []"
    and ins: "insertPreparedJob p (Some key) d1 = Inr d2"
    and sub: "\<And>ow. ow \<in> set (sched_keys d1) \<Longrightarrow> fst ow \<noteq> key \<Longrightarrow> ow \<in> set ss"
    and dis: "distinct (map fst (sched_keys d1))"
  shows "tables_ok (jobs d2) (concurrency d2) (sched_keys (upsert_schedule_owner key (p_jobId p) d2))"
proof -
  note I = insert_tables [OF ok p _ ins]
  have k: "Some key \<noteq> Some []" using key by simp
  have "owned (jobs d2) (key, p_jobId p)"
    using key by (auto simp: owned_def I(2) [OF k] prepared_row_def non_terminal_def)
  then show ?thesis
    by (intro tables_owners [OF I(1) [OF k]])
      (use upsert_sched(2,3) [where d = d2 and key = key and jobId = "p_jobId p"] sub dis I(3) [OF k] in auto)
qed

lemma bucket_cancel_insert:
  assumes "distinct (map c_id (jobs d))" "pins (jobs d) cond r" "c_status r = Queued"
    and "jobs (d1 :: db) = sql_update cond (\<lambda>r. r\<lparr>c_status := Cancelled\<rparr>) (jobs d)"
    and "jobs d2 = jobs d1 @ [x]" "c_status x = Queued"
  shows "bucket_count d2 b = bucket_count d b"
proof -
  have "bucket_count d1 b = bucket_count d b + transition_deltas Queued Cancelled b"
    using bucket_count_move [OF assms(1,2,4)] assms(3) by (simp add: known_status_def)
  moreover have "transition_deltas Queued Cancelled b + delta2 B_all 1 B_queued 1 b = 0"
    by (cases b) (simp_all add: transition_deltas_def delta2_def delta1_def)
  ultimately show ?thesis using bucket_count_insert [OF assms(5,6), of b] by simp
qed

lemma sound_replaceScheduled:
  assumes inv: "store_inv d"
    and op: "replaceScheduled cfg acquired now uuid v jobName args options d = Inr (res, d')"
  shows "sound d d'"
proof -
  note T = store_invD [OF inv]
  from op obtain key p owner previous d1 d2 where key: "normalizeScheduleKey v = Inr key"
      and p: "prepareJob cfg now uuid jobName args options = Inr p"
      and own: "(case schedule_owner key d of None \<Rightarrow> Inr None | Some ownerId \<Rightarrow> getJobRowById cfg d ownerId) = Inr owner"
      and rep: "replace_owner cfg owner d = Inr (previous, d1)"
      and ins: "insertPreparedJob p (Some key) d1 = Inr d2"
      and rec: "(if (case previous of Some (_, Previous_Queued) \<Rightarrow> False | _ \<Rightarrow> True)
           then recordCountDelta (delta2 B_all 1 B_queued 1) (upsert_schedule_owner key (p_jobId p) d2)
           else Inr (upsert_schedule_owner key (p_jobId p) d2)) = Inr d'"
    by (auto simp: replaceScheduled_def bindE_eq_Inr Let_def split: if_splits)
  note p = prepareJob_ok [OF p]
  have key: "key \<noteq> []" using key by (auto simp: normalizeScheduleKey_def split: jsval.splits if_splits)
  let ?d3 = "upsert_schedule_owner key (p_jobId p) d2"
  from inv own rep show ?thesis
  proof (cases rule: replace_owner_cases)
    case kept
    note I = insert_tables [OF T p _ ins [unfolded kept(1)]]
    have rec': "recordCountDelta (delta2 B_all 1 B_queued 1) ?d3 = Inr d'"
      using rec kept(2) by (auto split: option.splits previous_status.splits prod.splits)
    have "tables_ok (jobs d2) (concurrency d2) (sched_keys ?d3)"
      by (rule tables_replace [OF T p key ins [unfolded kept(1)]]) (use tables_okD(5) [OF T] in auto)
    moreover have "ledger_ext d d'"
    proof (rule ledger_record [OF rec'])
      show "bucket_count ?d3 b = bucket_count d b + delta2 B_all 1 B_queued 1 b" for b
        by (rule bucket_count_insert [of _ _ "prepared_row p (Some key)"]) (use key I(2) in \<open>simp_all add: prepared_row_def\<close>)
    qed (use inv key I(4,5) in \<open>auto simp: store_inv_def\<close>)
    ultimately show ?thesis
      unfolding sound_def store_inv_def recordCountDelta_tables [OF rec'] by (auto dest: ledger_revision)
  next
    case (cancelled r)
    let ?ss = "sql_delete (\<lambda>ow. snd ow = c_id r \<and> Some (fst ow) = c_schedule_key r) (sched_keys d)"
    note hit = cancel_queued_hit [OF inv cancelled(1,2)]
    have ok1: "tables_ok (jobs d1) (concurrency d1) ?ss"
      using tables_cancel_queued [OF inv hit(2) cancel_benign [OF tables_okD(2) [OF T cancelled(1)]] cancelled(2)]
      by (simp add: cancelled(5) non_terminal_def)
    note I = insert_tables [OF ok1 p _ ins]
    have d': "d' = ?d3" using rec cancelled(4) by simp
    have "tables_ok (jobs d2) (concurrency d2) (sched_keys ?d3)"
      by (rule tables_replace [OF ok1 p key ins]) (use tables_okD(5) [OF T] in \<open>auto simp: cancelled(3,5)\<close>)
    moreover have "ledger_ext d d'"
    proof (rule ledger_quiet)
      have "bucket_count d2 b = bucket_count d b" for b
        by (rule bucket_cancel_insert [OF tables_okD(1) [OF T] hit(2) cancelled(2), of d1 _ "prepared_row p (Some key)"])
          (use I(2) key in \<open>simp_all add: cancelled(5)\<close>, simp add: prepared_row_def)
      then show "bucket_count d' b = bucket_count d b" for b
        using bucket_count_jobs [of ?d3 d2 b] by (simp add: d')
    qed (use inv key I(4,5) in \<open>simp_all add: d' cancelled(5) store_inv_def\<close>)
    ultimately show ?thesis
      unfolding sound_def store_inv_def by (auto simp: d' dest: ledger_revision)
  qed
qed


subsection \<open>Retention\<close>

lemma tables_delete:
  assumes ok: "tables_ok js ks ss" and dead: "\<And>r. r \<in> set js \<Longrightarrow> cond r \<Longrightarrow> \<not> non_terminal r"
  shows "tables_ok (sql_delete cond js) ks ss"
proof -
  note D = tables_okD [OF ok]
  have "sql_count (holds key) (sql_delete cond js) = sql_count (holds key) js" for key
    unfolding sql_count_delete by (rule sql_count_cong) (use dead in \<open>auto simp: holds_def non_terminal_def\<close>)
  moreover have "owned (sql_delete cond js) ow" if "ow \<in> set ss" for ow
    using D(6) [OF that] dead by (auto simp: owned_def)
  ultimately show ?thesis
    using D distinct_key_sql_delete [OF D(1)] by (simp add: tables_ok_def)
qed

lemma bucket_count_delete:
  assumes jobs: "jobs d1 = sql_delete cond (jobs d)"
    and st: "\<And>r. r \<in> set (jobs d) \<Longrightarrow> cond r \<Longrightarrow> c_status r = prune_status kind"
  shows "bucket_count d1 b = bucket_count d b
    + delta2 B_all (- int (sql_count cond (jobs d))) (prune_bucket kind) (- int (sql_count cond (jobs d))) b"
proof -
  have "sql_count (\<lambda>r. c_status r = s \<and> cond r) (jobs d) = (if s = prune_status kind then sql_count cond (jobs d) else 0)" for s
    using st by (auto intro: sql_count_cong sql_count_zero)
  then have m: "status_total s d1 = status_total s d - (if s = prune_status kind then int (sql_count cond (jobs d)) else 0)" for s
    using sql_count_split [of "\<lambda>r. c_status r = s" "jobs d" cond]
    by (simp add: status_total_def jobs sql_count_delete)
  show ?thesis by (cases b; cases kind) (simp_all add: m delta2_def delta1_def)
qed

text \<open>The rows one batch selects, and that a batch removes exactly those.\<close>

definition prune_selected :: "prune_kind \<Rightarrow> int \<Rightarrow> nat \<Rightarrow> db \<Rightarrow> job_rec list" where
  "prune_selected kind cutoff n d =
     take n (filter (\<lambda>r. c_status r = prune_status kind \<and> sql_le (prune_column kind r) cutoff) (jobs d))"

lemma prune_selected_member:
  "r \<in> set (prune_selected kind cutoff n d) \<Longrightarrow>
     r \<in> set (jobs d) \<and> c_status r = prune_status kind \<and> sql_le (prune_column kind r) cutoff"
  by (auto simp: prune_selected_def dest: in_set_takeD)

lemma prune_selected_ids:
  assumes "distinct (map c_id (jobs d))" "r \<in> set (jobs d)"
  shows "c_id r \<in> c_id ` set (prune_selected kind cutoff n d) \<longleftrightarrow> r \<in> set (prune_selected kind cutoff n d)"
  using assms prune_selected_member by (metis (no_types, lifting) distinct_map_inj_on_eq image_iff)

lemma prune_batch_Inr:
  assumes op: "prune_batch kind cutoff n d = Inr (removed, d')"
  defines "cond \<equiv> (\<lambda>r. c_id r \<in> c_id ` set (prune_selected kind cutoff n d))"
  shows "removed = sql_count cond (jobs d)"
    and "\<exists>d1. d1 = d\<lparr>jobs := sql_delete cond (jobs d)\<rparr> \<and>
      recordCountDelta (delta2 B_all (- int removed) (prune_bucket kind) (- int removed)) d1 = Inr d'"
proof -
  have "removed = sql_count cond (jobs d) \<and> (\<exists>d1. d1 = d\<lparr>jobs := sql_delete cond (jobs d)\<rparr> \<and>
      recordCountDelta (delta2 B_all (- int removed) (prune_bucket kind) (- int removed)) d1 = Inr d')"
  proof (cases "prune_selected kind cutoff n d = []")
    case True
    then have "cond = (\<lambda>_. False)" by (simp add: cond_def)
    moreover from True op have "removed = 0" "d' = d"
      by (auto simp: prune_batch_def prune_selected_def Let_def)
    ultimately show ?thesis
      by (simp add: sql_count_def sql_delete_def recordCountDelta_def delta2_def delta1_def
          BACKGROUND_JOB_COUNT_BUCKETS_def Let_def)
  next
    case False
    with op show ?thesis
      by (auto simp: prune_batch_def prune_selected_def [symmetric] Let_def bindE_eq_Inr cond_def)
  qed
  then show "removed = sql_count cond (jobs d)"
    "\<exists>d1. d1 = d\<lparr>jobs := sql_delete cond (jobs d)\<rparr> \<and>
      recordCountDelta (delta2 B_all (- int removed) (prune_bucket kind) (- int removed)) d1 = Inr d'" by auto
qed

lemma sound_prune_batch:
  assumes inv: "store_inv d" and op: "prune_batch kind cutoff n d = Inr (removed, d')"
  shows "sound d d'"
proof -
  note T = store_invD [OF inv]
  let ?cond = "\<lambda>r. c_id r \<in> c_id ` set (prune_selected kind cutoff n d)"
  let ?d1 = "d\<lparr>jobs := sql_delete ?cond (jobs d)\<rparr>"
  from prune_batch_Inr [OF op] have removed: "removed = sql_count ?cond (jobs d)"
    and rec: "recordCountDelta (delta2 B_all (- int removed) (prune_bucket kind) (- int removed)) ?d1 = Inr d'" by auto
  have st: "c_status r = prune_status kind" if "r \<in> set (jobs d)" "?cond r" for r
    using that prune_selected_ids [OF tables_okD(1) [OF T]] prune_selected_member by blast
  have "tables_ok (jobs d') (concurrency d') (sched_keys d')"
    unfolding recordCountDelta_tables [OF rec] using st
    by (simp, intro tables_delete [OF T]) (cases kind; auto simp: non_terminal_def)
  moreover have "ledger_ext d d'"
  proof (rule ledger_record [OF rec])
    show "bucket_count ?d1 b = bucket_count d b + delta2 B_all (- int removed) (prune_bucket kind) (- int removed) b" for b
      unfolding removed by (rule bucket_count_delete) (use st in auto)
  qed (use inv in \<open>auto simp: store_inv_def\<close>)
  ultimately show ?thesis by (auto simp: sound_def store_inv_def dest: ledger_revision)
qed

lemma sound_clearAll:
  assumes inv: "store_inv d" and op: "clearAll d = Inr (u, d')"
  shows "sound d d'"
proof -
  let ?d1 = "d\<lparr>mail_ops := [], idem_keys := [], sched_keys := [], jobs := [], concurrency := []\<rparr>"
  from op have rec: "recordCountDelta (\<lambda>b. - bucket_count d b) ?d1 = Inr d'"
    by (auto simp: clearAll_def countSnapshot_def bindE_eq_Inr Let_def)
  have "bucket_count ?d1 b = 0" for b by (cases b) (simp_all add: status_total_def)
  then have "ledger_ext d d'" by (intro ledger_record [OF rec]) (use inv in \<open>auto simp: store_inv_def\<close>)
  then show ?thesis
    unfolding sound_def store_inv_def recordCountDelta_tables [OF rec] by (auto simp: tables_ok_def dest: ledger_revision)
qed


subsection \<open>Start-up reconciliation\<close>

text \<open>
  While queues are adopted and released the counters are stale; \<open>tables_pre\<close> is the invariant
  without them, and the final recount restores the rest.
\<close>

definition tables_pre :: "job_rec list \<Rightarrow> string list \<Rightarrow> (string \<times> string) list \<Rightarrow> bool" where
  "tables_pre js keys ss =
     (distinct (map c_id js) \<and> (\<forall>r \<in> set js. row_ok (set keys) r) \<and> distinct keys
      \<and> distinct (map fst ss) \<and> (\<forall>ow \<in> set ss. owned js ow))"

definition pre_inv :: "db \<Rightarrow> db \<Rightarrow> bool" where
  "pre_inv d0 d = (tables_pre (jobs d) (map k_concurrency_key (concurrency d)) (sched_keys d)
     \<and> broadcasts d = broadcasts d0 \<and> count_revision d = count_revision d0
     \<and> map c_status (jobs d) = map c_status (jobs d0))"

lemma bucket_count_statuses:
  assumes "map c_status (jobs d') = map c_status (jobs d)"
  shows "bucket_count d' b = bucket_count d b"
proof -
  have c: "sql_count (\<lambda>r. c_status r = s) js = length (filter (\<lambda>x. x = s) (map c_status js))" for s js
    by (simp add: sql_count_def filter_map comp_def)
  have "status_total s d' = status_total s d" for s unfolding status_total_def c assms ..
  then show ?thesis by (cases b) simp_all
qed

lemma pre_rekey:
  assumes pre: "pre_inv d0 d" and key: "\<And>k. new = Some k \<Longrightarrow> k \<noteq> [] \<and> k \<in> k_concurrency_key ` set (concurrency d)"
  shows "pre_inv d0 (d\<lparr>jobs := sql_update cond (\<lambda>r. r\<lparr>c_concurrency_key := new, c_max_concurrency := cap\<rparr>) (jobs d)\<rparr>)"
proof -
  let ?f = "\<lambda>r. r\<lparr>c_concurrency_key := new, c_max_concurrency := cap\<rparr>"
  have st: "map c_status (sql_update cond ?f (jobs d)) = map c_status (jobs d)"
    and ids: "map c_id (sql_update cond ?f (jobs d)) = map c_id (jobs d)"
    by (rule map_key_sql_update, simp)+
  have rows: "row_ok (k_concurrency_key ` set (concurrency d)) r" if "r \<in> set (sql_update cond ?f (jobs d))" for r
    using that pre key unfolding set_sql_update
    by (auto simp: pre_inv_def tables_pre_def row_ok_def)
  have "owned (sql_update cond ?f (jobs d)) ow" if "owned (jobs d) ow" for ow
  proof -
    from that obtain r where r: "r \<in> set (jobs d)" "c_id r = snd ow" "c_schedule_key r = Some (fst ow)" "non_terminal r"
        "fst ow \<noteq> []" by (auto simp: owned_def)
    let ?x = "if cond r then ?f r else r"
    have "?x \<in> set (sql_update cond ?f (jobs d))" using r(1) unfolding set_sql_update by blast
    moreover have "c_id ?x = snd ow" "c_schedule_key ?x = Some (fst ow)" "non_terminal ?x"
      using r by (simp_all add: non_terminal_def)
    ultimately show ?thesis using r(5) unfolding owned_def by blast
  qed
  with pre rows show ?thesis by (auto simp: pre_inv_def tables_pre_def st ids)
qed

lemma pre_ensure:
  assumes pre: "pre_inv d0 d" and op: "ensureQueueConcurrencyKey key cap d = Inr d'"
  shows "pre_inv d0 d' \<and> key \<in> k_concurrency_key ` set (concurrency d')"
proof (cases "find_concurrency key d")
  case None
  then have fresh: "key \<notin> k_concurrency_key ` set (concurrency d)" by (simp only: find_concurrency_None not_False_eq_True)
  with None op have "d' = d\<lparr>concurrency := concurrency d @ [\<lparr>k_concurrency_key = key, k_max_concurrency = cap, k_active_count = 0\<rparr>]\<rparr>"
    by (simp add: ensureQueueConcurrencyKey_def insertConcurrencyRow_def sql_insert_def Let_def)
  moreover have "row_ok (insert key (k_concurrency_key ` set (concurrency d))) r" if "r \<in> set (jobs d)" for r
    by (rule row_ok_mono [of "k_concurrency_key ` set (concurrency d)"])
      (use that pre in \<open>auto simp: pre_inv_def tables_pre_def\<close>)
  ultimately show ?thesis using pre fresh by (auto simp: pre_inv_def tables_pre_def)
next
  case (Some row)
  have keys: "map k_concurrency_key (sql_update c (\<lambda>r. r\<lparr>k_max_concurrency := cap\<rparr>) ks) = map k_concurrency_key ks" for c ks
    by (rule map_key_sql_update) simp
  from Some op have "d' = d \<or> d' = d\<lparr>concurrency := sql_update (\<lambda>r. k_concurrency_key r = key)
      (\<lambda>r. r\<lparr>k_max_concurrency := cap\<rparr>) (concurrency d)\<rparr>"
    by (simp add: ensureQueueConcurrencyKey_def Let_def split: if_splits)
  then have "map k_concurrency_key (concurrency d') = map k_concurrency_key (concurrency d)"
      "jobs d' = jobs d" "sched_keys d' = sched_keys d" "broadcasts d' = broadcasts d" "count_revision d' = count_revision d"
    by (auto simp: keys)
  with pre find_concurrency_Some [OF Some] show ?thesis
    unfolding pre_inv_def by (metis keys_of_map)
qed

lemma pre_adopt: "pre_inv d0 d \<Longrightarrow> adopt_queue cfg queue d = Inr d' \<Longrightarrow> pre_inv d0 d'"
proof (cases "queueMaxConcurrency cfg queue")
  case (Some cap)
  assume pre: "pre_inv d0 d" and op: "adopt_queue cfg queue d = Inr d'"
  with Some obtain d1 where d1: "ensureQueueConcurrencyKey (QUEUE_CONCURRENCY_KEY_PREFIX @ queue) cap d = Inr d1"
    by (auto simp: adopt_queue_def Let_def bindE_eq_Inr)
  from pre_ensure [OF pre d1] op Some d1 show ?thesis
    by (auto simp: adopt_queue_def Let_def QUEUE_CONCURRENCY_KEY_PREFIX_def intro!: pre_rekey)
qed (simp add: adopt_queue_def)

lemma pre_release: "pre_inv d0 d \<Longrightarrow> pre_inv d0 (release_unconfigured cfg key d)"
  by (auto simp: release_unconfigured_def intro!: pre_rekey)

lemma pre_tables:
  assumes "pre_inv d0 d" "reconcileQueueConcurrency_tables cfg d = Inr d'"
  shows "pre_inv d0 d'"
proof -
  have rel: "pre_inv d0 d1 \<Longrightarrow> pre_inv d0 (foldl (\<lambda>d' row. release_unconfigured cfg (k_concurrency_key row) d') d1 ks)" for d1 ks
    by (induction ks arbitrary: d1) (auto simp: pre_release)
  from assms(2) obtain d1 where "foldE (adopt_queue cfg) (map fst (cfg_queues cfg)) d = Inr d1"
      "d' = foldl (\<lambda>d' row. release_unconfigured cfg (k_concurrency_key row) d') d1 (concurrency d1)"
    by (auto simp: reconcileQueueConcurrency_tables_def bindE_eq_Inr)
  moreover from this(1) have "pre_inv d0 d1"
    by (rule foldE_invariant) (auto intro: assms(1) pre_adopt)
  ultimately show ?thesis using rel by blast
qed

lemma reconcile_inv:
  assumes "pre_inv d0 d" "\<exists>r. count_revision d0 = Some r"
  shows "sound d0 (reconcileConcurrency d)"
proof -
  have eq: "(\<lambda>r. c_status r = Handed_Off \<and> c_concurrency_key r = Some key) = holds key" for key
    by (auto simp: holds_def)
  have ks: "map k_concurrency_key (concurrency (reconcileConcurrency d)) = map k_concurrency_key (concurrency d)"
    by (simp add: reconcileConcurrency_def comp_def)
  have act: "k_active_count k = int (sql_count (holds (k_concurrency_key k)) (jobs d))"
    if "k \<in> set (concurrency (reconcileConcurrency d))" for k
    using that by (auto simp: reconcileConcurrency_def eq)
  have other: "jobs (reconcileConcurrency d) = jobs d" "sched_keys (reconcileConcurrency d) = sched_keys d"
      "broadcasts (reconcileConcurrency d) = broadcasts d" "count_revision (reconcileConcurrency d) = count_revision d"
    by (simp_all add: reconcileConcurrency_def)
  have "store_inv (reconcileConcurrency d)"
    using assms act keys_of_map [OF ks]
    by (auto simp: store_inv_def tables_ok_def other ks pre_inv_def tables_pre_def)
  moreover have "ledger_ext d0 (reconcileConcurrency d)"
    by (rule ledger_quiet) (use assms in \<open>auto simp: other pre_inv_def intro!: bucket_count_statuses\<close>)
  ultimately show ?thesis by (simp add: sound_def)
qed

lemma store_inv_pre: "store_inv d \<Longrightarrow> pre_inv d d"
  by (auto simp: store_inv_def pre_inv_def tables_ok_def tables_pre_def)

lemma sound_reconcile:
  assumes inv: "store_inv d" and op: "reconcileQueueConcurrency cfg acquired done d = Inr (m, d')"
  shows "sound d d'"
proof (cases "done")
  case True
  with op inv show ?thesis by (simp add: reconcileQueueConcurrency_def sound_refl)
next
  case False
  with op obtain d1 where "reconcileQueueConcurrency_tables cfg d = Inr d1" "d' = reconcileConcurrency d1"
    by (auto simp: reconcileQueueConcurrency_def bindE_eq_Inr split: if_splits)
  with pre_tables [OF store_inv_pre [OF inv]] reconcile_inv inv show ?thesis by (auto simp: store_inv_def)
qed


subsection \<open>The step relation\<close>

text \<open>
  One committed operation is one step. The label tells a handoff that granted a lease and a report
  that was accepted from everything else. \<open>raced\<close> is an idempotent enqueue whose read of the
  owner is followed by other committed operations before its claim.
\<close>

datatype store_label =
    Granted string string
  | Accepted string "string option"
  | Cleared
  | Internal

inductive store_op :: "store_cfg \<Rightarrow> db \<Rightarrow> store_label \<Rightarrow> db \<Rightarrow> bool" for cfg where
  op_enqueue: "enqueue cfg (\<lambda>d. d) now uuid jobName args options d = Inr (jobId, d') \<Longrightarrow> store_op cfg d Internal d'"
| op_replace: "replaceScheduled cfg acquired now uuid key jobName args options d = Inr (res, d') \<Longrightarrow> store_op cfg d Internal d'"
| op_cancel_scheduled: "cancelScheduled cfg acquired key d = Inr (out, d') \<Longrightarrow> store_op cfg d Internal d'"
| op_handoff: "markHandedOff cfg now jobId h worker d = Inr (lease, d') \<Longrightarrow>
    store_op cfg d (if lease = None then Internal else Granted jobId h) d'"
| op_complete: "markCompleted cfg now jobId rep d = Inr (ok, d') \<Longrightarrow>
    store_op cfg d (if ok then Accepted jobId (rep_handoffId rep) else Internal) d'"
| op_reschedule: "markRescheduled cfg now jobId delay rep d = Inr (ok, d') \<Longrightarrow>
    store_op cfg d (if ok then Accepted jobId (rep_handoffId rep) else Internal) d'"
| op_fail: "markFailed cfg now jobId e rep d = Inr (upd, d') \<Longrightarrow>
    store_op cfg d (if upd = None then Internal else Accepted jobId (rep_handoffId rep)) d'"
| op_return: "markReturnedToQueue cfg now jobId h d = Inr (u, d') \<Longrightarrow> store_op cfg d Internal d'"
| op_orphans: "markOrphanedJobs cfg now clock after d = Inr (js, d') \<Longrightarrow> store_op cfg d Internal d'"
| op_cancel: "cancel cfg jobId d = Inr (ok, d') \<Longrightarrow> store_op cfg d Internal d'"
| op_prune: "prune_batch kind cutoff n d = Inr (removed, d') \<Longrightarrow> store_op cfg d Internal d'"
| op_clear: "clearAll d = Inr (u, d') \<Longrightarrow> store_op cfg d Cleared d'"
| op_reconcile: "reconcileQueueConcurrency cfg acquired memo d = Inr (m, d') \<Longrightarrow> store_op cfg d Internal d'"
| op_mail_attempt: "beginAttempt (cfg_host cfg) le capability payload now False (mail_ops d) = Inr (window, rows) \<Longrightarrow>
    store_op cfg d Internal (d\<lparr>mail_ops := rows\<rparr>)"

definition any_op :: "store_cfg \<Rightarrow> db \<Rightarrow> db \<Rightarrow> bool" where
  "any_op cfg d d' = (\<exists>l. store_op cfg d l d')"

inductive store_step :: "store_cfg \<Rightarrow> db \<Rightarrow> db \<Rightarrow> bool" for cfg where
  step_op: "store_op cfg d l d' \<Longrightarrow> store_step cfg d d'"
| raced: "(any_op cfg)\<^sup>*\<^sup>* d (env d) \<Longrightarrow> enqueue cfg env now uuid jobName args options d = Inr (jobId, d') \<Longrightarrow>
    store_step cfg d d'"

definition store_start :: "db \<Rightarrow> bool" where
  "store_start d = (jobs d = [] \<and> idem_keys d = [] \<and> sched_keys d = [] \<and> concurrency d = [] \<and> mail_ops d = []
     \<and> count_revision d = Some 0 \<and> broadcasts d = [])"

lemma sound_op:
  assumes "store_inv d" "store_op cfg d l d'"
  shows "sound d d'"
  using assms(2,1)
proof cases
  case op_enqueue
  then show ?thesis using sound_enqueue [where env = "\<lambda>d. d"] assms(1) sound_refl by blast
next
  case (op_mail_attempt le capability payload now window rows)
  then show ?thesis using assms(1)
    by (auto simp: sound_def store_inv_def intro!: ledger_quiet bucket_count_jobs)
qed (blast intro: sound_replaceScheduled sound_cancelScheduled sound_markHandedOff sound_markCompleted
    sound_markRescheduled sound_markFailed sound_markReturnedToQueue sound_markOrphanedJobs sound_cancel
    sound_prune_batch sound_clearAll sound_reconcile)+

lemma sound_ops: "(any_op cfg)\<^sup>*\<^sup>* d d' \<Longrightarrow> store_inv d \<Longrightarrow> sound d d'"
proof (induction rule: rtranclp_induct)
  case (step d1 d2)
  then obtain l where "sound d d1" "store_op cfg d1 l d2" by (auto simp: any_op_def)
  then show ?case using sound_op sound_trans by (metis sound_def)
qed (rule sound_refl)

lemma sound_step: "store_step cfg d d' \<Longrightarrow> store_inv d \<Longrightarrow> sound d d'"
proof (induction rule: store_step.induct)
  case (raced d env now uuid jobName args options jobId d')
  then show ?case using sound_enqueue [where env = env] sound_ops by blast
qed (rule sound_op)

lemma store_start_inv: "store_start d \<Longrightarrow> store_inv d"
  by (simp add: store_start_def store_inv_def tables_ok_def)

interpretation job_store: invariant_system store_start "store_step cfg" store_inv for cfg
  by unfold_locales (auto simp: store_start_inv dest: sound_step simp: sound_def)

interpretation job_ledger: ledger_system "store_step cfg" broadcasts event_weight bucket_count store_inv for cfg
  by unfold_locales (auto dest!: sound_step simp: sound_def ledger_ext_def)

lemma ledger_run_ext: "(store_step cfg)\<^sup>*\<^sup>* d d' \<Longrightarrow> store_inv d \<Longrightarrow> ledger_ext d d'"
proof (induction rule: rtranclp_induct)
  case (step d1 d2)
  then show ?case using job_store.run_inv [OF step.prems step.hyps(1)] sound_step ledger_trans
    by (metis sound_def)
qed (rule ledger_refl)

end
