(* ===== verification/Job_Store_Lease.thy ===== *)
theory Job_Store_Lease
  imports Job_Store_System
begin

text \<open>
  Leases. A handoff grants a worker the lease named by a handoff id; a report ends it. The locale
  states the protocol over any labelled step relation and counts: no lease is ended more often than
  it was granted. It is interpreted on the operations of the job store, whose fence is the pair of
  conditions \<open>status = 'handed_off'\<close> and \<open>handoff_id = \<dots>\<close> of its updates.
\<close>

subsection \<open>The protocol\<close>

inductive trace :: "('s \<Rightarrow> 'l \<Rightarrow> 's \<Rightarrow> bool) \<Rightarrow> 's \<Rightarrow> 'l list \<Rightarrow> 's \<Rightarrow> bool" for step where
  trace_nil: "trace step s [] s"
| trace_cons: "step s l t \<Longrightarrow> trace step t ls u \<Longrightarrow> trace step s (l # ls) u"

locale lease_protocol =
  fixes step :: "'s \<Rightarrow> 'l \<Rightarrow> 's \<Rightarrow> bool"
    and valid :: "'s \<Rightarrow> bool"
    and leased :: "'s \<Rightarrow> 'k \<Rightarrow> bool"
    and grants :: "'l \<Rightarrow> 'k \<Rightarrow> bool"
    and ends :: "'l \<Rightarrow> 'k \<Rightarrow> bool"
  assumes valid_step: "valid s \<Longrightarrow> step s l t \<Longrightarrow> valid t"
    and end_held: "valid s \<Longrightarrow> step s l t \<Longrightarrow> ends l k \<Longrightarrow> leased s k"
    and end_drops: "valid s \<Longrightarrow> step s l t \<Longrightarrow> ends l k \<Longrightarrow> \<not> leased t k"
    and granted_only: "valid s \<Longrightarrow> step s l t \<Longrightarrow> leased t k \<Longrightarrow> leased s k \<or> grants l k"
begin

lemma ends_bounded:
  "trace step s ls t \<Longrightarrow> valid s \<Longrightarrow>
     length (filter (\<lambda>l. ends l k) ls) + of_bool (leased t k) \<le> of_bool (leased s k) + length (filter (\<lambda>l. grants l k) ls)"
proof (induction rule: trace.induct)
  case (trace_cons s l t ls u)
  have "valid t" using trace_cons by (blast intro: valid_step)
  moreover have "of_bool (ends l k) + of_bool (leased t k) \<le> (of_bool (leased s k) + of_bool (grants l k) :: nat)"
    using end_held [OF trace_cons.prems trace_cons.hyps(1), of k] end_drops [OF trace_cons.prems trace_cons.hyps(1), of k]
      granted_only [OF trace_cons.prems trace_cons.hyps(1), of k] by (auto simp: of_bool_def)
  ultimately show ?case using trace_cons.IH by (auto simp: of_bool_def split: if_splits)
qed simp

lemma ends_at_most_once:
  assumes "trace step s ls t" "valid s" "\<not> leased s k" "length (filter (\<lambda>l. grants l k) ls) \<le> 1"
  shows "length (filter (\<lambda>l. ends l k) ls) \<le> 1"
  using ends_bounded [OF assms(1,2), of k] assms(3,4) by simp

end

subsection \<open>The store's leases\<close>

fun leased :: "db \<Rightarrow> string \<times> string \<Rightarrow> bool" where
  "leased d (jobId, h) = (\<exists>r \<in> set (jobs d). c_id r = jobId \<and> c_status r = Handed_Off \<and> c_handoff_id r = Some h)"

fun grants_lease :: "store_label \<Rightarrow> string \<times> string \<Rightarrow> bool" where
  "grants_lease (Granted jobId h) k = (k = (jobId, h))"
| "grants_lease _ k = False"

fun ends_lease :: "store_label \<Rightarrow> string \<times> string \<Rightarrow> bool" where
  "ends_lease (Accepted jobId h) k = (fst k = jobId \<and> h = Some (snd k))"
| "ends_lease _ k = False"

definition no_grant :: "db \<Rightarrow> db \<Rightarrow> bool" where
  "no_grant d d' = (\<forall>k. leased d' k \<longrightarrow> leased d k)"

lemma no_grantD: "no_grant d d' \<Longrightarrow> leased d' k \<Longrightarrow> leased d k"
  unfolding no_grant_def by blast

lemma no_grant_refl: "no_grant d d"
  by (simp add: no_grant_def)

lemma no_grant_trans: "no_grant d d1 \<Longrightarrow> no_grant d1 d2 \<Longrightarrow> no_grant d d2"
  by (simp add: no_grant_def)

lemma no_grant_jobs: "jobs d' = jobs d \<Longrightarrow> no_grant d d'"
  by (simp add: no_grant_def)

lemma no_grant_sub: "set (jobs d') \<subseteq> set (jobs d) \<union> {r. c_status r \<noteq> Handed_Off} \<Longrightarrow> no_grant d d'"
  by (fastforce simp: no_grant_def)

lemma no_grant_update:
  assumes "jobs d' = sql_update cond f (jobs d)" "\<And>r. c_status (f r) \<noteq> Handed_Off"
  shows "no_grant d d'"
  using assms by (intro no_grant_sub) (auto simp: set_sql_update)

lemma no_grant_set: "(\<And>r. c_status (f r) \<noteq> Handed_Off) \<Longrightarrow> no_grant d (d\<lparr>jobs := sql_update cond f (jobs d)\<rparr>)"
  by (rule no_grant_update) simp

lemma no_grant_record: "recordCountDelta req d = Inr d' \<Longrightarrow> no_grant d d'"
  by (intro no_grant_jobs recordCountDelta_tables)

lemma no_grant_transition: "recordStatusTransition old new d = Inr d' \<Longrightarrow> no_grant d d'"
  by (auto simp: recordStatusTransition_def no_grant_refl no_grant_record split: if_splits)

text \<open>Everything but a handoff leaves the set of leases no larger.\<close>

lemma transition_jobs: "recordStatusTransition old new d = Inr d' \<Longrightarrow> jobs d' = jobs d"
  by (auto simp: recordStatusTransition_def recordCountDelta_tables split: if_splits)

lemma requeue_not_handed [simp]: "c_status (requeue_update t r) = Queued"
  by (simp add: requeue_update_def)

lemma ng_markCompleted:
  assumes op: "markCompleted cfg now jobId rep d = Inr (ok, d')"
  shows "no_grant d d'"
proof (cases "accepted_job cfg jobId rep d")
  case (Inr accepted)
  with op show ?thesis
    by (cases accepted) (auto simp: markCompleted_def update_jobs_def bindE_eq_Inr no_grant_refl split: if_split_asm
        dest!: transition_jobs intro!: no_grant_set elim!: no_grant_update)
qed (use op in \<open>simp add: markCompleted_def\<close>)

lemma ng_markRescheduled: "markRescheduled cfg now jobId delay rep d = Inr (ok, d') \<Longrightarrow> no_grant d d'"
  by (auto simp: markRescheduled_def update_jobs_def bindE_eq_Inr no_grant_refl split: option.split_asm if_split_asm
      dest!: transition_jobs intro!: no_grant_set elim!: no_grant_update)

lemma ng_markReturnedToQueue:
  assumes op: "markReturnedToQueue cfg now jobId h d = Inr (u, d')"
  shows "no_grant d d'"
proof (cases "getJobRowById cfg d jobId")
  case (Inr found)
  with op show ?thesis
    by (cases found) (auto simp: markReturnedToQueue_def update_jobs_def bindE_eq_Inr no_grant_refl Let_def split: if_split_asm
        dest!: transition_jobs intro!: no_grant_set elim!: no_grant_update)
qed (use op in \<open>simp add: markReturnedToQueue_def\<close>)

lemma ng_applyFailure:
  assumes "applyFailure cfg now job e o' cond d = Inr (upd, d')"
  shows "no_grant d d'"
proof -
  from assms obtain m n t retry where "jobs d' = sql_update cond (failureUpdate m o' n now t retry) (jobs d)"
    by (auto simp: applyFailure_def update_jobs_def bindE_eq_Inr Let_def split: if_split_asm)
  then show ?thesis by (rule no_grant_update) simp
qed

lemma ng_markFailed:
  assumes op: "markFailed cfg now jobId e rep d = Inr (upd, d')"
  shows "no_grant d d'"
proof (cases "d' = d")
  case False
  with op obtain job upd1 d1 where app: "applyFailure cfg now job e False (activeHandoffConditions job) d = Inr (upd1, d1)"
      and "d' = d1 \<or> (\<exists>old new. recordStatusTransition old new d1 = Inr d')"
    by (auto simp: markFailed_def bindE_eq_Inr split: option.split_asm) metis+
  then show ?thesis using ng_applyFailure [OF app] no_grant_transition by (blast intro: no_grant_trans)
qed (simp add: no_grant_refl)

lemma ng_cancel:
  assumes op: "cancel cfg jobId d = Inr (ok, d')"
  shows "no_grant d d'"
proof (cases "getJobRowById cfg d jobId")
  case (Inr found)
  with op show ?thesis
    by (cases found) (auto simp: cancel_def update_jobs_def bindE_eq_Inr no_grant_refl Let_def split: if_split_asm
        dest!: transition_jobs intro!: no_grant_set elim!: no_grant_update)
qed (use op in \<open>simp add: cancel_def\<close>)

lemma ng_cancel_queued: "no_grant d (snd (cancel_queued jobId d))"
  by (auto simp: cancel_queued_def update_jobs_def intro!: no_grant_set elim!: no_grant_update)

lemma ng_cancelScheduled:
  assumes op: "cancelScheduled cfg acquired v d = Inr (out, d')"
  shows "no_grant d d'"
proof (cases "d' = d")
  case False
  with op obtain key jobId job where 1: "normalizeScheduleKey v = Inr key" "acquired" "schedule_owner key d = Some jobId"
      "getJobRowById cfg d jobId = Inr job"
    by (auto simp: cancelScheduled_def bindE_eq_Inr split: option.splits if_splits)
  let ?m = "case job of Some j \<Rightarrow> if r_status j = Queued then cancel_queued (r_id j) d else (0, d) | None \<Rightarrow> (0, d)"
  obtain n d1 where c: "?m = (n, d1)" by (cases ?m) auto
  have "no_grant d (snd ?m)" by (cases job) (simp_all add: no_grant_refl ng_cancel_queued)
  then have "no_grant d d1" by (simp add: c)
  moreover have "jobs d' = jobs d1"
  proof (cases "n = 1")
    case True
    with op 1 c show ?thesis by (auto simp: cancelScheduled_def bindE_eq_Inr dest!: transition_jobs)
  next
    case False
    from op 1 c False have "bindE (getJobRowById cfg d1 jobId) (\<lambda>current.
        let d2 = releaseScheduleOwnership jobId key d1 in
        case current of Some c \<Rightarrow> if r_status c = Handed_Off then Inr (Outcome_Handed_Off jobId, d2)
                                  else Inr (Outcome_Not_Found, d2)
        | None \<Rightarrow> Inr (Outcome_Not_Found, d2)) = Inr (out, d')"
      by (simp add: cancelScheduled_def)
    then have "d' = releaseScheduleOwnership jobId key d1"
      by (auto simp: bindE_eq_Inr Let_def split: option.split_asm if_split_asm)
    then show ?thesis by simp
  qed
  ultimately show ?thesis by (blast intro: no_grant_jobs no_grant_trans)
qed (simp add: no_grant_refl)

lemma ng_markOrphanedJobs:
  assumes "markOrphanedJobs cfg now clock after d = Inr (js, d')"
  shows "no_grant d d'"
proof -
  from assms obtain d1 c rows where run: "foldE (orphan_one cfg clock) rows ([], d) = Inr (js, d1)"
      and rec: "recordCountDelta c d1 = Inr d'"
    by (auto simp: markOrphanedJobs_def Let_def bindE_eq_Inr)
  have "no_grant d (snd (js, d1))"
    by (rule foldE_invariant [OF run, where P = "\<lambda>s. no_grant d (snd s)"])
      (auto simp: no_grant_refl orphan_one_def bindE_eq_Inr split: option.split_asm dest!: ng_applyFailure,
       (blast intro: no_grant_trans)+)
  then have "no_grant d d1" by simp
  then show ?thesis using no_grant_record [OF rec] by (rule no_grant_trans)
qed

lemma ensure_jobs: "ensure_prepared_concurrency p d = Inr d' \<Longrightarrow> jobs d' = jobs d"
  by (auto elim!: ensure_cases)

lemma insert_jobs: "insertPreparedJob p k d = Inr d' \<Longrightarrow> jobs d' = jobs d @ [prepared_row p k]"
  by (auto simp: insertPreparedJob_def bindE_eq_Inr sql_insert_Inr ensure_jobs)

lemma ng_insert: "insertPreparedJob p k d = Inr d' \<Longrightarrow> no_grant d d'"
  by (rule no_grant_sub) (auto dest!: insert_jobs simp: prepared_row_def)

lemma ng_enqueue_plain: "enqueue_plain p options d = Inr (jobId, d') \<Longrightarrow> no_grant d d'"
  by (auto simp: enqueue_plain_def bindE_eq_Inr no_grant_refl split: option.splits if_splits
      dest!: ng_insert no_grant_record intro: no_grant_trans)

lemma ng_enqueueIdempotently:
  assumes "enqueueIdempotently cfg env args options p d = Inr (jobId, d')" "no_grant d (env d)"
  shows "no_grant d d'"
  using assms(1)
proof (cases rule: enqueueIdempotently_cases)
  case (created row d1 m d2 d3)
  have "no_grant (env d) d1" "no_grant d1 d2" "no_grant d2 d3" "no_grant d3 d'"
    using claim_fields [OF created(1)] ng_insert [OF created(2)] persist_fields [OF created(3)] no_grant_record [OF created(4)]
    by (auto intro: no_grant_jobs)
  with assms(2) show ?thesis by (blast intro: no_grant_trans)
qed (use assms(2) in \<open>auto intro: no_grant_refl\<close>)

lemma ng_enqueue:
  assumes "enqueue cfg env now uuid jobName args options d = Inr (jobId, d')" "no_grant d (env d)"
  shows "no_grant d d'"
  using assms by (auto simp: enqueue_def bindE_eq_Inr split: if_splits intro: ng_enqueueIdempotently ng_enqueue_plain)

lemma ng_replace_owner: "replace_owner cfg owner d = Inr (previous, d1) \<Longrightarrow> no_grant d d1"
  using ng_cancel_queued [of d]
  by (auto simp: replace_owner_def bindE_eq_Inr no_grant_refl cancel_queued_def update_jobs_def split: option.splits if_splits)

lemma ng_replaceScheduled: "replaceScheduled cfg acquired now uuid v jobName args options d = Inr (res, d') \<Longrightarrow> no_grant d d'"
proof -
  assume "replaceScheduled cfg acquired now uuid v jobName args options d = Inr (res, d')"
  then obtain owner previous d1 p k d2 i where 1: "replace_owner cfg owner d = Inr (previous, d1)" "insertPreparedJob p (Some k) d1 = Inr d2"
      and 2: "recordCountDelta (delta2 B_all 1 B_queued 1) (upsert_schedule_owner k i d2) = Inr d' \<or> d' = upsert_schedule_owner k i d2"
    by (auto simp: replaceScheduled_def bindE_eq_Inr Let_def split: if_split_asm) blast+
  have "no_grant d2 d'" using 2 by (auto intro!: no_grant_jobs dest: recordCountDelta_tables(1))
  with ng_replace_owner [OF 1(1)] ng_insert [OF 1(2)] show ?thesis by (blast intro: no_grant_trans)
qed


lemma ng_prune_batch: "prune_batch kind cutoff n d = Inr (removed, d') \<Longrightarrow> no_grant d d'"
  by (rule no_grant_sub) (auto dest!: prune_batch_Inr(2) recordCountDelta_tables(1))

lemma ng_clearAll: "clearAll d = Inr (u, d') \<Longrightarrow> no_grant d d'"
  by (rule no_grant_sub) (auto simp: clearAll_def bindE_eq_Inr Let_def dest!: recordCountDelta_tables(1))

lemma no_grant_rekey:
  "no_grant d (d\<lparr>jobs := sql_update cond (\<lambda>r. r\<lparr>c_concurrency_key := new, c_max_concurrency := cap\<rparr>) (jobs d)\<rparr>)"
proof -
  have same: "c_id (if cond r then r\<lparr>c_concurrency_key := new, c_max_concurrency := cap\<rparr> else r) = c_id r"
    "c_status (if cond r then r\<lparr>c_concurrency_key := new, c_max_concurrency := cap\<rparr> else r) = c_status r"
    "c_handoff_id (if cond r then r\<lparr>c_concurrency_key := new, c_max_concurrency := cap\<rparr> else r) = c_handoff_id r" for r
    by simp_all
  show ?thesis unfolding no_grant_def by (auto simp: set_sql_update same simp del: if_image_distrib)
qed

lemma ensureQueue_jobs: "ensureQueueConcurrencyKey key cap d = Inr d' \<Longrightarrow> jobs d' = jobs d"
  by (auto simp: ensureQueueConcurrencyKey_def insertConcurrencyRow_def Let_def bindE_eq_Inr
      split: option.split_asm sum.split_asm if_split_asm)

lemma ng_adopt:
  assumes op: "adopt_queue cfg queue d = Inr d'"
  shows "no_grant d d'"
proof (cases "queueMaxConcurrency cfg queue")
  case None
  with op show ?thesis by (simp add: adopt_queue_def no_grant_refl)
next
  case (Some cap)
  with op obtain d1 where d1: "ensureQueueConcurrencyKey (QUEUE_CONCURRENCY_KEY_PREFIX @ queue) cap d = Inr d1"
    by (auto simp: adopt_queue_def Let_def bindE_eq_Inr)
  have "no_grant d1 d'" using op Some d1 no_grant_rekey by (auto simp: adopt_queue_def Let_def)
  with no_grant_jobs [OF ensureQueue_jobs [OF d1]] show ?thesis by (rule no_grant_trans)
qed

lemma ng_reconcile: 
  assumes "reconcileQueueConcurrency cfg acquired memo d = Inr (m, d')"
  shows "no_grant d d'"
proof (cases memo)
  case True
  with assms show ?thesis by (simp add: reconcileQueueConcurrency_def no_grant_refl)
next
  case False
  let ?rel = "\<lambda>d' row. release_unconfigured cfg (k_concurrency_key row) d'"
  from False assms obtain d1 where d1: "foldE (adopt_queue cfg) (map fst (cfg_queues cfg)) d = Inr d1"
      and d': "d' = reconcileConcurrency (foldl ?rel d1 (concurrency d1))"
    by (auto simp: reconcileQueueConcurrency_def reconcileQueueConcurrency_tables_def bindE_eq_Inr split: if_split_asm)
  have "no_grant d d1"
    by (rule foldE_invariant [OF d1, where P = "no_grant d"]) (auto intro: no_grant_refl no_grant_trans ng_adopt)
  moreover have "no_grant d1 (foldl ?rel d1 ks)" for ks
  proof (induction ks rule: rev_induct)
    case (snoc k ks)
    moreover have "no_grant x (?rel x k)" for x
      by (simp add: release_unconfigured_def no_grant_refl no_grant_rekey)
    ultimately show ?case using no_grant_trans by fastforce
  qed (simp add: no_grant_refl)
  moreover have "no_grant x (reconcileConcurrency x)" for x
    by (rule no_grant_jobs) (simp add: reconcileConcurrency_def)
  ultimately show ?thesis unfolding d' by (blast intro: no_grant_trans)
qed

lemmas no_grant_ops = ng_markCompleted ng_markRescheduled ng_markReturnedToQueue ng_markFailed ng_cancel
  ng_cancelScheduled ng_markOrphanedJobs ng_replaceScheduled ng_prune_batch ng_clearAll ng_reconcile

lemma handoff_grants:
  assumes "store_inv d" "markHandedOff cfg now jobId h worker d = Inr (lease, d')" "leased d' k"
  shows "leased d k \<or> (lease \<noteq> None \<and> k = (jobId, h))"
  using assms(1,2)
proof (cases rule: markHandedOff_cases)
  case refused
  with assms(3) show ?thesis by simp
next
  case (granted r d1)
  obtain i h' where k: "k = (i, h')" by (cases k)
  from granted(7) have "jobs d' = sql_update (\<lambda>r. c_id r = jobId \<and> c_status r = Queued) (handoff_update now h worker) (jobs d)"
    by (auto dest!: transition_jobs)
  with assms(3) k granted(1) show ?thesis by (auto simp: set_sql_update split: if_split_asm)
qed


text \<open>An accepted report held the lease it names and ends it.\<close>

lemma fence_held:
  assumes inv: "store_inv d" and acc: "accepted_job cfg jobId rep d = Inr (Some job)"
    and hit: "pins (jobs d) (activeHandoffConditions job) r"
    and jobs: "jobs d' = sql_update (activeHandoffConditions job) f (jobs d)" and f: "\<And>r. c_status (f r) \<noteq> Handed_Off"
    and h: "rep_handoffId rep = Some h"
  shows "leased d (jobId, h) \<and> \<not> leased d' (jobId, h)"
proof -
  obtain r0 where r0: "r0 \<in> set (jobs d)" "c_id r0 = jobId" "normalizeJobRow cfg r0 = Inr job"
      "row_ok (k_concurrency_key ` set (concurrency d)) r0" "shouldAcceptReport job rep"
    by (rule accepted_job_Some [OF inv acc])
  note F = normalize_fields [OF r0(3,4)]
  from hit have r: "r \<in> set (jobs d)" "c_status r = Handed_Off" "c_id r = jobId" "sql_eq (c_handoff_id r) (r_handoffId job)"
    using F(1) r0(2) by (auto simp: pins_def activeHandoffConditions_def)
  from r(4) r0(5) h have "c_handoff_id r = Some h" "r_handoffId job = Some h"
    by (auto simp: sql_eq_def shouldAcceptReport_def handoffIdReportMatches_def split: option.split_asm)
  then show ?thesis
    using r F(1) r0(2) f by (auto simp: jobs set_sql_update activeHandoffConditions_def split: if_split_asm)
qed

lemma ended_markCompleted:
  assumes inv: "store_inv d" and op: "markCompleted cfg now jobId rep d = Inr (True, d')" and h: "rep_handoffId rep = Some h"
  shows "leased d (jobId, h) \<and> \<not> leased d' (jobId, h)"
proof -
  let ?f = "\<lambda>r. r\<lparr>c_status := Completed, c_completed_at_ms := Some now\<rparr>"
  from op obtain job where acc: "accepted_job cfg jobId rep d = Inr (Some job)"
      and one: "sql_count (activeHandoffConditions job) (jobs d) = 1"
      and jobs: "jobs d' = sql_update (activeHandoffConditions job) ?f (jobs d)"
    by (auto simp: markCompleted_def update_jobs_def bindE_eq_Inr dest!: transition_jobs split: option.split_asm if_split_asm)
  from one obtain r where "r \<in> set (jobs d)" "activeHandoffConditions job r" using sql_count_pos_iff by (metis zero_less_one)
  then have "pins (jobs d) (activeHandoffConditions job) r" by (auto simp: pins_def activeHandoffConditions_def)
  from fence_held [OF inv acc this jobs _ h] show ?thesis by simp
qed

lemma ended_markRescheduled:
  assumes inv: "store_inv d" and op: "markRescheduled cfg now jobId delay rep d = Inr (True, d')" and h: "rep_handoffId rep = Some h"
  shows "leased d (jobId, h) \<and> \<not> leased d' (jobId, h)"
proof -
  from op obtain job t where acc: "accepted_job cfg jobId rep d = Inr (Some job)"
      and one: "sql_count (activeHandoffConditions job) (jobs d) = 1"
      and jobs: "jobs d' = sql_update (activeHandoffConditions job) (requeue_update t) (jobs d)"
    by (auto simp: markRescheduled_def update_jobs_def bindE_eq_Inr dest!: transition_jobs split: option.split_asm if_split_asm)
  from one obtain r where "r \<in> set (jobs d)" "activeHandoffConditions job r" using sql_count_pos_iff by (metis zero_less_one)
  then have "pins (jobs d) (activeHandoffConditions job) r" by (auto simp: pins_def activeHandoffConditions_def)
  from fence_held [OF inv acc this jobs _ h] show ?thesis by simp
qed

lemma ended_markFailed:
  assumes inv: "store_inv d" and op: "markFailed cfg now jobId e rep d = Inr (Some job', d')" and h: "rep_handoffId rep = Some h"
  shows "leased d (jobId, h) \<and> \<not> leased d' (jobId, h)"
proof -
  from op obtain job d1 where acc: "accepted_job cfg jobId rep d = Inr (Some job)"
      and app: "applyFailure cfg now job e False (activeHandoffConditions job) d = Inr (Some job', d1)"
      and rec: "recordStatusTransition (r_status job) (r_status job') d1 = Inr d'"
    by (auto simp: markFailed_def bindE_eq_Inr split: option.split_asm)
  from app obtain m n t retry where one: "sql_count (activeHandoffConditions job) (jobs d) = 1"
      and jobs: "jobs d1 = sql_update (activeHandoffConditions job) (failureUpdate m False n now t retry) (jobs d)"
    by (auto simp: applyFailure_def update_jobs_def bindE_eq_Inr Let_def split: if_split_asm)
  from one obtain r where "r \<in> set (jobs d)" "activeHandoffConditions job r" using sql_count_pos_iff by (metis zero_less_one)
  then have "pins (jobs d) (activeHandoffConditions job) r" by (auto simp: pins_def activeHandoffConditions_def)
  from fence_held [OF inv acc this jobs _ h] transition_jobs [OF rec] show ?thesis by simp
qed

interpretation store_lease: lease_protocol "store_op cfg" store_inv leased grants_lease ends_lease for cfg
proof unfold_locales
  show "store_inv d \<Longrightarrow> store_op cfg d l d' \<Longrightarrow> store_inv d'" for d l d'
    using sound_op by (simp add: sound_def)
  have "leased d k \<and> \<not> leased d' k" if "store_inv d" "store_op cfg d l d'" "ends_lease l k" for d l d' k
    using that(2,1,3)
    by cases (auto split: if_split_asm dest: ended_markCompleted ended_markRescheduled ended_markFailed)
  then show "store_inv d \<Longrightarrow> store_op cfg d l d' \<Longrightarrow> ends_lease l k \<Longrightarrow> leased d k"
    "store_inv d \<Longrightarrow> store_op cfg d l d' \<Longrightarrow> ends_lease l k \<Longrightarrow> \<not> leased d' k" for d l d' k by blast+
  show "leased d k \<or> grants_lease l k" if "store_inv d" "store_op cfg d l d'" "leased d' k" for d l d' k
    using that(2)
  proof cases
    case (op_handoff now jobId h worker lease)
    with handoff_grants [OF that(1) op_handoff(2) that(3)] show ?thesis by auto
  next
    case op_enqueue
    with that(3) ng_enqueue [where env = "\<lambda>d. d", OF _ no_grant_refl] show ?thesis unfolding no_grant_def by blast
  next
    case (op_mail_attempt le capability payload now window rows)
    with that(3) show ?thesis by (cases k) simp
  qed (rule disjI1, rule no_grantD [OF _ that(3)], erule no_grant_ops)+
qed

end
