(* ===== verification/Job_Store_Example.thy ===== *)
theory Job_Store_Example
  imports Job_Store_Lease
begin

text \<open>
  A concrete store for the witnesses: a host with a small JSON printer and an identity digest, one
  queue with a cap of two, and a database with a handed-off job, a queued job in the capped queue
  and a completed one. \<open>demo_inv\<close> shows that it satisfies the invariant.
\<close>

fun demo_stringify :: "jsval \<Rightarrow> string" where
  "demo_stringify (JStr s) = ''!'' @ s @ ''!''"
| "demo_stringify (JBool b) = (if b then ''true'' else ''false'')"
| "demo_stringify (JArr xs) = ''['' @ concat (map (\<lambda>x. demo_stringify x @ '','') xs) @ '']''"
| "demo_stringify (JObj ps) = ''{'' @ concat (map (\<lambda>(k, x). k @ '':'' @ demo_stringify x @ '','') ps) @ ''}''"
| "demo_stringify (JNum _) = ''0''"
| "demo_stringify _ = ''null''"

definition demo_host :: host where
  "demo_host = \<lparr>json_stringify = demo_stringify,
     json_parse = (\<lambda>s. if s = ''[]'' then Some (JArr []) else None), sha256_hex = (\<lambda>s. s)\<rparr>"

definition demo_cfg :: store_cfg where
  "demo_cfg = \<lparr>cfg_host = demo_host, cfg_queues = [(''mail'', \<lparr>maxConcurrent = JInt 2, priority = JInt 5\<rparr>)]\<rparr>"

definition demo_job :: "string \<Rightarrow> job_status \<Rightarrow> job_rec" where
  "demo_job i s = \<lparr>c_id = i, c_job_name = ''Deliver'', c_args_json = ''[]'', c_execution_mode = ''inline'',
     c_queue = Some ''mail'', c_max_retries = 3, c_attempts = 0, c_status = s, c_scheduled_at_ms = 100,
     c_created_at_ms = 90, c_schedule_key = (if i = ''j2'' then Some ''nightly'' else None),
     c_handed_off_at_ms = (if s = Handed_Off then Some 110 else None),
     c_handoff_id = (if s = Handed_Off then Some ''h1'' else None),
     c_completed_at_ms = (if s = Completed then Some 105 else None),
     c_failed_at_ms = None, c_orphaned_at_ms = None, c_worker_id = None, c_last_error = None,
     c_concurrency_key = Some ''queue:mail'', c_max_concurrency = Some 2, c_timeout_ms = None\<rparr>"

definition demo_db :: db where
  "demo_db = \<lparr>jobs = [demo_job ''j1'' Handed_Off, demo_job ''j2'' Queued, demo_job ''j3'' Completed],
     idem_keys = [], sched_keys = [(''nightly'', ''j2'')],
     concurrency = [\<lparr>k_concurrency_key = ''queue:mail'', k_max_concurrency = 2, k_active_count = 1\<rparr>],
     mail_ops = [], count_revision = Some 7, broadcasts = []\<rparr>"

definition empty_db :: db where
  "empty_db = \<lparr>jobs = [], idem_keys = [], sched_keys = [], concurrency = [], mail_ops = [],
     count_revision = Some 0, broadcasts = []\<rparr>"

lemma empty_start: "store_start empty_db"
  by (simp add: store_start_def empty_db_def)

lemma demo_row: "s = Queued \<or> s = Handed_Off \<or> s = Completed \<Longrightarrow> row_ok {''queue:mail''} (demo_job i s)"
  by (auto simp: row_ok_def demo_job_def known_status_def intro!: exI [of _ Inline])

lemma demo_inv: "store_inv demo_db"
  unfolding store_inv_def demo_db_def tables_ok_def
  by (simp add: demo_row) (simp add: demo_job_def holds_def owned_def non_terminal_def)

definition demo_report :: report where
  "demo_report = \<lparr>rep_handoffId = Some ''h1'', rep_workerId = None, rep_handedOffAtMs = Some 110\<rparr>"

definition ok_state :: "'e + 'a \<times> db \<Rightarrow> db" where
  "ok_state r = (case r of Inl _ \<Rightarrow> empty_db | Inr (_, d) \<Rightarrow> d)"

definition demo_handed :: db where
  "demo_handed = ok_state (markHandedOff demo_cfg 200 ''j2'' ''h2'' None demo_db)"

lemma demo_handoff: "markHandedOff demo_cfg 200 ''j2'' ''h2'' None demo_db = Inr (Some (200, ''h2''), demo_handed)"
  unfolding demo_handed_def by code_simp

end
