(* ===== verification/Job_Store_Claims.thy ===== *)
theory Job_Store_Claims
  imports Job_Store_Example
begin

text \<open>
  The properties of the durable job store: what holds in every reachable state, what the broadcast
  ledger tells a reader, how leases and concurrency caps are kept, and what each operation
  guarantees on its own.
\<close>

subsection \<open>Reachable states\<close>


definition demo_enqueued :: db where
  "demo_enqueued = ok_state (enqueue demo_cfg (\<lambda>d. d) 50 ''j9'' ''Deliver'' [] (no_options\<lparr>opt_queue := JStr ''mail''\<rparr>) empty_db)"

lemma demo_enqueued_op:
  "enqueue demo_cfg (\<lambda>d. d) 50 ''j9'' ''Deliver'' [] (no_options\<lparr>opt_queue := JStr ''mail''\<rparr>) empty_db = Inr (''j9'', demo_enqueued)"
  unfolding demo_enqueued_def by code_simp

lemma demo_enqueued_reached: "reaches store_start (store_step demo_cfg) demo_enqueued"
  by (rule reaches_step [where step = "store_step demo_cfg", OF reaches_start step_op]) (rule empty_start, rule op_enqueue [OF demo_enqueued_op])


text \<open>
  C9: in every reachable state a schedule key is owned by at most one job, and its owner is a live
  (queued or handed-off) job that carries the key.
\<close>

theorem reachable_schedule_owner:
  assumes "reaches store_start (store_step cfg) d" "schedule_owner key d = Some jobId"
  shows "\<exists>r \<in> set (jobs d). c_id r = jobId \<and> c_schedule_key r = Some key \<and> non_terminal r
    \<and> (\<forall>ow \<in> set (sched_keys d). fst ow = key \<longrightarrow> ow = (key, jobId))"
proof -
  note inv = job_store.reaches_inv [OF assms(1)]
  obtain r where r: "r \<in> set (jobs d)" "c_id r = jobId" "c_schedule_key r = Some key" "non_terminal r"
      "(key, jobId) \<in> set (sched_keys d)"
    by (rule schedule_owner_Some [OF inv assms(2)])
  moreover have "ow = (key, jobId)" if "ow \<in> set (sched_keys d)" "fst ow = key" for ow
    using that r(5) tables_okD(5) [OF store_invD [OF inv]] by (metis distinct_map_inj_on_eq fst_conv)
  ultimately show ?thesis by blast
qed

definition demo_scheduled :: db where
  "demo_scheduled = ok_state (replaceScheduled demo_cfg True 50 ''j8'' (JStr ''nightly'') ''Deliver'' [] no_options empty_db)"

lemma demo_scheduled_op:
  "replaceScheduled demo_cfg True 50 ''j8'' (JStr ''nightly'') ''Deliver'' [] no_options empty_db = Inr ((''j8'', None), demo_scheduled)"
  unfolding demo_scheduled_def by code_simp

lemma demo_scheduled_reached: "reaches store_start (store_step demo_cfg) demo_scheduled"
  by (rule reaches_step [where step = "store_step demo_cfg", OF reaches_start step_op]) (rule empty_start, rule op_replace [OF demo_scheduled_op])

theorem reachable_schedule_owner_witness:
  "\<exists>r \<in> set (jobs demo_scheduled). c_id r = ''j8'' \<and> c_schedule_key r = Some ''nightly'' \<and> non_terminal r"
proof -
  have "schedule_owner ''nightly'' demo_scheduled = Some ''j8''" by code_simp
  from reachable_schedule_owner [OF demo_scheduled_reached this] show ?thesis by blast
qed

subsection \<open>The count ledger\<close>

text \<open>
  C3: a reader who holds a count snapshot and adds the deltas broadcast after it always has the
  true counts: over any run the broadcast log grows by events with consecutive revisions whose
  deltas add up to the change of every bucket, and the revision ends at the last of them.
\<close>

theorem ledger_tracks_counts:
  assumes "reaches store_start (store_step cfg) d" "(store_step cfg)\<^sup>*\<^sup>* d d'"
  shows "\<exists>es r. broadcasts d' = broadcasts d @ es \<and> count_revision d = Some r
    \<and> count_revision d' = Some (r + int (length es))
    \<and> map ev_revision es = map (\<lambda>i. r + 1 + int i) [0..<length es]
    \<and> (\<forall>b. bucket_count d' b = bucket_count d b + (\<Sum>e\<leftarrow>es. event_weight e b))"
  using ledger_run_ext [OF assms(2) job_store.reaches_inv [OF assms(1)]] unfolding ledger_ext_def .

theorem ledger_tracks_counts_witness:
  "\<exists>es. broadcasts demo_enqueued = broadcasts empty_db @ es
     \<and> bucket_count demo_enqueued B_queued = bucket_count empty_db B_queued + (\<Sum>e\<leftarrow>es. event_weight e B_queued)
     \<and> bucket_count demo_enqueued B_queued = 1 \<and> length es = 1"
proof -
  have step: "(store_step demo_cfg)\<^sup>*\<^sup>* empty_db demo_enqueued"
    by (rule r_into_rtranclp) (rule step_op [OF op_enqueue [OF demo_enqueued_op]])
  have "bucket_count demo_enqueued B_queued = 1" "length (broadcasts demo_enqueued) = 1" "broadcasts empty_db = []"
    by code_simp+
  with ledger_tracks_counts [OF reaches_start [where step = "store_step demo_cfg"] step, OF empty_start] show ?thesis
    by (metis append_Nil)
qed

subsection \<open>Leases\<close>

text \<open>
  C2: along any sequence of operations the reports accepted for a handoff id of a job are never
  more than the handoffs that granted it; since a handoff id is generated once, a lease is ended by
  at most one accepted completion, failure or reschedule, and duplicate or late reports are dropped.
\<close>

theorem reports_accepted_at_most_once:
  assumes "reaches store_start (store_step cfg) d" "trace (store_op cfg) d ls d'"
    and "\<not> leased d (jobId, h)" "length (filter (\<lambda>l. grants_lease l (jobId, h)) ls) \<le> 1"
  shows "length (filter (\<lambda>l. ends_lease l (jobId, h)) ls) \<le> 1"
  by (rule store_lease.ends_at_most_once [OF assms(2) job_store.reaches_inv [OF assms(1)] assms(3,4)])

definition demo_leased :: db where
  "demo_leased = ok_state (markHandedOff demo_cfg 60 ''j9'' ''h9'' None demo_enqueued)"

definition demo_report9 :: report where
  "demo_report9 = \<lparr>rep_handoffId = Some ''h9'', rep_workerId = None, rep_handedOffAtMs = None\<rparr>"

definition demo_done :: db where
  "demo_done = ok_state (markCompleted demo_cfg 70 ''j9'' demo_report9 demo_leased)"

theorem reports_accepted_at_most_once_witness:
  "\<exists>ls. trace (store_op demo_cfg) demo_enqueued ls demo_done \<and> length (filter (\<lambda>l. ends_lease l (''j9'', ''h9'')) ls) \<le> 1
     \<and> ends_lease (last ls) (''j9'', ''h9'')"
proof -
  have "markHandedOff demo_cfg 60 ''j9'' ''h9'' None demo_enqueued = Inr (Some (60, ''h9''), demo_leased)"
    unfolding demo_leased_def by code_simp
  from op_handoff [OF this] have 1: "store_op demo_cfg demo_enqueued (Granted ''j9'' ''h9'') demo_leased" by simp
  have "markCompleted demo_cfg 70 ''j9'' demo_report9 demo_leased = Inr (True, demo_done)"
    unfolding demo_done_def by code_simp
  from op_complete [OF this] have 2: "store_op demo_cfg demo_leased (Accepted ''j9'' (Some ''h9'')) demo_done"
    by (simp add: demo_report9_def)
  let ?ls = "[Granted ''j9'' ''h9'', Accepted ''j9'' (Some ''h9'')]"
  have t: "trace (store_op demo_cfg) demo_enqueued ?ls demo_done"
    by (rule trace_cons, rule 1, rule trace_cons, rule 2, rule trace_nil)
  have "\<not> leased demo_enqueued (''j9'', ''h9'')" by code_simp
  from reports_accepted_at_most_once [OF demo_enqueued_reached t this] t show ?thesis
    by (intro exI [of _ ?ls]) simp
qed


subsection \<open>Handing jobs off\<close>





lemma reserve_free:
  assumes "store_inv d" "\<exists>k \<in> set (concurrency d). k_concurrency_key k = key \<and> k_active_count k < k_max_concurrency k"
  shows "fst (reserveConcurrency key d)"
proof -
  let ?c = "\<lambda>k. k_concurrency_key k = key \<and> k_active_count k < k_max_concurrency k"
  from assms(2) obtain k where "k \<in> set (concurrency d)" "?c k" by blast
  with tables_okD(3) [OF store_invD [OF assms(1)]] have "sql_count ?c (concurrency d) = 1"
    by (intro sql_count_one [where key = k_concurrency_key and r = k and p = ?c]) blast+
  then show ?thesis by (simp add: reserveConcurrency_def Let_def)
qed

lemma record_total:
  assumes "count_revision (d :: db) = Some n" "0 \<le> n" "is_safe_int (n + 1)" "known_status old" "known_status new" "old \<noteq> new"
  shows "\<exists>d'. recordStatusTransition old new d = Inr d'"
  using assms
  by (auto simp: recordStatusTransition_def recordCountDelta_def countRevision_def Let_def known_status_def
      split: job_status.splits)

text \<open>
  C7: what the dispatcher's query returns can be handed off: in the same state, with the count
  revision below the safe-integer limit, \<open>markHandedOff\<close> on that job grants the lease under the
  given handoff id.
\<close>

theorem dispatch_progress:
  assumes "reaches store_start (store_step cfg) d" "count_revision d = Some n" "0 \<le> n" "is_safe_int (n + 1)"
    and "nextAvailableJob cfg now modes d = Inr (Some job)"
  shows "\<exists>d'. markHandedOff cfg now' (r_id job) h worker d = Inr (Some (now', h), d') \<and> leased d' (r_id job, h)"
proof -
  note inv = job_store.reaches_inv [OF assms(1)]
  note T = store_invD [OF inv]
  have "\<exists>r \<in> set (jobs d). dispatchable now modes d r \<and> normalizeJobRow cfg r = Inr job"
  proof (cases "sort_key (dispatch_order cfg) (filter (dispatchable now modes d) (jobs d))")
    case (Cons r rs)
    then have "r \<in> set (sort_key (dispatch_order cfg) (filter (dispatchable now modes d) (jobs d)))" by simp
    then have "r \<in> set (jobs d)" "dispatchable now modes d r" by (simp_all only: set_sort set_filter mem_Collect_eq)
    moreover have "normalizeJobRow cfg r = Inr job"
      using Cons assms(5) by (auto simp: nextAvailableJob_def first_row_def bindE_eq_Inr split: if_split_asm)
    ultimately show ?thesis by blast
  qed (use assms(5) in \<open>auto simp: nextAvailableJob_def first_row_def split: if_split_asm\<close>)
  then obtain r where r: "r \<in> set (jobs d)" "dispatchable now modes d r" "normalizeJobRow cfg r = Inr job" by blast
  note F = normalize_fields [OF r(3) tables_okD(2) [OF T r(1)]]
  have st: "c_status r = Queued" and cap: "has_capacity d r" using r(2) by (auto simp: dispatchable_def)
  have get: "getJobRowById cfg d (c_id r) = Inr (Some job)" using getJobRowById_member [OF inv r(1), of cfg] r(3) by auto
  let ?c = "\<lambda>x. c_id x = c_id r \<and> c_status x = Queued"
  have one: "sql_count ?c (jobs d) = 1"
    by (rule pins_count [OF tables_okD(1) [OF T]]) (use r(1) st in \<open>auto simp: pins_def\<close>)
  obtain d1 where res: "(case c_concurrency_key r of None \<Rightarrow> (True, d) | Some key \<Rightarrow> reserveConcurrency key d) = (True, d1)"
  proof (cases "c_concurrency_key r")
    case (Some key)
    with cap have "fst (reserveConcurrency key d)" by (intro reserve_free [OF inv]) (simp add: has_capacity_def list_ex_iff)
    with Some that show thesis by (cases "reserveConcurrency key d") simp
  qed (use that in simp)
  have frame: "jobs d1 = jobs d" "count_revision d1 = count_revision d"
    using res by (auto dest: reserve_fields split: option.splits)
  let ?d2 = "d1\<lparr>jobs := sql_update ?c (handoff_update now' h worker) (jobs d)\<rparr>"
  obtain d' where rec: "recordStatusTransition Queued Handed_Off ?d2 = Inr d'"
    using record_total [of ?d2 n Queued Handed_Off] assms(2-4) frame(2) by (auto simp: known_status_def)
  have "leased d' (c_id r, h)"
    using transition_jobs [OF rec] r(1) st
    by (auto simp: set_sql_update intro!: bexI [of _ "handoff_update now' h worker r"] image_eqI [of _ _ r])
  moreover have "markHandedOff cfg now' (r_id job) h worker d = Inr (Some (now', h), d')"
    using get F(1,2,3) st res one rec frame by (simp add: markHandedOff_def update_jobs_def handoff_update_def)
  ultimately show ?thesis using F(1) by auto
qed

theorem dispatch_progress_witness:
  "\<exists>job d'. nextAvailableJob demo_cfg 60 None demo_enqueued = Inr (Some job)
     \<and> markHandedOff demo_cfg 61 (r_id job) ''h'' None demo_enqueued = Inr (Some (61, ''h''), d')"
proof -
  have "case nextAvailableJob demo_cfg 60 None demo_enqueued of Inr (Some job) \<Rightarrow> True | _ \<Rightarrow> False"
      "count_revision demo_enqueued = Some 1" "is_safe_int (1 + 1)" by code_simp+
  then show ?thesis using dispatch_progress [OF demo_enqueued_reached, of 1 60 None _ 61 "''h''" None]
    by (auto split: sum.split_asm option.split_asm)
qed

end
