(* ===== verification/Job_Store_Idempotency.thy ===== *)
theory Job_Store_Idempotency
  imports Job_Store_Claims
begin

text \<open>
  Durable idempotency: the scope owner written by the first enqueue survives every later operation
  except clearing the store, so the same request always resolves to the same job, a different
  request under the same scope is refused, and two racing enqueues agree on one job.
\<close>

subsection \<open>What a request's digests depend on\<close>

lemma prepareJob_pure:
  assumes "prepareJob cfg now uuid jobName args options = Inr p" "prepareJob cfg now' uuid' jobName args options = Inr p'"
  shows "p_jobName p' = p_jobName p" "p_queue p' = p_queue p"
    "idempotencyRequestDigest cfg args options p' = idempotencyRequestDigest cfg args options p"
  using assms
  by (auto simp: prepareJob_def Let_def bindE_eq_Inr idempotencyRequestDigest_def normalizeBackgroundJobScheduledAtMs_def)

lemma prepareJob_total:
  assumes "prepareJob cfg now uuid jobName args options = Inr p"
  shows "\<exists>p'. prepareJob cfg now' uuid' jobName args options = Inr p'"
proof -
  have "\<exists>t. normalizeBackgroundJobScheduledAtMs v now' = Inr t" if "normalizeBackgroundJobScheduledAtMs v now = Inr t0" for v t0
    using that by (auto simp: normalizeBackgroundJobScheduledAtMs_def split: if_split_asm)
  with assms show ?thesis by (fastforce simp: prepareJob_def Let_def bindE_eq_Inr)
qed

subsection \<open>Rows that survive\<close>

definition same_operation :: "mail_row \<Rightarrow> mail_row \<Rightarrow> bool" where
  "same_operation a b = (m_operation_id a = m_operation_id b \<and> m_payload_digest a = m_payload_digest b
     \<and> m_background_job_id a = m_background_job_id b \<and> m_provider_kind a = m_provider_kind b
     \<and> m_provider_retention_ms a = m_provider_retention_ms b)"

lemma same_operation_trans: "same_operation a b \<Longrightarrow> same_operation b c \<Longrightarrow> same_operation a c"
  by (simp add: same_operation_def)

definition keeps :: "db \<Rightarrow> db \<Rightarrow> bool" where
  "keeps d d' = ((\<forall>s row. idempotencyOwnership s d = Some row \<longrightarrow> idempotencyOwnership s d' = Some row)
     \<and> (\<forall>k row. mailDeliveryOperation k d = Some row \<longrightarrow>
          (\<exists>row'. mailDeliveryOperation k d' = Some row' \<and> same_operation row row')))"

lemma keeps_same: "idem_keys d' = idem_keys d \<Longrightarrow> mail_ops d' = mail_ops d \<Longrightarrow> keeps d d'"
  by (simp add: keeps_def idempotencyOwnership_def mailDeliveryOperation_def same_operation_def)

lemma keeps_trans: "keeps d d1 \<Longrightarrow> keeps d1 d2 \<Longrightarrow> keeps d d2"
  unfolding keeps_def by (meson same_operation_trans)

lemma first_append: "sql_first q rows = Some r \<Longrightarrow> sql_first q (rows @ rest) = Some r"
  by (induction rows) (auto simp: sql_first_def split: if_split_asm)

lemma keeps_append:
  assumes "idem_keys d' = idem_keys d @ xs" "mail_ops d' = mail_ops d @ ys"
  shows "keeps d d'"
  using assms by (auto simp: keeps_def idempotencyOwnership_def mailDeliveryOperation_def same_operation_def first_append)

definition quiet :: "db \<Rightarrow> db \<Rightarrow> bool" where
  "quiet d d' = (idem_keys d' = idem_keys d \<and> mail_ops d' = mail_ops d)"

lemma quiet_refl [simp]: "quiet d d"
  by (simp add: quiet_def)

lemma quiet_trans: "quiet d d1 \<Longrightarrow> quiet d1 d2 \<Longrightarrow> quiet d d2"
  by (simp add: quiet_def)

lemma quiet_fields [simp]:
  "quiet d (releaseConcurrency k e) = quiet d e" "quiet d (releaseScheduleOwnershipForJob j e) = quiet d e"
  "quiet d (releaseScheduleOwnership i s e) = quiet d e" "quiet d (upsert_schedule_owner k' i e) = quiet d e"
  "quiet d (e\<lparr>jobs := js\<rparr>) = quiet d e" "quiet d (e\<lparr>concurrency := ks\<rparr>) = quiet d e"
  by (auto simp: quiet_def releaseConcurrency_def releaseScheduleOwnershipForJob_def releaseScheduleOwnership_def
      upsert_schedule_owner_def split: option.splits)

lemma quiet_record: "recordCountDelta req d = Inr d' \<Longrightarrow> quiet e d' = quiet e d"
  by (simp add: quiet_def recordCountDelta_tables)

lemma quiet_transition: "recordStatusTransition a b d = Inr d' \<Longrightarrow> quiet e d' = quiet e d"
  by (auto simp: recordStatusTransition_def quiet_record split: if_split_asm)

lemma quiet_reserve: "reserveConcurrency k d = (b, d1) \<Longrightarrow> quiet d d1"
  by (auto simp: reserveConcurrency_def quiet_def Let_def)

lemma quiet_applyFailure: "applyFailure cfg now job e o' cond d = Inr (upd, d') \<Longrightarrow> quiet d d'"
  by (auto simp: applyFailure_def update_jobs_def bindE_eq_Inr Let_def split: if_split_asm)

lemma quiet_markFailed:
  assumes op: "markFailed cfg now jobId e rep d = Inr (upd, d')"
  shows "quiet d d'"
proof (cases "d' = d")
  case False
  with op obtain job upd1 d1 where app: "applyFailure cfg now job e False (activeHandoffConditions job) d = Inr (upd1, d1)"
      and "d' = d1 \<or> (\<exists>old new. recordStatusTransition old new d1 = Inr d')"
    by (auto simp: markFailed_def bindE_eq_Inr split: option.split_asm) metis+
  then show ?thesis using quiet_applyFailure [OF app] quiet_transition by blast
qed simp

lemma quiet_markCompleted: "markCompleted cfg now jobId rep d = Inr (ok, d') \<Longrightarrow> quiet d d'"
  by (auto simp: markCompleted_def update_jobs_def bindE_eq_Inr quiet_transition Let_def split: option.split_asm if_split_asm)

lemma quiet_markRescheduled: "markRescheduled cfg now jobId delay rep d = Inr (ok, d') \<Longrightarrow> quiet d d'"
  by (auto simp: markRescheduled_def update_jobs_def bindE_eq_Inr quiet_transition Let_def split: option.split_asm if_split_asm)

lemma quiet_markReturnedToQueue: "markReturnedToQueue cfg now jobId h d = Inr (u, d') \<Longrightarrow> quiet d d'"
  by (auto simp: markReturnedToQueue_def update_jobs_def bindE_eq_Inr quiet_transition Let_def split: option.split_asm if_split_asm)

lemma quiet_cancel:
  assumes op: "cancel cfg jobId d = Inr (ok, d')"
  shows "quiet d d'"
proof (cases "getJobRowById cfg d jobId")
  case (Inr found)
  with op show ?thesis
    by (cases found) (auto simp: cancel_def update_jobs_def bindE_eq_Inr Let_def quiet_transition split: if_split_asm)
qed (use op in \<open>simp add: cancel_def\<close>)

lemma quiet_prune_batch: "prune_batch kind cutoff n d = Inr (removed, d') \<Longrightarrow> quiet d d'"
  by (auto simp: prune_batch_def bindE_eq_Inr quiet_record Let_def split: if_split_asm)


lemma quiet_markHandedOff:
  assumes "store_inv d" "markHandedOff cfg now jobId h worker d = Inr (lease, d')"
  shows "quiet d d'"
  using assms
proof (cases rule: markHandedOff_cases)
  case (granted r d1)
  have "quiet d d1" using granted(6) by (auto dest: quiet_reserve split: option.split_asm)
  with granted(7) show ?thesis by (simp add: quiet_transition)
qed simp

lemma quiet_cancel_queued: "quiet d (snd (cancel_queued jobId d))"
  by (simp add: cancel_queued_def update_jobs_def)

lemma quiet_cancelScheduled:
  assumes op: "cancelScheduled cfg acquired v d = Inr (out, d')"
  shows "quiet d d'"
proof (cases "d' = d")
  case False
  with op obtain key jobId job where 1: "normalizeScheduleKey v = Inr key" "acquired" "schedule_owner key d = Some jobId"
      "getJobRowById cfg d jobId = Inr job"
    by (auto simp: cancelScheduled_def bindE_eq_Inr split: option.splits if_splits)
  let ?m = "case job of Some j \<Rightarrow> if r_status j = Queued then cancel_queued (r_id j) d else (0, d) | None \<Rightarrow> (0, d)"
  obtain n d1 where c: "?m = (n, d1)" by (cases ?m) auto
  have "quiet d (snd ?m)" by (cases job) (simp_all add: quiet_cancel_queued)
  then have q: "quiet d d1" by (simp add: c)
  from op 1 c have eq: "(if n = 1 then bindE (recordStatusTransition Queued Cancelled (releaseScheduleOwnership jobId key d1)) (\<lambda>d2.
            Inr (Outcome_Cancelled jobId, d2))
       else bindE (getJobRowById cfg d1 jobId) (\<lambda>current.
        let d2 = releaseScheduleOwnership jobId key d1 in
        case current of Some c \<Rightarrow> if r_status c = Handed_Off then Inr (Outcome_Handed_Off jobId, d2)
                                  else Inr (Outcome_Not_Found, d2)
        | None \<Rightarrow> Inr (Outcome_Not_Found, d2))) = Inr (out, d')"
    by (simp add: cancelScheduled_def)
  show ?thesis
  proof (cases "n = 1")
    case True
    with eq q show ?thesis by (auto simp: bindE_eq_Inr quiet_transition)
  next
    case False
    with eq have "d' = releaseScheduleOwnership jobId key d1"
      by (auto simp: bindE_eq_Inr Let_def split: option.split_asm if_split_asm)
    with q show ?thesis by simp
  qed
qed simp

lemma quiet_ensure: "ensure_prepared_concurrency p d = Inr d' \<Longrightarrow> quiet d d'"
  by (auto elim!: ensure_cases)

lemma quiet_insert: "insertPreparedJob p k d = Inr d' \<Longrightarrow> quiet d d'"
  by (auto simp: insertPreparedJob_def bindE_eq_Inr dest: quiet_ensure)

lemma quiet_replace_owner: "replace_owner cfg owner d = Inr (previous, d1) \<Longrightarrow> quiet d d1"
  by (auto simp: replace_owner_def bindE_eq_Inr cancel_queued_def update_jobs_def split: option.splits if_splits)

lemma quiet_replaceScheduled:
  assumes "replaceScheduled cfg acquired now uuid v jobName args options d = Inr (res, d')"
  shows "quiet d d'"
proof -
  from assms obtain owner previous d1 p k d2 i where 1: "replace_owner cfg owner d = Inr (previous, d1)" "insertPreparedJob p (Some k) d1 = Inr d2"
      and 2: "recordCountDelta (delta2 B_all 1 B_queued 1) (upsert_schedule_owner k i d2) = Inr d' \<or> d' = upsert_schedule_owner k i d2"
    by (auto simp: replaceScheduled_def bindE_eq_Inr Let_def split: if_split_asm) blast+
  from quiet_trans [OF quiet_replace_owner [OF 1(1)] quiet_insert [OF 1(2)]] 2 show ?thesis by (auto simp: quiet_record)
qed

lemma quiet_markOrphanedJobs:
  assumes "markOrphanedJobs cfg now clock after d = Inr (js, d')"
  shows "quiet d d'"
proof -
  from assms obtain d1 c rows where run: "foldE (orphan_one cfg clock) rows ([], d) = Inr (js, d1)"
      and rec: "recordCountDelta c d1 = Inr d'"
    by (auto simp: markOrphanedJobs_def Let_def bindE_eq_Inr)
  have "quiet d (snd (js, d1))"
    by (rule foldE_invariant [OF run, where P = "\<lambda>s. quiet d (snd s)"])
      (auto simp: orphan_one_def bindE_eq_Inr split: option.split_asm dest!: quiet_applyFailure,
       (blast intro: quiet_trans)+)
  then show ?thesis by (simp add: quiet_record [OF rec])
qed

lemma quiet_ensureQueue: "ensureQueueConcurrencyKey key cap d = Inr d' \<Longrightarrow> quiet d d'"
  by (auto simp: ensureQueueConcurrencyKey_def insertConcurrencyRow_def Let_def bindE_eq_Inr
      split: option.split_asm sum.split_asm if_split_asm)

lemma quiet_adopt: "adopt_queue cfg queue d = Inr d' \<Longrightarrow> quiet d d'"
  by (auto simp: adopt_queue_def Let_def bindE_eq_Inr dest: quiet_ensureQueue split: option.split_asm)

lemma quiet_reconcile:
  assumes "reconcileQueueConcurrency cfg acquired memo d = Inr (m, d')"
  shows "quiet d d'"
proof (cases memo)
  case True
  with assms show ?thesis by (simp add: reconcileQueueConcurrency_def)
next
  case False
  let ?rel = "\<lambda>d' row. release_unconfigured cfg (k_concurrency_key row) d'"
  from False assms obtain d1 where d1: "foldE (adopt_queue cfg) (map fst (cfg_queues cfg)) d = Inr d1"
      and d': "d' = reconcileConcurrency (foldl ?rel d1 (concurrency d1))"
    by (auto simp: reconcileQueueConcurrency_def reconcileQueueConcurrency_tables_def bindE_eq_Inr split: if_split_asm)
  have "quiet d d1"
    by (rule foldE_invariant [OF d1, where P = "quiet d"]) (auto intro: quiet_trans quiet_adopt)
  moreover have "quiet d1 (foldl ?rel d1 ks)" for ks
    by (induction ks rule: rev_induct) (simp_all add: release_unconfigured_def)
  ultimately show ?thesis unfolding d' reconcileConcurrency_def by (simp) (blast intro: quiet_trans)
qed

lemmas quiet_ops = quiet_markFailed quiet_markCompleted quiet_markRescheduled quiet_markReturnedToQueue quiet_cancel
  quiet_prune_batch quiet_cancelScheduled quiet_replaceScheduled quiet_markOrphanedJobs quiet_reconcile

subsection \<open>Every operation but clearing keeps the owners\<close>

lemma keeps_quiet: "quiet d d' \<Longrightarrow> keeps d d'"
  by (auto simp: quiet_def intro: keeps_same)

lemma keeps_refl: "keeps d d"
  by (rule keeps_same) simp_all

lemma claim_appends: "claimIdempotencyOwnership ow d = Inr (created, row, d') \<Longrightarrow>
    mail_ops d' = mail_ops d \<and> (\<exists>xs. idem_keys d' = idem_keys d @ xs)"
  by (auto simp: claimIdempotencyOwnership_def sql_insert_def split: option.split_asm if_split_asm)

lemma persist_appends: "persistMailDeliveryOperation cfg now jobId m d = Inr d' \<Longrightarrow>
    idem_keys d' = idem_keys d \<and> (\<exists>ys. mail_ops d' = mail_ops d @ ys)"
  by (auto simp: persistMailDeliveryOperation_def Let_def sql_insert_def bindE_eq_Inr split: option.split_asm if_split_asm)

lemma keeps_enqueueIdempotently:
  assumes "enqueueIdempotently cfg env args options p d = Inr (jobId, d')" "keeps d (env d)"
  shows "keeps d d'"
  using assms(1)
proof (cases rule: enqueueIdempotently_cases)
  case (created row d1 m d2 d3)
  from claim_appends [OF created(1)] quiet_insert [OF created(2)] persist_appends [OF created(3)] quiet_record [OF created(4), of d3]
  obtain xs ys where "idem_keys d' = idem_keys (env d) @ xs" "mail_ops d' = mail_ops (env d) @ ys"
    by (auto simp: quiet_def)
  then have "keeps (env d) d'" by (rule keeps_append)
  with assms(2) show ?thesis by (rule keeps_trans)
qed (use assms(2) in \<open>auto intro: keeps_refl\<close>)

lemma keeps_enqueue_plain: "enqueue_plain p options d = Inr (jobId, d') \<Longrightarrow> keeps d d'"
  by (rule keeps_quiet) (auto simp: enqueue_plain_def bindE_eq_Inr quiet_record dest: quiet_insert split: option.split_asm if_split_asm)

lemma keeps_enqueue:
  assumes "enqueue cfg env now uuid jobName args options d = Inr (jobId, d')" "keeps d (env d)"
  shows "keeps d d'"
  using assms by (auto simp: enqueue_def bindE_eq_Inr split: if_splits intro: keeps_enqueueIdempotently keeps_enqueue_plain)


lemma first_update:
  assumes "\<And>r. q (if c r then f r else r) = q r"
  shows "sql_first q (sql_update c f rows) = map_option (\<lambda>r. if c r then f r else r) (sql_first q rows)"
  using assms by (induction rows) (auto simp: sql_first_def)

lemma beginAttempt_rows:
  assumes "beginAttempt h le capability payload now inside rows = Inr (window, rows')"
  shows "rows' = rows \<or> (\<exists>key. rows' = sql_update (\<lambda>r. m_operation_key r = key) (\<lambda>r. r\<lparr>m_first_attempt_started_at_ms := Some now\<rparr>) rows)"
  using assms by (auto simp: beginAttempt_def bindE_eq_Inr Let_def split: if_split_asm option.split_asm)

lemma keeps_beginAttempt:
  assumes "beginAttempt h le capability payload now inside (mail_ops d) = Inr (window, rows)"
  shows "keeps d (d\<lparr>mail_ops := rows\<rparr>)"
proof -
  have "mailDeliveryOperation k (d\<lparr>mail_ops := sql_update (\<lambda>r. m_operation_key r = key)
      (\<lambda>r. r\<lparr>m_first_attempt_started_at_ms := Some now\<rparr>) (mail_ops d)\<rparr>)
    = map_option (\<lambda>r. if m_operation_key r = key then r\<lparr>m_first_attempt_started_at_ms := Some now\<rparr> else r) (mailDeliveryOperation k d)" for k key
    unfolding mailDeliveryOperation_def by (simp, rule first_update) simp
  with beginAttempt_rows [OF assms] show ?thesis
    by (auto simp: keeps_def idempotencyOwnership_def same_operation_def)
qed

definition durable_op :: "store_cfg \<Rightarrow> db \<Rightarrow> db \<Rightarrow> bool" where
  "durable_op cfg d d' = (\<exists>l. store_op cfg d l d' \<and> l \<noteq> Cleared)"

lemma keeps_op:
  assumes inv: "store_inv d" and op: "store_op cfg d l d'" "l \<noteq> Cleared"
  shows "keeps d d'"
  using op(1)
proof cases
  case op_handoff
  then show ?thesis using quiet_markHandedOff [OF inv] keeps_quiet by blast
next
  case op_enqueue
  then show ?thesis using keeps_enqueue [where env = "\<lambda>d. d"] keeps_refl by blast
next
  case (op_mail_attempt le capability payload now window rows)
  then show ?thesis using keeps_beginAttempt by simp
next
  case op_clear
  with op(2) show ?thesis by simp
qed (rule keeps_quiet, erule quiet_ops)+

lemma keeps_run: "(durable_op cfg)\<^sup>*\<^sup>* d d' \<Longrightarrow> store_inv d \<Longrightarrow> keeps d d' \<and> store_inv d'"
proof (induction rule: rtranclp_induct)
  case (step d1 d2)
  then obtain l where "store_op cfg d1 l d2" "l \<noteq> Cleared" by (auto simp: durable_op_def)
  with step keeps_op sound_op keeps_trans show ?case unfolding sound_def by blast
qed (simp add: keeps_refl)

subsection \<open>Replays\<close>

text \<open>
  \<open>settled\<close>: the scope of a request is owned by a job that matches the request, mail operation
  included. It is what the first enqueue establishes and what a replay needs.
\<close>

definition settled :: "store_cfg \<Rightarrow> idempotency_row \<Rightarrow> mail_operation option \<Rightarrow> string \<Rightarrow> db \<Rightarrow> bool" where
  "settled cfg ow m jobId d = (\<exists>row. idempotencyOwnership (i_scope_digest ow) d = Some row \<and> i_job_id row = jobId
     \<and> validateIdempotencyOwnership row ow = Inr () \<and> validateMailDeliveryOperation cfg jobId m d = Inr ())"

lemma settled_replay:
  assumes "idempotencyOwnership (i_scope_digest ow) d = Some row" "idempotency_replay cfg row ow m d = Inr (jobId, d')"
  shows "settled cfg ow m jobId d \<and> d' = d"
  using assms by (auto simp: settled_def idempotency_replay_def bindE_eq_Inr)

lemma first_fresh: "key r \<notin> key ` set rows \<Longrightarrow> sql_first (\<lambda>x. key x = key r) (rows @ [r]) = Some r"
  by (induction rows) (auto simp: sql_first_def)

lemma claim_found:
  assumes "claimIdempotencyOwnership ow d = Inr (created, row, d')"
  shows "idempotencyOwnership (i_scope_digest ow) d' = Some row" "created \<Longrightarrow> row = ow"
  using assms first_fresh [of i_scope_digest ow "idem_keys d"]
  by (auto simp: claimIdempotencyOwnership_def idempotencyOwnership_def sql_insert_def split: option.split_asm if_split_asm)

lemma validateMail_keeps:
  "validateMailDeliveryOperation cfg jobId m d = Inr () \<Longrightarrow> keeps d d' \<Longrightarrow> validateMailDeliveryOperation cfg jobId m d' = Inr ()"
  by (fastforce simp: validateMailDeliveryOperation_def validateMailDeliveryOperationRow_def keeps_def same_operation_def
      split: option.split_asm if_split_asm)

lemma settled_keeps: "settled cfg ow m jobId d \<Longrightarrow> keeps d d' \<Longrightarrow> settled cfg ow m jobId d'"
  unfolding settled_def using validateMail_keeps by (metis keeps_def)

lemma persist_validates:
  assumes "persistMailDeliveryOperation cfg now jobId m d = Inr d'"
  shows "validateMailDeliveryOperation cfg jobId m d' = Inr ()"
proof (cases m)
  case None
  then show ?thesis by (simp add: validateMailDeliveryOperation_def)
next
  case (Some operation)
  let ?key = "mailDeliveryOperationKey (cfg_host cfg) (op_id operation)"
  let ?row = "\<lparr>m_operation_key = ?key, m_operation_id = op_id operation, m_payload_digest = op_payloadDigest operation,
     m_background_job_id = jobId, m_first_attempt_started_at_ms = None, m_provider_kind = op_providerKind operation,
     m_provider_retention_ms = op_providerRetentionMs operation, m_created_at_ms = now\<rparr>"
  show ?thesis
  proof (cases "?key \<in> m_operation_key ` set (mail_ops d)")
    case True
    with assms Some show ?thesis
      by (auto simp: persistMailDeliveryOperation_def Let_def sql_insert_def bindE_eq_Inr validateMailDeliveryOperation_def
          split: option.split_asm)
  next
    case False
    with assms Some have d': "d' = d\<lparr>mail_ops := mail_ops d @ [?row]\<rparr>"
      by (simp add: persistMailDeliveryOperation_def Let_def sql_insert_def)
    have "sql_first (\<lambda>r. m_operation_key r = ?key) (mail_ops d @ [?row]) = Some ?row"
      using first_fresh [of m_operation_key ?row "mail_ops d"] False by simp
    then show ?thesis unfolding d'
      by (simp add: Some validateMailDeliveryOperation_def mailDeliveryOperation_def validateMailDeliveryOperationRow_def)
  qed
qed

lemma validate_self: "validateIdempotencyOwnership ow ow = Inr ()"
  by (simp add: validateIdempotencyOwnership_def)

text \<open>A successful idempotent enqueue leaves its request settled on the job it returned.\<close>

lemma enqueueIdempotently_settles:
  assumes key: "normalizeIdempotencyKey (opt_idempotencyKey options) = Inr key"
    and m: "mailDeliveryOperationForJob (p_jobName p) args = Inr m"
    and op: "enqueueIdempotently cfg env args options p d = Inr (jobId, d')"
  shows "settled cfg (idempotency_owner cfg key args options p) m jobId d'
    \<and> \<not> (case m of None \<Rightarrow> False | Some operation \<Rightarrow> op_id operation \<noteq> key)"
proof -
  let ?ow = "idempotency_owner cfg key args options p"
  from op key m have ok: "\<not> (case m of None \<Rightarrow> False | Some operation \<Rightarrow> op_id operation \<noteq> key)"
      and eq: "(case idempotencyOwnership (i_scope_digest ?ow) d of
              Some existing \<Rightarrow> idempotency_replay cfg existing ?ow m d
            | None \<Rightarrow> bindE (claimIdempotencyOwnership ?ow (env d)) (\<lambda>(created, row, d1).
                  if \<not> created then idempotency_replay cfg row ?ow m d1
                  else bindE (insertPreparedJob p None d1) (\<lambda>d2.
                       bindE (persistMailDeliveryOperation cfg (p_createdAtMs p) (p_jobId p) m d2) (\<lambda>d3.
                       bindE (recordCountDelta (delta2 B_all 1 B_queued 1) d3) (\<lambda>d4.
                         Inr (p_jobId p, d4)))))) = Inr (jobId, d')"
    by (auto simp: enqueueIdempotently_def Let_def lift_error_def split: if_split_asm)
  have "settled cfg ?ow m jobId d'"
  proof (cases "idempotencyOwnership (i_scope_digest ?ow) d")
    case (Some existing)
    with eq settled_replay [OF Some] show ?thesis by auto
  next
    case None
    with eq obtain created row d1 where c: "claimIdempotencyOwnership ?ow (env d) = Inr (created, row, d1)"
      by (auto simp: bindE_eq_Inr)
    note found = claim_found [OF c]
    show ?thesis
    proof (cases created)
      case False
      with None eq c settled_replay [OF found(1)] show ?thesis by auto
    next
      case True
      with None eq c obtain d2 d3 where 1: "insertPreparedJob p None d1 = Inr d2"
          "persistMailDeliveryOperation cfg (p_createdAtMs p) (p_jobId p) m d2 = Inr d3"
          "recordCountDelta (delta2 B_all 1 B_queued 1) d3 = Inr d'" "jobId = p_jobId p"
        by (auto simp: bindE_eq_Inr)
      have "quiet d1 d2" "idem_keys d3 = idem_keys d2" "quiet d3 d'"
        using quiet_insert [OF 1(1)] persist_appends [OF 1(2)] quiet_record [OF 1(3), of d3] by auto
      then have "idempotencyOwnership (i_scope_digest ?ow) d' = Some ?ow"
        using found True by (simp add: quiet_def idempotencyOwnership_def)
      moreover have "validateMailDeliveryOperation cfg jobId m d' = Inr ()"
        using validateMail_keeps [OF persist_validates [OF 1(2)] keeps_quiet [OF \<open>quiet d3 d'\<close>]] 1(4) by simp
      ultimately show ?thesis using 1(4) by (simp add: settled_def validate_self) (simp add: idempotency_owner_def)
    qed
  qed
  with ok show ?thesis by simp
qed

lemma settled_enqueue:
  assumes "normalizeIdempotencyKey (opt_idempotencyKey options) = Inr key"
    and "mailDeliveryOperationForJob (p_jobName p) args = Inr m"
    and "\<not> (case m of None \<Rightarrow> False | Some operation \<Rightarrow> op_id operation \<noteq> key)"
    and "settled cfg (idempotency_owner cfg key args options p) m jobId d"
  shows "enqueueIdempotently cfg env args options p d = Inr (jobId, d)"
  using assms by (auto simp: enqueueIdempotently_def settled_def idempotency_replay_def lift_error_def Let_def)

lemma settled_cong:
  assumes "i_scope_digest ow' = i_scope_digest ow" "i_request_digest ow' = i_request_digest ow" "i_job_name ow' = i_job_name ow"
    "i_queue ow' = i_queue ow" "i_idempotency_key ow' = i_idempotency_key ow" "settled cfg ow m jobId d"
  shows "settled cfg ow' m jobId d"
  using assms by (simp add: settled_def validateIdempotencyOwnership_def)


lemma enqueue_idem_parts:
  assumes "enqueue cfg env now uuid jobName args options d = Inr (jobId, d')" "opt_idempotencyKey options \<noteq> JUndef"
  obtains p key m where "prepareJob cfg now uuid jobName args options = Inr p"
    "normalizeIdempotencyKey (opt_idempotencyKey options) = Inr key" "mailDeliveryOperationForJob (p_jobName p) args = Inr m"
    "enqueueIdempotently cfg env args options p d = Inr (jobId, d')"
proof -
  from assms obtain p where p: "prepareJob cfg now uuid jobName args options = Inr p"
      and op: "enqueueIdempotently cfg env args options p d = Inr (jobId, d')"
    by (auto simp: enqueue_def bindE_eq_Inr)
  moreover from op obtain key m where "normalizeIdempotencyKey (opt_idempotencyKey options) = Inr key"
      "mailDeliveryOperationForJob (p_jobName p) args = Inr m"
    by (auto simp: enqueueIdempotently_def bindE_eq_Inr)
  ultimately show thesis using that by blast
qed

subsection \<open>Claims\<close>

text \<open>
  C4: an idempotent enqueue that succeeded is replayed forever: after any further operations that do
  not clear the store (other enqueues, handoffs, reports, pruning of the job itself), the same
  request at any later time returns the same job id and changes nothing.
\<close>

theorem idempotent_replay:
  assumes "reaches store_start (store_step cfg) d1"
    and "enqueue cfg env now uuid jobName args options d = Inr (jobId, d1)" "opt_idempotencyKey options \<noteq> JUndef"
    and "(durable_op cfg)\<^sup>*\<^sup>* d1 d2"
  shows "enqueue cfg env' now' uuid' jobName args options d2 = Inr (jobId, d2)"
proof -
  obtain p key m where p: "prepareJob cfg now uuid jobName args options = Inr p"
      and k: "normalizeIdempotencyKey (opt_idempotencyKey options) = Inr key"
      and m: "mailDeliveryOperationForJob (p_jobName p) args = Inr m"
      and op: "enqueueIdempotently cfg env args options p d = Inr (jobId, d1)"
    by (rule enqueue_idem_parts [OF assms(2,3)])
  obtain p' where p': "prepareJob cfg now' uuid' jobName args options = Inr p'" using prepareJob_total [OF p] by blast
  note eq = prepareJob_pure [OF p p']
  from enqueueIdempotently_settles [OF k m op] keeps_run [OF assms(4) job_store.reaches_inv [OF assms(1)]]
  have st: "settled cfg (idempotency_owner cfg key args options p) m jobId d2"
    and ok: "\<not> (case m of None \<Rightarrow> False | Some operation \<Rightarrow> op_id operation \<noteq> key)"
    by (auto intro: settled_keeps)
  have "settled cfg (idempotency_owner cfg key args options p') m jobId d2"
    by (rule settled_cong [OF _ _ _ _ _ st]) (simp_all add: idempotency_owner_def eq)
  with settled_enqueue [OF k _ ok] m p' assms(3) show ?thesis by (simp add: enqueue_def eq(1))
qed

definition demo_idem :: job_options where
  "demo_idem = no_options\<lparr>opt_idempotencyKey := JStr ''order-1''\<rparr>"

definition demo_idem_db :: db where
  "demo_idem_db = ok_state (enqueue demo_cfg (\<lambda>d. d) 50 ''a1'' ''Charge'' [JStr ''x''] demo_idem empty_db)"

lemma demo_idem_op:
  "enqueue demo_cfg (\<lambda>d. d) 50 ''a1'' ''Charge'' [JStr ''x''] demo_idem empty_db = Inr (''a1'', demo_idem_db)"
  unfolding demo_idem_db_def by code_simp

lemma demo_idem_reached: "reaches store_start (store_step demo_cfg) demo_idem_db"
  by (rule reaches_step [where step = "store_step demo_cfg", OF reaches_start step_op]) (rule empty_start, rule op_enqueue [OF demo_idem_op])

theorem idempotent_replay_witness:
  "enqueue demo_cfg (\<lambda>d. d) 99 ''a2'' ''Charge'' [JStr ''x''] demo_idem demo_idem_db = Inr (''a1'', demo_idem_db)"
  by (rule idempotent_replay [OF demo_idem_reached demo_idem_op]) (simp_all add: demo_idem_def no_options_def)


definition demo_prepared :: "string list \<Rightarrow> prepared_job" where
  "demo_prepared xs = \<lparr>p_argsJson = demo_stringify (JArr (map JStr xs)), p_concurrency = None, p_createdAtMs = 50, p_executionMode = Pooled,
     p_jobId = ''a1'', p_jobName = ''Charge'', p_maxRetries = 10, p_queue = ''default'', p_scheduledAtMs = 50, p_timeoutMs = None\<rparr>"


text \<open>
  two enqueues of the same request that race converge: the one whose read saw no owner but whose
  claim came second returns the winner's job id and leaves the winner's state unchanged.
\<close>

lemma idempotent_race_converges:
  assumes "enqueue cfg env now uuid jobName args options d = Inr (winner, d1)" "opt_idempotencyKey options \<noteq> JUndef"
    and "normalizeIdempotencyKey (opt_idempotencyKey options) = Inr key"
    and "prepareJob cfg now' uuid' jobName args options = Inr p'"
    and "idempotencyOwnership (idempotencyScopeDigest cfg key jobName (p_queue p')) d0 = None"
  shows "enqueue cfg (\<lambda>_. d1) now' uuid' jobName args options d0 = Inr (winner, d1)"
proof -
  obtain p key0 m where p: "prepareJob cfg now uuid jobName args options = Inr p"
      and k: "normalizeIdempotencyKey (opt_idempotencyKey options) = Inr key0"
      and m: "mailDeliveryOperationForJob (p_jobName p) args = Inr m"
      and op: "enqueueIdempotently cfg env args options p d = Inr (winner, d1)"
    by (rule enqueue_idem_parts [OF assms(1,2)])
  note eq = prepareJob_pure [OF p assms(4)]
  have key: "key0 = key" using k assms(3) by simp
  let ?ow = "idempotency_owner cfg key args options p'"
  from enqueueIdempotently_settles [OF k m op] have
      st: "settled cfg (idempotency_owner cfg key args options p) m winner d1"
      and ok: "\<not> (case m of None \<Rightarrow> False | Some operation \<Rightarrow> op_id operation \<noteq> key)"
    unfolding key by simp_all
  have "settled cfg ?ow m winner d1"
    by (rule settled_cong [OF _ _ _ _ _ st]) (simp_all add: idempotency_owner_def eq)
  then obtain row where row: "idempotencyOwnership (i_scope_digest ?ow) d1 = Some row" "idempotency_replay cfg row ?ow m d1 = Inr (winner, d1)"
    by (auto simp: settled_def idempotency_replay_def)
  then have "i_scope_digest ?ow \<in> i_scope_digest ` set (idem_keys d1)"
    unfolding idempotencyOwnership_def using sql_first_Some by (metis (mono_tags, lifting) image_eqI)
  with row have claim: "claimIdempotencyOwnership ?ow d1 = Inr (False, row, d1)"
    by (simp add: claimIdempotencyOwnership_def sql_insert_def)
  have "p_jobName p' = jobName" using assms(4) by (auto simp: prepareJob_def Let_def bindE_eq_Inr)
  then have "idempotencyOwnership (i_scope_digest ?ow) d0 = None" using assms(5) by (simp add: idempotency_owner_def)
  with claim row(2) ok m assms(2,3,4) show ?thesis
    by (simp add: enqueue_def enqueueIdempotently_def lift_error_def eq(1))
qed

lemma idempotent_race_converges_example:
  "enqueue demo_cfg (\<lambda>_. demo_idem_db) 51 ''a2'' ''Charge'' [JStr ''x''] demo_idem empty_db = Inr (''a1'', demo_idem_db)"
proof -
  have "prepareJob demo_cfg 51 ''a2'' ''Charge'' [JStr ''x''] demo_idem
      = Inr ((demo_prepared [''x''])\<lparr>p_createdAtMs := 51, p_scheduledAtMs := 51, p_jobId := ''a2''\<rparr>)"
    "normalizeIdempotencyKey (opt_idempotencyKey demo_idem) = Inr ''order-1''" "opt_idempotencyKey demo_idem \<noteq> JUndef"
    by code_simp+
  then show ?thesis
    by (intro idempotent_race_converges [OF demo_idem_op]) (auto simp: empty_db_def idempotencyOwnership_def sql_first_def)
qed

end
