(* ===== verification/Job_Store_Failures.thy ===== *)
theory Job_Store_Failures
  imports Job_Store_Example
begin

text \<open>
  What an accepted failure report leaves behind (the retry schedule, the exhausted retries and the
  snapshot the caller gets), and that the start-up reconciliation repairs stale counters.
\<close>

subsection \<open>Failure reports\<close>

text \<open>The row a failed attempt leaves, written out.\<close>

definition failed_row :: "int \<Rightarrow> string \<Rightarrow> job_rec \<Rightarrow> job_rec" where
  "failed_row now message r =
     (let n = c_attempts r + 1; retry = (n \<le> c_max_retries r) in
      r\<lparr>c_attempts := n, c_handed_off_at_ms := None, c_worker_id := None, c_last_error := Some message,
        c_status := (if retry then Queued else Failed),
        c_scheduled_at_ms := (if retry then now + 1000 * (if n = 1 then 10 else if n = 2 then 60 else if n = 3 then 600
            else if n = 4 then 3600 else (n - 3) * 3600) else c_scheduled_at_ms r),
        c_failed_at_ms := (if retry then c_failed_at_ms r else Some now)\<rparr>)"

lemma retryDelayMs_table:
  assumes "1 \<le> n"
  shows "retryDelayMs n = Some (1000 * (if n = 1 then 10 else if n = 2 then 60 else if n = 3 then 600
    else if n = 4 then 3600 else (n - 3) * 3600))"
proof -
  consider "n = 1" | "n = 2" | "n = 3" | "n = 4" | "4 < n" using assms by linarith
  then show ?thesis by cases (simp_all add: retryDelayMs_def schedule_seconds_def)
qed

lemma failureUpdate_row:
  assumes "0 \<le> c_attempts r" "0 \<le> c_max_retries r"
    and "t = (if c_attempts r + 1 \<le> c_max_retries r then now + the (retryDelayMs (c_attempts r + 1)) else c_scheduled_at_ms r)"
  shows "failureUpdate m False (c_attempts r + 1) now t (c_attempts r + 1 \<le> c_max_retries r) r = failed_row now m r"
  using assms retryDelayMs_table [of "c_attempts r + 1"] by (simp add: failureUpdate_def failed_row_def Let_def)

lemma failed_job_normal:
  assumes "normalizeJobRow cfg r = Inr job" "row_ok keys r" "m \<noteq> []" "c_status r = Handed_Off"
  shows "normalizeJobRow cfg (failureUpdate m False n now t retry r) = Inr (failed_job job m False n now t retry)"
  using assms by (auto simp: normalizeJobRow_def failureUpdate_def failed_job_def bindE_eq_Inr Let_def)

text \<open>
  C19: an accepted failure report counts one attempt and changes no other job. While the attempts
  stay within the retry limit the job is queued again after 10 seconds, 1 minute, 10 minutes, 1
  hour, then 2, 3, ... hours; the first attempt beyond the limit fails it for good. The snapshot
  returned to the caller is the stored row as every reader sees it.
\<close>

theorem failure_outcome:
  assumes inv: "store_inv d" and op: "markFailed cfg now jobId e rep d = Inr (Some job', d')"
    and msg: "normalizeBackgroundJobError cfg e \<noteq> []"
  shows "\<exists>r \<in> set (jobs d). c_id r = jobId \<and> c_status r = Handed_Off
    \<and> jobs d' = map (\<lambda>x. if c_id x = jobId then failed_row now (normalizeBackgroundJobError cfg e) r else x) (jobs d)
    \<and> normalizeJobRow cfg (failed_row now (normalizeBackgroundJobError cfg e) r) = Inr job'"
proof -
  define m where "m = normalizeBackgroundJobError cfg e"
  from op obtain job d1 where job: "accepted_job cfg jobId rep d = Inr (Some job)"
      and app: "applyFailure cfg now job e False (activeHandoffConditions job) d = Inr (Some job', d1)"
      and rec: "recordStatusTransition (r_status job) (r_status job') d1 = Inr d'"
    by (auto simp: markFailed_def bindE_eq_Inr split: option.splits)
  obtain r where r: "r \<in> set (jobs d)" "c_id r = jobId" "normalizeJobRow cfg r = Inr job"
      "row_ok (k_concurrency_key ` set (concurrency d)) r" "c_status r = Handed_Off"
    by (rule accepted_job_Some [OF inv job])
  note F = normalize_fields [OF r(3,4)]
  have nn: "0 \<le> c_attempts r" "0 \<le> c_max_retries r" using r(4) by (auto simp: row_ok_def)
  have sched: "r_scheduledAtMs job = c_scheduled_at_ms r" using r(3) by (auto simp: normalizeJobRow_def bindE_eq_Inr)
  let ?retry = "c_attempts r + 1 \<le> c_max_retries r"
  let ?t = "if ?retry then now + the (retryDelayMs (c_attempts r + 1)) else c_scheduled_at_ms r"
  let ?f = "failureUpdate m False (c_attempts r + 1) now ?t ?retry"
  have max: "normalizeBackgroundJobMaxRetries (JInt (c_max_retries r)) = c_max_retries r" using nn(2) by simp
  obtain v where v: "retryDelayMs (c_attempts r + 1) = Some v" using retryDelayMs_table [of "c_attempts r + 1"] nn(1) by simp
  have only: "\<forall>x. activeHandoffConditions job x \<longrightarrow> c_id x = c_id r" using F(1) by (simp add: activeHandoffConditions_def)
  have upd: "(let (affected, d1) = update_jobs (activeHandoffConditions job) ?f d
      in if affected \<noteq> 1 then Inr (None, d1)
         else Inr (Some (failed_job job m False (c_attempts r + 1) now ?t ?retry),
           releaseConcurrency (r_concurrencyKey job) (if ?retry then d1 else releaseScheduleOwnershipForJob job d1)))
      = (Inr (Some job', d1) :: store_error + _)"
    using app v unfolding applyFailure_def Let_def F(5,6) max sched m_def [symmetric]
    by (cases ?retry) (auto simp: update_jobs_def split: if_split_asm)
  from inv r(1) only show ?thesis
  proof (cases rule: update_jobs_cases [where cond = "activeHandoffConditions job" and f = ?f])
    case miss
    with upd show ?thesis by simp
  next
    case hit
    with upd have j: "job' = failed_job job m False (c_attempts r + 1) now ?t ?retry"
      "jobs d1 = sql_update (activeHandoffConditions job) ?f (jobs d)" by (auto simp: Let_def)
    have frow: "?f r = failed_row now m r" by (rule failureUpdate_row [OF nn refl])
    have "jobs d' = jobs d1"
      using rec by (auto simp: recordStatusTransition_def split: if_splits dest: recordCountDelta_tables)
    also have "\<dots> = map (\<lambda>x. if c_id x = jobId then failed_row now m r else x) (jobs d)"
      unfolding j(2) sql_update_def using hit(2) r(2) frow distinct_map_inj_on_eq [OF tables_okD(1) [OF store_invD [OF inv]] _ r(1)]
      by (intro map_cong) (auto simp: pins_def)
    finally have "jobs d' = map (\<lambda>x. if c_id x = jobId then failed_row now m r else x) (jobs d)" .
    moreover have "normalizeJobRow cfg (failed_row now m r) = Inr job'"
      using failed_job_normal [OF r(3,4) _ r(5)] msg frow j(1) by (metis m_def)
    ultimately show ?thesis using r(1,2,5) unfolding m_def by blast
  qed
qed

theorem failure_outcome_witness:
  "\<exists>job' d'. markFailed demo_cfg 500 ''j1'' (Error_Value (JStr ''boom'')) demo_report demo_db = Inr (Some job', d')
     \<and> r_status job' = Queued \<and> r_scheduledAtMs job' = 10500 \<and> r_attempts job' = 1"
proof -
  have "is_ok (markFailed demo_cfg 500 ''j1'' (Error_Value (JStr ''boom'')) demo_report demo_db)
      \<and> fst (projr (markFailed demo_cfg 500 ''j1'' (Error_Value (JStr ''boom'')) demo_report demo_db)) \<noteq> None"
    by code_simp
  then obtain job' d' where op: "markFailed demo_cfg 500 ''j1'' (Error_Value (JStr ''boom'')) demo_report demo_db = Inr (Some job', d')"
    by (auto elim!: is_okE)
  from failure_outcome [OF demo_inv op] obtain r where "r \<in> set (jobs demo_db)" "c_id r = ''j1''"
    "normalizeJobRow demo_cfg (failed_row 500 ''boom'' r) = Inr job'"
    by (auto simp: normalizeBackgroundJobError_def)
  then have "normalizeJobRow demo_cfg (failed_row 500 ''boom'' (demo_job ''j1'' Handed_Off)) = Inr job'"
    by (auto simp: demo_db_def demo_job_def)
  then have "r_status job' = Queued \<and> r_scheduledAtMs job' = 10500 \<and> r_attempts job' = 1"
    by (auto simp: normalizeJobRow_def bindE_eq_Inr failed_row_def demo_job_def Let_def)
  with op show ?thesis by blast
qed

subsection \<open>Reconciliation\<close>

lemma ensureQueue_ok: "\<exists>d'. ensureQueueConcurrencyKey key cap d = Inr d'"
proof (cases "find_concurrency key d")
  case None
  then have "key \<notin> k_concurrency_key ` set (concurrency d)" by (simp only: find_concurrency_None not_False_eq_True)
  with None show ?thesis by (simp add: ensureQueueConcurrencyKey_def insertConcurrencyRow_def sql_insert_def Let_def)
next
  case (Some row)
  then show ?thesis by (simp add: ensureQueueConcurrencyKey_def Let_def)
qed

lemma adopt_ok: "\<exists>d'. adopt_queue cfg queue d = Inr d'"
  using ensureQueue_ok by (auto simp: adopt_queue_def Let_def bindE_def split: option.split sum.split) (metis Inl_Inr_False)

lemma adopt_all_ok: "\<exists>d'. foldE (adopt_queue cfg) qs d = Inr d'"
proof (induction qs arbitrary: d)
  case (Cons q qs)
  obtain d1 where "adopt_queue cfg q d = Inr d1" using adopt_ok by blast
  with Cons show ?case by simp
qed simp

text \<open>
  whatever the reservation counters say when the process starts, the reconciliation under its
  lock succeeds and leaves every counter equal to the number of handed-off jobs that hold its key,
  with a counter row for every key of a live job; it changes no status and publishes nothing.
\<close>

lemma reconcile_heals:
  assumes "tables_pre (jobs d) (map k_concurrency_key (concurrency d)) (sched_keys d)" "count_revision d = Some v"
  shows "\<exists>d'. reconcileQueueConcurrency cfg True False d = Inr (True, d')
    \<and> (\<forall>k \<in> set (concurrency d'). k_active_count k =
        int (sql_count (\<lambda>r. c_status r = Handed_Off \<and> c_concurrency_key r = Some (k_concurrency_key k)) (jobs d')))
    \<and> (\<forall>r \<in> set (jobs d'). \<forall>key. non_terminal r \<and> c_concurrency_key r = Some key \<longrightarrow>
        (\<exists>k \<in> set (concurrency d'). k_concurrency_key k = key))
    \<and> map c_status (jobs d') = map c_status (jobs d) \<and> broadcasts d' = broadcasts d"
proof -
  have pre: "pre_inv d d" using assms(1) by (simp add: pre_inv_def)
  obtain d1 where d1: "reconcileQueueConcurrency_tables cfg d = Inr d1"
    using adopt_all_ok [of cfg "map fst (cfg_queues cfg)" d] by (auto simp: reconcileQueueConcurrency_tables_def)
  note pre1 = pre_tables [OF pre d1]
  let ?d = "reconcileConcurrency d1"
  have op: "reconcileQueueConcurrency cfg True False d = Inr (True, ?d)" by (simp add: reconcileQueueConcurrency_def d1)
  have keys: "k_concurrency_key ` set (concurrency ?d) = k_concurrency_key ` set (concurrency d1)"
    by (auto simp: reconcileConcurrency_def image_iff)
  have jobs: "jobs ?d = jobs d1" "broadcasts ?d = broadcasts d1" by (simp_all add: reconcileConcurrency_def)
  have "\<forall>k \<in> set (concurrency ?d). k_active_count k =
      int (sql_count (\<lambda>r. c_status r = Handed_Off \<and> c_concurrency_key r = Some (k_concurrency_key k)) (jobs ?d))"
    by (auto simp: reconcileConcurrency_def)
  moreover have "\<exists>k \<in> set (concurrency ?d). k_concurrency_key k = key"
    if "r \<in> set (jobs ?d)" "non_terminal r" "c_concurrency_key r = Some key" for r key
  proof -
    have "key \<in> k_concurrency_key ` set (concurrency ?d)"
      using that pre1 unfolding keys jobs by (auto simp: pre_inv_def tables_pre_def row_ok_def)
    then show ?thesis by auto
  qed
  ultimately show ?thesis using op pre1 unfolding pre_inv_def jobs [symmetric] by blast
qed

definition stale_db :: db where
  "stale_db = demo_db\<lparr>concurrency := [\<lparr>k_concurrency_key = ''queue:mail'', k_max_concurrency = 2, k_active_count = 7\<rparr>]\<rparr>"

lemma reconcile_heals_example:
  "\<exists>d'. reconcileQueueConcurrency demo_cfg True False stale_db = Inr (True, d') \<and> map k_active_count (concurrency d') = [1]
     \<and> map c_status (jobs d') = [Handed_Off, Queued, Completed]"
proof -
  have "tables_pre (jobs stale_db) (map k_concurrency_key (concurrency stale_db)) (sched_keys stale_db)"
    using store_inv_pre [OF demo_inv] by (simp add: stale_db_def pre_inv_def demo_db_def)
  from reconcile_heals [OF this, of 7 demo_cfg] obtain d' where
    "reconcileQueueConcurrency demo_cfg True False stale_db = Inr (True, d')" "map c_status (jobs d') = map c_status (jobs stale_db)"
    by (auto simp: stale_db_def demo_db_def)
  moreover have "map_sum id (\<lambda>(_, d). map k_active_count (concurrency d)) (reconcileQueueConcurrency demo_cfg True False stale_db) = Inr [1]"
    by code_simp
  moreover have "map c_status (jobs stale_db) = [Handed_Off, Queued, Completed]" by code_simp
  ultimately show ?thesis by auto
qed

end
