(* ===== verification/Job_Store_Retention.thy ===== *)
theory Job_Store_Retention
  imports Job_Store_Example
begin

text \<open>
  Retention sweeps: the batch loop of \<open>pruneTerminalJobs\<close> ends for every batch size and
  removes exactly the expired terminal jobs. The only way a batch can fail is the count revision,
  which \<open>revision_room\<close> keeps a safe integer.
\<close>

definition expired :: "prune_kind \<Rightarrow> int \<Rightarrow> job_rec \<Rightarrow> bool" where
  "expired kind cutoff r \<longleftrightarrow> c_status r = prune_status kind \<and> sql_le (prune_column kind r) cutoff"

definition revision_room :: "db \<Rightarrow> bool" where
  "revision_room d \<longleftrightarrow> (\<exists>v. count_revision d = Some v \<and> 0 \<le> v \<and> v + int (length (jobs d)) \<le> MAX_SAFE_INTEGER)"

lemma recordCountDelta_ok:
  assumes "count_revision d = Some v" "0 \<le> v" "v + 1 \<le> MAX_SAFE_INTEGER"
  shows "\<exists>d'. recordCountDelta f d = Inr d' \<and> jobs d' = jobs d \<and> (count_revision d' = Some v \<or> count_revision d' = Some (v + 1))"
  using assms by (simp add: recordCountDelta_def countRevision_def is_safe_int_def Let_def)

lemma prune_batch_ok:
  fixes n :: nat and kind :: prune_kind and cutoff :: int
  assumes "distinct (map c_id (jobs d))" "revision_room d"
  defines "k \<equiv> min n (sql_count (expired kind cutoff) (jobs d))"
  shows "\<exists>d'. prune_batch kind cutoff n d = Inr (k, d') \<and> revision_room d' \<and>
    jobs d' = filter (\<lambda>r. r \<notin> set (take n (filter (expired kind cutoff) (jobs d)))) (jobs d)"
proof -
  let ?E = "expired kind cutoff"
  let ?sel = "take n (filter ?E (jobs d))"
  have dj: "distinct (jobs d)" using assms(1) by (simp add: distinct_map)
  have sel: "set ?sel \<subseteq> set (jobs d)" by (auto dest: in_set_takeD)
  have ids: "c_id r \<in> c_id ` set ?sel \<longleftrightarrow> r \<in> set ?sel" if "r \<in> set (jobs d)" for r
    using sel that distinct_map_inj_on_eq [OF assms(1)] by blast
  have del: "sql_delete (\<lambda>r. c_id r \<in> set (map c_id ?sel)) (jobs d) = filter (\<lambda>r. r \<notin> set ?sel) (jobs d)"
    unfolding sql_delete_def by (rule filter_cong) (simp_all add: ids)
  have "sql_count (\<lambda>r. c_id r \<in> set (map c_id ?sel)) (jobs d) = sql_count (\<lambda>r. r \<in> set ?sel) (jobs d)"
    by (rule sql_count_cong) (simp add: ids)
  also have "\<dots> = card (set ?sel)"
  proof -
    have "set (filter (\<lambda>r. r \<in> set ?sel) (jobs d)) = set ?sel" using sel by auto
    moreover have "distinct (filter (\<lambda>r. r \<in> set ?sel) (jobs d))" using dj by simp
    ultimately show ?thesis unfolding sql_count_def by (metis distinct_card)
  qed
  also have "\<dots> = length ?sel" using dj by (simp add: distinct_card)
  finally have cnt: "sql_count (\<lambda>r. c_id r \<in> set (map c_id ?sel)) (jobs d) = k"
    by (simp add: k_def sql_count_def min.commute)
  show ?thesis
  proof (cases "?sel = []")
    case True
    with cnt have "k = 0" by (simp add: sql_count_def)
    moreover from True have "prune_batch kind cutoff n d = Inr (0, d)"
      by (auto simp: prune_batch_def Let_def expired_def [abs_def])
    ultimately show ?thesis using True assms(2) by auto
  next
    case False
    let ?d1 = "d\<lparr>jobs := filter (\<lambda>r. r \<notin> set ?sel) (jobs d)\<rparr>"
    from assms(2) obtain v where v: "count_revision d = Some v" "0 \<le> v" "v + int (length (jobs d)) \<le> MAX_SAFE_INTEGER"
      by (auto simp: revision_room_def)
    from False sel have "length (filter (\<lambda>r. r \<notin> set ?sel) (jobs d)) < length (jobs d)"
      by (metis (no_types, lifting) length_filter_less list.set_intros(1) list.exhaust subsetD)
    with v have room: "v + 1 + int (length (jobs ?d1)) \<le> MAX_SAFE_INTEGER" by simp
    have "v + 1 \<le> MAX_SAFE_INTEGER" "count_revision ?d1 = Some v" using room v(1) by simp_all
    then obtain d' where d': "recordCountDelta (delta2 B_all (- int k) (prune_bucket kind) (- int k)) ?d1 = Inr d'"
      "jobs d' = jobs ?d1" "count_revision d' = Some v \<or> count_revision d' = Some (v + 1)"
      using recordCountDelta_ok [of ?d1 v] v(2) by blast
    have "prune_batch kind cutoff n d = Inr (k, d')"
      using False d'(1) cnt del by (simp add: prune_batch_def Let_def expired_def [abs_def])
    moreover have "revision_room d'" using d'(2,3) v room by (auto simp: revision_room_def)
    ultimately show ?thesis using d'(2) by auto
  qed
qed


text \<open>The loop, by induction on the number of expired jobs left.\<close>

lemma filter_expired_rest:
  assumes "distinct xs"
  shows "filter (\<lambda>x. \<not> P x) (filter (\<lambda>x. x \<notin> set (take n (filter P xs))) xs) = filter (\<lambda>x. \<not> P x) xs"
    and "filter P (filter (\<lambda>x. x \<notin> set (take n (filter P xs))) xs) = drop n (filter P xs)"
proof -
  show "filter (\<lambda>x. \<not> P x) (filter (\<lambda>x. x \<notin> set (take n (filter P xs))) xs) = filter (\<lambda>x. \<not> P x) xs"
    unfolding filter_filter by (rule filter_cong) (auto dest: in_set_takeD)
  have "filter P (filter (\<lambda>x. x \<notin> set (take n (filter P xs))) xs) = filter (\<lambda>x. x \<notin> set (take n (filter P xs))) (filter P xs)"
    unfolding filter_filter by (rule filter_cong) auto
  also have "\<dots> = filter (\<lambda>x. x \<notin> set (take n (filter P xs))) (take n (filter P xs) @ drop n (filter P xs))" by simp
  also have "\<dots> = drop n (filter P xs)"
  proof -
    have "distinct (take n (filter P xs) @ drop n (filter P xs))" using assms by simp
    then have "set (take n (filter P xs)) \<inter> set (drop n (filter P xs)) = {}" unfolding distinct_append by blast
    then have "filter (\<lambda>x. x \<notin> set (take n (filter P xs))) (drop n (filter P xs)) = drop n (filter P xs)"
      by (intro filter_id_all) blast
    moreover have "filter (\<lambda>x. x \<notin> set (take n (filter P xs))) (take n (filter P xs)) = []" by (simp add: filter_empty_conv)
    ultimately show ?thesis by (simp only: filter_append append_Nil)
  qed
  finally show "filter P (filter (\<lambda>x. x \<notin> set (take n (filter P xs))) xs) = drop n (filter P xs)" .
qed

lemma prune_loop:
  assumes "distinct (map c_id (jobs d))" "revision_room d" "0 < n"
  shows "\<exists>d'. pruneStatusBatches kind cutoff n deleted d = Some (Inr (deleted + sql_count (expired kind cutoff) (jobs d)), d')
    \<and> revision_room d' \<and> jobs d' = filter (\<lambda>r. \<not> expired kind cutoff r) (jobs d)"
  using assms
proof (induction "sql_count (expired kind cutoff) (jobs d)" arbitrary: d deleted rule: less_induct)
  case less
  let ?E = "expired kind cutoff"
  have dj: "distinct (jobs d)" using less.prems(1) by (simp add: distinct_map)
  from prune_batch_ok [OF less.prems(1,2), where n = n and kind = kind and cutoff = cutoff] obtain d1 where
    d1: "prune_batch kind cutoff n d = Inr (min n (sql_count ?E (jobs d)), d1)" "revision_room d1"
      "jobs d1 = filter (\<lambda>r. r \<notin> set (take n (filter ?E (jobs d)))) (jobs d)" by blast
  have live: "filter (\<lambda>r. \<not> ?E r) (jobs d1) = filter (\<lambda>r. \<not> ?E r) (jobs d)"
    and left: "sql_count ?E (jobs d1) = sql_count ?E (jobs d) - n"
    using filter_expired_rest [OF dj, of ?E n] by (simp_all add: d1(3) sql_count_def)
  show ?case
  proof (cases "sql_count ?E (jobs d) < n")
    case True
    with left have "sql_count ?E (jobs d1) = 0" by simp
    then have "filter (\<lambda>r. \<not> ?E r) (jobs d1) = jobs d1" by (intro filter_id_all) (auto simp: sql_count_def filter_empty_conv)
    with True d1 live show ?thesis by (simp add: pruneStatusBatches.simps)
  next
    case False
    have "distinct (map c_id (jobs d1))" using less.prems(1) d1(3) by (simp add: distinct_map_filter)
    with less.hyps [of d1 "deleted + n"] False left less.prems(3) d1(2) obtain d' where
      "pruneStatusBatches kind cutoff n (deleted + n) d1 = Some (Inr (deleted + n + sql_count ?E (jobs d1)), d')"
      "revision_room d'" "jobs d' = filter (\<lambda>r. \<not> ?E r) (jobs d1)" by auto
    with False d1(1) live left show ?thesis by (simp add: pruneStatusBatches.simps [of kind cutoff n deleted d])
  qed
qed

lemma prune_next_ok:
  assumes "distinct (map c_id (jobs d))" "revision_room d" "0 < n"
  shows "\<exists>d'. prune_next enabled kind cutoff n (Inr deleted, d) =
      Some (Inr (deleted + sql_count (\<lambda>r. enabled \<and> expired kind cutoff r) (jobs d)), d')
    \<and> distinct (map c_id (jobs d')) \<and> revision_room d' \<and> jobs d' = filter (\<lambda>r. \<not> (enabled \<and> expired kind cutoff r)) (jobs d)"
proof (cases enabled)
  case True
  with prune_loop [OF assms, of kind cutoff 0] assms(1) show ?thesis
    by (auto simp: prune_next_def distinct_map_filter)
next
  case False
  with assms show ?thesis by (simp add: prune_next_def sql_count_def)
qed

definition expired_job :: "int \<Rightarrow> int option \<Rightarrow> int option \<Rightarrow> job_rec \<Rightarrow> bool" where
  "expired_job now completedTtlMs failedTtlMs r \<longleftrightarrow>
     (ttl_enabled completedTtlMs \<and> c_status r = Completed \<and> sql_le (c_completed_at_ms r) (now - the completedTtlMs)) \<or>
     (ttl_enabled failedTtlMs \<and> c_status r = Failed \<and> sql_le (c_failed_at_ms r) (now - the failedTtlMs)) \<or>
     (ttl_enabled failedTtlMs \<and> c_status r = Orphaned \<and> sql_le (c_orphaned_at_ms r) (now - the failedTtlMs))"

lemma sql_count_partition: "sql_count p rows + sql_count q (filter (\<lambda>r. \<not> p r) rows) = sql_count (\<lambda>r. p r \<or> q r) rows"
  by (induction rows) auto

text \<open>
  C18: a retention sweep always ends, whatever its batch size, and when it ends exactly the
  completed, failed and orphaned jobs older than their retention are gone, every other job is
  untouched and in place, and the reported number is the number of removed jobs.
\<close>

theorem prune_terminates:
  assumes "distinct (map c_id (jobs d))" "revision_room d"
  shows "\<exists>d'. pruneTerminalJobs now completedTtlMs failedTtlMs batchSize d =
      Some (Inr (sql_count (expired_job now completedTtlMs failedTtlMs) (jobs d)), d')
    \<and> jobs d' = filter (\<lambda>r. \<not> expired_job now completedTtlMs failedTtlMs r) (jobs d)"
proof -
  let ?n = "if 0 < batchSize then batchSize else 1000"
  let ?cc = "now - (case completedTtlMs of None \<Rightarrow> 0 | Some t \<Rightarrow> t)" and ?fc = "now - (case failedTtlMs of None \<Rightarrow> 0 | Some t \<Rightarrow> t)"
  let ?p = "\<lambda>r. ttl_enabled completedTtlMs \<and> expired Prune_Completed ?cc r"
  let ?q = "\<lambda>r. ttl_enabled failedTtlMs \<and> expired Prune_Failed ?fc r"
  let ?o = "\<lambda>r. ttl_enabled failedTtlMs \<and> expired Prune_Orphaned ?fc r"
  have n: "0 < ?n" by simp
  obtain d1 where d1: "prune_next (ttl_enabled completedTtlMs) Prune_Completed ?cc ?n (Inr 0, d) = Some (Inr (sql_count ?p (jobs d)), d1)"
    "distinct (map c_id (jobs d1))" "revision_room d1" "jobs d1 = filter (\<lambda>r. \<not> ?p r) (jobs d)"
    using prune_next_ok [OF assms n, of "ttl_enabled completedTtlMs" Prune_Completed ?cc 0] by auto
  obtain d2 where d2: "prune_next (ttl_enabled failedTtlMs) Prune_Failed ?fc ?n (Inr (sql_count ?p (jobs d)), d1)
      = Some (Inr (sql_count ?p (jobs d) + sql_count ?q (jobs d1)), d2)"
    "distinct (map c_id (jobs d2))" "revision_room d2" "jobs d2 = filter (\<lambda>r. \<not> ?q r) (jobs d1)"
    using prune_next_ok [OF d1(2,3) n, of "ttl_enabled failedTtlMs" Prune_Failed ?fc "sql_count ?p (jobs d)"] by auto
  obtain d3 where d3: "prune_next (ttl_enabled failedTtlMs) Prune_Orphaned ?fc ?n (Inr (sql_count ?p (jobs d) + sql_count ?q (jobs d1)), d2)
      = Some (Inr (sql_count ?p (jobs d) + sql_count ?q (jobs d1) + sql_count ?o (jobs d2)), d3)"
    "jobs d3 = filter (\<lambda>r. \<not> ?o r) (jobs d2)"
    using prune_next_ok [OF d2(2,3) n, of "ttl_enabled failedTtlMs" Prune_Orphaned ?fc] by blast
  have E: "expired_job now completedTtlMs failedTtlMs r \<longleftrightarrow> (?p r \<or> ?q r) \<or> ?o r" for r
    by (cases completedTtlMs; cases failedTtlMs) (auto simp: expired_job_def expired_def ttl_enabled_def)
  have j2: "jobs d2 = filter (\<lambda>r. \<not> (?p r \<or> ?q r)) (jobs d)" unfolding d2(4) d1(4) filter_filter by (rule filter_cong) auto
  have "jobs d3 = filter (\<lambda>r. \<not> expired_job now completedTtlMs failedTtlMs r) (jobs d)"
    unfolding d3(2) j2 filter_filter E by (rule filter_cong) auto
  moreover have "sql_count ?p (jobs d) + sql_count ?q (jobs d1) + sql_count ?o (jobs d2) =
      sql_count (expired_job now completedTtlMs failedTtlMs) (jobs d)"
    unfolding E [abs_def] j2 d1(4) using sql_count_partition [of ?p "jobs d" ?q] sql_count_partition [of "\<lambda>r. ?p r \<or> ?q r" "jobs d" ?o]
    by simp
  ultimately show ?thesis using d1(1) d2(1) d3(1) by (simp add: pruneTerminalJobs_def Let_def)
qed

theorem prune_terminates_witness:
  "\<exists>d'. pruneTerminalJobs 1000 (Some 10) (Some 20) 1 demo_db = Some (Inr 1, d') \<and> map c_id (jobs d') = [''j1'', ''j2'']"
proof -
  have "distinct (map c_id (jobs demo_db))" "revision_room demo_db"
    by (simp_all add: revision_room_def demo_db_def demo_job_def MAX_SAFE_INTEGER_def)
  from prune_terminates [OF this, of 1000 "Some 10" "Some 20" 1] obtain d' where
    d: "pruneTerminalJobs 1000 (Some 10) (Some 20) 1 demo_db = Some (Inr (sql_count (expired_job 1000 (Some 10) (Some 20)) (jobs demo_db)), d')"
      "jobs d' = filter (\<lambda>r. \<not> expired_job 1000 (Some 10) (Some 20) r) (jobs demo_db)" by blast
  have "sql_count (expired_job 1000 (Some 10) (Some 20)) (jobs demo_db) = 1"
    "map c_id (filter (\<lambda>r. \<not> expired_job 1000 (Some 10) (Some 20) r) (jobs demo_db)) = [''j1'', ''j2'']"
    by (simp_all add: demo_db_def demo_job_def expired_job_def ttl_enabled_def sql_le_def)
  with d show ?thesis by (intro exI [of _ d']) simp
qed

end
