(* ===== verification/Mail_Claims.thy ===== *)
theory Mail_Claims
  imports Job_Store_Example
begin

text \<open>
  Claims about the canonical JSON behind the durable digests, and about the mail operations that
  rest on them.
\<close>

subsection \<open>Canonical JSON\<close>

text \<open>
  C21: two JSON values have the same canonical form exactly when they are equal up to the order of
  object properties at every depth.
\<close>

theorem stable_json_canonical:
  assumes "plain_json a" "plain_json b"
  shows "stableJsonValue a = stableJsonValue b \<longleftrightarrow> same_json a b"
  using stable_of_same same_of_stable assms by blast

theorem stable_json_canonical_witness:
  "stableJsonValue (JObj [(''b'', JInt 1), (''a'', JArr [JObj [(''y'', JNull), (''x'', JNull)]])])
     = stableJsonValue (JObj [(''a'', JArr [JObj [(''x'', JNull), (''y'', JNull)]]), (''b'', JInt 1)])
   \<and> same_json (JObj [(''b'', JInt 1), (''a'', JArr [JObj [(''y'', JNull), (''x'', JNull)]])])
       (JObj [(''a'', JArr [JObj [(''x'', JNull), (''y'', JNull)]]), (''b'', JInt 1)])"
proof -
  let ?a = "JObj [(''b'', JInt 1), (''a'', JArr [JObj [(''y'', JNull), (''x'', JNull)]])]"
  let ?b = "JObj [(''a'', JArr [JObj [(''x'', JNull), (''y'', JNull)]]), (''b'', JInt 1)]"
  have "plain_json ?a" "plain_json ?b" "stableJsonValue ?a = stableJsonValue ?b" by code_simp+
  with stable_json_canonical [of ?a ?b] show ?thesis by blast
qed

subsection \<open>Mail operations\<close>

lemma digest_of_prepared:
  "mailDeliveryPayloadDigest h le i (JObj (obj_set pairs ''deliveryOperation'' v)) = mailDeliveryPayloadDigest h le i (JObj pairs)"
  by (rule digest_ignores_operation)

text \<open>
  C22: a payload prepared for required delivery passes the check of every later attempt with the
  same provider, which recovers the requested operation id and the prepared digest.
\<close>

theorem mail_prepare_validates:
  assumes "prepareRequiredDeliveryPayload h le capability request pairs = Inr payload"
    and "cap_providerKind capability \<noteq> []" "0 < cap_retentionMs capability" "is_safe_int (cap_retentionMs capability)"
  shows "\<exists>operation. validateAttemptPayload h le capability payload = Inr operation
    \<and> validateDeliveryOperationRequest request = Inr (op_id operation)
    \<and> mailDeliveryPayloadDigest h le (op_id operation) (JObj pairs) = Inr (op_payloadDigest operation)"
proof -
  from assms(1) obtain i digest where i: "validateDeliveryOperationRequest request = Inr i"
    and digest: "mailDeliveryPayloadDigest h le i (JObj pairs) = Inr digest"
    and payload: "payload = JObj (obj_set pairs ''deliveryOperation'' (operation_object
        \<lparr>op_id = i, op_payloadDigest = digest, op_providerKind = cap_providerKind capability,
         op_providerRetentionMs = cap_retentionMs capability\<rparr>))"
    by (auto simp: prepareRequiredDeliveryPayload_def bindE_eq_Inr)
  let ?op = "\<lparr>op_id = i, op_payloadDigest = digest, op_providerKind = cap_providerKind capability,
    op_providerRetentionMs = cap_retentionMs capability\<rparr>"
  have "deliveryOperationFromPayload payload = Inr (Some ?op)"
    unfolding payload
    by (rule operation_roundtrip) (use validate_request_nonempty [OF i] digest_prefix [OF digest] assms(2-4) in simp_all)
  then have "validateAttemptPayload h le capability payload = Inr ?op"
    using digest by (simp add: validateAttemptPayload_def payload digest_of_prepared)
  with i digest show ?thesis by (intro exI [of _ ?op]) simp
qed

definition demo_request :: jsval where
  "demo_request = JObj [(''id'', JStr ''op-1''), (''idempotency'', JStr ''required'')]"

definition demo_pairs :: "(string \<times> jsval) list" where
  "demo_pairs = [(''to'', JStr ''a@example.com''), (''subject'', JStr ''Hi''), (''headers'', JObj [(''X-B'', JStr ''1''), (''X-A'', JStr ''2'')])]"

definition demo_capability :: mail_capability where
  "demo_capability = \<lparr>cap_providerKind = ''smtp'', cap_retentionMs = 1000\<rparr>"

definition demo_payload :: jsval where
  "demo_payload = projr (prepareRequiredDeliveryPayload demo_host (\<le>) demo_capability demo_request demo_pairs)"

lemma demo_prepared: "prepareRequiredDeliveryPayload demo_host (\<le>) demo_capability demo_request demo_pairs = Inr demo_payload"
proof -
  have "is_ok (prepareRequiredDeliveryPayload demo_host (\<le>) demo_capability demo_request demo_pairs)" by code_simp
  then show ?thesis by (auto simp: demo_payload_def elim!: is_okE)
qed

theorem mail_prepare_validates_witness:
  "\<exists>operation. validateAttemptPayload demo_host (\<le>) demo_capability demo_payload = Inr operation \<and> op_id operation = ''op-1''"
proof -
  have "validateDeliveryOperationRequest demo_request = Inr ''op-1''" by code_simp
  moreover have "cap_providerKind demo_capability \<noteq> []" "0 < cap_retentionMs demo_capability" "is_safe_int (cap_retentionMs demo_capability)"
    by (simp_all add: demo_capability_def is_safe_int_def MAX_SAFE_INTEGER_def)
  ultimately show ?thesis using mail_prepare_validates [OF demo_prepared] by auto
qed

text \<open>
  the first attempt fixes the provider's idempotency window for good. Every later attempt of
  the same mail sees the same start and end, changes nothing, and is refused from the end of the
  window on.
\<close>

lemma mail_window_fixed:
  assumes "beginAttempt h le capability payload now False rows = Inr ((expires, first), rows')"
    and "0 \<le> later" "is_safe_int later"
  shows "beginAttempt h le capability payload later False rows' =
    (if later < expires then Inr ((expires, first), rows') else Inl (WindowExpired expires first))"
proof -
  from assms(1) obtain operation row where
    op: "validateAttemptPayload h le capability payload = Inr operation"
    and row: "validate_mail_row operation row"
      "mail_operation_row h (op_id operation) rows' = Some (row\<lparr>m_first_attempt_started_at_ms := Some first\<rparr>)"
    and expires: "expires = first + op_providerRetentionMs operation"
    by (rule beginAttempt_Inr)
  have "validate_mail_row operation (row\<lparr>m_first_attempt_started_at_ms := Some first\<rparr>)"
    using row(1) by (simp add: validate_mail_row_def)
  with op row(2) assms(2,3) show ?thesis by (simp add: beginAttempt_def Let_def expires)
qed

definition demo_mail_rows :: "mail_row list" where
  "demo_mail_rows = (case validateAttemptPayload demo_host (\<le>) demo_capability demo_payload of
     Inr operation \<Rightarrow> [\<lparr>m_operation_key = mailDeliveryOperationKey demo_host ''op-1'', m_operation_id = ''op-1'',
       m_payload_digest = op_payloadDigest operation, m_background_job_id = ''j'', m_first_attempt_started_at_ms = None,
       m_provider_kind = ''smtp'', m_provider_retention_ms = 1000, m_created_at_ms = 0\<rparr>]
   | Inl _ \<Rightarrow> [])"

lemma mail_window_fixed_example:
  "\<exists>rows. beginAttempt demo_host (\<le>) demo_capability demo_payload 100 False demo_mail_rows = Inr ((1100, 100), rows)
     \<and> beginAttempt demo_host (\<le>) demo_capability demo_payload 900 False rows = Inr ((1100, 100), rows)
     \<and> beginAttempt demo_host (\<le>) demo_capability demo_payload 1100 False rows = Inl (WindowExpired 1100 100)"
proof -
  have "map_sum id fst (beginAttempt demo_host (\<le>) demo_capability demo_payload 100 False demo_mail_rows) = Inr (1100, 100)"
    by code_simp
  then obtain rows where rows: "beginAttempt demo_host (\<le>) demo_capability demo_payload 100 False demo_mail_rows = Inr ((1100, 100), rows)"
    by (cases "beginAttempt demo_host (\<le>) demo_capability demo_payload 100 False demo_mail_rows") auto
  have safe: "is_safe_int 900" "is_safe_int 1100" by (simp_all add: is_safe_int_def MAX_SAFE_INTEGER_def)
  from rows mail_window_fixed [OF rows _ safe(1)] mail_window_fixed [OF rows _ safe(2)] show ?thesis by auto
qed

end
