(* ===== verification/Delivery_Queue.thy ===== *)
theory Delivery_Queue
  imports Prelude
begin

text \<open>
  The per-client outbound delivery queue (\<open>src/src/http-server/client-delivery-queue.js\<close>): a
  FIFO of deliveries of which one is active, with frame and byte high-water marks.

  A task carries an identity, because the source compares task objects. The promises the queue hands
  out are the log \<open>settled\<close> (task and whether it was rejected), the deliveries it starts are the
  log \<open>started\<close>, and \<open>accepted\<close> records every task that entered the queue; the three logs
  are history, no operation reads them. The overflow handler is a parameter, a function on the
  queue, since the client's handler may tear the queue down before the rejection is returned. A
  delivery is assumed to return a promise.
\<close>

subsection \<open>State and operations\<close>

record task =
  t_id :: nat
  byteLength :: nat
  countedFrame :: bool

record delivery_queue =
  maxBytes :: int
  maxFrames :: int
  tasks :: "task list"
  activeTask :: "task option"
  pendingBytes :: int
  pendingFrames :: int
  destroyed :: bool
  accepted :: "task list"
  started :: "task list"
  settled :: "(task \<times> bool) list"

datatype enqueue_result = Resolved | Pending | OverflowRejected

definition new_queue :: "int \<Rightarrow> int \<Rightarrow> delivery_queue" where
  "new_queue maxB maxF = \<lparr>maxBytes = maxB, maxFrames = maxF, tasks = [], activeTask = None, pendingBytes = 0,
     pendingFrames = 0, destroyed = False, accepted = [], started = [], settled = []\<rparr>"

definition drain :: "delivery_queue \<Rightarrow> delivery_queue" where
  "drain q =
     (if destroyed q \<or> activeTask q \<noteq> None then q
      else case tasks q of
             [] \<Rightarrow> q
           | task # rest \<Rightarrow> q\<lparr>tasks := rest, activeTask := Some task, started := started q @ [task]\<rparr>)"

definition enqueue_task :: "task \<Rightarrow> delivery_queue \<Rightarrow> delivery_queue" where
  "enqueue_task task q = drain (q\<lparr>tasks := tasks q @ [task], accepted := accepted q @ [task]\<rparr>)"

definition enqueueFrame ::
    "(delivery_queue \<Rightarrow> delivery_queue) \<Rightarrow> nat \<Rightarrow> nat \<Rightarrow> delivery_queue \<Rightarrow> enqueue_result \<times> delivery_queue" where
  "enqueueFrame onOverflow i n q =
     (if destroyed q then (Resolved, q)
      else if pendingFrames q + 1 > maxFrames q \<or> pendingBytes q + int n > maxBytes q
      then (OverflowRejected, onOverflow q)
      else (Pending, enqueue_task \<lparr>t_id = i, byteLength = n, countedFrame = True\<rparr>
                       (q\<lparr>pendingFrames := pendingFrames q + 1, pendingBytes := pendingBytes q + int n\<rparr>)))"

definition enqueueControl :: "nat \<Rightarrow> delivery_queue \<Rightarrow> enqueue_result \<times> delivery_queue" where
  "enqueueControl i q =
     (if destroyed q then (Resolved, q)
      else (Pending, enqueue_task \<lparr>t_id = i, byteLength = 0, countedFrame = False\<rparr> q))"

definition destroy :: "delivery_queue \<Rightarrow> delivery_queue" where
  "destroy q =
     (if destroyed q then q
      else let remaining = (case activeTask q of None \<Rightarrow> tasks q | Some task \<Rightarrow> task # tasks q)
           in q\<lparr>destroyed := True, activeTask := None, tasks := [], pendingBytes := 0, pendingFrames := 0,
                settled := settled q @ map (\<lambda>task. (task, False)) remaining\<rparr>)"

definition snapshot :: "delivery_queue \<Rightarrow> int \<times> int" where
  "snapshot q = (pendingBytes q, pendingFrames q)"

definition finish :: "task \<Rightarrow> bool \<Rightarrow> delivery_queue \<Rightarrow> delivery_queue" where
  "finish task failed q =
     (if destroyed q \<or> activeTask q \<noteq> Some task then q
      else let q1 = q\<lparr>activeTask := None\<rparr>;
               q2 = (if countedFrame task
                     then q1\<lparr>pendingBytes := pendingBytes q1 - int (byteLength task), pendingFrames := pendingFrames q1 - 1\<rparr>
                     else q1)
           in drain (q2\<lparr>settled := settled q2 @ [(task, failed)]\<rparr>))"

subsection \<open>Invariant\<close>

definition in_flight :: "delivery_queue \<Rightarrow> task list" where
  "in_flight q = (case activeTask q of None \<Rightarrow> [] | Some task \<Rightarrow> [task])"

definition frame_count :: "task list \<Rightarrow> int" where
  "frame_count ts = int (length (filter countedFrame ts))"

definition frame_bytes :: "task list \<Rightarrow> int" where
  "frame_bytes ts = (\<Sum>t\<leftarrow>ts. if countedFrame t then int (byteLength t) else 0)"

lemma frame_simps [simp]:
  "frame_count [] = 0" "frame_count (t # ts) = of_bool (countedFrame t) + frame_count ts"
  "frame_count (ts @ us) = frame_count ts + frame_count us"
  "frame_bytes [] = 0" "frame_bytes (t # ts) = (if countedFrame t then int (byteLength t) else 0) + frame_bytes ts"
  "frame_bytes (ts @ us) = frame_bytes ts + frame_bytes us"
  by (simp_all add: frame_count_def frame_bytes_def)

lemma frame_nonneg [simp]: "0 \<le> frame_count ts" "0 \<le> frame_bytes ts"
  by (induction ts) auto

definition queue_inv :: "delivery_queue \<Rightarrow> bool" where
  "queue_inv q =
     (pendingFrames q = frame_count (in_flight q @ tasks q) \<and> pendingBytes q = frame_bytes (in_flight q @ tasks q)
      \<and> pendingFrames q \<le> maxFrames q \<and> pendingBytes q \<le> maxBytes q
      \<and> (activeTask q = None \<longrightarrow> tasks q = []) \<and> (destroyed q \<longrightarrow> activeTask q = None)
      \<and> accepted q = map fst (settled q) @ in_flight q @ tasks q
      \<and> (\<not> destroyed q \<longrightarrow> started q = map fst (settled q) @ in_flight q))"

text \<open>Draining restores the one conjunct that a pushed or finished task breaks.\<close>

definition queue_pre :: "delivery_queue \<Rightarrow> bool" where
  "queue_pre q =
     (\<not> destroyed q \<and> pendingFrames q = frame_count (in_flight q @ tasks q)
      \<and> pendingBytes q = frame_bytes (in_flight q @ tasks q)
      \<and> pendingFrames q \<le> maxFrames q \<and> pendingBytes q \<le> maxBytes q
      \<and> accepted q = map fst (settled q) @ in_flight q @ tasks q \<and> started q = map fst (settled q) @ in_flight q)"

lemma drain_inv: "queue_pre q \<Longrightarrow> queue_inv (drain q)"
  by (cases "activeTask q"; cases "tasks q") (auto simp: queue_pre_def queue_inv_def drain_def in_flight_def)

lemma new_queue_inv: "0 \<le> maxB \<Longrightarrow> 0 \<le> maxF \<Longrightarrow> queue_inv (new_queue maxB maxF)"
  by (simp add: queue_inv_def new_queue_def in_flight_def)

lemma enqueueFrame_inv:
  assumes "queue_inv q" "\<And>q. queue_inv q \<Longrightarrow> queue_inv (onOverflow q)"
  shows "queue_inv (snd (enqueueFrame onOverflow i n q))"
proof -
  have "queue_pre (q\<lparr>pendingFrames := pendingFrames q + 1, pendingBytes := pendingBytes q + int n,
      tasks := tasks q @ [t], accepted := accepted q @ [t]\<rparr>)"
    if "t = \<lparr>t_id = i, byteLength = n, countedFrame = True\<rparr>" "\<not> destroyed q"
      "\<not> (pendingFrames q + 1 > maxFrames q \<or> pendingBytes q + int n > maxBytes q)" for t
    using assms(1) that by (auto simp: queue_inv_def queue_pre_def in_flight_def)
  with assms show ?thesis by (auto simp: enqueueFrame_def enqueue_task_def intro!: drain_inv)
qed

lemma enqueueControl_inv:
  assumes "queue_inv q"
  shows "queue_inv (snd (enqueueControl i q))"
proof -
  have "queue_pre (q\<lparr>tasks := tasks q @ [t], accepted := accepted q @ [t]\<rparr>)"
    if "t = \<lparr>t_id = i, byteLength = 0, countedFrame = False\<rparr>" "\<not> destroyed q" for t
    using assms that by (auto simp: queue_inv_def queue_pre_def in_flight_def)
  with assms show ?thesis by (auto simp: enqueueControl_def enqueue_task_def intro!: drain_inv)
qed

lemma destroy_inv:
  assumes "queue_inv q"
  shows "queue_inv (destroy q)"
proof -
  have "0 \<le> maxFrames q" "0 \<le> maxBytes q"
    using assms frame_nonneg [of "in_flight q @ tasks q"] unfolding queue_inv_def by linarith+
  with assms show ?thesis
    by (auto simp: destroy_def queue_inv_def in_flight_def Let_def comp_def split: option.splits)
qed

lemma finish_inv: "queue_inv q \<Longrightarrow> queue_inv (finish task failed q)"
proof (cases "destroyed q \<or> activeTask q \<noteq> Some task")
  case True
  assume "queue_inv q"
  with True show ?thesis by (simp add: finish_def)
next
  case False
  assume inv: "queue_inv q"
  let ?q1 = "q\<lparr>activeTask := None\<rparr>"
  let ?q2 = "if countedFrame task
     then ?q1\<lparr>pendingBytes := pendingBytes ?q1 - int (byteLength task), pendingFrames := pendingFrames ?q1 - 1\<rparr> else ?q1"
  have "queue_pre (?q2\<lparr>settled := settled ?q2 @ [(task, failed)]\<rparr>)"
    using inv False by (cases "countedFrame task") (auto simp: queue_inv_def queue_pre_def in_flight_def)
  from drain_inv [OF this] False show ?thesis by (simp add: finish_def Let_def)
qed

subsection \<open>Runs\<close>

inductive queue_step :: "(delivery_queue \<Rightarrow> delivery_queue) \<Rightarrow> delivery_queue \<Rightarrow> delivery_queue \<Rightarrow> bool" for onOverflow where
  step_frame: "queue_step onOverflow q (snd (enqueueFrame onOverflow i n q))"
| step_control: "queue_step onOverflow q (snd (enqueueControl i q))"
| step_finish: "queue_step onOverflow q (finish task failed q)"
| step_destroy: "queue_step onOverflow q (destroy q)"

definition queue_start :: "int \<Rightarrow> int \<Rightarrow> delivery_queue \<Rightarrow> bool" where
  "queue_start maxB maxF q = (0 \<le> maxB \<and> 0 \<le> maxF \<and> q = new_queue maxB maxF)"

interpretation ignoring: invariant_system "queue_start maxB maxF" "queue_step (\<lambda>q. q)" queue_inv for maxB maxF
  by unfold_locales (auto simp: queue_start_def new_queue_inv enqueueFrame_inv enqueueControl_inv finish_inv destroy_inv
      elim!: queue_step.cases)

interpretation tearing_down: invariant_system "queue_start maxB maxF" "queue_step destroy" queue_inv for maxB maxF
  by unfold_locales (auto simp: queue_start_def new_queue_inv enqueueFrame_inv enqueueControl_inv finish_inv destroy_inv
      elim!: queue_step.cases)

lemma drain_fixed [simp]: "maxBytes (drain q) = maxBytes q" "maxFrames (drain q) = maxFrames q"
  by (simp_all add: drain_def split: list.split)

lemma step_limits: "queue_step destroy q q' \<Longrightarrow> maxBytes q' = maxBytes q \<and> maxFrames q' = maxFrames q"
  by (erule queue_step.cases)
    (auto simp: enqueueFrame_def enqueueControl_def enqueue_task_def finish_def destroy_def Let_def)

lemma run_limits: "(queue_step destroy)\<^sup>*\<^sup>* q q' \<Longrightarrow> maxBytes q' = maxBytes q \<and> maxFrames q' = maxFrames q"
  by (induction rule: rtranclp_induct) (auto dest: step_limits)

subsection \<open>Claims\<close>

text \<open>
  C10: with an overflow handler that tears the client down, whatever happens, the queue never retains
  more than the configured number of frames or bytes, and its two counters are exactly what the
  active and the waiting frames hold.
\<close>

theorem delivery_accounting:
  assumes "0 \<le> maxB" "0 \<le> maxF" "(queue_step destroy)\<^sup>*\<^sup>* (new_queue maxB maxF) q"
  shows "pendingFrames q = frame_count (in_flight q @ tasks q) \<and> pendingBytes q = frame_bytes (in_flight q @ tasks q)
    \<and> frame_count (in_flight q @ tasks q) \<le> maxF \<and> frame_bytes (in_flight q @ tasks q) \<le> maxB"
  using tearing_down.run_inv [OF new_queue_inv [OF assms(1,2)] assms(3)] run_limits [OF assms(3)]
  by (simp add: queue_inv_def new_queue_def)

definition demo_queue :: delivery_queue where
  "demo_queue = snd (enqueueFrame destroy 2 40 (snd (enqueueControl 1 (snd (enqueueFrame destroy 0 60 (new_queue 100 2))))))"

lemma demo_queue_run: "(queue_step destroy)\<^sup>*\<^sup>* (new_queue 100 2) demo_queue"
  unfolding demo_queue_def
  by (rule converse_rtranclp_into_rtranclp, rule step_frame, rule converse_rtranclp_into_rtranclp, rule step_control,
      rule converse_rtranclp_into_rtranclp, rule step_frame, rule rtranclp.rtrancl_refl)

theorem delivery_accounting_witness:
  "pendingBytes demo_queue = 100 \<and> frame_bytes (in_flight demo_queue @ tasks demo_queue) \<le> 100
     \<and> snd (enqueueFrame destroy 3 1 demo_queue) \<noteq> demo_queue"
proof -
  have "pendingBytes demo_queue = 100" "destroyed (snd (enqueueFrame destroy 3 1 demo_queue))" "\<not> destroyed demo_queue"
    by code_simp+
  then show ?thesis using delivery_accounting [OF _ _ demo_queue_run] by auto
qed

text \<open>
  C11: deliveries are strictly ordered: every accepted task is settled, in flight or waiting, in the
  order of acceptance, at most one is in flight, and a task waits only behind an active one. After a
  teardown every accepted task has been settled exactly once.
\<close>

theorem delivery_fifo:
  assumes "0 \<le> maxB" "0 \<le> maxF" "(queue_step destroy)\<^sup>*\<^sup>* (new_queue maxB maxF) q"
  shows "accepted q = map fst (settled q) @ in_flight q @ tasks q
    \<and> length (in_flight q) \<le> 1 \<and> (in_flight q = [] \<longrightarrow> tasks q = [])
    \<and> (\<not> destroyed q \<longrightarrow> started q = map fst (settled q) @ in_flight q)
    \<and> (destroyed q \<longrightarrow> accepted q = map fst (settled q))"
  using tearing_down.run_inv [OF new_queue_inv [OF assms(1,2)] assms(3)]
  by (auto simp: queue_inv_def in_flight_def split: option.splits)

theorem delivery_fifo_witness:
  "accepted demo_queue = map fst (settled demo_queue) @ in_flight demo_queue @ tasks demo_queue
     \<and> map t_id (accepted demo_queue) = [0, 1, 2] \<and> map t_id (in_flight demo_queue) = [0]"
proof -
  have "map t_id (accepted demo_queue) = [0, 1, 2]" "map t_id (in_flight demo_queue) = [0]" by code_simp+
  then show ?thesis using delivery_fifo [OF _ _ demo_queue_run] by auto
qed

end
