(* ===== verification/Cron.thy ===== *)
theory Cron
  imports Js_Value
begin

text \<open>
  The cron parser and the search for the next fire time
  (\<open>src/src/background-jobs/cron-expression.js\<close>).

  A \<open>Set\<close> of numbers is a duplicate-free list. The loop that adds \<open>step\<close> to a value adds
  doubles, so a huge step is rounded as JavaScript rounds it (\<open>next_value\<close>).

  Dates are milliseconds since the epoch. The \<open>get\<close> and \<open>set\<close> methods the source calls work
  on local time; the host's time zone is the parameter \<open>zone\<close> with its two conversions, and the
  calendar is the proleptic Gregorian one of ECMAScript. Instants stay within the range of a
  \<open>Date\<close>.
\<close>

subsection \<open>Parsing\<close>

datatype cron_field = Minute | Hour | DayOfMonth | Month | DayOfWeek

datatype cron_error =
    InvalidExpression
  | NotAString
  | FieldCount nat
  | InvalidField cron_field
  | OutOfRange cron_field int
  | InvalidStep cron_field string
  | ReversedRange cron_field int int
  | MissingValue cron_field
  | InvalidValue cron_field string
  | NeverMatches string

record parsed_cron =
  pc_minute :: "int list"
  pc_hour :: "int list"
  pc_dayOfMonth :: "int list"
  pc_month :: "int list"
  pc_dayOfWeek :: "int list"
  pc_dayOfMonthRestricted :: bool
  pc_dayOfWeekRestricted :: bool
  pc_expression :: string

definition MONTH_NAMES :: "string list" where
  "MONTH_NAMES = [''jan'', ''feb'', ''mar'', ''apr'', ''may'', ''jun'', ''jul'', ''aug'', ''sep'', ''oct'', ''nov'', ''dec'']"

definition DAY_NAMES :: "string list" where
  "DAY_NAMES = [''sun'', ''mon'', ''tue'', ''wed'', ''thu'', ''fri'', ''sat'']"

definition SHORTCUTS :: "(string \<times> string) list" where
  "SHORTCUTS = [(''@hourly'', ''0 * * * *''), (''@daily'', ''0 0 * * *''), (''@midnight'', ''0 0 * * *''),
     (''@weekly'', ''0 0 * * 0''), (''@monthly'', ''0 0 1 * *''), (''@yearly'', ''0 0 1 1 *''),
     (''@annually'', ''0 0 1 1 *'')]"

fun f_min :: "cron_field \<Rightarrow> int" where
  "f_min DayOfMonth = 1"
| "f_min Month = 1"
| "f_min _ = 0"

fun f_max :: "cron_field \<Rightarrow> int" where
  "f_max Minute = 59"
| "f_max Hour = 23"
| "f_max DayOfMonth = 31"
| "f_max Month = 12"
| "f_max DayOfWeek = 7"

fun f_names :: "cron_field \<Rightarrow> string list option" where
  "f_names Month = Some MONTH_NAMES"
| "f_names DayOfWeek = Some DAY_NAMES"
| "f_names _ = None"

fun index_of :: "'a \<Rightarrow> 'a list \<Rightarrow> nat option" where
  "index_of x [] = None"
| "index_of x (y # ys) = (if y = x then Some 0 else map_option Suc (index_of x ys))"

definition named_index :: "cron_field \<Rightarrow> string \<Rightarrow> nat option" where
  "named_index f rawValue = (case f_names f of None \<Rightarrow> None | Some names \<Rightarrow> index_of rawValue names)"

definition parseValue :: "string \<Rightarrow> cron_field \<Rightarrow> cron_error + int" where
  "parseValue rawValue f =
     (if rawValue = [] then Inl (MissingValue f)
      else case named_index f rawValue of
             Some i \<Rightarrow> Inr (int i + f_min f)
           | None \<Rightarrow> (case js_integer (JNum (js_number rawValue)) of
                        None \<Rightarrow> Inl (InvalidValue f rawValue)
                      | Some v \<Rightarrow> Inr v))"

definition parseRange :: "string \<Rightarrow> cron_field \<Rightarrow> bool \<Rightarrow> cron_error + int \<times> int" where
  "parseRange rangePart f hasStep =
     (if rangePart = ''*'' then Inr (f_min f, f_max f)
      else case index_of_char (CHR ''-'') rangePart of
             None \<Rightarrow> bindE (parseValue rangePart f) (\<lambda>v. Inr (v, if hasStep then f_max f else v))
           | Some dashIndex \<Rightarrow>
               bindE (parseValue (take dashIndex rangePart) f) (\<lambda>start.
               bindE (parseValue (drop (dashIndex + 1) rangePart) f) (\<lambda>end'.
                 if start > end' then Inl (ReversedRange f start end') else Inr (start, end'))))"

definition parseStep :: "string \<Rightarrow> cron_field \<Rightarrow> cron_error + int" where
  "parseStep v f =
     (case js_integer (JNum (js_number v)) of
        None \<Rightarrow> Inl (InvalidStep f v)
      | Some step \<Rightarrow> if step \<le> 0 then Inl (InvalidStep f v) else Inr step)"

text \<open>\<open>value + step\<close> on doubles; \<open>None\<close> is an infinite sum, which ends the loop.\<close>

definition next_value :: "int \<Rightarrow> int \<Rightarrow> int option" where
  "next_value v step = (case round_double (of_int (v + step)) of Fin q \<Rightarrow> Some \<lfloor>q\<rfloor> | _ \<Rightarrow> None)"

lemma f_bounds: "0 \<le> f_min f" "f_max f \<le> 59" "f_min f \<le> f_max f"
  by (cases f; simp)+

lemma round_half_even_ge: "of_int z \<le> q \<Longrightarrow> z \<le> round_half_even q"
proof -
  assume "of_int z \<le> q"
  then have "z \<le> \<lfloor>q\<rfloor>" by (simp add: le_floor_iff)
  then show ?thesis by (simp add: round_half_even_def Let_def)
qed

lemma fraction_bits_big:
  assumes "2 ^ 53 \<le> z"
  shows "\<exists>n. bitlen z = int n \<and> 54 \<le> n \<and> fraction_bits (of_int z) = 53 - int n \<and> 2 ^ (n - 1) \<le> z"
proof -
  have pos: "0 < z" using assms by (rule less_le_trans [rotated]) simp
  define n where "n = nat (bitlen z)"
  have n: "bitlen z = int n" using bitlen_nonneg [of z] by (simp add: n_def)
  have b: "2 ^ nat (bitlen z - 1) \<le> z" "z < 2 ^ nat (bitlen z)" using bitlen_bounds [OF pos] by auto
  have "(2::int) ^ 53 < 2 ^ n" using assms b(2) n by simp
  then have n54: "54 \<le> n" by (simp only: power_strict_increasing_iff [of "2::int"] one_less_numeral_iff semiring_norm)
  have "pow2 (int n - 1) \<le> of_int z"
  proof -
    have "(of_int (2 ^ nat (int n - 1)) :: rat) \<le> of_int z" using b(1) n by (simp only: of_int_le_iff)
    then show ?thesis using n54 by (simp add: pow2_def)
  qed
  moreover have "quotient_of \<bar>of_int z :: rat\<bar> = (z, 1)" using pos
    by (simp add: quotient_of_int [unfolded Rat.of_int_def])
  ultimately have "fraction_bits (of_int z) = 53 - int n"
    using n54 pos by (simp add: fraction_bits_def Let_def bitlen_alt_def [of 1] n)
  with n n54 b(1) show ?thesis by (intro exI [of _ n]) (auto simp: nat_diff_distrib)
qed

lemma round_double_big:
  assumes "2 ^ 53 \<le> z" "round_double (of_int z) = Fin q"
  shows "2 ^ 53 \<le> q"
proof -
  obtain n where n: "54 \<le> n" "fraction_bits (of_int z) = 53 - int n" "2 ^ (n - 1) \<le> z"
    using fraction_bits_big [OF assms(1)] by blast
  have pos: "0 < z" using assms(1) by (rule less_le_trans [rotated]) simp
  define p :: rat where "p = 2 ^ (n - 53)"
  have pw: "pow2 (53 - int n) = 1 / p" using n(1) by (simp add: pow2_def p_def nat_diff_distrib)
  have p: "0 < p" "1 \<le> p" by (simp_all add: p_def)
  have "(2 ^ (n - 1) :: rat) \<le> of_int z" using n(3) by (metis of_int_le_iff of_int_numeral of_int_power)
  moreover have "(2 ^ (n - 1) :: rat) = 2 ^ 52 * p"
  proof -
    have "n - 1 = 52 + (n - 53)" using n(1) by simp
    then show ?thesis by (simp only: p_def power_add)
  qed
  ultimately have "2 ^ 52 * p \<le> of_int z" by (simp only:)
  then have "of_int (2 ^ 52) \<le> of_int z * (1 / p)" using p(1) by (simp add: field_simps)
  then have "2 ^ 52 \<le> round_half_even (of_int z * (1 / p))" by (rule round_half_even_ge)
  then have "(of_int (2 ^ 52) :: rat) \<le> of_int (round_half_even (of_int z * (1 / p)))" by (simp only: of_int_le_iff)
  then have "of_int (2 ^ 52) * p \<le> of_int (round_half_even (of_int z * (1 / p))) * p"
    by (rule mult_right_mono) (use p in simp)
  moreover have "(2 ^ 53 :: rat) \<le> of_int (2 ^ 52) * p"
  proof -
    have "(2 ^ 1 :: rat) \<le> p" unfolding p_def by (rule power_increasing) (use n(1) in auto)
    then show ?thesis by simp
  qed
  moreover have "double_magnitude (of_int z) = of_int (round_half_even (of_int z * (1 / p))) * p"
    using pos p by (simp add: double_magnitude_def n(2) pw Let_def)
  moreover have "q = double_magnitude (of_int z)"
    using assms(2) pos by (auto simp: round_double_def split: if_split_asm)
  ultimately show ?thesis by (metis order_trans)
qed

lemma next_value_less:
  assumes "0 \<le> v" "v \<le> 59" "0 < step" "next_value v step = Some v'"
  shows "v < v'"
proof (cases "v + step < 2 ^ 53")
  case True
  with assms have "round_double (of_int (v + step)) = Fin (of_int (v + step))" by (intro round_double_of_int) simp
  with assms show ?thesis by (simp add: next_value_def)
next
  case False
  from assms(4) obtain q where q: "round_double (of_int (v + step)) = Fin q" "v' = \<lfloor>q\<rfloor>"
    by (auto simp: next_value_def split: jsnum.split_asm)
  from round_double_big [OF _ q(1)] False have "(of_int (2 ^ 53) :: rat) \<le> q" by simp
  then have "2 ^ 53 \<le> v'" by (simp only: q(2) le_floor_iff)
  with assms(2) show ?thesis by simp
qed


lemma next_value_code [code]:
  "next_value v step = (if \<bar>v + step\<bar> < 2 ^ 53 then Some (v + step)
     else case round_double (of_int (v + step)) of Fin q \<Rightarrow> Some \<lfloor>q\<rfloor> | _ \<Rightarrow> None)"
proof (cases "\<bar>v + step\<bar> < 2 ^ 53")
  case True
  with round_double_of_int [OF this] show ?thesis by (simp add: next_value_def)
qed (simp add: next_value_def)

text \<open>
  The values a part adds, smallest first, or the first one that is out of range. A step is positive
  when the loop runs (\<open>parseStep\<close> refuses any other); the test of it here only makes the
  function total.
\<close>

function part_values :: "cron_field \<Rightarrow> int \<Rightarrow> int \<Rightarrow> int \<Rightarrow> cron_error + int list" where
  "part_values f step value end' =
     (if step \<le> 0 \<or> end' < value then Inr []
      else if value < f_min f \<or> value > f_max f then Inl (OutOfRange f value)
      else case next_value value step of
             None \<Rightarrow> Inr [value]
           | Some v \<Rightarrow> bindE (part_values f step v end') (\<lambda>vs. Inr (value # vs)))"
  by pat_completeness auto
termination
proof (relation "measure (\<lambda>(f, step, value, end'). nat (60 - value))")
  fix f step v end' v'
  assume "\<not> (step \<le> 0 \<or> end' < v)" "\<not> (v < f_min f \<or> f_max f < v)" "next_value v step = Some v'"
  moreover from this(2) have "0 \<le> v" "v \<le> 59" using f_bounds(1,2) [of f] by linarith+
  ultimately show "((f, step, v', end'), f, step, v, end') \<in> measure (\<lambda>(f, step, value, end'). nat (60 - value))"
    using next_value_less [of v step v'] by simp
qed simp

declare part_values.simps [simp del]

definition addPartValues :: "string \<Rightarrow> cron_field \<Rightarrow> int list \<Rightarrow> cron_error + int list" where
  "addPartValues part f result =
     (if part = [] then Inl (InvalidField f)
      else let pieces = split_char (CHR ''/'') part;
               rangePart = hd pieces;
               stepPart = (if length pieces < 2 then None else Some (pieces ! 1))
           in bindE (case stepPart of None \<Rightarrow> Inr 1 | Some s \<Rightarrow> parseStep s f) (\<lambda>step.
              bindE (parseRange rangePart f (stepPart \<noteq> None)) (\<lambda>(start, end').
              bindE (part_values f step start end') (\<lambda>vs.
                Inr (foldl (\<lambda>acc v. if v \<in> set acc then acc else acc @ [v]) result vs)))))"

definition parseField :: "string \<Rightarrow> cron_field \<Rightarrow> cron_error + int list" where
  "parseField field f = foldE (\<lambda>part result. addPartValues part f result) (split_char (CHR '','') field) []"

definition normalizeDayOfWeek :: "int list \<Rightarrow> int list" where
  "normalizeDayOfWeek days =
     (if 7 \<in> set days
      then (let rest = filter (\<lambda>d. d \<noteq> 7) days in if 0 \<in> set rest then rest else rest @ [0])
      else days)"

text \<open>
  The table lookup \<open>SHORTCUTS[trimmed]\<close> also finds what every object inherits under a lower-case
  name; calling \<open>split\<close> on that value throws.
\<close>

definition parseCronExpression :: "jsval \<Rightarrow> cron_error + parsed_cron" where
  "parseCronExpression v =
     (case v of
        JStr expression \<Rightarrow>
          if js_trim expression = [] then Inl InvalidExpression
          else let trimmed = js_toLowerCase (js_trim expression) in
            if trimmed = ''constructor'' \<or> trimmed = ''__proto__'' then Inl NotAString
            else let expanded = (case map_of SHORTCUTS trimmed of None \<Rightarrow> trimmed | Some e \<Rightarrow> e);
                     fields = split_space expanded
                 in if length fields \<noteq> 5 then Inl (FieldCount (length fields))
                    else bindE (parseField (fields ! 0) Minute) (\<lambda>minute.
                         bindE (parseField (fields ! 1) Hour) (\<lambda>hour.
                         bindE (parseField (fields ! 2) DayOfMonth) (\<lambda>dayOfMonth.
                         bindE (parseField (fields ! 3) Month) (\<lambda>month.
                         bindE (parseField (fields ! 4) DayOfWeek) (\<lambda>dayOfWeek.
                           Inr \<lparr>pc_minute = minute, pc_hour = hour, pc_dayOfMonth = dayOfMonth, pc_month = month,
                                pc_dayOfWeek = normalizeDayOfWeek dayOfWeek,
                                pc_dayOfMonthRestricted = (fields ! 2 \<noteq> ''*''),
                                pc_dayOfWeekRestricted = (fields ! 4 \<noteq> ''*''),
                                pc_expression = expression\<rparr>)))))
      | _ \<Rightarrow> Inl InvalidExpression)"

subsection \<open>Local time\<close>

record zone =
  to_local :: "int \<Rightarrow> int"
  to_utc :: "int \<Rightarrow> int"

definition day_from_year :: "int \<Rightarrow> int" where
  "day_from_year y = 365 * (y - 1970) + (y - 1969) div 4 - (y - 1901) div 100 + (y - 1601) div 400"

definition is_leap :: "int \<Rightarrow> bool" where
  "is_leap y = (y mod 4 = 0 \<and> (y mod 100 \<noteq> 0 \<or> y mod 400 = 0))"

text \<open>The year of a day number: the largest year that starts no later.\<close>

definition year_of_day :: "int \<Rightarrow> int" where
  "year_of_day d =
     (let y = 1970 + (400 * d) div 146097
      in if day_from_year (y + 1) \<le> d then y + 1 else if day_from_year y \<le> d then y else y - 1)"

definition month_lengths :: "bool \<Rightarrow> int list" where
  "month_lengths leap = [31, if leap then 29 else 28, 31, 30, 31, 30, 31, 31, 30, 31, 30, 31]"

fun month_and_date :: "int list \<Rightarrow> int \<Rightarrow> int \<Rightarrow> int \<times> int" where
  "month_and_date [] m d = (m, d + 1)"
| "month_and_date (n # ns) m d = (if d < n then (m, d + 1) else month_and_date ns (m + 1) (d - n))"

definition local_month_date :: "int \<Rightarrow> int \<times> int" where
  "local_month_date day = (let y = year_of_day day in month_and_date (month_lengths (is_leap y)) 0 (day - day_from_year y))"

definition ms_per_minute :: int where "ms_per_minute = 60000"
definition ms_per_day :: int where "ms_per_day = 86400000"

definition getMinutes :: "int \<Rightarrow> int" where "getMinutes l = l div ms_per_minute mod 60"
definition getHours :: "int \<Rightarrow> int" where "getHours l = l div 3600000 mod 24"
definition getDate :: "int \<Rightarrow> int" where "getDate l = snd (local_month_date (l div ms_per_day))"
definition getMonth :: "int \<Rightarrow> int" where "getMonth l = fst (local_month_date (l div ms_per_day))"
definition getDay :: "int \<Rightarrow> int" where "getDay l = (4 + l div ms_per_day) mod 7"

definition setSecondsZero :: "zone \<Rightarrow> int \<Rightarrow> int" where
  "setSecondsZero z t = (let l = to_local z t in to_utc z (l - l mod ms_per_minute))"

definition addMinute :: "zone \<Rightarrow> int \<Rightarrow> int" where
  "addMinute z t = to_utc z (to_local z t + ms_per_minute)"

subsection \<open>Searching\<close>

definition candidateMatches :: "int \<Rightarrow> parsed_cron \<Rightarrow> bool" where
  "candidateMatches l p =
     (if getMinutes l \<notin> set (pc_minute p) then False
      else if getHours l \<notin> set (pc_hour p) then False
      else if getMonth l + 1 \<notin> set (pc_month p) then False
      else let dayOfMonthMatch = (getDate l \<in> set (pc_dayOfMonth p));
               dayOfWeekMatch = (getDay l \<in> set (pc_dayOfWeek p))
           in if pc_dayOfMonthRestricted p \<and> pc_dayOfWeekRestricted p then dayOfMonthMatch \<or> dayOfWeekMatch
              else if pc_dayOfMonthRestricted p then dayOfMonthMatch
              else if pc_dayOfWeekRestricted p then dayOfWeekMatch
              else True)"

definition MAX_NEXT_FIRE_ITERATIONS :: nat where
  "MAX_NEXT_FIRE_ITERATIONS = 5 * 366 * 24 * 60"

fun search_fire :: "zone \<Rightarrow> parsed_cron \<Rightarrow> nat \<Rightarrow> int \<Rightarrow> cron_error + int" where
  "search_fire z p 0 t = Inl (NeverMatches (pc_expression p))"
| "search_fire z p (Suc n) t =
     (if candidateMatches (to_local z t) p then Inr t else search_fire z p n (addMinute z t))"

definition nextCronFireDate :: "zone \<Rightarrow> parsed_cron \<Rightarrow> int \<Rightarrow> cron_error + int" where
  "nextCronFireDate z p from = search_fire z p MAX_NEXT_FIRE_ITERATIONS (addMinute z (setSecondsZero z from))"


subsection \<open>What parsing guarantees\<close>

lemma part_values_range:
  "part_values f step v e = Inr vs \<Longrightarrow> set vs \<subseteq> {f_min f..f_max f}"
proof (induction f step v e arbitrary: vs rule: part_values.induct)
  case (1 f step v e)
  show ?case
  proof (cases "step \<le> 0 \<or> e < v \<or> v < f_min f \<or> v > f_max f")
    case True
    with "1.prems" show ?thesis by (auto simp: part_values.simps [of f step v e] split: if_split_asm)
  next
    case False
    show ?thesis
    proof (cases "next_value v step")
      case None
      with False "1.prems" show ?thesis by (auto simp: part_values.simps [of f step v e])
    next
      case (Some v')
      with False "1.prems" obtain ws where "part_values f step v' e = Inr ws" "vs = v # ws"
        by (auto simp: part_values.simps [of f step v e] bindE_eq_Inr)
      with "1.IH" [OF _ _ Some] False show ?thesis by auto
    qed
  qed
qed

text \<open>For steps a double adds exactly, a part denotes an arithmetic progression.\<close>

lemma part_values_progression:
  "part_values f step v e = Inr vs \<Longrightarrow> 0 < step \<Longrightarrow> step < 2 ^ 52 \<Longrightarrow>
     set vs = {x. v \<le> x \<and> x \<le> e \<and> step dvd (x - v)}"
proof (induction f step v e arbitrary: vs rule: part_values.induct)
  case (1 f step v e)
  show ?case
  proof (cases "e < v")
    case True
    with "1.prems" show ?thesis by (auto simp: part_values.simps [of f step v e])
  next
    case False
    with "1.prems" have range: "\<not> (v < f_min f \<or> v > f_max f)"
      by (auto simp: part_values.simps [of f step v e] split: if_split_asm)
    then have "0 \<le> v" "v \<le> 59" using f_bounds(1,2) [of f] by linarith+
    then have next': "next_value v step = Some (v + step)"
      using "1.prems"(2,3) round_double_of_int [of "v + step"] by (simp add: next_value_def)
    with False range "1.prems" obtain ws where ws: "part_values f step (v + step) e = Inr ws" "vs = v # ws"
      by (auto simp: part_values.simps [of f step v e] bindE_eq_Inr)
    have "set ws = {x. v + step \<le> x \<and> x \<le> e \<and> step dvd (x - (v + step))}"
      using "1.IH" [OF _ range next' ws(1)] False "1.prems"(2,3) by simp
    also have "\<dots> = {x. v < x \<and> x \<le> e \<and> step dvd (x - v)}"
    proof -
      have "v + step \<le> x \<longleftrightarrow> v < x" if "step dvd (x - v)" for x
        using that "1.prems"(2) zdvd_imp_le [of step "x - v"] by fastforce
      moreover have "step dvd (x - (v + step)) \<longleftrightarrow> step dvd (x - v)" for x
        by (metis diff_diff_eq dvd_diff_left_iff dvd_refl)
      ultimately show ?thesis by auto
    qed
    finally have "x \<in> set vs \<longleftrightarrow> x = v \<or> v < x \<and> x \<le> e \<and> step dvd (x - v)" for x by (simp only: ws(2) list.set insert_iff mem_Collect_eq)
    then have "x \<in> set vs \<longleftrightarrow> v \<le> x \<and> x \<le> e \<and> step dvd (x - v)" for x using False by (cases "x = v") (simp, simp add: order.strict_iff_order)
    then show ?thesis by blast
  qed
qed

lemma fold_add_set: "set (foldl (\<lambda>acc v. if v \<in> set acc then acc else acc @ [v]) result vs) = set result \<union> set vs"
  by (induction vs arbitrary: result) auto

lemma addPartValues_range:
  "addPartValues part f result = Inr out \<Longrightarrow> set result \<subseteq> {f_min f..f_max f} \<Longrightarrow> set out \<subseteq> {f_min f..f_max f}"
proof -
  assume op: "addPartValues part f result = Inr out" and r: "set result \<subseteq> {f_min f..f_max f}"
  from op obtain step start end' vs where "part_values f step start end' = Inr vs"
      "out = foldl (\<lambda>acc v. if v \<in> set acc then acc else acc @ [v]) result vs"
    by (auto simp: addPartValues_def Let_def bindE_eq_Inr split: if_split_asm)
  with part_values_range [of f step start end' vs] r show ?thesis by (simp add: fold_add_set)
qed

lemma parseField_range:
  assumes "parseField field f = Inr out"
  shows "set out \<subseteq> {f_min f..f_max f}"
  by (rule foldE_invariant [where P = "\<lambda>xs. set xs \<subseteq> {f_min f..f_max f}", OF assms [unfolded parseField_def]])
    (auto dest: addPartValues_range)

lemma normalizeDayOfWeek_set:
  "set (normalizeDayOfWeek days) = (if 7 \<in> set days then insert 0 (set days - {7}) else set days)"
  by (auto simp: normalizeDayOfWeek_def Let_def)

lemma normalizeDayOfWeek_range:
  assumes "set days \<subseteq> {0..7}"
  shows "set (normalizeDayOfWeek days) \<subseteq> {0..6}"
proof
  fix x
  assume "x \<in> set (normalizeDayOfWeek days)"
  then have "x = 0 \<or> x \<in> set days \<and> x \<noteq> 7" by (auto simp: normalizeDayOfWeek_set split: if_split_asm)
  with assms show "x \<in> {0..6}" by fastforce
qed

subsection \<open>The search in a zone without clock changes\<close>

definition fixed_zone :: "int \<Rightarrow> zone" where
  "fixed_zone offset = \<lparr>to_local = (\<lambda>t. t + offset), to_utc = (\<lambda>l. l - offset)\<rparr>"

lemma fixed_simps [simp]:
  "to_local (fixed_zone c) t = t + c" "addMinute (fixed_zone c) t = t + 60000"
  "setSecondsZero (fixed_zone c) t = t - (t + c) mod 60000"
  by (simp_all add: fixed_zone_def addMinute_def setSecondsZero_def ms_per_minute_def)

lemma search_fixed_Inr:
  "search_fire (fixed_zone c) p n t = Inr r \<Longrightarrow>
     \<exists>k < n. r = t + int k * 60000 \<and> candidateMatches (r + c) p \<and> (\<forall>j < k. \<not> candidateMatches (t + int j * 60000 + c) p)"
proof (induction n arbitrary: t)
  case (Suc n)
  show ?case
  proof (cases "candidateMatches (t + c) p")
    case True
    with Suc.prems show ?thesis by auto
  next
    case False
    with Suc.prems Suc.IH [of "t + 60000"] obtain k where k: "k < n" "r = t + 60000 + int k * 60000"
        "candidateMatches (r + c) p" "\<forall>j < k. \<not> candidateMatches (t + 60000 + int j * 60000 + c) p" by auto
    have "\<not> candidateMatches (t + int j * 60000 + c) p" if "j < Suc k" for j
      using that False k(4) by (cases j) (auto simp: algebra_simps)
    with k show ?thesis by (intro exI [of _ "Suc k"]) (auto simp: algebra_simps)
  qed
qed simp

lemma search_fixed_Inl:
  "search_fire (fixed_zone c) p n t = Inl e \<longleftrightarrow>
     e = NeverMatches (pc_expression p) \<and> (\<forall>j < n. \<not> candidateMatches (t + int j * 60000 + c) p)"
proof (induction n arbitrary: t)
  case (Suc n)
  have "(\<forall>j < Suc n. \<not> candidateMatches (t + int j * 60000 + c) p) \<longleftrightarrow>
      \<not> candidateMatches (t + c) p \<and> (\<forall>j < n. \<not> candidateMatches (t + 60000 + int j * 60000 + c) p)"
    by (simp add: All_less_Suc2 algebra_simps)
  with Suc.IH [of "t + 60000"] show ?case by auto
qed auto

text \<open>The first candidate is the next whole local minute.\<close>

lemma first_candidate:
  fixes since c :: int
  defines "t0 \<equiv> since - (since + c) mod 60000 + 60000"
  shows "since < t0" "t0 \<le> since + 60000" "(t0 + c) mod 60000 = 0"
    "\<And>u. since < u \<Longrightarrow> (u + c) mod 60000 = 0 \<Longrightarrow> \<exists>j. u = t0 + int j * 60000"
proof -
  let ?m = "(since + c) mod 60000"
  have m: "0 \<le> ?m" "?m < 60000" by simp_all
  show "since < t0" "t0 \<le> since + 60000" using m by (simp_all add: t0_def)
  have "t0 + c = (since + c) div 60000 * 60000 + 60000" by (simp add: t0_def minus_mod_eq_div_mult [symmetric])
  then have t0: "t0 + c = ((since + c) div 60000 + 1) * 60000" by simp
  then show "(t0 + c) mod 60000 = 0" by simp
  fix u
  assume u: "since < u" "(u + c) mod 60000 = 0"
  then have q: "u + c = (u + c) div 60000 * 60000" by (metis add.right_neutral div_mult_mod_eq)
  have "(since + c) div 60000 < (u + c) div 60000"
  proof (rule ccontr)
    assume "\<not> ?thesis"
    then have "(u + c) div 60000 * 60000 \<le> (since + c) div 60000 * 60000" by simp
    also have "\<dots> \<le> since + c" using m by (simp add: minus_mod_eq_div_mult [symmetric])
    finally show False using q u(1) by simp
  qed
  then have "u = t0 + int (nat ((u + c) div 60000 - (since + c) div 60000 - 1)) * 60000" using q t0 by (simp add: algebra_simps)
  then show "\<exists>j. u = t0 + int j * 60000" ..
qed


subsection \<open>Claims\<close>

text \<open>
  C14: a parsed expression only ever allows values a clock can show: minutes 0 to 59, hours 0 to 23,
  days 1 to 31, months 1 to 12 and week days 0 to 6 (7 is folded into 0); everything else is
  refused.
\<close>

theorem cron_fields_in_range:
  assumes "parseCronExpression v = Inr p"
  shows "set (pc_minute p) \<subseteq> {0..59} \<and> set (pc_hour p) \<subseteq> {0..23} \<and> set (pc_dayOfMonth p) \<subseteq> {1..31}
    \<and> set (pc_month p) \<subseteq> {1..12} \<and> set (pc_dayOfWeek p) \<subseteq> {0..6}"
proof -
  from assms obtain fields minute hour dom month dow where
      "parseField (fields ! 0) Minute = Inr minute" "parseField (fields ! 1) Hour = Inr hour"
      "parseField (fields ! 2) DayOfMonth = Inr dom" "parseField (fields ! 3) Month = Inr month"
      and dow: "parseField (fields ! 4) DayOfWeek = Inr dow"
      and "pc_minute p = minute" "pc_hour p = hour" "pc_dayOfMonth p = dom" "pc_month p = month"
        "pc_dayOfWeek p = normalizeDayOfWeek dow"
    by (auto simp: parseCronExpression_def Let_def bindE_eq_Inr split: jsval.split_asm if_split_asm)
  with parseField_range [OF dow] normalizeDayOfWeek_range [of dow] show ?thesis
    by (auto dest!: parseField_range)
qed

definition demo_cron :: "string \<Rightarrow> parsed_cron" where
  "demo_cron s = (case parseCronExpression (JStr s) of Inr p \<Rightarrow> p
     | Inl _ \<Rightarrow> \<lparr>pc_minute = [], pc_hour = [], pc_dayOfMonth = [], pc_month = [], pc_dayOfWeek = [],
                 pc_dayOfMonthRestricted = False, pc_dayOfWeekRestricted = False, pc_expression = []\<rparr>)"

theorem cron_fields_in_range_witness:
  "set (pc_dayOfWeek (demo_cron ''*/20 9-11 * JAN 5-7'')) \<subseteq> {0..6} \<and> pc_minute (demo_cron ''*/20 9-11 * JAN 5-7'') = [0, 20, 40]
     \<and> pc_dayOfWeek (demo_cron ''*/20 9-11 * JAN 5-7'') = [5, 6, 0]"
proof -
  have "parseCronExpression (JStr ''*/20 9-11 * JAN 5-7'') = Inr (demo_cron ''*/20 9-11 * JAN 5-7'')"
    "pc_minute (demo_cron ''*/20 9-11 * JAN 5-7'') = [0, 20, 40]" "pc_dayOfWeek (demo_cron ''*/20 9-11 * JAN 5-7'') = [5, 6, 0]"
    by code_simp+
  then show ?thesis using cron_fields_in_range by blast
qed

text \<open>
  C12: in a zone without clock changes the next fire time is strictly after the reference, falls on
  a whole local minute that matches the expression, and no earlier minute after the reference
  matches.
\<close>

theorem next_fire_first:
  assumes "nextCronFireDate (fixed_zone c) p since = Inr t"
  shows "since < t \<and> (t + c) mod 60000 = 0 \<and> candidateMatches (t + c) p
    \<and> (\<forall>u. since < u \<and> u < t \<and> (u + c) mod 60000 = 0 \<longrightarrow> \<not> candidateMatches (u + c) p)"
proof -
  let ?t0 = "since - (since + c) mod 60000 + 60000"
  note f = first_candidate [where since = since and c = c]
  from assms have "search_fire (fixed_zone c) p MAX_NEXT_FIRE_ITERATIONS ?t0 = Inr t" by (simp add: nextCronFireDate_def)
  from search_fixed_Inr [OF this] obtain k where k: "t = ?t0 + int k * 60000" "candidateMatches (t + c) p"
      "\<forall>j < k. \<not> candidateMatches (?t0 + int j * 60000 + c) p" by blast
  have "\<not> candidateMatches (u + c) p" if u: "since < u" "u < t" "(u + c) mod 60000 = 0" for u
  proof -
    obtain j where j: "u = ?t0 + int j * 60000" using f(4) [OF u(1,3)] by blast
    with u(2) k(1) have "j < k" by simp
    with k(3) j show ?thesis by simp
  qed
  then have "\<forall>u. since < u \<and> u < t \<and> (u + c) mod 60000 = 0 \<longrightarrow> \<not> candidateMatches (u + c) p" by (intro allI impI) (elim conjE)
  moreover have "since < t" using f(1) k(1) by simp
  moreover have "(t + c) mod 60000 = 0"
  proof -
    have "t + c = (?t0 + c) + int k * 60000" using k(1) by simp
    then have "(t + c) mod 60000 = (?t0 + c) mod 60000" by (simp only: mod_mult_self1)
    then show ?thesis using f(3) by simp
  qed
  ultimately show ?thesis using k(2) by (intro conjI)
qed

theorem next_fire_first_witness:
  "nextCronFireDate (fixed_zone 0) (demo_cron ''5 * * * *'') 90000 = Inr 300000
     \<and> (300000 + 0) mod 60000 = (0 :: int) \<and> candidateMatches (300000 + 0) (demo_cron ''5 * * * *'')
     \<and> \<not> candidateMatches (240000 + 0) (demo_cron ''5 * * * *'')"
proof -
  have "search_fire (fixed_zone 0) (demo_cron ''5 * * * *'') 4 120000 = Inr 300000" by code_simp
  moreover have "search_fire z p n t = Inr r \<Longrightarrow> search_fire z p (n + m) t = Inr r" for z p n m t r
    by (induction z p n t rule: search_fire.induct) auto
  from this [of "fixed_zone 0" "demo_cron ''5 * * * *''" 4 120000 300000 "MAX_NEXT_FIRE_ITERATIONS - 4"]
  have "search_fire (fixed_zone 0) (demo_cron ''5 * * * *'') 4 120000 = Inr 300000 \<Longrightarrow>
      search_fire (fixed_zone 0) (demo_cron ''5 * * * *'') MAX_NEXT_FIRE_ITERATIONS 120000 = Inr 300000"
    by (simp add: MAX_NEXT_FIRE_ITERATIONS_def)
  ultimately have "nextCronFireDate (fixed_zone 0) (demo_cron ''5 * * * *'') 90000 = Inr 300000"
    by (simp add: nextCronFireDate_def)
  with next_fire_first [OF this] show ?thesis by (elim conjE allE [of _ 240000]) simp
qed

lemma next_fire_total_aux:
  "(\<exists>t. nextCronFireDate (fixed_zone c) p since = Inr t) \<longleftrightarrow>
     (\<exists>u. since < u \<and> u \<le> since - (since + c) mod 60000 + 1830 * 86400000 \<and> (u + c) mod 60000 = 0 \<and> candidateMatches (u + c) p)"
proof -
  let ?t0 = "since - (since + c) mod 60000 + 60000"
  note f = first_candidate [where since = since and c = c]
  have "(\<exists>t. nextCronFireDate (fixed_zone c) p since = Inr t) \<longleftrightarrow>
      \<not> (\<exists>e. search_fire (fixed_zone c) p MAX_NEXT_FIRE_ITERATIONS ?t0 = Inl e)"
    by (cases "nextCronFireDate (fixed_zone c) p since") (auto simp: nextCronFireDate_def)
  also have "\<dots> \<longleftrightarrow> (\<exists>j < MAX_NEXT_FIRE_ITERATIONS. candidateMatches (?t0 + int j * 60000 + c) p)"
    by (auto simp: search_fixed_Inl)
  also have "\<dots> \<longleftrightarrow> (\<exists>u. since < u \<and> u \<le> since - (since + c) mod 60000 + 1830 * 86400000 \<and> (u + c) mod 60000 = 0
      \<and> candidateMatches (u + c) p)" (is "?l \<longleftrightarrow> ?r")
  proof
    assume ?l
    then obtain j where j: "j < 2635200" "candidateMatches (?t0 + int j * 60000 + c) p" by (auto simp: MAX_NEXT_FIRE_ITERATIONS_def)
    have "(?t0 + int j * 60000 + c) mod 60000 = ((?t0 + c) + int j * 60000) mod 60000" by (simp add: algebra_simps)
    also have "\<dots> = 0" using f(3) by (simp only: mod_mult_self1)
    finally have m: "(?t0 + int j * 60000 + c) mod 60000 = 0" .
    have "int j * 60000 \<le> 2635199 * 60000" using j(1) by simp
    then have "?t0 + int j * 60000 \<le> since - (since + c) mod 60000 + 1830 * 86400000" by linarith
    moreover have "since < ?t0 + int j * 60000" using f(1) by (simp add: add_strict_increasing2)
    ultimately show ?r using m j(2) by (intro exI [of _ "?t0 + int j * 60000"] conjI)
  next
    assume ?r
    then obtain u where u: "since < u" "u \<le> since - (since + c) mod 60000 + 1830 * 86400000" "(u + c) mod 60000 = 0"
      "candidateMatches (u + c) p" by (elim exE conjE)
    obtain j where j: "u = ?t0 + int j * 60000" using f(4) [OF u(1,3)] by (elim exE)
    have "int j < 2635200" using u(2) j by linarith
    then have "j < MAX_NEXT_FIRE_ITERATIONS" by (simp add: MAX_NEXT_FIRE_ITERATIONS_def)
    moreover have "candidateMatches (?t0 + int j * 60000 + c) p" using u(4) unfolding j .
    ultimately show ?l by (intro exI [of _ j] conjI)
  qed
  finally show ?thesis .
qed

text \<open>
  C13: in a zone without clock changes the search fails exactly when no whole minute of the next
  1830 days matches; otherwise it returns.
\<close>

theorem next_fire_total:
  "(\<exists>t. nextCronFireDate (fixed_zone c) p since = Inr t) \<longleftrightarrow>
     (\<exists>u. since < u \<and> u \<le> since - (since + c) mod 60000 + 1830 * 86400000 \<and> (u + c) mod 60000 = 0 \<and> candidateMatches (u + c) p)"
  by (rule next_fire_total_aux)

subsection \<open>The limit of the search\<close>

text \<open>
  The gap between two 29 February days is eight years around a century that is not a leap year, and
  the search covers five. \<open>leap_cron\<close> is \<open>0 0 29 2 *\<close>; \<open>leap_day_2096\<close> is
  midnight of 29 February 2096 and \<open>leap_day_2104\<close> that of 29 February 2104.
\<close>

definition leap_cron :: parsed_cron where
  "leap_cron = \<lparr>pc_minute = [0], pc_hour = [0], pc_dayOfMonth = [29], pc_month = [2], pc_dayOfWeek = [0, 1, 2, 3, 4, 5, 6],
     pc_dayOfMonthRestricted = True, pc_dayOfWeekRestricted = False, pc_expression = ''0 0 29 2 *''\<rparr>"

definition leap_day_2096 :: int where "leap_day_2096 = 46080 * 86400000"
definition leap_day_2104 :: int where "leap_day_2104 = 49001 * 86400000"

lemma leap_cron_parsed: "parseCronExpression (JStr ''0 0 29 2 *'') = Inr leap_cron"
  by code_simp

lemma leap_day_of_year: "month_and_date (month_lengths leap) 0 k = (1, 29) \<Longrightarrow> leap \<and> k = 59"
  by (auto simp: month_lengths_def split: if_split_asm)

lemma no_leap_day:
  assumes "46080 < d" "d \<le> 47910"
  shows "local_month_date d \<noteq> (1, 29)"
proof
  assume md: "local_month_date d = (1, 29)"
  define y where "y = year_of_day d"
  from md have leap: "is_leap y" and d: "d = day_from_year y + 59"
    using leap_day_of_year [of "is_leap y" "d - day_from_year y"] by (auto simp: local_month_date_def Let_def y_def)
  have "126 \<le> (400 * d) div 146097" "(400 * d) div 146097 \<le> 131" using assms by linarith+
  then have "2095 \<le> y" "y \<le> 2102" by (auto simp: y_def year_of_day_def Let_def)
  then have "y \<in> {2095, 2096, 2097, 2098, 2099, 2100, 2101, 2102}" by auto
  with leap have "y = 2096" by (auto simp: is_leap_def)
  with d assms show False by (simp add: day_from_year_def)
qed

lemma leap_match:
  assumes "candidateMatches l leap_cron"
  shows "local_month_date (l div 86400000) = (1, 29)" "l div 60000 mod 60 = 0" "l div 3600000 mod 24 = 0"
  using assms
  by (auto simp: candidateMatches_def leap_cron_def getMinutes_def getHours_def getMonth_def getDate_def
      ms_per_day_def ms_per_minute_def prod_eq_iff split: if_split_asm)

lemma midnight:
  fixes l :: int
  assumes "l mod 60000 = 0" "l div 60000 mod 60 = 0" "l div 3600000 mod 24 = 0"
  shows "l = l div 86400000 * 86400000"
proof -
  define a where "a = l div 60000"
  define b where "b = a div 60"
  have l: "l = a * 60000" using assms(1) by (simp add: a_def mult.commute minus_mod_eq_mult_div [symmetric])
  have a: "a = b * 60" using assms(2) by (simp add: b_def a_def [symmetric] mult.commute minus_mod_eq_mult_div [symmetric])
  have "l div 3600000 = b" using l a by simp
  with assms(3) have b: "b = b div 24 * 24" by (simp add: mult.commute minus_mod_eq_mult_div [symmetric])
  have "l = b * 3600000" using l a by simp
  with b have "l = (b div 24) * 86400000" by linarith
  then show ?thesis by simp
qed

text \<open>
  A valid expression can be reported as never matching: from midnight of 29 February 2096 (UTC)
  the search for \<open>0 0 29 2 *\<close> fails, although 29 February 2104 matches.
\<close>

lemma leap_day_search_gives_up:
  "parseCronExpression (JStr ''0 0 29 2 *'') = Inr leap_cron
   \<and> nextCronFireDate (fixed_zone 0) leap_cron leap_day_2096 = Inl (NeverMatches ''0 0 29 2 *'')
   \<and> leap_day_2096 < leap_day_2104 \<and> candidateMatches leap_day_2104 leap_cron"
proof -
  have "\<not> (\<exists>u. leap_day_2096 < u \<and> u \<le> leap_day_2096 - (leap_day_2096 + 0) mod 60000 + 1830 * 86400000
      \<and> (u + 0) mod 60000 = 0 \<and> candidateMatches (u + 0) leap_cron)"
  proof (rule notI, elim exE conjE)
    fix u
    assume u: "leap_day_2096 < u" "u \<le> leap_day_2096 - (leap_day_2096 + 0) mod 60000 + 1830 * 86400000"
      "(u + 0) mod 60000 = 0" "candidateMatches (u + 0) leap_cron"
    then have m: "candidateMatches u leap_cron" "u mod 60000 = 0" by simp_all
    note mid = midnight [OF m(2) leap_match(2,3) [OF m(1)]]
    have "46080 < u div 86400000" "u div 86400000 \<le> 47910"
      using u(1,2) mid by (simp_all add: leap_day_2096_def)
    then show False using no_leap_day leap_match(1) [OF m(1)] by blast
  qed
  then have "\<nexists>t. nextCronFireDate (fixed_zone 0) leap_cron leap_day_2096 = Inr t"
    unfolding next_fire_total_aux by simp
  then obtain e where e: "nextCronFireDate (fixed_zone 0) leap_cron leap_day_2096 = Inl e"
    by (cases "nextCronFireDate (fixed_zone 0) leap_cron leap_day_2096") auto
  then have "e = NeverMatches (pc_expression leap_cron)"
    unfolding nextCronFireDate_def by (simp add: search_fixed_Inl)
  moreover have "candidateMatches leap_day_2104 leap_cron" by code_simp
  ultimately show ?thesis using e leap_cron_parsed by (simp add: leap_day_2096_def leap_day_2104_def) (simp add: leap_cron_def)
qed

end
