(* ===== verification/Scheduler.thy ===== *)
theory Scheduler
  imports Cron Stable_Json
begin

text \<open>
  The recurring-job scheduler (\<open>src/background-jobs/scheduler.js\<close>): duration strings, the
  validation of a schedule, the timers it arms and the enqueues they start.

  The state keeps the armed timers of the host, the handles the scheduler remembers, the enqueues
  in flight, the cron callbacks that wait for one, and the log of enqueues started and settled. One
  event of the host is one step: a due timer fires, an enqueue settles, a waiting callback resumes,
  \<open>start()\<close> begins, the configuration of a \<open>start()\<close> arrives, or \<open>stop()\<close> is called.
  The time zone and the enqueue callback are the caller's: an enqueue is its start and its
  settlement, however it ends, since \<open>enqueueScheduledJob\<close> catches and logs every error.

  A timer's delay is what the host makes of it: a delay that is not between 1 and
  \<open>2147483647\<close> milliseconds becomes 1, and fractions are cut.
\<close>

subsection \<open>Durations\<close>

datatype schedule_error =
    DurationNotPositive | DurationEmpty | DurationInvalid string
  | ClassMissing | BothEveryAndCron | NeitherEveryNorCron | EveryTooShort | CronNotString
  | CronFailed cron_error

definition DURATION_MULTIPLIERS :: "(string \<times> int) list" where
  "DURATION_MULTIPLIERS =
     [(''d'', 86400000), (''day'', 86400000), (''days'', 86400000), (''h'', 3600000), (''hour'', 3600000), (''hours'', 3600000),
      (''m'', 60000), (''minute'', 60000), (''minutes'', 60000), (''ms'', 1), (''s'', 1000), (''second'', 1000), (''seconds'', 1000),
      (''w'', 604800000), (''week'', 604800000), (''weeks'', 604800000)]"

text \<open>The two groups of \<open>/^(\\d+(?:\\.\\d+)?)\\s*(ms|s|\<dots>)$/\<close>.\<close>

definition duration_match :: "string \<Rightarrow> (string \<times> string) option" where
  "duration_match s =
     (let ip = takeWhile (is_digit 10) s; r1 = dropWhile (is_digit 10) s;
          fp = (case r1 of [] \<Rightarrow> [] | c # r \<Rightarrow> if c = CHR ''.'' then takeWhile (is_digit 10) r else []);
          num = (if fp = [] then ip else ip @ CHR ''.'' # fp);
          rest = (if fp = [] then r1 else drop (Suc (length fp)) r1);
          u = dropWhile is_js_space rest
      in if ip = [] \<or> u \<notin> fst ` set DURATION_MULTIPLIERS then None else Some (num, u))"

definition js_times :: "jsnum \<Rightarrow> int \<Rightarrow> jsnum" where
  "js_times n k = (case n of Fin q \<Rightarrow> round_double (q * of_int k) | NaN \<Rightarrow> NaN
     | PosInf \<Rightarrow> if 0 < k then PosInf else if k = 0 then NaN else NegInf
     | NegInf \<Rightarrow> if 0 < k then NegInf else if k = 0 then NaN else PosInf)"

definition js_round :: "jsnum \<Rightarrow> jsnum" where
  "js_round n = (case n of Fin q \<Rightarrow> Fin (of_int \<lfloor>q + 1 / 2\<rfloor>) | _ \<Rightarrow> n)"

definition parseScheduledDuration :: "jsval \<Rightarrow> schedule_error + jsnum" where
  "parseScheduledDuration v =
     (case v of
        JNum (Fin q) \<Rightarrow> if q < 1 then Inl DurationNotPositive else Inr (Fin q)
      | JNum _ \<Rightarrow> Inl DurationNotPositive
      | JStr s \<Rightarrow>
          if js_trim s = [] then Inl DurationEmpty
          else (case duration_match (js_toLowerCase (js_trim s)) of
                  None \<Rightarrow> Inl (DurationInvalid s)
                | Some (num, u) \<Rightarrow>
                    (case map_of DURATION_MULTIPLIERS u of
                       None \<Rightarrow> Inl (DurationInvalid s)
                     | Some k \<Rightarrow> Inr (js_round (js_times (js_number num) k))))
      | _ \<Rightarrow> Inl DurationEmpty)"

definition normalizeEvery :: "jsval \<Rightarrow> jsval \<times> jsval" where
  "normalizeEvery every =
     (case every of
        JArr xs \<Rightarrow>
          let everyValue = (case xs of [] \<Rightarrow> JUndef | x # _ \<Rightarrow> x);
              everyOptions = (case xs of _ # o' # _ \<Rightarrow> o' | _ \<Rightarrow> JUndef)
          in (case everyOptions of JObj _ \<Rightarrow> (everyValue, obj_get everyOptions ''firstIn'') | _ \<Rightarrow> (everyValue, JUndef))
      | _ \<Rightarrow> (every, JUndef))"

subsection \<open>State\<close>

record schedule_config =
  sc_class :: bool
  sc_every :: jsval
  sc_cron :: jsval
  sc_enabled :: jsval
  sc_args :: jsval
  sc_options :: "(string \<times> jsval) list"

datatype timer_action = First_Run jsnum | Interval_Run jsnum | Cron_Run parsed_cron

record timer =
  t_id :: nat
  t_due :: int
  t_key :: string
  t_config :: schedule_config
  t_action :: timer_action

datatype sched_event =
    Started string "jsval list" "(string \<times> jsval) list"
  | Settled string

record cron_wait =
  w_key :: string
  w_config :: schedule_config
  w_cron :: parsed_cron
  w_ready :: bool

record scheduler =
  s_stopped :: bool
  s_loading :: nat
  s_next_id :: nat
  s_timers :: "timer list"
  s_intervalIds :: "nat list"
  s_timeoutIds :: "nat list"
  s_pending :: "string list"
  s_waiting :: "cron_wait list"
  s_log :: "sched_event list"

definition new_scheduler :: scheduler where
  "new_scheduler = \<lparr>s_stopped = False, s_loading = 0, s_next_id = 0, s_timers = [], s_intervalIds = [], s_timeoutIds = [],
     s_pending = [], s_waiting = [], s_log = []\<rparr>"

definition TIMEOUT_MAX :: int where
  "TIMEOUT_MAX = 2147483647"

definition timer_delay :: "jsnum \<Rightarrow> int" where
  "timer_delay n = (case n of Fin q \<Rightarrow> if 1 \<le> q \<and> q \<le> of_int TIMEOUT_MAX then \<lfloor>q\<rfloor> else 1 | _ \<Rightarrow> 1)"

definition arm :: "int \<Rightarrow> jsnum \<Rightarrow> string \<Rightarrow> schedule_config \<Rightarrow> timer_action \<Rightarrow> scheduler \<Rightarrow> scheduler" where
  "arm now delay jobKey c act s =
     s\<lparr>s_next_id := Suc (s_next_id s),
       s_timers := s_timers s @ [\<lparr>t_id = s_next_id s, t_due = now + timer_delay delay, t_key = jobKey, t_config = c, t_action = act\<rparr>]\<rparr>"

subsection \<open>Enqueueing\<close>

definition scheduled_args :: "schedule_config \<Rightarrow> jsval list" where
  "scheduled_args c = (case sc_args c of JArr xs \<Rightarrow> xs | _ \<Rightarrow> [])"

definition scheduled_options :: "schedule_config \<Rightarrow> (string \<times> jsval) list" where
  "scheduled_options c = foldl (\<lambda>o' (k, v). obj_set o' k v) [(''deduplicateWhileQueued'', JBool True)] (sc_options c)"

text \<open>The synchronous part of \<open>runScheduledJob\<close>; the flag says whether an enqueue was started.\<close>

definition runScheduledJob :: "string \<Rightarrow> schedule_config \<Rightarrow> scheduler \<Rightarrow> bool \<times> scheduler" where
  "runScheduledJob jobKey c s =
     (if s_stopped s \<or> jobKey \<in> set (s_pending s) then (False, s)
      else (True, s\<lparr>s_pending := s_pending s @ [jobKey],
                    s_log := s_log s @ [Started jobKey (scheduled_args c) (scheduled_options c)]\<rparr>))"

text \<open>The \<open>finally\<close> of \<open>runScheduledJob\<close>, when the enqueue of a key settles.\<close>

definition settle :: "string \<Rightarrow> scheduler \<Rightarrow> scheduler" where
  "settle jobKey s =
     (if jobKey \<in> set (s_pending s)
      then s\<lparr>s_pending := filter (\<lambda>k. k \<noteq> jobKey) (s_pending s),
             s_waiting := map (\<lambda>w. if w_key w = jobKey then w\<lparr>w_ready := True\<rparr> else w) (s_waiting s),
             s_log := s_log s @ [Settled jobKey]\<rparr>
      else s)"

subsection \<open>Schedules\<close>

definition scheduleNext :: "zone \<Rightarrow> int \<Rightarrow> int \<Rightarrow> string \<Rightarrow> schedule_config \<Rightarrow> parsed_cron \<Rightarrow> scheduler \<Rightarrow> schedule_error + scheduler" where
  "scheduleNext z from_now now jobKey c parsed s =
     (if s_stopped s then Inr s
      else (case nextCronFireDate z parsed from_now of
              Inl e \<Rightarrow> Inl (CronFailed e)
            | Inr next \<Rightarrow>
                let delayMs = max 1 (next - now);
                    s' = arm now (Fin (of_int delayMs)) jobKey c (Cron_Run parsed) s
                in Inr (s'\<lparr>s_timeoutIds := s_timeoutIds s' @ [s_next_id s]\<rparr>)))"

definition scheduleCronJob :: "zone \<Rightarrow> int \<Rightarrow> int \<Rightarrow> string \<Rightarrow> schedule_config \<Rightarrow> scheduler \<Rightarrow> schedule_error + scheduler" where
  "scheduleCronJob z from_now now jobKey c s =
     (case sc_cron c of
        JStr e \<Rightarrow>
          (case parseCronExpression (JStr e) of
             Inl err \<Rightarrow> Inl (CronFailed err)
           | Inr parsed \<Rightarrow> scheduleNext z from_now now jobKey c parsed s)
      | _ \<Rightarrow> Inl CronNotString)"

definition below_one :: "jsnum \<Rightarrow> bool" where
  "below_one n = (case n of Fin q \<Rightarrow> q < 1 | NegInf \<Rightarrow> True | _ \<Rightarrow> False)"

definition scheduleEveryJob :: "int \<Rightarrow> string \<Rightarrow> schedule_config \<Rightarrow> scheduler \<Rightarrow> schedule_error + scheduler" where
  "scheduleEveryJob now jobKey c s =
     (let (everyValue, firstInValue) = normalizeEvery (sc_every c) in
      bindE (parseScheduledDuration everyValue) (\<lambda>intervalMs.
      bindE (if firstInValue \<noteq> JUndef then parseScheduledDuration firstInValue else Inr intervalMs) (\<lambda>firstInMs.
        if below_one intervalMs then Inl EveryTooShort
        else let s' = arm now firstInMs jobKey c (First_Run intervalMs) s
             in Inr (s'\<lparr>s_timeoutIds := s_timeoutIds s' @ [s_next_id s]\<rparr>))))"

definition scheduleJob :: "zone \<Rightarrow> int \<Rightarrow> string \<Rightarrow> schedule_config \<Rightarrow> scheduler \<Rightarrow> schedule_error + scheduler" where
  "scheduleJob z now jobKey c s =
     (if \<not> sc_class c then Inl ClassMissing
      else if sc_cron c \<noteq> JUndef \<and> sc_every c \<noteq> JUndef then Inl BothEveryAndCron
      else if sc_cron c \<noteq> JUndef then scheduleCronJob z now now jobKey c s
      else if sc_every c = JUndef then Inl NeitherEveryNorCron
      else scheduleEveryJob now jobKey c s)"

subsection \<open>Life cycle\<close>

text \<open>
  \<open>start\<close> clears the stop mark at once and arms the schedules when its configuration has
  arrived; an invalid schedule throws, and the schedules before it stay armed.
\<close>

definition start_begin :: "scheduler \<Rightarrow> scheduler" where
  "start_begin s = s\<lparr>s_stopped := False, s_loading := Suc (s_loading s)\<rparr>"

fun start_jobs :: "zone \<Rightarrow> int \<Rightarrow> (string \<times> schedule_config option) list \<Rightarrow> scheduler \<Rightarrow> schedule_error option \<times> scheduler" where
  "start_jobs z now [] s = (None, s)"
| "start_jobs z now ((jobKey, conf) # rest) s =
     (case conf of
        None \<Rightarrow> start_jobs z now rest s
      | Some c \<Rightarrow>
          if sc_enabled c = JBool False then start_jobs z now rest s
          else (case scheduleJob z now jobKey c s of
                  Inl e \<Rightarrow> (Some e, s)
                | Inr s' \<Rightarrow> start_jobs z now rest s'))"

definition start_loaded ::
    "zone \<Rightarrow> int \<Rightarrow> (string \<times> schedule_config option) list option \<Rightarrow> scheduler \<Rightarrow> schedule_error option \<times> scheduler" where
  "start_loaded z now jobs s =
     (let s' = s\<lparr>s_loading := s_loading s - 1\<rparr>
      in case jobs of None \<Rightarrow> (None, s') | Some js \<Rightarrow> start_jobs z now js s')"

definition stop :: "scheduler \<Rightarrow> scheduler" where
  "stop s = s\<lparr>s_stopped := True,
     s_timers := filter (\<lambda>t. t_id t \<notin> set (s_intervalIds s) \<and> t_id t \<notin> set (s_timeoutIds s)) (s_timers s),
     s_intervalIds := [], s_timeoutIds := []\<rparr>"

text \<open>What \<open>stop()\<close> waits for: it resolves once every enqueue in flight at the call has settled.\<close>

definition stop_resolved :: "string list \<Rightarrow> scheduler \<Rightarrow> bool" where
  "stop_resolved awaited s = (set awaited \<inter> set (s_pending s) = {})"

definition fire :: "int \<Rightarrow> timer \<Rightarrow> scheduler \<Rightarrow> scheduler" where
  "fire now t s =
     (let gone = s\<lparr>s_timers := filter (\<lambda>t'. t_id t' \<noteq> t_id t) (s_timers s)\<rparr> in
      case t_action t of
        First_Run intervalMs \<Rightarrow>
          let s1 = snd (runScheduledJob (t_key t) (t_config t) gone);
              s2 = arm now intervalMs (t_key t) (t_config t) (Interval_Run intervalMs) s1
          in s2\<lparr>s_intervalIds := s_intervalIds s2 @ [s_next_id s1]\<rparr>
      | Interval_Run intervalMs \<Rightarrow>
          snd (runScheduledJob (t_key t) (t_config t)
            (s\<lparr>s_timers := map (\<lambda>t'. if t_id t' = t_id t then t'\<lparr>t_due := now + timer_delay intervalMs\<rparr> else t') (s_timers s)\<rparr>))
      | Cron_Run parsed \<Rightarrow>
          if s_stopped s then gone
          else let (started, s1) = runScheduledJob (t_key t) (t_config t) gone
               in s1\<lparr>s_waiting := s_waiting s1 @ [\<lparr>w_key = t_key t, w_config = t_config t, w_cron = parsed, w_ready = \<not> started\<rparr>]\<rparr>)"

text \<open>A cron callback after its enqueue; a throw of \<open>scheduleNext\<close> ends the callback.\<close>

definition resume :: "zone \<Rightarrow> int \<Rightarrow> int \<Rightarrow> nat \<Rightarrow> scheduler \<Rightarrow> scheduler" where
  "resume z from_now now i s =
     (if i < length (s_waiting s) \<and> w_ready (s_waiting s ! i)
      then let w = s_waiting s ! i; s1 = s\<lparr>s_waiting := take i (s_waiting s) @ drop (Suc i) (s_waiting s)\<rparr>
           in if s_stopped s1 then s1
              else (case scheduleNext z from_now now (w_key w) (w_config w) (w_cron w) s1 of Inl _ \<Rightarrow> s1 | Inr s2 \<Rightarrow> s2)
      else s)"

end
