(* ===== verification/Scheduler_Claims.thy ===== *)
theory Scheduler_Claims
  imports Scheduler
begin

text \<open>
  Claims about the scheduler: one enqueue in flight per schedule, nothing starts after a stop, which
  durations mean what, and two ways its timers misbehave.
\<close>

subsection \<open>Steps\<close>

inductive quiet_step :: "scheduler \<Rightarrow> scheduler \<Rightarrow> bool" where
  timer_fires: "t \<in> set (s_timers s) \<Longrightarrow> t_due t \<le> now \<Longrightarrow> quiet_step s (fire now t s)"
| enqueue_settles: "quiet_step s (settle jobKey s)"
| callback_resumes: "quiet_step s (resume z from_now now i s)"
| config_arrives: "0 < s_loading s \<Longrightarrow> quiet_step s (snd (start_loaded z now jobs s))"
| stop_called: "quiet_step s (stop s)"

inductive sched_step :: "scheduler \<Rightarrow> scheduler \<Rightarrow> bool" where
  quiet: "quiet_step s s' \<Longrightarrow> sched_step s s'"
| start_called: "sched_step s (start_begin s)"

subsection \<open>What an operation leaves alone\<close>

definition same_core :: "scheduler \<Rightarrow> scheduler \<Rightarrow> bool" where
  "same_core s s' \<longleftrightarrow> s_stopped s' = s_stopped s \<and> s_pending s' = s_pending s \<and> s_log s' = s_log s"

lemma same_core_refl [simp]: "same_core s s"
  by (simp add: same_core_def)

lemma same_core_trans: "same_core s s' \<Longrightarrow> same_core s' s'' \<Longrightarrow> same_core s s''"
  by (simp add: same_core_def)

lemma arm_core [simp]: "same_core s (arm now d k c a s)"
  by (simp add: same_core_def arm_def)

lemma scheduleNext_core: "scheduleNext z f now k c p s = Inr s' \<Longrightarrow> same_core s s'"
  by (auto simp: scheduleNext_def same_core_def arm_def Let_def split: if_split_asm sum.split_asm)

lemma scheduleJob_core: "scheduleJob z now k c s = Inr s' \<Longrightarrow> same_core s s'"
  by (auto simp: scheduleJob_def scheduleCronJob_def scheduleEveryJob_def bindE_eq_Inr Let_def same_core_def arm_def
      split: if_split_asm jsval.split_asm sum.split_asm prod.split_asm dest!: scheduleNext_core)

lemma start_jobs_core: "same_core s (snd (start_jobs z now js s))"
proof (induction z now js s rule: start_jobs.induct)
  case (2 z now k conf rest s)
  then show ?case
    by (auto split: option.split sum.split intro: same_core_trans [OF scheduleJob_core])
qed simp

lemma start_loaded_core: "same_core s (snd (start_loaded z now jobs s))"
  using start_jobs_core [of "s\<lparr>s_loading := s_loading s - 1\<rparr>"]
  by (auto simp: start_loaded_def Let_def same_core_def split: option.split)

lemma resume_core: "same_core s (resume z f now i s)"
proof (cases "i < length (s_waiting s) \<and> w_ready (s_waiting s ! i) \<and> \<not> s_stopped s")
  case True
  let ?s = "s\<lparr>s_waiting := take i (s_waiting s) @ drop (Suc i) (s_waiting s)\<rparr>"
  have "same_core s ?s" by (simp add: same_core_def)
  with True show ?thesis
    by (auto simp: resume_def Let_def split: sum.split dest!: scheduleNext_core intro: same_core_trans)
next
  case False
  then show ?thesis by (auto simp: resume_def Let_def same_core_def)
qed

lemma stop_pending [simp]: "s_pending (stop s) = s_pending s" "s_log (stop s) = s_log s" "s_stopped (stop s)" "s_loading (stop s) = s_loading s"
  by (simp_all add: stop_def)

text \<open>A timer that fires starts at most the enqueue of its own schedule.\<close>

lemma fire_core:
  "same_core s (fire now t s) \<or>
   \<not> s_stopped s \<and> t_key t \<notin> set (s_pending s) \<and> s_stopped (fire now t s) = s_stopped s \<and> s_pending (fire now t s) = s_pending s @ [t_key t]
     \<and> s_log (fire now t s) = s_log s @ [Started (t_key t) (scheduled_args (t_config t)) (scheduled_options (t_config t))]"
  by (cases "t_action t") (auto simp: fire_def runScheduledJob_def arm_def same_core_def Let_def)

subsection \<open>One enqueue per schedule\<close>

definition starts :: "string \<Rightarrow> sched_event list \<Rightarrow> nat" where
  "starts k evs = length (filter (\<lambda>e. case e of Started k' _ _ \<Rightarrow> k' = k | Settled _ \<Rightarrow> False) evs)"

definition settles :: "string \<Rightarrow> sched_event list \<Rightarrow> nat" where
  "settles k evs = length (filter (\<lambda>e. e = Settled k) evs)"

definition single_flight :: "scheduler \<Rightarrow> bool" where
  "single_flight s \<longleftrightarrow> distinct (s_pending s) \<and>
     (\<forall>k. starts k (s_log s) = settles k (s_log s) + (if k \<in> set (s_pending s) then 1 else 0))"

lemma single_flight_core: "single_flight s \<Longrightarrow> same_core s s' \<Longrightarrow> single_flight s'"
  by (simp add: single_flight_def same_core_def)

lemma single_flight_quiet: "quiet_step s s' \<Longrightarrow> single_flight s \<Longrightarrow> single_flight s'"
proof (induction rule: quiet_step.induct)
  case (timer_fires t s now)
  from fire_core [of s now t] show ?case
  proof
    assume "same_core s (fire now t s)"
    with timer_fires show ?thesis by (blast intro: single_flight_core)
  next
    assume "\<not> s_stopped s \<and> t_key t \<notin> set (s_pending s) \<and> s_stopped (fire now t s) = s_stopped s \<and> s_pending (fire now t s) = s_pending s @ [t_key t]
      \<and> s_log (fire now t s) = s_log s @ [Started (t_key t) (scheduled_args (t_config t)) (scheduled_options (t_config t))]"
    with timer_fires(3) show ?thesis by (auto simp: single_flight_def starts_def settles_def)
  qed
next
  case (enqueue_settles s jobKey)
  then show ?case by (auto simp: settle_def single_flight_def starts_def settles_def)
next
  case (callback_resumes s z from_now now i)
  then show ?case using resume_core single_flight_core by blast
next
  case (config_arrives s z now jobs)
  then show ?case using start_loaded_core single_flight_core by blast
next
  case (stop_called s)
  then show ?case by (simp add: single_flight_def)
qed

lemma single_flight_step: "sched_step s s' \<Longrightarrow> single_flight s \<Longrightarrow> single_flight s'"
proof (induction rule: sched_step.induct)
  case (start_called s)
  then show ?case by (simp add: start_begin_def single_flight_def)
qed (rule single_flight_quiet)

subsection \<open>Remembered timers\<close>

definition tracked :: "scheduler \<Rightarrow> bool" where
  "tracked s \<longleftrightarrow> (\<forall>t \<in> set (s_timers s). t_id t \<in> set (s_intervalIds s) \<union> set (s_timeoutIds s))"

lemma tracked_scheduleNext: "scheduleNext z f now k c p s = Inr s' \<Longrightarrow> tracked s \<Longrightarrow> tracked s'"
  by (auto simp: scheduleNext_def tracked_def arm_def Let_def split: if_split_asm sum.split_asm)

lemma tracked_scheduleJob: "scheduleJob z now k c s = Inr s' \<Longrightarrow> tracked s \<Longrightarrow> tracked s'"
  by (auto simp: scheduleJob_def scheduleCronJob_def scheduleEveryJob_def bindE_eq_Inr Let_def arm_def
      split: if_split_asm jsval.split_asm sum.split_asm prod.split_asm dest: tracked_scheduleNext) (auto simp: tracked_def)

lemma tracked_start_jobs: "tracked s \<Longrightarrow> tracked (snd (start_jobs z now js s))"
  by (induction z now js s rule: start_jobs.induct) (auto split: option.split sum.split dest: tracked_scheduleJob)

lemma tracked_resume: "tracked s \<Longrightarrow> tracked (resume z f now i s)"
proof -
  assume t: "tracked s"
  then have "tracked (s\<lparr>s_waiting := take i (s_waiting s) @ drop (Suc i) (s_waiting s)\<rparr>)" by (simp add: tracked_def)
  with t show ?thesis by (auto simp: resume_def Let_def split: sum.split dest: tracked_scheduleNext)
qed

lemma tracked_fire: "tracked s \<Longrightarrow> tracked (fire now t s)"
  by (cases "t_action t") (auto simp: tracked_def fire_def runScheduledJob_def arm_def Let_def)

lemma tracked_step: "sched_step s s' \<Longrightarrow> tracked s \<Longrightarrow> tracked s'"
proof (induction rule: sched_step.induct)
  case (quiet s s')
  then show ?case
  proof (induction rule: quiet_step.induct)
    case (config_arrives s z now jobs)
    then have "tracked (s\<lparr>s_loading := s_loading s - 1\<rparr>)" by (simp add: tracked_def)
    then show ?case by (auto simp: start_loaded_def Let_def tracked_start_jobs split: option.split)
  qed (auto simp: tracked_fire tracked_resume, auto simp: settle_def stop_def tracked_def)
qed (simp add: start_begin_def tracked_def)

definition sched_inv :: "scheduler \<Rightarrow> bool" where
  "sched_inv s \<longleftrightarrow> single_flight s \<and> tracked s"

interpretation scheduler_system: invariant_system "\<lambda>s. s = new_scheduler" sched_step sched_inv
proof
  show "\<And>s. s = new_scheduler \<Longrightarrow> sched_inv s"
    by (simp add: sched_inv_def single_flight_def tracked_def new_scheduler_def starts_def settles_def)
  show "\<And>s t. sched_inv s \<Longrightarrow> sched_step s t \<Longrightarrow> sched_inv t"
    by (auto simp: sched_inv_def intro: single_flight_step tracked_step)
qed

subsection \<open>After a stop\<close>

lemma stopped_step:
  assumes "quiet_step s s'" "s_stopped s"
  shows "s_stopped s'" "set (s_pending s') \<subseteq> set (s_pending s)" "starts k (s_log s') = starts k (s_log s)"
proof -
  have "s_stopped s' \<and> set (s_pending s') \<subseteq> set (s_pending s) \<and> starts k (s_log s') = starts k (s_log s)"
    using assms
  proof (induction rule: quiet_step.induct)
    case (timer_fires t s now)
    then show ?case using fire_core [of s now t] by (auto simp: same_core_def)
  next
    case (enqueue_settles s jobKey)
    then show ?case by (auto simp: settle_def starts_def)
  next
    case (callback_resumes s z from_now now i)
    then show ?case using resume_core [of s z from_now now i] by (simp add: same_core_def)
  next
    case (config_arrives s z now jobs)
    then show ?case using start_loaded_core [of s z now jobs] by (simp add: same_core_def)
  qed simp
  then show "s_stopped s'" "set (s_pending s') \<subseteq> set (s_pending s)" "starts k (s_log s') = starts k (s_log s)" by auto
qed

lemma no_timer_step:
  assumes "quiet_step s s'" "s_stopped s" "s_timers s = []" "s_loading s = 0"
  shows "s_timers s' = [] \<and> s_loading s' = 0"
  using assms
proof (induction rule: quiet_step.induct)
  case (callback_resumes s z from_now now i)
  then show ?case by (auto simp: resume_def Let_def)
qed (auto simp: settle_def stop_def)

lemma stopped_run:
  assumes "quiet_step\<^sup>*\<^sup>* (stop s) s'"
  shows "s_stopped s' \<and> set (s_pending s') \<subseteq> set (s_pending s) \<and> starts k (s_log s') = starts k (s_log s)"
  using assms
proof (induction rule: rtranclp_induct)
  case (step t u)
  with stopped_step [OF step.hyps(2)] show ?case by auto
qed simp

lemma stopped_run_timers:
  assumes "quiet_step\<^sup>*\<^sup>* (stop s) s'" "tracked s" "s_loading s = 0"
  shows "s_timers s' = []"
proof -
  have "s_timers (stop s) = []" using assms(2) by (auto simp: stop_def tracked_def filter_empty_conv)
  with assms(1,3) have "s_stopped s' \<and> s_timers s' = [] \<and> s_loading s' = 0"
  proof (induction rule: rtranclp_induct)
    case (step t u)
    with no_timer_step [OF step.hyps(2)] stopped_step(1) [OF step.hyps(2)] show ?case by simp
  qed simp
  then show ?thesis by simp
qed


subsection \<open>Whole durations\<close>

lemma is_digit_code: "is_digit 10 c \<longleftrightarrow> 48 \<le> (of_char c :: nat) \<and> (of_char c :: nat) \<le> 57"
  by (auto simp: is_digit_def digit_value_def Let_def)

lemma digit_not_space: "is_digit 10 c \<Longrightarrow> \<not> is_js_space c"
  by (auto simp: is_digit_code is_js_space_def)

lemma digit_lower: "is_digit 10 c \<Longrightarrow> to_lower_char c = c"
  by (auto simp: is_digit_code to_lower_char_def Let_def)

lemma space_lower: "is_js_space c \<Longrightarrow> to_lower_char c = c"
  by (auto simp: is_js_space_def to_lower_char_def Let_def)

lemma digit_not_char: "is_digit 10 c \<Longrightarrow> c \<noteq> CHR ''x'' \<and> c \<noteq> CHR ''X'' \<and> c \<noteq> CHR ''o'' \<and> c \<noteq> CHR ''O'' \<and> c \<noteq> CHR ''b'' \<and> c \<noteq> CHR ''B''
    \<and> c \<noteq> CHR ''-'' \<and> c \<noteq> CHR ''+'' \<and> c \<noteq> CHR ''I'' \<and> c \<noteq> CHR ''.''"
  by (auto simp: is_digit_code)

lemma unit_shape:
  assumes "(u, k) \<in> set DURATION_MULTIPLIERS"
  shows "u \<noteq> []" "\<not> is_digit 10 (hd u)" "hd u \<noteq> CHR ''.''" "\<not> is_js_space (hd u)" "\<not> is_js_space (last u)" "js_toLowerCase u = u"
    "map_of DURATION_MULTIPLIERS u = Some k" "0 < k"
proof -
  have "list_all (\<lambda>(u, k). u \<noteq> [] \<and> \<not> is_digit 10 (hd u) \<and> hd u \<noteq> CHR ''.'' \<and> \<not> is_js_space (hd u) \<and> \<not> is_js_space (last u)
      \<and> js_toLowerCase u = u \<and> map_of DURATION_MULTIPLIERS u = Some k \<and> 0 < k) DURATION_MULTIPLIERS"
    by code_simp
  with assms show "u \<noteq> []" "\<not> is_digit 10 (hd u)" "hd u \<noteq> CHR ''.''" "\<not> is_js_space (hd u)" "\<not> is_js_space (last u)" "js_toLowerCase u = u"
    "map_of DURATION_MULTIPLIERS u = Some k" "0 < k"
    by (auto simp: list_all_iff)
qed

lemma js_trim_id: "s \<noteq> [] \<Longrightarrow> \<not> is_js_space (hd s) \<Longrightarrow> \<not> is_js_space (last s) \<Longrightarrow> js_trim s = s"
proof -
  assume s: "s \<noteq> []" "\<not> is_js_space (hd s)" "\<not> is_js_space (last s)"
  then have "dropWhile is_js_space s = s" by (cases s) auto
  moreover from s have "dropWhile is_js_space (rev s) = rev s" by (cases s rule: rev_cases) auto
  ultimately show ?thesis by (simp add: js_trim_def)
qed

lemma js_number_digits:
  assumes "ds \<noteq> []" "list_all (is_digit 10) ds" "digits_value 10 ds < 2 ^ 53" "0 \<le> digits_value 10 ds"
  shows "js_number ds = Fin (of_int (digits_value 10 ds))"
proof -
  have dig: "is_digit 10 c" if "c \<in> set ds" for c using assms(2) that by (simp add: list_all_iff)
  have trim: "js_trim ds = ds" using assms(1) digit_not_space [OF dig [of "hd ds"]] digit_not_space [OF dig [of "last ds"]] by (intro js_trim_id) auto
  have pre: "take 2 ds \<noteq> [CHR ''0'', c]" if "c \<in> {CHR ''x'', CHR ''X'', CHR ''o'', CHR ''O'', CHR ''b'', CHR ''B''}" for c
  proof
    assume "take 2 ds = [CHR ''0'', c]"
    then have "c \<in> set ds" by (metis in_set_takeD list.set_intros(1,2))
    with dig digit_not_char [of c] that show False by auto
  qed
  have hd: "hd ds \<noteq> CHR ''-''" "hd ds \<noteq> CHR ''+''" "ds \<noteq> ''Infinity''"
    using assms(1) dig [of "hd ds"] digit_not_char [of "hd ds"] dig [of "CHR ''I''"] digit_not_char [of "CHR ''I''"] by auto
  have tw: "takeWhile (is_digit 10) ds = ds" "dropWhile (is_digit 10) ds = []" using dig by (auto simp: takeWhile_eq_all_conv)
  have "unsigned_decimal ds = Some (of_int (digits_value 10 ds))"
    using assms(1) by (simp add: unsigned_decimal_def tw exponent_part_def Let_def)
  then have "unsigned_literal ds = Fin (of_int (digits_value 10 ds))"
    using hd(3) assms(3,4) by (simp add: unsigned_literal_def round_double_of_int)
  then show ?thesis using assms(1) trim pre hd by (simp add: js_number_def Let_def)
qed

lemma digits_value_nonneg: "0 \<le> digits_value 10 ds"
proof -
  have "0 \<le> acc \<Longrightarrow> 0 \<le> foldl (\<lambda>acc c. acc * int 10 + int (digit_value c)) acc ds" for acc :: int
    by (induction ds arbitrary: acc) auto
  then show ?thesis by (simp add: digits_value_def)
qed

lemma duration_match_whole:
  assumes "ds \<noteq> []" "list_all (is_digit 10) ds" "list_all is_js_space sp" "(u, k) \<in> set DURATION_MULTIPLIERS"
  shows "duration_match (ds @ sp @ u) = Some (ds, u)"
proof -
  note U = unit_shape [OF assms(4)]
  have r1: "sp @ u \<noteq> []" "\<not> is_digit 10 (hd (sp @ u))" "hd (sp @ u) \<noteq> CHR ''.''"
    using U assms(3) digit_not_space [of "hd sp"] by (cases sp; auto simp: is_js_space_def)+
  then obtain c r where cr: "sp @ u = c # r" "\<not> is_digit 10 c" "c \<noteq> CHR ''.''" by (cases "sp @ u") auto
  have "takeWhile (is_digit 10) (ds @ sp @ u) = ds" "dropWhile (is_digit 10) (ds @ sp @ u) = sp @ u"
    using assms(2) cr by (auto simp: list_all_iff takeWhile_append2 dropWhile_append2)
  moreover have "dropWhile is_js_space (sp @ u) = u"
    using assms(3) U(1,4) by (cases u) (auto simp: list_all_iff dropWhile_append2)
  moreover have "u \<in> fst ` set DURATION_MULTIPLIERS" using assms(4) by (force simp: image_iff)
  ultimately show ?thesis using assms(1) cr by (simp add: duration_match_def Let_def)
qed

text \<open>
  A whole number followed by a unit is that many units in milliseconds, exactly, as long as the
  result is below \<open>2 ^ 53\<close>; white space between number and unit does not matter.
\<close>

lemma whole_duration:
  assumes "ds \<noteq> []" "list_all (is_digit 10) ds" "list_all is_js_space sp" "(u, k) \<in> set DURATION_MULTIPLIERS"
    and "digits_value 10 ds * k < 2 ^ 53"
  shows "parseScheduledDuration (JStr (ds @ sp @ u)) = Inr (Fin (of_int (digits_value 10 ds * k)))"
proof -
  note U = unit_shape [OF assms(4)] and nn = digits_value_nonneg [of ds]
  let ?s = "ds @ sp @ u"
  have "digits_value 10 ds * 1 \<le> digits_value 10 ds * k" by (rule mult_left_mono) (use U(8) nn in auto)
  with assms(5) have small: "digits_value 10 ds < 2 ^ 53" by linarith
  have "js_trim ?s = ?s"
    using assms(1,2) U(1,5) digit_not_space [of "hd ds"] by (intro js_trim_id) (auto simp: list_all_iff)
  moreover have "js_toLowerCase ?s = ?s"
    using assms(2,3) U(6) by (simp add: js_toLowerCase_def map_idI list_all_iff digit_lower space_lower)
  moreover have "js_times (js_number ds) k = Fin (of_int (digits_value 10 ds * k))"
    using js_number_digits [OF assms(1,2) small nn] round_double_of_int [of "digits_value 10 ds * k"] assms(5) nn U(8)
    by (simp add: js_times_def)
  moreover have "\<lfloor>of_int z + 1 / 2 :: rat\<rfloor> = z" for z by linarith
  ultimately show ?thesis
    using assms(1) duration_match_whole [OF assms(1-4)] U(7) by (simp add: parseScheduledDuration_def js_round_def)
qed

lemma whole_duration_example:
  "parseScheduledDuration (JStr ''90  minutes'') = Inr (Fin 5400000)"
proof -
  have v: "digits_value 10 ''90'' = 90" by (simp add: digits_value_def digit_value_def)
  have "parseScheduledDuration (JStr (''90'' @ ''  '' @ ''minutes'')) = Inr (Fin (of_int (digits_value 10 ''90'' * 60000)))"
    by (rule whole_duration) (simp_all add: v DURATION_MULTIPLIERS_def is_js_space_def is_digit_def digit_value_def)
  then show ?thesis by (simp add: v)
qed


subsection \<open>Claims\<close>

text \<open>
  C20: at any time each schedule has at most one enqueue in flight: over every run, the enqueues a
  schedule has started exceed those that settled by one while its key is pending, and by none
  otherwise.
\<close>

theorem scheduler_single_flight:
  assumes "reaches (\<lambda>s. s = new_scheduler) sched_step s"
  shows "distinct (s_pending s) \<and>
    starts k (s_log s) = settles k (s_log s) + (if k \<in> set (s_pending s) then 1 else 0)"
  using scheduler_system.reaches_inv [OF assms] by (simp add: sched_inv_def single_flight_def)

definition demo_config :: schedule_config where
  "demo_config = \<lparr>sc_class = True, sc_every = JStr ''5s'', sc_cron = JUndef, sc_enabled = JUndef, sc_args = JArr [JInt 7],
     sc_options = [(''queue'', JStr ''mail'')]\<rparr>"

definition demo_started :: scheduler where
  "demo_started = snd (start_loaded (fixed_zone 0) 0 (Some [(''tidy'', Some demo_config)]) (start_begin new_scheduler))"

definition demo_fired :: scheduler where
  "demo_fired = fire 5000 (hd (s_timers demo_started)) demo_started"

lemma demo_timer: "s_timers demo_started \<noteq> [] \<and> t_due (hd (s_timers demo_started)) = 5000"
  by code_simp

lemma demo_fired_reachable: "reaches (\<lambda>s. s = new_scheduler) sched_step demo_fired"
proof -
  have "reaches (\<lambda>s. s = new_scheduler) sched_step (start_begin new_scheduler)"
    by (rule reaches_step [where s = new_scheduler]) (auto intro: reaches_start start_called)
  moreover have "sched_step (start_begin new_scheduler) demo_started"
    unfolding demo_started_def by (intro quiet config_arrives) (simp add: start_begin_def)
  moreover have "sched_step demo_started demo_fired"
    unfolding demo_fired_def using demo_timer by (intro quiet timer_fires) auto
  ultimately show ?thesis by (blast intro: reaches_step)
qed

theorem scheduler_single_flight_witness:
  "s_pending demo_fired = [''tidy''] \<and> starts ''tidy'' (s_log demo_fired) = settles ''tidy'' (s_log demo_fired) + 1"
proof -
  have "s_pending demo_fired = [''tidy'']" by code_simp
  with scheduler_single_flight [OF demo_fired_reachable, of "''tidy''"] show ?thesis by simp
qed

text \<open>
  after \<open>stop()\<close>, whatever timers, settlements and callbacks still happen until the next
  \<open>start()\<close>, no schedule starts another enqueue; when \<open>stop()\<close> resolves none is in flight;
  and unless a \<open>start()\<close> was still loading its configuration, no timer is armed any more.
\<close>

lemma stop_quiesces:
  assumes "reaches (\<lambda>s. s = new_scheduler) sched_step s" "quiet_step\<^sup>*\<^sup>* (stop s) s'"
  shows "starts k (s_log s') = starts k (s_log s)
    \<and> (stop_resolved (s_pending s) s' \<longrightarrow> s_pending s' = [])
    \<and> (s_loading s = 0 \<longrightarrow> s_timers s' = [])"
proof -
  have "tracked s" using scheduler_system.reaches_inv [OF assms(1)] by (simp add: sched_inv_def)
  with stopped_run [OF assms(2), of k] stopped_run_timers [OF assms(2)] show ?thesis
    by (auto simp: stop_resolved_def inf.absorb2)
qed

lemma stop_quiesces_example:
  "quiet_step\<^sup>*\<^sup>* (stop demo_fired) (settle ''tidy'' (stop demo_fired))
     \<and> s_pending (settle ''tidy'' (stop demo_fired)) = [] \<and> s_timers (settle ''tidy'' (stop demo_fired)) = []
     \<and> starts ''tidy'' (s_log (settle ''tidy'' (stop demo_fired))) = 1"
proof -
  let ?s = "settle ''tidy'' (stop demo_fired)"
  have run: "quiet_step\<^sup>*\<^sup>* (stop demo_fired) ?s" by (blast intro: enqueue_settles)
  have "stop_resolved (s_pending demo_fired) ?s" "s_loading demo_fired = 0" "starts ''tidy'' (s_log demo_fired) = 1"
    by code_simp+
  with stop_quiesces [OF demo_fired_reachable run, of "''tidy''"] run show ?thesis by simp
qed

text \<open>
  A \<open>stop()\<close> that comes while \<open>start()\<close> waits for its configuration leaves timers
  behind: the interval schedules are armed after the stop, and their timers go on firing, although
  they start nothing.
\<close>

lemma stop_during_start_leaks_timer:
  "let s = snd (start_loaded (fixed_zone 0) 0 (Some [(''tidy'', Some demo_config)]) (stop (start_begin new_scheduler)));
       s' = fire 5000 (hd (s_timers s)) s
   in s_stopped s \<and> map t_due (s_timers s) = [5000] \<and> s_stopped s' \<and> map t_due (s_timers s') = [10000] \<and> s_log s' = []"
  by code_simp

text \<open>
  A schedule whose next time is more than \<open>2147483647\<close> milliseconds (about 24.8 days) away
  is armed to fire one millisecond later instead, long before the time the expression names.
\<close>

lemma distant_cron_fires_at_once:
  assumes "\<not> s_stopped s" "nextCronFireDate z parsed now = Inr due" "due - now > TIMEOUT_MAX"
  shows "\<exists>s' t. scheduleNext z now now jobKey c parsed s = Inr s' \<and> s_timers s' = s_timers s @ [t]
    \<and> t_action t = Cron_Run parsed \<and> t_due t = now + 1 \<and> t_due t < due"
  using assms by (auto simp: scheduleNext_def arm_def timer_delay_def TIMEOUT_MAX_def Let_def max_def)

definition monthly :: parsed_cron where
  "monthly = demo_cron ''@monthly''"

lemma monthly_fields: "pc_minute monthly = [0]" "pc_hour monthly = [0]" "pc_dayOfMonth monthly = [1]"
    "pc_dayOfMonthRestricted monthly" "\<not> pc_dayOfWeekRestricted monthly"
  by code_simp+

lemma january_date:
  assumes "1 \<le> d" "d \<le> 24"
  shows "snd (local_month_date d) \<noteq> 1"
proof -
  have "(400 * d) div 146097 = 0" using assms by simp
  then have "year_of_day d = 1970" using assms by (simp add: year_of_day_def day_from_year_def)
  with assms show ?thesis by (simp add: local_month_date_def month_lengths_def day_from_year_def)
qed

lemma monthly_next: "\<exists>due. nextCronFireDate (fixed_zone 0) monthly 0 = Inr due \<and> TIMEOUT_MAX < due"
proof -
  have "candidateMatches (2678400000 + 0) monthly" by code_simp
  then have "\<exists>u. 0 < u \<and> u \<le> 0 - (0 + 0) mod 60000 + 1830 * 86400000 \<and> (u + 0) mod 60000 = 0 \<and> candidateMatches (u + 0) monthly"
    by (intro exI [of _ 2678400000]) simp
  then have "\<exists>t. nextCronFireDate (fixed_zone 0) monthly 0 = Inr t" unfolding next_fire_total_aux .
  then obtain t where t: "nextCronFireDate (fixed_zone 0) monthly 0 = Inr t" ..
  then have "search_fire (fixed_zone 0) monthly MAX_NEXT_FIRE_ITERATIONS 60000 = Inr t" by (simp add: nextCronFireDate_def)
  from search_fixed_Inr [OF this] obtain j where j: "t = 60000 + int j * 60000" "candidateMatches t monthly" by auto
  have m: "getMinutes t = 0" "getHours t = 0" "getDate t = 1"
    using j(2) by (auto simp: candidateMatches_def monthly_fields split: if_split_asm)
  have "t = t div 86400000 * 86400000"
    by (rule midnight) (use j(1) m in \<open>simp_all add: getMinutes_def getHours_def ms_per_minute_def mod_add_self1\<close>)
  moreover have "0 < t" using j(1) by simp
  ultimately have d: "1 \<le> t div 86400000" by linarith
  have "\<not> t div 86400000 \<le> 24" using january_date [OF d] m(3) by (auto simp: getDate_def ms_per_day_def)
  then have "TIMEOUT_MAX < t" unfolding TIMEOUT_MAX_def using \<open>t = t div 86400000 * 86400000\<close> by linarith
  with t show ?thesis by blast
qed

lemma distant_cron_fires_at_once_example:
  "\<exists>due s' t. nextCronFireDate (fixed_zone 0) monthly 0 = Inr due
     \<and> scheduleNext (fixed_zone 0) 0 0 ''report'' demo_config monthly new_scheduler = Inr s' \<and> s_timers s' = [t] \<and> t_due t = 1 \<and> 1 < due"
proof -
  obtain due where n: "nextCronFireDate (fixed_zone 0) monthly 0 = Inr due" "due - 0 > TIMEOUT_MAX" using monthly_next by auto
  have "\<not> s_stopped new_scheduler" "s_timers new_scheduler = []" by (simp_all add: new_scheduler_def)
  with distant_cron_fires_at_once [of new_scheduler "fixed_zone 0" monthly 0 due "''report''" demo_config] n show ?thesis by auto
qed

end
