(* ===== verification/Acts_As_List.thy ===== *)
theory Acts_As_List
  imports Sql_Table Js_Value
begin

text \<open>
  The gap-less positional lists of \<open>src/database/record/acts-as-list.js\<close>, with the parts of
  \<open>src/database/record/index.js\<close> that write the position and scope columns around the
  callbacks (\<open>save\<close>, \<open>_createNewRecord\<close>, \<open>_updateRecordWithChanges\<close>, \<open>destroy\<close>).

  The table is what \<open>Migration.addActsAsList\<close> leaves: a position column that is never
  \<open>NULL\<close> and a unique index on scope and position, checked after every statement
  (\<open>write_rows\<close>). A model instance keeps its loaded columns, its pending changes, whether the
  position was assigned explicitly, and its relationships; \<open>None\<close> in a column means the key is
  absent from the object, \<open>Some None\<close> a stored \<open>null\<close>. Keys of rows and scopes are integers,
  of which only equality and, where the source tests it, being non-zero matters. The re-entrancy flag
  of the source is set and cleared within one callback on one instance, so no callback of the
  model ever sees it set.
\<close>

type_synonym key = int

record list_row =
  l_id :: key
  l_scope :: "key option"
  l_pos :: int

type_synonym list_table = "list_row list"

record relationship =
  rel_belongs_to :: bool
  rel_foreign_key :: string
  rel_dirty :: bool
  rel_loaded :: "key option"

record item =
  m_persisted :: bool
  m_id :: key
  a_pos :: "jsval option"
  a_scope :: "key option option"
  c_pos :: "jsval option"
  c_scope :: "key option option"
  m_pos_assigned :: bool
  m_scope_column :: string
  m_relationships :: "relationship list"

datatype list_error = RequestedNotPositive | PersistedNotPositive | NotSelected | UniqueViolation | DuplicateId | NotNullViolation

subsection \<open>Statements under the unique index\<close>

definition index_key :: "list_row \<Rightarrow> key option \<times> int" where
  "index_key r = (l_scope r, l_pos r)"

definition index_ok :: "list_table \<Rightarrow> bool" where
  "index_ok rows = distinct (map index_key (filter (\<lambda>r. l_scope r \<noteq> None) rows))"

definition write_rows :: "list_table \<Rightarrow> list_error + list_table" where
  "write_rows rows = (if index_ok rows then Inr rows else Inl UniqueViolation)"

subsection \<open>Reading the instance\<close>

text \<open>\<open>belongs_to_scope\<close> is the scope column of \<open>_belongsToChanges()\<close>.\<close>

definition belongs_to_scope :: "item \<Rightarrow> key option option" where
  "belongs_to_scope m =
     fold (\<lambda>r acc. if rel_belongs_to r \<and> rel_dirty r \<and> rel_foreign_key r = m_scope_column m
                   then (case rel_loaded r of None \<Rightarrow> acc | Some k \<Rightarrow> Some (Some k)) else acc)
       (m_relationships m) None"

definition read_scope :: "item \<Rightarrow> list_error + key option" where
  "read_scope m =
     (case belongs_to_scope m of Some v \<Rightarrow> Inr v
      | None \<Rightarrow> (case c_scope m of Some v \<Rightarrow> Inr v
      | None \<Rightarrow> (case a_scope m of Some v \<Rightarrow> Inr v
      | None \<Rightarrow> if m_persisted m then Inl NotSelected else Inr None)))"

definition read_pos :: "item \<Rightarrow> list_error + jsval" where
  "read_pos m =
     (case c_pos m of Some v \<Rightarrow> Inr v
      | None \<Rightarrow> (case a_pos m of Some v \<Rightarrow> Inr v
      | None \<Rightarrow> if m_persisted m then Inl NotSelected else Inr JUndef))"

definition set_pos :: "jsval \<Rightarrow> item \<Rightarrow> item" where
  "set_pos v m = (if a_pos m = Some v then m else m\<lparr>c_pos := Some v\<rparr>)"

fun related_scope :: "string \<Rightarrow> relationship list \<Rightarrow> key option" where
  "related_scope col [] = None"
| "related_scope col (r # rs) =
     (if rel_belongs_to r \<and> rel_foreign_key r = col \<and> rel_loaded r \<noteq> None then rel_loaded r
      else related_scope col rs)"

definition resolveScopeValue :: "item \<Rightarrow> list_error + key option" where
  "resolveScopeValue m =
     bindE (read_scope m) (\<lambda>v. case v of
        Some k \<Rightarrow> Inr (Some k)
      | None \<Rightarrow> Inr (related_scope (m_scope_column m) (m_relationships m)))"

text \<open>\<open>scopeValue != null ? scopeValue : resolveScopeValue(record, scope)\<close>\<close>

definition resolved_scope :: "item \<Rightarrow> key option option \<Rightarrow> list_error + key option" where
  "resolved_scope m sv = (case sv of Some (Some k) \<Rightarrow> Inr (Some k) | _ \<Rightarrow> resolveScopeValue m)"

definition assertPositivePosition :: "bool \<Rightarrow> jsval \<Rightarrow> list_error + int" where
  "assertPositivePosition persisted v =
     (case js_integer v of
        Some z \<Rightarrow> if 0 < z then Inr z else Inl (if persisted then PersistedNotPositive else RequestedNotPositive)
      | None \<Rightarrow> Inl (if persisted then PersistedNotPositive else RequestedNotPositive))"

subsection \<open>Shifting\<close>

definition bump :: "int \<Rightarrow> key \<Rightarrow> list_row \<Rightarrow> list_table \<Rightarrow> list_error + list_table" where
  "bump d k row rows =
     write_rows (sql_update (\<lambda>r. l_id r = l_id row \<and> l_scope r = Some k \<and> l_pos r = l_pos row)
       (\<lambda>r. r\<lparr>l_pos := l_pos r + d\<rparr>) rows)"

definition below :: "int option \<Rightarrow> int \<Rightarrow> bool" where
  "below limit p = (case limit of None \<Rightarrow> True | Some t \<Rightarrow> p < t)"

definition in_range :: "key \<Rightarrow> int \<Rightarrow> int option \<Rightarrow> key option \<Rightarrow> list_row \<Rightarrow> bool" where
  "in_range k fromPosition limit excluded r \<longleftrightarrow>
     l_scope r = Some k \<and> fromPosition \<le> l_pos r \<and> 0 < l_pos r \<and> excluded \<noteq> Some (l_id r) \<and> below limit (l_pos r)"

definition recordIdToExclude :: "item \<Rightarrow> key option \<Rightarrow> key option" where
  "recordIdToExclude m excludeRecordId =
     (case excludeRecordId of
        Some k \<Rightarrow> if k \<noteq> 0 then Some k else if m_persisted m then Some (m_id m) else None
      | None \<Rightarrow> if m_persisted m then Some (m_id m) else None)"

definition shiftPositionsUp ::
  "item \<Rightarrow> int \<Rightarrow> int option \<Rightarrow> key option option \<Rightarrow> key option \<Rightarrow> list_table \<Rightarrow> list_error + list_table" where
  "shiftPositionsUp m fromPosition toPosition scopeValue excludeRecordId rows =
     bindE (resolved_scope m scopeValue) (\<lambda>s. case s of
        None \<Rightarrow> Inr rows
      | Some k \<Rightarrow>
          foldE (bump 1 k)
            (rev (sort_key l_pos (filter (in_range k fromPosition toPosition (recordIdToExclude m excludeRecordId)) rows)))
            rows)"

definition shiftPositionsDown ::
  "item \<Rightarrow> int \<Rightarrow> int option \<Rightarrow> key option option \<Rightarrow> list_table \<Rightarrow> list_error + list_table" where
  "shiftPositionsDown m fromPosition toPosition scopeValue rows =
     bindE (resolved_scope m scopeValue) (\<lambda>s. case s of
        None \<Rightarrow> Inr rows
      | Some k \<Rightarrow>
          foldE (bump (- 1) k)
            (sort_key l_pos (filter (in_range k fromPosition toPosition (Some (m_id m))) rows))
            rows)"

definition highestPositionInScope :: "item \<Rightarrow> key option option \<Rightarrow> list_table \<Rightarrow> list_error + int" where
  "highestPositionInScope m scopeValue rows =
     bindE (resolved_scope m scopeValue) (\<lambda>s. case s of
        None \<Rightarrow> Inr 0
      | Some k \<Rightarrow>
          (case rev (sort_key l_pos (filter (\<lambda>r. l_scope r = Some k) rows)) of
             [] \<Rightarrow> Inr 0 | r # _ \<Rightarrow> Inr (l_pos r)))"

definition moveOutOfWay :: "item \<Rightarrow> key option option \<Rightarrow> list_table \<Rightarrow> list_error + list_table" where
  "moveOutOfWay m scopeValue rows =
     bindE (resolved_scope m scopeValue) (\<lambda>s. case s of
        None \<Rightarrow> Inr rows
      | Some k \<Rightarrow> write_rows (sql_update (\<lambda>r. l_scope r = Some k \<and> l_id r = m_id m) (\<lambda>r. r\<lparr>l_pos := - l_pos r\<rparr>) rows))"

text \<open>
  \<open>placeMovedRecord\<close> writes the row and reloads it, keeping the pending changes of the other
  columns; the dirty mark of every belongs-to relationship is cleared.
\<close>

definition placeMovedRecord :: "item \<Rightarrow> key option \<Rightarrow> int \<Rightarrow> list_table \<Rightarrow> list_error + list_table \<times> item" where
  "placeMovedRecord m scopeValue position rows =
     bindE (write_rows (sql_update (\<lambda>r. l_id r = m_id m) (\<lambda>r. r\<lparr>l_scope := scopeValue, l_pos := position\<rparr>) rows)) (\<lambda>rows'.
       Inr (rows', m\<lparr>a_scope := Some scopeValue, a_pos := Some (JInt position), c_scope := None, c_pos := None,
                     m_pos_assigned := False,
                     m_relationships := map (\<lambda>r. if rel_belongs_to r then r\<lparr>rel_dirty := False\<rparr> else r) (m_relationships m)\<rparr>))"

subsection \<open>The callbacks\<close>

definition beforeCreate :: "item \<Rightarrow> list_table \<Rightarrow> list_error + list_table \<times> item" where
  "beforeCreate m rows =
     bindE (read_pos m) (\<lambda>position.
       if position \<noteq> JNull \<and> position \<noteq> JUndef then
         bindE (assertPositivePosition False position) (\<lambda>p.
         bindE (shiftPositionsUp m p None None None rows) (\<lambda>rows'.
           Inr (rows', m)))
       else
         bindE (highestPositionInScope m None rows) (\<lambda>h.
           Inr (rows, set_pos (JInt (h + 1)) m)))"

definition beforeUpdate :: "item \<Rightarrow> list_table \<Rightarrow> list_error + list_table \<times> item" where
  "beforeUpdate m rows =
     (if \<not> m_persisted m then Inr (rows, m)
      else
        let posChanged = c_pos m \<noteq> None; scopeChanged = c_scope m \<noteq> None in
        if \<not> posChanged \<and> \<not> scopeChanged then Inr (rows, m)
        else
          bindE (assertPositivePosition True (case a_pos m of Some v \<Rightarrow> v | None \<Rightarrow> JUndef)) (\<lambda>oldPosition.
          bindE (if scopeChanged then Inr (a_scope m) else bindE (read_scope m) (\<lambda>v. Inr (Some v))) (\<lambda>oldScopeValue.
          bindE (if scopeChanged then Inr (c_scope m) else bindE (read_scope m) (\<lambda>v. Inr (Some v))) (\<lambda>newScopeValue.
          bindE (assertPositivePosition False (case c_pos m of Some v \<Rightarrow> v | None \<Rightarrow> (case a_pos m of Some v \<Rightarrow> v | None \<Rightarrow> JUndef))) (\<lambda>newPosition.
            if newPosition = oldPosition \<and> newScopeValue = oldScopeValue then Inr (rows, m)
            else if scopeChanged \<and> oldScopeValue \<noteq> newScopeValue then
              (if \<not> m_pos_assigned m then
                 bindE (moveOutOfWay m oldScopeValue rows) (\<lambda>rows1.
                 bindE (highestPositionInScope m newScopeValue rows1) (\<lambda>highestNew.
                   let m' = set_pos (JInt (highestNew + 1)) m in
                   bindE (shiftPositionsDown m' (oldPosition + 1) None oldScopeValue rows1) (\<lambda>rows2.
                     Inr (rows2, m'))))
               else
                 bindE (moveOutOfWay m oldScopeValue rows) (\<lambda>rows1.
                 bindE (shiftPositionsDown m (oldPosition + 1) None oldScopeValue rows1) (\<lambda>rows2.
                 bindE (shiftPositionsUp m newPosition None newScopeValue (Some (m_id m)) rows2) (\<lambda>rows3.
                   placeMovedRecord m (case newScopeValue of Some v \<Rightarrow> v | None \<Rightarrow> None) newPosition rows3))))
            else
              bindE (moveOutOfWay m oldScopeValue rows) (\<lambda>rows1.
                if newPosition < oldPosition then
                  bindE (shiftPositionsUp m newPosition (Some oldPosition) None None rows1) (\<lambda>rows2. Inr (rows2, m))
                else if oldPosition < newPosition then
                  bindE (shiftPositionsDown m (oldPosition + 1) (Some (newPosition + 1)) None rows1) (\<lambda>rows2. Inr (rows2, m))
                else Inr (rows1, m)))))))"

definition beforeDestroy :: "item \<Rightarrow> list_table \<Rightarrow> list_error + list_table" where
  "beforeDestroy m rows =
     bindE (read_pos m) (\<lambda>position.
       if position = JNull \<or> position = JUndef then
         (if a_pos m \<noteq> None then bindE (assertPositivePosition True position) (\<lambda>_. Inr rows) else Inr rows)
       else
         bindE (assertPositivePosition True position) (\<lambda>p.
         bindE (moveOutOfWay m None rows) (\<lambda>rows1.
           shiftPositionsDown m (p + 1) None None rows1)))"

subsection \<open>Saving and destroying\<close>

text \<open>
  The statement each life cycle ends with. \<open>_createNewRecord\<close> inserts the merged attributes,
  pending changes over loaded columns over belongs-to changes; the key \<open>new_id\<close> is the one
  the database assigns. \<open>_updateRecordWithChanges\<close> writes the changed columns by primary key.
\<close>

definition write_pos :: "jsval \<Rightarrow> list_error + int" where
  "write_pos v = (case js_integer v of Some z \<Rightarrow> Inr z | None \<Rightarrow> Inl NotNullViolation)"

definition created_scope :: "item \<Rightarrow> key option" where
  "created_scope m =
     (case c_scope m of Some v \<Rightarrow> v | None \<Rightarrow> (case a_scope m of Some v \<Rightarrow> v
      | None \<Rightarrow> (case belongs_to_scope m of Some v \<Rightarrow> v | None \<Rightarrow> None)))"

definition created_pos :: "item \<Rightarrow> jsval" where
  "created_pos m = (case c_pos m of Some v \<Rightarrow> v | None \<Rightarrow> (case a_pos m of Some v \<Rightarrow> v | None \<Rightarrow> JUndef))"

definition createNewRecord :: "key \<Rightarrow> item \<Rightarrow> list_table \<Rightarrow> list_error + list_table" where
  "createNewRecord new_id m rows =
     bindE (write_pos (created_pos m)) (\<lambda>p.
     bindE (sql_insert DuplicateId l_id \<lparr>l_id = new_id, l_scope = created_scope m, l_pos = p\<rparr> rows) write_rows)"

definition updateRecordWithChanges :: "item \<Rightarrow> list_table \<Rightarrow> list_error + list_table" where
  "updateRecordWithChanges m rows =
     bindE (case c_pos m of None \<Rightarrow> Inr None | Some v \<Rightarrow> bindE (write_pos v) (\<lambda>p. Inr (Some p))) (\<lambda>pos.
       let scope = (case c_scope m of Some v \<Rightarrow> Some v | None \<Rightarrow> belongs_to_scope m) in
       write_rows (sql_update (\<lambda>r. l_id r = m_id m)
         (\<lambda>r. r\<lparr>l_pos := (case pos of Some p \<Rightarrow> p | None \<Rightarrow> l_pos r),
               l_scope := (case scope of Some s \<Rightarrow> s | None \<Rightarrow> l_scope r)\<rparr>) rows))"

definition save_create :: "key \<Rightarrow> item \<Rightarrow> list_table \<Rightarrow> list_error + list_table" where
  "save_create new_id m rows = bindE (beforeCreate m rows) (\<lambda>(rows', m'). createNewRecord new_id m' rows')"

definition save_update :: "item \<Rightarrow> list_table \<Rightarrow> list_error + list_table" where
  "save_update m rows = bindE (beforeUpdate m rows) (\<lambda>(rows', m'). updateRecordWithChanges m' rows')"

definition destroy_item :: "item \<Rightarrow> list_table \<Rightarrow> list_error + list_table" where
  "destroy_item m rows = bindE (beforeDestroy m rows) (\<lambda>rows'. Inr (sql_delete (\<lambda>r. l_id r = m_id m) rows'))"

end
