(* ===== verification/List_Positions.thy ===== *)
theory List_Positions
  imports Acts_As_List
begin

text \<open>
  What the statements of the ordered lists do to positions. A table is read as the relation
  \<open>at_pos\<close> (which row of a scope sits where), an abstract list as the relation \<open>item_at\<close>;
  \<open>lists rows L\<close> says that every scope \<open>k\<close> holds exactly the list \<open>L k\<close> at the
  positions 1 to \<open>n\<close>. The central lemma is \<open>bump_all\<close>: moving rows one by one, the
  furthest first, never trips over the unique index, and amounts to one simultaneous shift.
\<close>

subsection \<open>Positions\<close>

definition at_pos :: "list_table \<Rightarrow> key \<Rightarrow> int \<Rightarrow> key \<Rightarrow> bool" where
  "at_pos rows k p i \<longleftrightarrow> (\<exists>r \<in> set rows. l_scope r = Some k \<and> l_pos r = p \<and> l_id r = i)"

definition item_at :: "key list \<Rightarrow> int \<Rightarrow> key \<Rightarrow> bool" where
  "item_at xs p i \<longleftrightarrow> 1 \<le> p \<and> p \<le> int (length xs) \<and> xs ! nat (p - 1) = i"

definition lists :: "list_table \<Rightarrow> (key \<Rightarrow> key list) \<Rightarrow> bool" where
  "lists rows L \<longleftrightarrow> distinct (map l_id rows) \<and> (\<forall>k p i. at_pos rows k p i \<longleftrightarrow> item_at (L k) p i)"

definition insert_at :: "int \<Rightarrow> 'a \<Rightarrow> 'a list \<Rightarrow> 'a list" where
  "insert_at p x xs = take (nat (p - 1)) xs @ x # drop (nat (p - 1)) xs"

definition remove_at :: "int \<Rightarrow> 'a list \<Rightarrow> 'a list" where
  "remove_at p xs = take (nat (p - 1)) xs @ drop (nat p) xs"

lemma item_at_fun: "item_at xs p i \<Longrightarrow> item_at xs p j \<Longrightarrow> i = j"
  by (simp add: item_at_def)

lemma item_at_pos: "item_at xs p i \<Longrightarrow> 1 \<le> p"
  by (simp add: item_at_def)

lemma item_at_insert:
  assumes "1 \<le> q" "q \<le> int (length xs) + 1"
  shows "item_at (insert_at q x xs) p i \<longleftrightarrow>
    (p < q \<and> item_at xs p i) \<or> (p = q \<and> i = x) \<or> (q < p \<and> item_at xs (p - 1) i)"
proof -
  consider "p < q" | "p = q" | "q < p" by linarith
  then show ?thesis
  proof cases
    case 1
    with assms show ?thesis by (auto simp: item_at_def insert_at_def nth_append)
  next
    case 2
    with assms show ?thesis by (auto simp: item_at_def insert_at_def nth_append)
  next
    case 3
    with assms have "nat (p - 1) - nat (q - 1) = Suc (nat (p - 1 - 1) - nat (q - 1))" "nat (q - 1) \<le> nat (p - 1 - 1)"
      by simp_all
    with 3 assms show ?thesis by (auto simp: item_at_def insert_at_def nth_append)
  qed
qed

lemma item_at_remove:
  assumes "item_at xs q x"
  shows "item_at (remove_at q xs) p i \<longleftrightarrow> (p < q \<and> item_at xs p i) \<or> (q \<le> p \<and> item_at xs (p + 1) i)"
proof -
  have q: "1 \<le> q" "q \<le> int (length xs)" using assms by (simp_all add: item_at_def)
  show ?thesis
  proof (cases "p < q")
    case True
    with q show ?thesis by (auto simp: item_at_def remove_at_def nth_append)
  next
    case False
    with q have "nat q + (nat (p - 1) - nat (q - 1)) = nat p" by simp
    with False q show ?thesis by (auto simp: item_at_def remove_at_def nth_append)
  qed
qed

lemma length_insert_at [simp]: "length (insert_at q x xs) = Suc (length xs)"
  by (simp add: insert_at_def)

subsection \<open>The unique index\<close>

lemma at_update_id:
  assumes "\<And>r. l_id (f r) = l_id r"
  shows "distinct (map l_id (sql_update p f rows)) = distinct (map l_id rows)"
  using map_key_sql_update [of l_id f p rows] assms by simp

lemma index_ok_iff:
  assumes "distinct (map l_id rows)"
  shows "index_ok rows \<longleftrightarrow> (\<forall>k p i j. at_pos rows k p i \<longrightarrow> at_pos rows k p j \<longrightarrow> i = j)"
proof -
  have "distinct (filter (\<lambda>r. l_scope r \<noteq> None) rows)" using assms by (simp add: distinct_map)
  then have "index_ok rows \<longleftrightarrow> inj_on index_key {r \<in> set rows. l_scope r \<noteq> None}"
    by (simp add: index_ok_def distinct_map)
  also have "\<dots> \<longleftrightarrow> (\<forall>k p i j. at_pos rows k p i \<longrightarrow> at_pos rows k p j \<longrightarrow> i = j)" (is "?l \<longleftrightarrow> ?r")
  proof
    assume ?l
    then show ?r by (fastforce simp: at_pos_def inj_on_def index_key_def)
  next
    assume r: ?r
    show ?l
    proof (rule inj_onI)
      fix r s
      assume rs: "r \<in> {r \<in> set rows. l_scope r \<noteq> None}" "s \<in> {r \<in> set rows. l_scope r \<noteq> None}" "index_key r = index_key s"
      then obtain k where "l_scope r = Some k" by auto
      with rs have "at_pos rows k (l_pos r) (l_id r)" "at_pos rows k (l_pos r) (l_id s)" by (auto simp: at_pos_def index_key_def)
      with r have "l_id r = l_id s" by blast
      with rs(1,2) assms show "r = s" by (auto dest: distinct_map_inj_on_eq)
    qed
  qed
  finally show ?thesis .
qed

lemma index_okD:
  "index_ok rows \<Longrightarrow> distinct (map l_id rows) \<Longrightarrow> at_pos rows k p i \<Longrightarrow> at_pos rows k p j \<Longrightarrow> i = j"
  by (simp add: index_ok_iff)

lemma lists_index: "lists rows L \<Longrightarrow> index_ok rows"
  unfolding lists_def by (auto simp: index_ok_iff dest: item_at_fun)

subsection \<open>Shifting in one pass\<close>

definition shifted :: "int \<Rightarrow> (list_row \<Rightarrow> bool) \<Rightarrow> list_table \<Rightarrow> list_table" where
  "shifted d P rows = sql_update P (\<lambda>r. r\<lparr>l_pos := l_pos r + d\<rparr>) rows"

lemma shifted_ids [simp]: "map l_id (shifted d P rows) = map l_id rows"
  by (simp add: shifted_def map_key_sql_update)

lemma at_pos_shifted:
  "at_pos (shifted d P rows) k p i \<longleftrightarrow>
     (\<exists>r \<in> set rows. l_scope r = Some k \<and> l_id r = i \<and> p = l_pos r + (if P r then d else 0))"
  unfolding at_pos_def shifted_def set_sql_update bex_simps by (rule bex_cong) auto

lemma bump_eq:
  assumes "distinct (map l_id rows)" "row \<in> set rows" "l_scope row = Some k"
  shows "bump d k row rows = write_rows (shifted d (\<lambda>r. l_id r = l_id row) rows)"
proof -
  have "r = row" if "r \<in> set rows" "l_id r = l_id row" for r
    using distinct_map_inj_on_eq [OF assms(1) that(1) assms(2) that(2)] .
  then have "sql_update (\<lambda>r. l_id r = l_id row \<and> l_scope r = Some k \<and> l_pos r = l_pos row) (\<lambda>r. r\<lparr>l_pos := l_pos r + d\<rparr>) rows
      = shifted d (\<lambda>r. l_id r = l_id row) rows"
    unfolding shifted_def sql_update_def using assms(3) by (intro map_cong) auto
  then show ?thesis by (simp add: bump_def)
qed

text \<open>Updating the rows one by one, furthest first, never meets the unique index if the end result does not.\<close>

lemma bump_all:
  assumes "distinct (map l_id rows)" "index_ok rows" "set sel \<subseteq> set rows" "\<forall>r \<in> set sel. l_scope r = Some k"
    and "sorted_wrt (\<lambda>r s. d * l_pos s < d * l_pos r) sel" "d * d = 1"
    and "index_ok (shifted d (\<lambda>r. l_id r \<in> l_id ` set sel) rows)"
  shows "foldE (bump d k) sel rows = Inr (shifted d (\<lambda>r. l_id r \<in> l_id ` set sel) rows)"
  using assms
proof (induction sel arbitrary: rows)
  case Nil
  then show ?case by (simp add: shifted_def sql_update_def)
next
  case (Cons r rest)
  let ?t1 = "shifted d (\<lambda>s. l_id s = l_id r) rows"
  note ids = Cons.prems(1)
  have same: "s = t" if "s \<in> set rows" "t \<in> set rows" "l_id s = l_id t" for s t
    using distinct_map_inj_on_eq [OF ids that] .
  have r: "r \<in> set rows" "l_scope r = Some k" using Cons.prems(3,4) by auto
  have rest: "l_id s \<noteq> l_id r" "d * l_pos s < d * l_pos r" "s \<in> set rows" if "s \<in> set rest" for s
    using Cons.prems(3,5) that same [of s r] by fastforce+
  have fin: "shifted d (\<lambda>s. l_id s \<in> l_id ` set rest) ?t1 = shifted d (\<lambda>s. l_id s \<in> l_id ` set (r # rest)) rows"
    unfolding shifted_def sql_update_def using rest(1) by (auto dest!: rest(1))
  have ids1: "distinct (map l_id ?t1)" using ids by simp
  have ok1: "index_ok ?t1"
    unfolding index_ok_iff [OF ids1]
  proof (intro allI impI)
    fix k' p i j
    assume "at_pos ?t1 k' p i" "at_pos ?t1 k' p j"
    then obtain s t where s: "s \<in> set rows" "l_scope s = Some k'" "l_id s = i" "p = l_pos s + (if l_id s = l_id r then d else 0)"
      and t: "t \<in> set rows" "l_scope t = Some k'" "l_id t = j" "p = l_pos t + (if l_id t = l_id r then d else 0)"
      unfolding at_pos_shifted by blast
    have final: "a = b" if "at_pos (shifted d (\<lambda>r'. l_id r' \<in> l_id ` set (r # rest)) rows) k' p a"
        "at_pos (shifted d (\<lambda>r'. l_id r' \<in> l_id ` set (r # rest)) rows) k' p b" for a b
      by (rule index_okD [OF Cons.prems(7) _ that]) (simp only: shifted_ids ids)
    have before: "a = b" if "at_pos rows k' p a" "at_pos rows k' p b" for a b
      by (rule index_okD [OF Cons.prems(2) ids that])
    have key: "False" if u: "u \<in> set rows" "l_scope u = Some k'" "p = l_pos u" "l_id u \<noteq> l_id r" and p: "p = l_pos r + d" "k' = k" for u
    proof (cases "u \<in> set rest")
      case True
      from rest(2) [OF this] u(3) p have "d * (l_pos r + d) < d * l_pos r" by simp
      with Cons.prems(6) show False by (simp add: distrib_left)
    next
      case False
      have "l_id u \<noteq> l_id v" if "v \<in> set rest" for v using same [OF u(1) rest(3) [OF that]] that False by blast
      with u(4) have "l_id u \<notin> l_id ` set (r # rest)" by auto
      with u have "at_pos (shifted d (\<lambda>r'. l_id r' \<in> l_id ` set (r # rest)) rows) k' p (l_id u)"
        unfolding at_pos_shifted by (intro bexI [of _ u]) auto
      moreover from r p have "at_pos (shifted d (\<lambda>r'. l_id r' \<in> l_id ` set (r # rest)) rows) k' p (l_id r)"
        unfolding at_pos_shifted by (intro bexI [of _ r]) auto
      ultimately show False using final u(4) by blast
    qed
    show "i = j"
    proof (cases "i = l_id r \<or> j = l_id r")
      case True
      have "s = r" if "l_id s = l_id r" using same [OF s(1) r(1) that] .
      moreover have "t = r" if "l_id t = l_id r" using same [OF t(1) r(1) that] .
      ultimately show ?thesis using True key [OF s(1,2)] key [OF t(1,2)] s(2-4) t(2-4) r(2) by (auto split: if_split_asm)
    next
      case False
      with s t show ?thesis by (intro before) (auto simp: at_pos_def)
    qed
  qed
  have "foldE (bump d k) rest ?t1 = Inr (shifted d (\<lambda>s. l_id s \<in> l_id ` set rest) ?t1)"
  proof (rule Cons.IH)
    show "set rest \<subseteq> set ?t1" using rest by (fastforce simp: shifted_def set_sql_update)
  qed (use Cons.prems ok1 fin ids in auto)
  then show ?case using bump_eq [OF ids r] ok1 fin by (simp add: write_rows_def)
qed

text \<open>The two shifts, as the single pass they amount to.\<close>

lemma shift_pass:
  assumes "distinct (map l_id rows)" "index_ok rows" "index_ok (shifted d (in_range k f t ex) rows)"
  shows "d = 1 \<Longrightarrow> foldE (bump d k) (rev (sort_key l_pos (filter (in_range k f t ex) rows))) rows = Inr (shifted d (in_range k f t ex) rows)"
    and "d = - 1 \<Longrightarrow> foldE (bump d k) (sort_key l_pos (filter (in_range k f t ex) rows)) rows = Inr (shifted d (in_range k f t ex) rows)"
proof -
  let ?sel = "sort_key l_pos (filter (in_range k f t ex) rows)"
  have sel: "set ?sel = {r \<in> set rows. in_range k f t ex r}" by simp
  have "inj_on l_pos {r \<in> set rows. in_range k f t ex r}"
  proof (rule inj_onI)
    fix r s
    assume rs: "r \<in> {r \<in> set rows. in_range k f t ex r}" "s \<in> {r \<in> set rows. in_range k f t ex r}" "l_pos r = l_pos s"
    then have "at_pos rows k (l_pos r) (l_id r)" "at_pos rows k (l_pos r) (l_id s)" by (auto simp: at_pos_def in_range_def)
    from index_okD [OF assms(2,1) this] rs show "r = s" by (intro distinct_map_inj_on_eq [OF assms(1)]) auto
  qed
  moreover have "distinct ?sel" using assms(1) by (simp add: distinct_map)
  ultimately have "distinct (map l_pos ?sel)" by (simp add: distinct_map)
  then have "sorted_wrt (<) (map l_pos ?sel)" by (simp add: strict_sorted_iff)
  then have up: "sorted_wrt (\<lambda>r s. l_pos r < l_pos s) ?sel" by (simp add: sorted_wrt_map)
  have same: "shifted d (\<lambda>r. l_id r \<in> l_id ` set ?sel) rows = shifted d (in_range k f t ex) rows"
  proof -
    have "l_id r \<in> l_id ` {r \<in> set rows. in_range k f t ex r} \<longleftrightarrow> in_range k f t ex r" if "r \<in> set rows" for r
      using that distinct_map_inj_on_eq [OF assms(1)] by blast
    then show ?thesis unfolding shifted_def sql_update_def sel by (intro map_cong) auto
  qed
  have ok: "index_ok (shifted d (\<lambda>r. l_id r \<in> l_id ` set ?sel) rows)" using assms(3) same by simp
  have sub: "set ?sel \<subseteq> set rows" "\<forall>r \<in> set ?sel. l_scope r = Some k" unfolding sel by (auto simp: in_range_def)
  show "foldE (bump d k) (rev ?sel) rows = Inr (shifted d (in_range k f t ex) rows)" if "d = 1"
    using bump_all [OF assms(1,2), of "rev ?sel" k d] up sub ok that same by (simp add: sorted_wrt_rev)
  show "foldE (bump d k) ?sel rows = Inr (shifted d (in_range k f t ex) rows)" if "d = - 1"
    using bump_all [OF assms(1,2), of ?sel k d] up sub ok that same by simp
qed


subsection \<open>What each statement does to the positions\<close>

definition ranged :: "int \<Rightarrow> int option \<Rightarrow> key option \<Rightarrow> int \<Rightarrow> key \<Rightarrow> bool" where
  "ranged f t ex p i \<longleftrightarrow> f \<le> p \<and> 0 < p \<and> ex \<noteq> Some i \<and> below t p"

lemma at_shifted:
  "at_pos (shifted d (in_range k f t ex) rows) k' p i \<longleftrightarrow>
     (if k' = k then (at_pos rows k p i \<and> \<not> ranged f t ex p i) \<or> (at_pos rows k (p - d) i \<and> ranged f t ex (p - d) i)
      else at_pos rows k' p i)"
proof (cases "k' = k")
  case True
  have "at_pos (shifted d (in_range k f t ex) rows) k p i \<longleftrightarrow>
      (\<exists>r \<in> set rows. l_scope r = Some k \<and> l_id r = i \<and> (l_pos r = p \<and> \<not> in_range k f t ex r \<or> l_pos r = p - d \<and> in_range k f t ex r))"
    unfolding at_pos_shifted by (rule bex_cong) auto
  also have "\<dots> \<longleftrightarrow> (at_pos rows k p i \<and> \<not> ranged f t ex p i) \<or> (at_pos rows k (p - d) i \<and> ranged f t ex (p - d) i)"
    unfolding at_pos_def in_range_def ranged_def by (auto 0 3)
  finally show ?thesis using True by simp
next
  case False
  have "at_pos (shifted d (in_range k f t ex) rows) k' p i \<longleftrightarrow> at_pos rows k' p i"
    unfolding at_pos_shifted unfolding at_pos_def by (rule bex_cong) (use False in \<open>auto simp: in_range_def\<close>)
  with False show ?thesis by simp
qed

lemma at_moved_out:
  "at_pos (sql_update (\<lambda>r. l_scope r = Some k \<and> l_id r = x) (\<lambda>r. r\<lparr>l_pos := - l_pos r\<rparr>) rows) k' p i \<longleftrightarrow>
     (if k' = k \<and> i = x then at_pos rows k (- p) i else at_pos rows k' p i)"
proof (cases "k' = k \<and> i = x")
  case True
  then show ?thesis unfolding at_pos_def set_sql_update bex_simps by simp (rule bex_cong; auto)
next
  case False
  then show ?thesis unfolding at_pos_def set_sql_update bex_simps if_not_P [OF False] by (intro bex_cong) auto
qed

lemma at_written:
  assumes "x \<in> l_id ` set rows" "\<And>r. r \<in> set rows \<Longrightarrow> l_id r = x \<Longrightarrow> l_scope (f r) = Some k2 \<and> l_pos (f r) = p2 \<and> l_id (f r) = x"
  shows "at_pos (sql_update (\<lambda>r. l_id r = x) f rows) k p i \<longleftrightarrow> (if i = x then k = k2 \<and> p = p2 else at_pos rows k p i)"
  unfolding at_pos_def set_sql_update bex_simps using assms by (cases "i = x") force+

lemma at_deleted: "at_pos (sql_delete (\<lambda>r. l_id r = x) rows) k p i \<longleftrightarrow> i \<noteq> x \<and> at_pos rows k p i"
  by (auto simp: at_pos_def sql_delete_def)

lemma at_appended: "at_pos (rows @ [r]) k p i \<longleftrightarrow> at_pos rows k p i \<or> l_scope r = Some k \<and> l_pos r = p \<and> l_id r = i"
  by (auto simp: at_pos_def)

lemma at_pos_id: "distinct (map l_id rows) \<Longrightarrow> at_pos rows k p i \<Longrightarrow> at_pos rows k' p' i \<Longrightarrow> k = k' \<and> p = p'"
  unfolding at_pos_def by (metis distinct_map_inj_on_eq option.inject)

lemma highest_of:
  assumes "\<And>p i. at_pos rows k p i \<longleftrightarrow> item_at xs p i"
  shows "(case rev (sort_key l_pos (filter (\<lambda>r. l_scope r = Some k) rows)) of [] \<Rightarrow> Inr 0 | r # _ \<Rightarrow> Inr (l_pos r))
    = (Inr (int (length xs)) :: list_error + int)"
proof -
  let ?sorted = "sort_key l_pos (filter (\<lambda>r. l_scope r = Some k) rows)"
  have mem: "at_pos rows k (l_pos r) (l_id r)" if "r \<in> set ?sorted" for r using that by (auto simp: at_pos_def)
  show ?thesis
  proof (cases "rev ?sorted")
    case Nil
    then have "set ?sorted = {}" by (simp only: rev_is_Nil_conv set_empty)
    then have "\<not> at_pos rows k (int (length xs)) (xs ! (length xs - 1))" by (auto simp: at_pos_def)
    then have "xs = []" unfolding assms by (cases xs) (auto simp: item_at_def nat_diff_distrib)
    with Nil show ?thesis by simp
  next
    case (Cons r rest)
    then have eq: "?sorted = rev rest @ [r]" by (metis rev.simps(2) rev_rev_ident)
    have r: "item_at xs (l_pos r) (l_id r)" using mem [of r] eq assms by simp
    then have "xs \<noteq> []" by (auto simp: item_at_def)
    then have "item_at xs (int (length xs)) (xs ! nat (int (length xs) - 1))" by (cases xs) (simp_all add: item_at_def)
    then have "at_pos rows k (int (length xs)) (xs ! nat (int (length xs) - 1))" by (simp add: assms)
    then obtain s where s: "s \<in> set rows" "l_scope s = Some k" "l_pos s = int (length xs)" by (auto simp: at_pos_def)
    then have "s \<in> set ?sorted" by simp
    moreover have "sorted (map l_pos ?sorted)" by simp
    ultimately have "l_pos s \<le> l_pos r" unfolding eq by (auto simp: sorted_append)
    with s r have "l_pos r = int (length xs)" by (simp add: item_at_def)
    with Cons show ?thesis by simp
  qed
qed

end
