(* ===== verification/List_Refinement.thy ===== *)
theory List_Refinement
  imports List_Positions
begin

text \<open>
  Every life cycle of an item on the positions of its scopes: what the callbacks do to the rows,
  that none of their statements meets the unique index, and what the final statement leaves.
  \<open>list_of\<close> computes the abstract list of a scope from the table, and \<open>numbered\<close> decides
  whether every scope is numbered 1 to \<open>n\<close>; \<open>lists_iff\<close> relates both to \<open>lists\<close>.
\<close>

subsection \<open>Instances\<close>

definition new_item :: "item \<Rightarrow> key \<Rightarrow> bool" where
  "new_item m k \<longleftrightarrow> \<not> m_persisted m \<and> a_pos m = None \<and> a_scope m = None \<and> c_scope m = Some (Some k)
     \<and> (belongs_to_scope m = None \<or> belongs_to_scope m = Some (Some k))"

definition loaded_item :: "item \<Rightarrow> list_table \<Rightarrow> key \<Rightarrow> int \<Rightarrow> bool" where
  "loaded_item m rows k q \<longleftrightarrow> m_persisted m \<and> at_pos rows k q (m_id m) \<and> a_pos m = Some (JInt q) \<and> a_scope m = Some (Some k)
     \<and> (belongs_to_scope m = None \<or> belongs_to_scope m = c_scope m)"

lemma new_item_scope:
  "new_item m k \<Longrightarrow> resolved_scope m None = Inr (Some k)"
  by (auto simp: new_item_def resolved_scope_def resolveScopeValue_def read_scope_def)

lemma loaded_item_scope:
  "loaded_item m rows k q \<Longrightarrow> c_scope m = None \<Longrightarrow> read_scope m = Inr (Some k) \<and> resolved_scope m None = Inr (Some k)"
  by (auto simp: loaded_item_def resolved_scope_def resolveScopeValue_def read_scope_def)

lemma resolved_Some [simp]: "resolved_scope m (Some (Some k)) = Inr (Some k)"
  by (simp add: resolved_scope_def)

lemma ranged_simps [simp]:
  "ranged f None ex p i \<longleftrightarrow> f \<le> p \<and> 0 < p \<and> ex \<noteq> Some i"
  "ranged f (Some t) ex p i \<longleftrightarrow> f \<le> p \<and> 0 < p \<and> ex \<noteq> Some i \<and> p < t"
  by (simp_all add: ranged_def below_def)

lemma write_rows_ok:
  "distinct (map l_id rows) \<Longrightarrow> (\<And>k p i j. at_pos rows k p i \<Longrightarrow> at_pos rows k p j \<Longrightarrow> i = j) \<Longrightarrow> index_ok rows \<and> write_rows rows = Inr rows"
  by (auto simp: write_rows_def index_ok_iff)

lemma index_ok_shifted:
  "distinct (map l_id rows) \<Longrightarrow> (\<And>k p i j. at_pos (shifted d P rows) k p i \<Longrightarrow> at_pos (shifted d P rows) k p j \<Longrightarrow> i = j) \<Longrightarrow>
     index_ok (shifted d P rows)"
  by (simp add: index_ok_iff)

subsection \<open>Creating\<close>

lemma createNewRecord_ok:
  assumes "distinct (map l_id rows)" "new_id \<notin> l_id ` set rows" "created_scope m = Some k" "created_pos m = JInt p"
    and "\<And>k' q i. at_pos rows k' q i \<longleftrightarrow> (if k' = k then (q < p \<and> item_at (L k) q i) \<or> (p < q \<and> item_at (L k) (q - 1) i) else item_at (L k') q i)"
    and "1 \<le> p" "p \<le> int (length (L k)) + 1"
  shows "\<exists>rows'. createNewRecord new_id m rows = Inr rows' \<and> lists rows' (L(k := insert_at p new_id (L k)))"
proof -
  let ?rows = "rows @ [\<lparr>l_id = new_id, l_scope = Some k, l_pos = p\<rparr>]"
  have ids: "distinct (map l_id ?rows)" using assms(1,2) by auto
  have at: "at_pos ?rows k' q i \<longleftrightarrow> item_at ((L(k := insert_at p new_id (L k))) k') q i" for k' q i
    using assms(5) [of k' q i] by (auto simp: at_appended item_at_insert [OF assms(6,7)])
  have l: "lists ?rows (L(k := insert_at p new_id (L k)))" unfolding lists_def using ids at by blast
  have "createNewRecord new_id m rows = write_rows ?rows"
    using assms(2-4) by (simp add: createNewRecord_def write_pos_def sql_insert_def)
  with lists_index [OF l] l show ?thesis by (simp add: write_rows_def)
qed

lemma save_create_at:
  assumes "lists rows L" "new_item m k" "new_id \<notin> l_id ` set rows"
    and "c_pos m = Some (JInt p)" "1 \<le> p" "p \<le> int (length (L k)) + 1"
  shows "\<exists>rows'. save_create new_id m rows = Inr rows' \<and> lists rows' (L(k := insert_at p new_id (L k)))"
proof -
  let ?s = "shifted 1 (in_range k p None None) rows"
  have ids: "distinct (map l_id rows)" and at: "\<And>k p i. at_pos rows k p i \<longleftrightarrow> item_at (L k) p i"
    using assms(1) by (auto simp: lists_def)
  have ats: "at_pos ?s k' q i \<longleftrightarrow> (if k' = k then (q < p \<and> item_at (L k) q i) \<or> (p < q \<and> item_at (L k) (q - 1) i) else item_at (L k') q i)" for k' q i
    unfolding at_shifted at using assms(5) item_at_pos by (auto split: if_split_asm; fastforce)
  have "index_ok ?s"
    by (rule index_ok_shifted [OF ids]) (auto simp: ats dest: item_at_fun split: if_split_asm)
  then have "shiftPositionsUp m p None None None rows = Inr ?s"
    using shift_pass(1) [OF ids lists_index [OF assms(1)]] new_item_scope [OF assms(2)] assms(2)
    by (simp add: shiftPositionsUp_def recordIdToExclude_def new_item_def)
  then have "beforeCreate m rows = Inr (?s, m)"
    using assms(4,5) by (simp add: beforeCreate_def read_pos_def assertPositivePosition_def)
  moreover have "\<exists>rows'. createNewRecord new_id m ?s = Inr rows' \<and> lists rows' (L(k := insert_at p new_id (L k)))"
  proof (rule createNewRecord_ok [OF _ _ _ _ ats assms(5,6)])
    show "new_id \<notin> l_id ` set ?s" using assms(3) by (metis list.set_map shifted_ids)
  qed (use ids assms(2,4) in \<open>auto simp: created_scope_def created_pos_def new_item_def\<close>)
  ultimately show ?thesis by (simp add: save_create_def)
qed

lemma save_create_append:
  assumes "lists rows L" "new_item m k" "new_id \<notin> l_id ` set rows" "c_pos m = None \<or> c_pos m = Some JNull"
  shows "\<exists>rows'. save_create new_id m rows = Inr rows' \<and> lists rows' (L(k := L k @ [new_id]))"
proof -
  have ids: "distinct (map l_id rows)" and at: "\<And>k p i. at_pos rows k p i \<longleftrightarrow> item_at (L k) p i"
    using assms(1) by (auto simp: lists_def)
  let ?p = "int (length (L k)) + 1"
  let ?m = "set_pos (JInt ?p) m"
  have "highestPositionInScope m None rows = Inr (int (length (L k)))"
    using highest_of [of rows k "L k"] at new_item_scope [OF assms(2)] by (simp add: highestPositionInScope_def)
  then have b: "beforeCreate m rows = Inr (rows, ?m)"
    using assms(2,4) by (auto simp: beforeCreate_def read_pos_def new_item_def)
  have "\<exists>rows'. createNewRecord new_id ?m rows = Inr rows' \<and> lists rows' (L(k := insert_at ?p new_id (L k)))"
    by (rule createNewRecord_ok [OF ids assms(3)])
      (use assms(2) in \<open>auto simp: at item_at_def created_scope_def created_pos_def new_item_def set_pos_def split: if_split_asm\<close>)
  then show ?thesis using b by (simp add: save_create_def insert_at_def)
qed


subsection \<open>Moving\<close>

definition moved_out :: "key \<Rightarrow> key \<Rightarrow> list_table \<Rightarrow> list_table" where
  "moved_out k x rows = sql_update (\<lambda>r. l_scope r = Some k \<and> l_id r = x) (\<lambda>r. r\<lparr>l_pos := - l_pos r\<rparr>) rows"

lemma moved_out_ids [simp]: "map l_id (moved_out k x rows) = map l_id rows"
  by (simp add: moved_out_def map_key_sql_update)

lemma at_out:
  assumes "lists rows L" "at_pos rows k q x"
  shows "at_pos (moved_out k x rows) k' p i \<longleftrightarrow> (if i = x then k' = k \<and> p = - q else item_at (L k') p i)"
proof -
  have ids: "distinct (map l_id rows)" and at: "\<And>k p i. at_pos rows k p i \<longleftrightarrow> item_at (L k) p i"
    using assms(1) by (auto simp: lists_def)
  show ?thesis
  proof (cases "i = x")
    case True
    have "at_pos rows k (- p) x \<longleftrightarrow> p = - q" using at_pos_id [OF ids assms(2), of k "- p"] assms(2) by (auto simp: minus_equation_iff)
    moreover have "k' = k" if "at_pos rows k' p x" using at_pos_id [OF ids assms(2) that] by simp
    ultimately show ?thesis using True unfolding moved_out_def at_moved_out by auto
  next
    case False
    then show ?thesis unfolding moved_out_def at_moved_out by (simp add: at)
  qed
qed

lemma out_index:
  assumes "lists rows L" "at_pos rows k q x"
  shows "index_ok (moved_out k x rows)"
proof -
  have ids: "distinct (map l_id (moved_out k x rows))" using assms(1) by (simp add: lists_def)
  have q: "1 \<le> q" using assms by (auto simp: lists_def dest: item_at_pos)
  have neg: "\<not> item_at xs (- q) i" for xs i using q by (auto dest: item_at_pos)
  show ?thesis
    unfolding index_ok_iff [OF ids] at_out [OF assms] using neg by (auto dest: item_at_fun split: if_split_asm)
qed

lemma moveOutOfWay_ok:
  assumes "lists rows L" "at_pos rows k q (m_id m)" "resolved_scope m sv = Inr (Some k)"
  shows "moveOutOfWay m sv rows = Inr (moved_out k (m_id m) rows)"
  using out_index [OF assms(1,2)] assms(3) by (simp add: moveOutOfWay_def write_rows_def moved_out_def)

lemma updateRecord_ok:
  assumes "distinct (map l_id rows)" "m_id m \<in> l_id ` set rows"
    and "c_pos m = Some (JInt pb) \<or> c_pos m = None \<and> (\<forall>r \<in> set rows. l_id r = m_id m \<longrightarrow> l_pos r = pb)"
    and "c_scope m = Some (Some kb) \<or>
      c_scope m = None \<and> belongs_to_scope m = None \<and> (\<forall>r \<in> set rows. l_id r = m_id m \<longrightarrow> l_scope r = Some kb)"
    and "\<And>k p i. (if i = m_id m then k = kb \<and> p = pb else at_pos rows k p i) \<longleftrightarrow> item_at (L k) p i"
  shows "\<exists>rows'. updateRecordWithChanges m rows = Inr rows' \<and> lists rows' L"
proof -
  let ?f = "\<lambda>r. r\<lparr>l_pos := (case c_pos m of Some v \<Rightarrow> pb | None \<Rightarrow> l_pos r),
      l_scope := (case c_scope m of Some v \<Rightarrow> v | None \<Rightarrow> (case belongs_to_scope m of Some s \<Rightarrow> s | None \<Rightarrow> l_scope r))\<rparr>"
  let ?rows = "sql_update (\<lambda>r. l_id r = m_id m) ?f rows"
  have eq: "updateRecordWithChanges m rows = write_rows ?rows"
    using assms(3) by (auto simp: updateRecordWithChanges_def write_pos_def Let_def split: option.split)
  have "at_pos ?rows k p i \<longleftrightarrow> (if i = m_id m then k = kb \<and> p = pb else at_pos rows k p i)" for k p i
    by (rule at_written [OF assms(2)]) (use assms(3,4) in \<open>auto split: option.split\<close>)
  then have "lists ?rows L"
    using assms(1,5) by (simp add: lists_def map_key_sql_update)
  with eq lists_index show ?thesis by (auto simp: write_rows_def)
qed

lemma loaded_item_in: "loaded_item m rows k q \<Longrightarrow> m_id m \<in> l_id ` set rows"
  unfolding loaded_item_def at_pos_def by force

lemma ids_in: "map l_id rows' = map l_id rows \<Longrightarrow> x \<in> l_id ` set rows \<Longrightarrow> x \<in> l_id ` set rows'"
  by (metis list.set_map)

lemma index_ok_away:
  assumes "distinct (map l_id rows)" "\<And>k r i. i \<noteq> x \<Longrightarrow> at_pos rows k r i \<longleftrightarrow> item_at (L k) r i"
    and "\<And>k r. at_pos rows k r x \<Longrightarrow> r < 1"
  shows "index_ok rows"
  unfolding index_ok_iff [OF assms(1)]
proof (intro allI impI)
  fix k p i j
  assume ij: "at_pos rows k p i" "at_pos rows k p j"
  show "i = j"
  proof (cases "i = x \<or> j = x")
    case True
    then show ?thesis using ij assms(2) [of _ k p] assms(3) [of k p] item_at_pos by fastforce
  next
    case False
    with ij assms(2) show ?thesis by (auto intro: item_at_fun)
  qed
qed

lemma scope_shifted:
  "\<forall>r \<in> set rows. l_id r = x \<longrightarrow> l_scope r = s \<Longrightarrow> \<forall>r \<in> set (shifted d P rows). l_id r = x \<longrightarrow> l_scope r = s"
  by (auto simp: shifted_def set_sql_update)

lemma scope_out:
  "\<forall>r \<in> set rows. l_id r = x \<longrightarrow> l_scope r = s \<Longrightarrow> \<forall>r \<in> set (moved_out k y rows). l_id r = x \<longrightarrow> l_scope r = s"
  by (auto simp: moved_out_def set_sql_update)

lemma move_down_positions:
  fixes A :: "int \<Rightarrow> bool"
  assumes "p < q" "\<not> A q" "\<not> A 0" "1 \<le> p"
  shows "(A r \<and> \<not> (p \<le> r \<and> 0 < r \<and> r < q)) \<or> (A (r - 1) \<and> p \<le> r - 1 \<and> 0 < r - 1 \<and> r - 1 < q) \<longleftrightarrow>
    (r < p \<and> (r < q \<and> A r \<or> q \<le> r \<and> A (r + 1))) \<or> (p < r \<and> (r - 1 < q \<and> A (r - 1) \<or> q \<le> r - 1 \<and> A r))"
proof -
  consider "r < p" | "r = p" | "p < r" "r < q" | "r = q" | "q < r" by linarith
  then show ?thesis by cases (use assms in auto)
qed

lemma move_up_positions:
  fixes A :: "int \<Rightarrow> bool"
  assumes "q < p" "\<not> A q" "\<not> A 0" "1 \<le> q"
  shows "(A r \<and> \<not> (q + 1 \<le> r \<and> 0 < r \<and> r < p + 1)) \<or> (A (r + 1) \<and> q + 1 \<le> r + 1 \<and> 0 < r + 1 \<and> r + 1 < p + 1) \<longleftrightarrow>
    (r < p \<and> (r < q \<and> A r \<or> q \<le> r \<and> A (r + 1))) \<or> (p < r \<and> (r - 1 < q \<and> A (r - 1) \<or> q \<le> r - 1 \<and> A r))"
proof -
  consider "r < q" | "r = q" | "q < r" "r < p" | "r = p" | "p < r" by linarith
  then show ?thesis by cases (use assms in auto)
qed

lemma item_at_0 [simp]: "\<not> item_at xs 0 i"
  by (simp add: item_at_def)

lemma shift_up_ok:
  assumes "distinct (map l_id rows)" "index_ok rows" "resolved_scope m sv = Inr (Some k)" "recordIdToExclude m ex = e"
    and "\<And>k' r i. i \<noteq> x \<Longrightarrow> at_pos (shifted 1 (in_range k p t e) rows) k' r i \<longleftrightarrow> item_at (L k') r i"
    and "\<And>k' r. at_pos (shifted 1 (in_range k p t e) rows) k' r x \<Longrightarrow> r < 1"
  shows "shiftPositionsUp m p t sv ex rows = Inr (shifted 1 (in_range k p t e) rows)"
proof -
  have "index_ok (shifted 1 (in_range k p t e) rows)"
    by (rule index_ok_away [where x = x and L = L]) (use assms in auto)
  from shift_pass(1) [OF assms(1,2) this] assms(3,4) show ?thesis by (simp add: shiftPositionsUp_def)
qed

lemma shift_down_ok:
  assumes "distinct (map l_id rows)" "index_ok rows" "resolved_scope m sv = Inr (Some k)"
    and "\<And>k' r i. i \<noteq> m_id m \<Longrightarrow> at_pos (shifted (- 1) (in_range k p t (Some (m_id m))) rows) k' r i \<longleftrightarrow> item_at (L k') r i"
    and "\<And>k' r. at_pos (shifted (- 1) (in_range k p t (Some (m_id m))) rows) k' r (m_id m) \<Longrightarrow> r < 1"
  shows "shiftPositionsDown m p t sv rows = Inr (shifted (- 1) (in_range k p t (Some (m_id m))) rows)"
proof -
  have "index_ok (shifted (- 1) (in_range k p t (Some (m_id m))) rows)"
    by (rule index_ok_away [where x = "m_id m" and L = L]) (use assms in auto)
  from shift_pass(2) [OF assms(1,2) this] assms(3) show ?thesis by (simp add: shiftPositionsDown_def)
qed

lemma loaded_facts:
  assumes "lists rows L" "loaded_item m rows k q"
  shows "m_persisted m" "at_pos rows k q (m_id m)" "a_pos m = Some (JInt q)" "a_scope m = Some (Some k)"
    "item_at (L k) q (m_id m)" "1 \<le> q" "q \<le> int (length (L k))"
    "distinct (map l_id (moved_out k (m_id m) rows))" "index_ok (moved_out k (m_id m) rows)"
    "\<forall>r \<in> set rows. l_id r = m_id m \<longrightarrow> l_scope r = Some k"
proof -
  show m: "m_persisted m" "at_pos rows k q (m_id m)" "a_pos m = Some (JInt q)" "a_scope m = Some (Some k)"
    using assms(2) by (auto simp: loaded_item_def)
  then show q: "item_at (L k) q (m_id m)" using assms(1) by (simp add: lists_def)
  then show "1 \<le> q" "q \<le> int (length (L k))" by (simp_all add: item_at_def)
  have ids: "distinct (map l_id rows)" using assms(1) by (simp add: lists_def)
  then show "distinct (map l_id (moved_out k (m_id m) rows))" by simp
  show "index_ok (moved_out k (m_id m) rows)" by (rule out_index [OF assms(1) m(2)])
  show "\<forall>r \<in> set rows. l_id r = m_id m \<longrightarrow> l_scope r = Some k"
    using m(2) distinct_map_inj_on_eq [OF ids] unfolding at_pos_def by metis
qed

text \<open>The list after a move inside one scope, position by position.\<close>

lemma item_at_moved:
  assumes "item_at xs q x" "1 \<le> p" "p \<le> int (length xs)"
  shows "item_at (insert_at p x (remove_at q xs)) r i \<longleftrightarrow>
    (r < p \<and> (r < q \<and> item_at xs r i \<or> q \<le> r \<and> item_at xs (r + 1) i)) \<or> (r = p \<and> i = x)
    \<or> (p < r \<and> (r - 1 < q \<and> item_at xs (r - 1) i \<or> q \<le> r - 1 \<and> item_at xs r i))"
proof -
  have "1 \<le> q" "q \<le> int (length xs)" using assms(1) by (simp_all add: item_at_def)
  then have "length (remove_at q xs) = length xs - 1" by (simp add: remove_at_def)
  then show ?thesis
    using item_at_insert [of p "remove_at q xs" x r i] assms(2,3) by (auto simp: item_at_remove [OF assms(1)])
qed

lemma before_move_same_scope:
  assumes "lists rows L" "loaded_item m rows k q" "c_scope m = None"
    and "c_pos m = Some (JInt p)" "1 \<le> p" "p \<le> int (length (L k))"
  defines "L' \<equiv> L(k := insert_at p (m_id m) (remove_at q (L k)))"
  shows "\<exists>rows1. beforeUpdate m rows = Inr (rows1, m) \<and> map l_id rows1 = map l_id rows
      \<and> (\<forall>r \<in> set rows1. l_id r = m_id m \<longrightarrow> l_scope r = Some k)
      \<and> (\<forall>k' r i. i \<noteq> m_id m \<longrightarrow> at_pos rows1 k' r i \<longleftrightarrow> item_at (L' k') r i)"
proof -
  note f = loaded_facts [OF assms(1,2)] and sc = loaded_item_scope [OF assms(2,3)] and at_o = at_out [OF assms(1) loaded_facts(2) [OF assms(1,2)]]
  let ?x = "m_id m" and ?o = "moved_out k (m_id m) rows"
  have spec: "item_at (L' k') r i \<longleftrightarrow> (if k' = k then
        (r < p \<and> (r < q \<and> item_at (L k) r i \<or> q \<le> r \<and> item_at (L k) (r + 1) i)) \<or> (r = p \<and> i = ?x)
        \<or> (p < r \<and> (r - 1 < q \<and> item_at (L k) (r - 1) i \<or> q \<le> r - 1 \<and> item_at (L k) r i)) else item_at (L k') r i)" for k' r i
    using item_at_moved [OF f(5) assms(5,6)] by (simp add: L'_def)
  have other: "i = ?x" if "item_at (L k) q i" for i using item_at_fun [OF f(5) that] by simp
  have out: "moveOutOfWay m (Some (Some k)) rows = Inr ?o" by (rule moveOutOfWay_ok [OF assms(1) f(2)]) simp
  note upd = beforeUpdate_def assertPositivePosition_def Let_def
  show ?thesis
  proof (cases p q rule: linorder_cases)
    case less
    let ?s = "shifted 1 (in_range k p (Some q) (Some ?x)) ?o"
    have at_s: "at_pos ?s k' r i \<longleftrightarrow> item_at (L' k') r i" if "i \<noteq> ?x" for k' r i
      using move_down_positions [of p q "\<lambda>r. item_at (L k) r i" r] other [of i] that less assms(5)
      unfolding at_shifted at_o spec by auto
    have "r < 1" if "at_pos ?s k' r ?x" for k' r using that f(6) unfolding at_shifted at_o by (auto split: if_split_asm)
    from shift_up_ok [OF f(8,9) conjunct2 [OF sc] _ at_s this]
    have "shiftPositionsUp m p (Some q) None None ?o = Inr ?s" using f(1) by (simp add: recordIdToExclude_def)
    then have "beforeUpdate m rows = Inr (?s, m)" using less f assms(3-5) sc out by (simp add: upd)
    moreover have "\<forall>r \<in> set ?s. l_id r = ?x \<longrightarrow> l_scope r = Some k" by (intro scope_shifted scope_out f(10))
    ultimately show ?thesis using at_s by auto
  next
    case equal
    then have "beforeUpdate m rows = Inr (rows, m)" using f assms(3-5) sc by (simp add: upd)
    moreover have "at_pos rows k' r i \<longleftrightarrow> item_at (L' k') r i" if "i \<noteq> ?x" for k' r i
      using assms(1) equal other [of i] that unfolding lists_def spec by (cases "r = q") auto
    ultimately show ?thesis using f(10) by blast
  next
    case greater
    let ?s = "shifted (- 1) (in_range k (q + 1) (Some (p + 1)) (Some ?x)) ?o"
    have at_s: "at_pos ?s k' r i \<longleftrightarrow> item_at (L' k') r i" if "i \<noteq> ?x" for k' r i
      using move_up_positions [of q p "\<lambda>r. item_at (L k) r i" r] other [of i] that greater f(6)
      unfolding at_shifted at_o spec by auto
    have "r < 1" if "at_pos ?s k' r ?x" for k' r using that f(6) unfolding at_shifted at_o by (auto split: if_split_asm)
    from shift_down_ok [OF f(8,9) conjunct2 [OF sc] at_s this]
    have "shiftPositionsDown m (q + 1) (Some (p + 1)) None ?o = Inr ?s" by simp
    then have "beforeUpdate m rows = Inr (?s, m)" using greater f assms(3-5) sc out by (simp add: upd)
    moreover have "\<forall>r \<in> set ?s. l_id r = ?x \<longrightarrow> l_scope r = Some k" by (intro scope_shifted scope_out f(10))
    ultimately show ?thesis using at_s by auto
  qed
qed

text \<open>An item sits at one place only, so what a list says of the moved item fixes the rest.\<close>

lemma save_update_same_scope:
  assumes "lists rows L" "loaded_item m rows k q" "c_scope m = None"
    and "c_pos m = Some (JInt p)" "1 \<le> p" "p \<le> int (length (L k))"
  shows "\<exists>rows'. save_update m rows = Inr rows' \<and> lists rows' (L(k := insert_at p (m_id m) (remove_at q (L k))))"
proof -
  let ?x = "m_id m" and ?L = "L(k := insert_at p (m_id m) (remove_at q (L k)))"
  note f = loaded_facts [OF assms(1,2)]
  have ids: "distinct (map l_id rows)" using assms(1) by (simp add: lists_def)
  have only: "k' = k \<and> r = q" if "item_at (L k') r ?x" for k' r
    using at_pos_id [OF ids f(2)] that assms(1) by (simp add: lists_def)
  obtain rows1 where r1: "beforeUpdate m rows = Inr (rows1, m)" "map l_id rows1 = map l_id rows"
      "\<forall>r \<in> set rows1. l_id r = ?x \<longrightarrow> l_scope r = Some k"
      "\<And>k' r i. i \<noteq> ?x \<Longrightarrow> at_pos rows1 k' r i \<longleftrightarrow> item_at (?L k') r i"
    using before_move_same_scope [OF assms] by blast
  have "belongs_to_scope m = None" using assms(2,3) by (auto simp: loaded_item_def)
  moreover have "(if i = ?x then k' = k \<and> r = p else at_pos rows1 k' r i) \<longleftrightarrow> item_at (?L k') r i" for k' r i
    using r1(4) item_at_moved [OF f(5) assms(5,6), of r ?x] only [of k' r] only [of k "r + 1"] only [of k "r - 1"] only [of k r]
    by (cases "i = ?x") auto
  moreover have "distinct (map l_id rows1)" "?x \<in> l_id ` set rows1"
    using ids r1(2) ids_in [OF r1(2) loaded_item_in [OF assms(2)]] by simp_all
  ultimately have "\<exists>rows'. updateRecordWithChanges m rows1 = Inr rows' \<and> lists rows' ?L"
    using r1(3) assms(3,4) by (intro updateRecord_ok [where kb = k and pb = p]) blast+
  with r1(1) show ?thesis by (simp add: save_update_def)
qed


subsection \<open>Moving to another scope and destroying\<close>

text \<open>Closing the gap the moved row leaves in its old scope.\<close>

lemma close_gap:
  assumes "lists rows L" "loaded_item m rows k q" "resolved_scope m' sv = Inr (Some k)" "m_id m' = m_id m"
  defines "s \<equiv> shifted (- 1) (in_range k (q + 1) None (Some (m_id m))) (moved_out k (m_id m) rows)"
  shows "shiftPositionsDown m' (q + 1) None sv (moved_out k (m_id m) rows) = Inr s"
    "map l_id s = map l_id rows" "index_ok s"
    "i \<noteq> m_id m \<Longrightarrow> at_pos s k' r i \<longleftrightarrow> item_at ((L(k := remove_at q (L k))) k') r i"
    "at_pos s k' r (m_id m) \<longleftrightarrow> k' = k \<and> r = - q"
proof -
  note f = loaded_facts [OF assms(1,2)] and at_o = at_out [OF assms(1) loaded_facts(2) [OF assms(1,2)]]
  have other: "i = m_id m" if "item_at (L k) q i" for i using item_at_fun [OF f(5) that] by simp
  have at_s: "at_pos s k' r i \<longleftrightarrow> item_at ((L(k := remove_at q (L k))) k') r i" if "i \<noteq> m_id m" for k' r i
    using other [of i] that f(6) item_at_pos [of "L k" r i] item_at_pos [of "L k" "r + 1" i] unfolding s_def at_shifted at_o
    by (cases "r = q"; cases "r < q") (auto simp: item_at_remove [OF f(5)])
  have x: "at_pos s k' r (m_id m) \<longleftrightarrow> k' = k \<and> r = - q" for k' r
    unfolding s_def at_shifted at_o by auto
  from x have neg: "r < 1" if "at_pos s k' r (m_id m)" for k' r using that f(6) by simp
  show "shiftPositionsDown m' (q + 1) None sv (moved_out k (m_id m) rows) = Inr s"
    using shift_down_ok [of "moved_out k (m_id m) rows" m' sv k "q + 1" None "L(k := remove_at q (L k))"] f(8,9) assms(3,4) at_s neg
    by (simp add: s_def)
  show "map l_id s = map l_id rows" by (simp add: s_def)
  show "index_ok s" by (rule index_ok_away [where x = "m_id m" and L = "L(k := remove_at q (L k))"]) (use f(8) at_s neg in \<open>auto simp: s_def\<close>)
  show "i \<noteq> m_id m \<Longrightarrow> at_pos s k' r i \<longleftrightarrow> item_at ((L(k := remove_at q (L k))) k') r i" by (rule at_s)
  show "at_pos s k' r (m_id m) \<longleftrightarrow> k' = k \<and> r = - q" by (rule x)
qed

lemma destroy_removes:
  assumes "lists rows L" "loaded_item m rows k q" "c_scope m = None" "c_pos m = None"
  shows "\<exists>rows'. destroy_item m rows = Inr rows' \<and> lists rows' (L(k := remove_at q (L k)))"
proof -
  note f = loaded_facts [OF assms(1,2)] and sc = loaded_item_scope [OF assms(2,3)]
  let ?s = "shifted (- 1) (in_range k (q + 1) None (Some (m_id m))) (moved_out k (m_id m) rows)"
  note g = close_gap [OF assms(1,2) conjunct2 [OF sc] refl]
  have "moveOutOfWay m None rows = Inr (moved_out k (m_id m) rows)" using moveOutOfWay_ok [OF assms(1) f(2)] sc by simp
  then have "beforeDestroy m rows = Inr ?s"
    using f assms(4) g(1) by (simp add: beforeDestroy_def read_pos_def assertPositivePosition_def)
  moreover have "\<not> item_at ((L(k := remove_at q (L k))) k') r (m_id m)" for k' r
  proof
    assume "item_at ((L(k := remove_at q (L k))) k') r (m_id m)"
    then obtain r' where "item_at (L k') r' (m_id m)" "k' = k \<longrightarrow> r' \<noteq> q"
      by (auto simp: item_at_remove [OF f(5)] split: if_split_asm)
    then show False using at_pos_id [OF _ f(2)] assms(1) by (auto simp: lists_def)
  qed
  then have "at_pos (sql_delete (\<lambda>r. l_id r = m_id m) ?s) k' r i \<longleftrightarrow> item_at ((L(k := remove_at q (L k))) k') r i" for k' r i
    using g(4) [of i] by (cases "i = m_id m") (auto simp: at_deleted)
  moreover have "distinct (map l_id (sql_delete (\<lambda>r. l_id r = m_id m) ?s))"
    using f(8) by (simp add: sql_delete_def distinct_map_filter)
  ultimately show ?thesis by (auto simp: destroy_item_def lists_def)
qed

text \<open>The scope changes and the position was assigned.\<close>

lemma cleared_relationships:
  "belongs_to_scope (m\<lparr>m_relationships := map (\<lambda>r. if rel_belongs_to r then r\<lparr>rel_dirty := False\<rparr> else r) rs\<rparr>) = None"
  unfolding belongs_to_scope_def by (induction rs) (auto simp: fold_map o_def)

lemma item_only_there:
  assumes "lists rows L" "loaded_item m rows k q"
  shows "item_at (L k') r (m_id m) \<longleftrightarrow> k' = k \<and> r = q"
proof -
  have ids: "distinct (map l_id rows)" and at: "at_pos rows k' r (m_id m) \<longleftrightarrow> item_at (L k') r (m_id m)"
    using assms(1) by (simp_all add: lists_def)
  show ?thesis
    unfolding at [symmetric] using at_pos_id [OF ids loaded_facts(2) [OF assms], of k' r] loaded_facts(2) [OF assms] by blast
qed

lemma moved_item_only_there:
  assumes "lists rows L" "loaded_item m rows k q" "kb \<noteq> k" "1 \<le> p" "p \<le> int (length (L kb)) + 1"
  defines "L' \<equiv> (L(k := remove_at q (L k)))(kb := insert_at p (m_id m) (L kb))"
  shows "item_at (L' k') r (m_id m) \<longleftrightarrow> k' = kb \<and> r = p"
proof -
  note only = item_only_there [OF assms(1,2)]
  consider "k' = kb" | "k' = k" | "k' \<noteq> kb" "k' \<noteq> k" by blast
  then show ?thesis
  proof cases
    case 1
    then show ?thesis using only [of kb] assms(3) by (simp add: L'_def item_at_insert [OF assms(4,5)])
  next
    case 2
    then show ?thesis using only [of k] assms(3) by (simp add: L'_def item_at_remove [OF loaded_facts(5) [OF assms(1,2)]])
  next
    case 3
    then show ?thesis using only [of k'] by (simp add: L'_def)
  qed
qed

lemma save_update_move:
  assumes "lists rows L" "loaded_item m rows k q" "c_scope m = Some (Some kb)" "kb \<noteq> k" "m_pos_assigned m"
    and "c_pos m = Some (JInt p) \<or> c_pos m = None \<and> p = q" "1 \<le> p" "p \<le> int (length (L kb)) + 1"
  shows "\<exists>rows'. save_update m rows = Inr rows' \<and>
    lists rows' ((L(k := remove_at q (L k)))(kb := insert_at p (m_id m) (L kb)))"
proof -
  let ?x = "m_id m" and ?L = "(L(k := remove_at q (L k)))(kb := insert_at p (m_id m) (L kb))"
  let ?s = "shifted (- 1) (in_range k (q + 1) None (Some ?x)) (moved_out k ?x rows)"
  let ?t = "shifted 1 (in_range kb p None (Some ?x)) ?s"
  note f = loaded_facts [OF assms(1,2)]
  note g = close_gap [OF assms(1,2) resolved_Some refl]
  note only = moved_item_only_there [OF assms(1,2,4,7,8)]
  have ids: "distinct (map l_id ?s)" using f(8) by simp
  have at_t: "at_pos ?t k' r i \<longleftrightarrow> item_at (?L k') r i" if "i \<noteq> ?x" for k' r i
    using that assms(4,7) item_at_insert [OF assms(7,8), of ?x r i] item_at_pos [of "L kb" r i] item_at_pos [of "L kb" "r - 1" i]
    unfolding at_shifted [where rows = ?s] g(4) [OF that] by auto
  have x_t: "at_pos ?t k' r ?x \<longleftrightarrow> k' = k \<and> r = - q" for k' r
    unfolding at_shifted [where rows = ?s] g(5) using assms(4) by auto
  have up: "shiftPositionsUp m p None (Some (Some kb)) (Some ?x) ?s = Inr ?t"
    by (rule shift_up_ok [OF ids g(3) resolved_Some _ at_t]) (use x_t f(1,6) in \<open>auto simp: recordIdToExclude_def\<close>)
  define rows3 where "rows3 = sql_update (\<lambda>r. l_id r = ?x) (\<lambda>r. r\<lparr>l_scope := Some kb, l_pos := p\<rparr>) ?t"
  have in_t: "?x \<in> l_id ` set ?t" using loaded_item_in [OF assms(2)] by (rule ids_in [rotated]) simp
  have at_3: "at_pos rows3 k' r i \<longleftrightarrow> (if i = ?x then k' = kb \<and> r = p else at_pos ?t k' r i)" for k' r i
    unfolding rows3_def by (rule at_written [OF in_t]) simp
  have ids3: "map l_id rows3 = map l_id rows" by (simp add: rows3_def map_key_sql_update)
  have eq: "(if i = ?x then k' = kb \<and> r = p else at_pos ?t k' r i) \<longleftrightarrow> item_at (?L k') r i" for k' r i
    by (cases "i = ?x") (simp_all only: at_t only if_True if_False not_False_eq_True refl)
  have l3: "lists rows3 ?L" unfolding lists_def at_3 eq using f(8) ids3 by simp
  let ?m = "m\<lparr>a_scope := Some (Some kb), a_pos := Some (JInt p), c_scope := None, c_pos := None, m_pos_assigned := False,
      m_relationships := map (\<lambda>r. if rel_belongs_to r then r\<lparr>rel_dirty := False\<rparr> else r) (m_relationships m)\<rparr>"
  have mx: "m_id ?m = ?x" by simp
  have placed: "placeMovedRecord m (Some kb) p ?t = Inr (rows3, ?m)"
    using lists_index [OF l3] by (simp add: placeMovedRecord_def write_rows_def rows3_def)
  have "moveOutOfWay m (Some (Some k)) rows = Inr (moved_out k ?x rows)" by (rule moveOutOfWay_ok [OF assms(1) f(2)]) simp
  then have "beforeUpdate m rows = Inr (rows3, ?m)"
    using f(1,3,4,6) assms(3-7) g(1) up placed by (auto simp: beforeUpdate_def assertPositivePosition_def Let_def)
  moreover have "\<exists>rows'. updateRecordWithChanges ?m rows3 = Inr rows' \<and> lists rows' ?L"
  proof (rule updateRecord_ok [where kb = kb and pb = p])
    show "distinct (map l_id rows3)" using l3 by (simp add: lists_def)
    show "m_id ?m \<in> l_id ` set rows3" using ids_in [OF ids3 loaded_item_in [OF assms(2)]] by simp
    show "(if i = m_id ?m then k' = kb \<and> r = p else at_pos rows3 k' r i) \<longleftrightarrow> item_at (?L k') r i" for k' r i
      unfolding mx using eq [of i k' r] at_3 [of k' r i] by (cases "i = ?x") (simp_all only: if_True if_False refl)
  qed (auto simp: rows3_def set_sql_update cleared_relationships)
  ultimately show ?thesis by (simp add: save_update_def)
qed

text \<open>The scope changes and the position was not assigned: the item goes to the end of the new scope.\<close>

lemma before_append:
  assumes "lists rows L" "loaded_item m rows k q" "c_scope m = Some (Some kb)" "kb \<noteq> k" "\<not> m_pos_assigned m"
    and "c_pos m = None \<or> c_pos m = Some (JInt p) \<and> 1 \<le> p"
  shows "beforeUpdate m rows =
    Inr (shifted (- 1) (in_range k (q + 1) None (Some (m_id m))) (moved_out k (m_id m) rows), set_pos (JInt (int (length (L kb)) + 1)) m)"
proof -
  let ?o = "moved_out k (m_id m) rows"
  note f = loaded_facts [OF assms(1,2)]
  have "at_pos ?o kb r i \<longleftrightarrow> item_at (L kb) r i" for r i
    using at_out [OF assms(1) f(2)] assms(4) item_only_there [OF assms(1,2), of kb r] by auto
  from highest_of [OF this]
  have "highestPositionInScope m (Some (Some kb)) ?o = Inr (int (length (L kb)))" by (simp add: highestPositionInScope_def)
  moreover have "moveOutOfWay m (Some (Some k)) rows = Inr ?o" by (rule moveOutOfWay_ok [OF assms(1) f(2)]) simp
  moreover have "m_id (set_pos v m) = m_id m" for v by (simp add: set_pos_def)
  note close_gap(1) [OF assms(1,2) resolved_Some this]
  ultimately show ?thesis
    using f(1,3,4,6) assms(3-6) by (auto simp: beforeUpdate_def assertPositivePosition_def Let_def)
qed

lemma save_update_append:
  assumes "lists rows L" "loaded_item m rows k q" "c_scope m = Some (Some kb)" "kb \<noteq> k" "\<not> m_pos_assigned m" "c_pos m = None"
    and "int (length (L kb)) + 1 \<noteq> q"
  shows "\<exists>rows'. save_update m rows = Inr rows' \<and>
    lists rows' ((L(k := remove_at q (L k)))(kb := L kb @ [m_id m]))"
proof -
  let ?x = "m_id m" and ?p = "int (length (L kb)) + 1"
  let ?L = "(L(k := remove_at q (L k)))(kb := insert_at ?p ?x (L kb))"
  let ?s = "shifted (- 1) (in_range k (q + 1) None (Some ?x)) (moved_out k ?x rows)" and ?m = "set_pos (JInt ?p) m"
  note f = loaded_facts [OF assms(1,2)]
  note g = close_gap [OF assms(1,2) resolved_Some refl]
  define m' where "m' = m\<lparr>c_pos := Some (JInt ?p)\<rparr>"
  have m: "?m = m'" unfolding set_pos_def f(3) m'_def using assms(7) by simp
  have m': "m_id m' = ?x" "c_pos m' = Some (JInt ?p)" "c_scope m' = Some (Some kb)" using assms(3) by (simp_all add: m'_def)
  have only: "item_at (?L k') r ?x \<longleftrightarrow> k' = kb \<and> r = ?p" for k' r
    by (rule moved_item_only_there [OF assms(1,2,4)]) simp_all
  have at_s: "at_pos ?s k' r i \<longleftrightarrow> item_at (?L k') r i" if "i \<noteq> ?x" for k' r i
    using that g(4) [OF that, of k' r] assms(4) item_at_insert [of ?p "L kb" ?x r i] by (auto simp: item_at_def)
  have "\<exists>rows'. updateRecordWithChanges m' ?s = Inr rows' \<and> lists rows' ?L"
  proof (rule updateRecord_ok [where kb = kb and pb = ?p])
    show "distinct (map l_id ?s)" using f(8) by simp
    show "m_id m' \<in> l_id ` set ?s" using m'(1) ids_in [OF g(2) loaded_item_in [OF assms(2)]] by simp
    show "(if i = m_id m' then k' = kb \<and> r = ?p else at_pos ?s k' r i) \<longleftrightarrow> item_at (?L k') r i" for k' r i
      unfolding m'(1) using only [of k' r] at_s [of i k' r] by (cases "i = ?x") simp_all
  qed (simp_all only: m' simp_thms)
  moreover have "beforeUpdate m rows = Inr (?s, m')" using before_append [OF assms(1-5)] assms(6) m by blast
  ultimately show ?thesis by (simp add: save_update_def insert_at_def)
qed


text \<open>
  The unassigned move when the end of the new scope is the position the item had: the position
  counts as unchanged, is not written back, and the temporary one stays.
\<close>

lemma append_at_old_position:
  assumes "lists rows L" "loaded_item m rows k q" "c_scope m = Some (Some kb)" "kb \<noteq> k" "\<not> m_pos_assigned m" "c_pos m = None"
    and "int (length (L kb)) + 1 = q"
  shows "\<exists>rows'. save_update m rows = Inr rows' \<and> at_pos rows' kb (- q) (m_id m)"
proof -
  let ?x = "m_id m" and ?L = "L(k := remove_at q (L k))"
  let ?s = "shifted (- 1) (in_range k (q + 1) None (Some ?x)) (moved_out k ?x rows)"
  note f = loaded_facts [OF assms(1,2)]
  note g = close_gap [OF assms(1,2) resolved_Some refl]
  have m: "set_pos (JInt (int (length (L kb)) + 1)) m = m" unfolding assms(7) set_pos_def f(3) by simp
  let ?rows = "sql_update (\<lambda>r. l_id r = ?x) (\<lambda>r. r\<lparr>l_scope := Some kb\<rparr>) ?s"
  have pos: "l_pos r = - q" if "r \<in> set ?s" "l_id r = ?x" for r
  proof -
    have "l_scope r = Some k" using that scope_shifted [OF scope_out [OF f(10)]] by blast
    with that have "at_pos ?s k (l_pos r) ?x" by (auto simp: at_pos_def)
    then show ?thesis unfolding g(5) by simp
  qed
  have at: "at_pos ?rows k' r i \<longleftrightarrow> (if i = ?x then k' = kb \<and> r = - q else at_pos ?s k' r i)" for k' r i
    by (rule at_written) (use ids_in [OF g(2) loaded_item_in [OF assms(2)]] pos in auto)
  have ids: "distinct (map l_id ?rows)" using f(8) by (simp add: map_key_sql_update)
  have "index_ok ?rows"
    by (rule index_ok_away [OF ids, where x = ?x and L = ?L]) (use at g(4) f(6) in auto)
  then have "updateRecordWithChanges m ?s = Inr ?rows"
    using assms(3,6) by (simp add: updateRecordWithChanges_def write_rows_def Let_def)
  moreover have "beforeUpdate m rows = Inr (?s, m)" using before_append [OF assms(1-5)] assms(6) m by simp
  ultimately have "save_update m rows = Inr ?rows" by (simp add: save_update_def)
  then show ?thesis using at by auto
qed

subsection \<open>The abstract lists, computed\<close>

definition scope_rows :: "list_table \<Rightarrow> key \<Rightarrow> list_table" where
  "scope_rows rows k = sort_key l_pos (filter (\<lambda>r. l_scope r = Some k) rows)"

definition list_of :: "list_table \<Rightarrow> key \<Rightarrow> key list" where
  "list_of rows k = map l_id (scope_rows rows k)"

definition numbered :: "list_table \<Rightarrow> bool" where
  "numbered rows \<longleftrightarrow> distinct (map l_id rows) \<and>
     (\<forall>r \<in> set rows. case l_scope r of None \<Rightarrow> True
        | Some k \<Rightarrow> map l_pos (scope_rows rows k) = [1..int (length (scope_rows rows k))])"

lemma set_scope_rows [simp]: "set (scope_rows rows k) = {r \<in> set rows. l_scope r = Some k}"
  by (simp add: scope_rows_def)

lemma lists_positions:
  assumes "lists rows L"
  shows "map l_pos (scope_rows rows k) = [1..int (length (L k))]"
proof (rule sorted_distinct_set_unique)
  have ids: "distinct (map l_id rows)" and at: "\<And>k p i. at_pos rows k p i \<longleftrightarrow> item_at (L k) p i"
    using assms by (auto simp: lists_def)
  show "sorted (map l_pos (scope_rows rows k))" by (simp add: scope_rows_def)
  have "inj_on l_pos {r \<in> set rows. l_scope r = Some k}"
  proof (rule inj_onI)
    fix r s
    assume rs: "r \<in> {r \<in> set rows. l_scope r = Some k}" "s \<in> {r \<in> set rows. l_scope r = Some k}" "l_pos r = l_pos s"
    then have "at_pos rows k (l_pos r) (l_id r)" "at_pos rows k (l_pos r) (l_id s)" by (auto simp: at_pos_def)
    from index_okD [OF lists_index [OF assms] ids this] rs show "r = s" by (intro distinct_map_inj_on_eq [OF ids]) auto
  qed
  moreover have "distinct (scope_rows rows k)" using ids by (simp add: scope_rows_def distinct_map)
  ultimately show "distinct (map l_pos (scope_rows rows k))" by (simp add: distinct_map)
  have "p \<in> l_pos ` {r \<in> set rows. l_scope r = Some k} \<longleftrightarrow> (\<exists>i. at_pos rows k p i)" for p by (auto simp: at_pos_def)
  then have "p \<in> l_pos ` {r \<in> set rows. l_scope r = Some k} \<longleftrightarrow> p \<in> {1..int (length (L k))}" for p
    unfolding at by (simp add: item_at_def)
  then show "set (map l_pos (scope_rows rows k)) = set [1..int (length (L k))]" 
    unfolding set_map set_scope_rows set_upto by blast
qed simp_all

lemma scope_rows_item:
  assumes "map l_pos (scope_rows rows k) = [1..int (length (scope_rows rows k))]"
  shows "at_pos rows k p i \<longleftrightarrow> item_at (list_of rows k) p i"
proof -
  let ?S = "scope_rows rows k"
  have pos: "l_pos (?S ! j) = int j + 1" if "j < length ?S" for j
    using arg_cong [OF assms, of "\<lambda>xs. xs ! j"] that by simp
  have "at_pos rows k p i \<longleftrightarrow> (\<exists>r \<in> set ?S. l_pos r = p \<and> l_id r = i)" by (auto simp: at_pos_def)
  also have "\<dots> \<longleftrightarrow> (\<exists>j < length ?S. int j + 1 = p \<and> l_id (?S ! j) = i)"
    unfolding in_set_conv_nth Bex_def by (metis pos)
  also have "\<dots> \<longleftrightarrow> item_at (list_of rows k) p i"
  proof
    assume "item_at (list_of rows k) p i"
    then show "\<exists>j < length ?S. int j + 1 = p \<and> l_id (?S ! j) = i"
      by (intro exI [of _ "nat (p - 1)"]) (auto simp: item_at_def list_of_def)
  qed (auto simp: item_at_def list_of_def)
  finally show ?thesis .
qed

lemma item_at_ext: "(\<And>p i. item_at xs p i \<longleftrightarrow> item_at ys p i) \<Longrightarrow> length xs = length ys \<Longrightarrow> xs = ys"
proof (rule nth_equalityI)
  fix j
  assume h: "\<And>p i. item_at xs p i \<longleftrightarrow> item_at ys p i" and j: "j < length xs"
  then have "item_at xs (int j + 1) (xs ! j)" by (simp add: item_at_def)
  with h have "item_at ys (int j + 1) (xs ! j)" by blast
  then show "xs ! j = ys ! j" by (simp add: item_at_def)
qed

lemma lists_iff: "lists rows L \<longleftrightarrow> numbered rows \<and> L = list_of rows"
proof
  assume l: "lists rows L"
  have p: "map l_pos (scope_rows rows k) = [1..int (length (L k))]" for k by (rule lists_positions [OF l])
  have len: "length (scope_rows rows k) = length (L k)" for k
    using arg_cong [OF p [of k], of length] by simp
  have "L k = list_of rows k" for k
    by (rule item_at_ext) (use l len p scope_rows_item [of rows k] in \<open>auto simp: lists_def list_of_def\<close>)
  then show "numbered rows \<and> L = list_of rows" using l p len by (auto simp: numbered_def lists_def split: option.split)
next
  assume r: "numbered rows \<and> L = list_of rows"
  have "map l_pos (scope_rows rows k) = [1..int (length (scope_rows rows k))]" for k
  proof (cases "scope_rows rows k = []")
    case False
    then obtain row where "row \<in> set (scope_rows rows k)" by (cases "scope_rows rows k") auto
    with r show ?thesis by (auto simp: numbered_def split: option.split_asm)
  qed simp
  from scope_rows_item [OF this] r show "lists rows L" by (simp add: lists_def numbered_def)
qed

end
