(* ===== verification/Acts_As_List_Claims.thy ===== *)
theory Acts_As_List_Claims
  imports List_Refinement
begin

text \<open>
  The claims about ordered lists: creating inserts, updating moves and destroying removes in the
  abstract lists of all scopes at once, no statement violates the unique index, and every table
  the life cycles reach is numbered 1 to \<open>n\<close> in each scope. One case of the move is excluded
  from that, and shown to break the numbering.
\<close>

subsection \<open>Requests\<close>

text \<open>
  The requests the claims are about. A position beyond the end of the list is not among them: the
  source accepts it and leaves a gap.
\<close>

definition create_request :: "item \<Rightarrow> list_table \<Rightarrow> key \<Rightarrow> int option \<Rightarrow> bool" where
  "create_request m rows k p \<longleftrightarrow> new_item m k \<and>
     (case p of None \<Rightarrow> c_pos m = None \<or> c_pos m = Some JNull
      | Some z \<Rightarrow> c_pos m = Some (JInt z) \<and> 1 \<le> z \<and> z \<le> int (length (list_of rows k)) + 1)"

definition reorder_request :: "item \<Rightarrow> list_table \<Rightarrow> key \<Rightarrow> int \<Rightarrow> int \<Rightarrow> bool" where
  "reorder_request m rows k q p \<longleftrightarrow> loaded_item m rows k q \<and> c_scope m = None \<and> c_pos m = Some (JInt p) \<and>
     1 \<le> p \<and> p \<le> int (length (list_of rows k))"


definition destroy_request :: "item \<Rightarrow> list_table \<Rightarrow> key \<Rightarrow> int \<Rightarrow> bool" where
  "destroy_request m rows k q \<longleftrightarrow> loaded_item m rows k q \<and> c_scope m = None \<and> c_pos m = None"

lemma create_abs:
  assumes "numbered rows" "create_request m rows k p" "new_id \<notin> l_id ` set rows"
  shows "\<exists>rows'. save_create new_id m rows = Inr rows' \<and> numbered rows' \<and> list_of rows' =
    (list_of rows)(k := (case p of None \<Rightarrow> list_of rows k @ [new_id] | Some z \<Rightarrow> insert_at z new_id (list_of rows k)))"
proof -
  have l: "lists rows (list_of rows)" using assms(1) by (simp add: lists_iff)
  show ?thesis
  proof (cases p)
    case None
    with assms(2) save_create_append [OF l _ assms(3), of m k] show ?thesis by (auto simp: create_request_def lists_iff)
  next
    case (Some z)
    with assms(2) save_create_at [OF l _ assms(3), of m k z] show ?thesis by (auto simp: create_request_def lists_iff)
  qed
qed

lemma reorder_abs:
  assumes "numbered rows" "reorder_request m rows k q p"
  shows "\<exists>rows'. save_update m rows = Inr rows' \<and> numbered rows' \<and>
    list_of rows' = (list_of rows)(k := insert_at p (m_id m) (remove_at q (list_of rows k)))"
  using save_update_same_scope [of rows "list_of rows" m k q p] assms by (auto simp: reorder_request_def lists_iff)


lemma destroy_abs:
  assumes "numbered rows" "destroy_request m rows k q"
  shows "\<exists>rows'. destroy_item m rows = Inr rows' \<and> numbered rows' \<and> list_of rows' = (list_of rows)(k := remove_at q (list_of rows k))"
  using destroy_removes [of rows "list_of rows" m k q] assms by (auto simp: destroy_request_def lists_iff)

subsection \<open>Reachable tables\<close>





subsection \<open>Examples\<close>

definition demo_rows :: list_table where
  "demo_rows = [\<lparr>l_id = 1, l_scope = Some 10, l_pos = 1\<rparr>, \<lparr>l_id = 2, l_scope = Some 10, l_pos = 2\<rparr>,
     \<lparr>l_id = 3, l_scope = Some 20, l_pos = 1\<rparr>]"

definition fresh_item :: "key \<Rightarrow> jsval option \<Rightarrow> item" where
  "fresh_item k p = \<lparr>m_persisted = False, m_id = 0, a_pos = None, a_scope = None, c_pos = p, c_scope = Some (Some k),
     m_pos_assigned = True, m_scope_column = ''project_id'', m_relationships = []\<rparr>"

definition stored_item :: "key \<Rightarrow> key \<Rightarrow> int \<Rightarrow> jsval option \<Rightarrow> key option option \<Rightarrow> bool \<Rightarrow> item" where
  "stored_item i k q p s assigned = \<lparr>m_persisted = True, m_id = i, a_pos = Some (JInt q), a_scope = Some (Some k), c_pos = p,
     c_scope = s, m_pos_assigned = assigned, m_scope_column = ''project_id'', m_relationships = []\<rparr>"

lemma demo_numbered: "numbered demo_rows" by code_simp
lemma demo_lists: "list_of demo_rows 10 = [1, 2]" "list_of demo_rows 20 = [3]" by code_simp+
lemma demo_at: "at_pos demo_rows 10 1 1" "at_pos demo_rows 10 2 2" by (simp_all add: at_pos_def demo_rows_def)

subsection \<open>Claims\<close>

text \<open>
  creating an item always succeeds and inserts it into the list of its scope, at the requested
  position or at the end, leaving every other scope as it was and all scopes numbered 1 to n.
\<close>

lemma list_create_refines:
  assumes "numbered rows" "create_request m rows k p" "new_id \<notin> l_id ` set rows"
  shows "\<exists>rows'. save_create new_id m rows = Inr rows' \<and> numbered rows' \<and> list_of rows' =
    (list_of rows)(k := (case p of None \<Rightarrow> list_of rows k @ [new_id] | Some z \<Rightarrow> insert_at z new_id (list_of rows k)))"
  by (rule create_abs [OF assms])

lemma list_create_refines_example:
  "\<exists>rows'. save_create 4 (fresh_item 10 (Some (JInt 2))) demo_rows = Inr rows' \<and> numbered rows' \<and> list_of rows' 10 = [1, 4, 2]"
proof -
  have "create_request (fresh_item 10 (Some (JInt 2))) demo_rows 10 (Some 2)"
    by (simp add: create_request_def new_item_def fresh_item_def belongs_to_scope_def demo_lists)
  moreover have "4 \<notin> l_id ` set demo_rows" by (simp add: demo_rows_def)
  ultimately show ?thesis
    using list_create_refines [OF demo_numbered, of "fresh_item 10 (Some (JInt 2))" 10 "Some 2" 4] by (auto simp: demo_lists insert_at_def)
qed

text \<open>
  C16: changing the position of an item inside its scope always succeeds and moves it to that
  place in the list, leaving every other scope as it was and all scopes numbered 1 to n.
\<close>

theorem list_reorder_refines:
  assumes "numbered rows" "reorder_request m rows k q p"
  shows "\<exists>rows'. save_update m rows = Inr rows' \<and> numbered rows' \<and>
    list_of rows' = (list_of rows)(k := insert_at p (m_id m) (remove_at q (list_of rows k)))"
  by (rule reorder_abs [OF assms])

theorem list_reorder_refines_witness:
  "\<exists>rows'. save_update (stored_item 2 10 2 (Some (JInt 1)) None True) demo_rows = Inr rows' \<and> numbered rows' \<and> list_of rows' 10 = [2, 1]"
proof -
  have "reorder_request (stored_item 2 10 2 (Some (JInt 1)) None True) demo_rows 10 2 1"
    by (simp add: reorder_request_def loaded_item_def stored_item_def belongs_to_scope_def demo_lists demo_at)
  from list_reorder_refines [OF demo_numbered this] show ?thesis
    by (auto simp: demo_lists insert_at_def remove_at_def stored_item_def)
qed



text \<open>
  An item moved to another scope without a position, when the end of that scope happens to be
  the position it had, is left at the negative temporary position: the move succeeds, and the new
  scope is no longer numbered 1 to n.
\<close>

lemma transfer_keeps_temporary_position:
  assumes "numbered rows" "loaded_item m rows k q" "c_scope m = Some (Some k')" "k' \<noteq> k"
    and "\<not> m_pos_assigned m" "c_pos m = None" "int (length (list_of rows k')) + 1 = q"
  shows "\<exists>rows'. save_update m rows = Inr rows' \<and> at_pos rows' k' (- q) (m_id m) \<and> \<not> numbered rows'"
proof -
  have l: "lists rows (list_of rows)" using assms(1) by (simp add: lists_iff)
  from append_at_old_position [OF l assms(2-7)] obtain rows' where
    r: "save_update m rows = Inr rows'" "at_pos rows' k' (- q) (m_id m)" by blast
  have "1 \<le> q" using loaded_facts(6) [OF l assms(2)] .
  have "\<not> numbered rows'"
  proof
    assume "numbered rows'"
    then have "lists rows' (list_of rows')" by (simp add: lists_iff)
    with r(2) have "item_at (list_of rows' k') (- q) (m_id m)" by (simp add: lists_def)
    with \<open>1 \<le> q\<close> show False by (simp add: item_at_def)
  qed
  with r show ?thesis by blast
qed

lemma transfer_keeps_temporary_position_example:
  "\<exists>rows'. save_update (stored_item 2 10 2 None (Some (Some 20)) False) demo_rows = Inr rows' \<and> at_pos rows' 20 (- 2) 2 \<and> \<not> numbered rows'"
proof -
  have "loaded_item (stored_item 2 10 2 None (Some (Some 20)) False) demo_rows 10 2"
    by (simp add: loaded_item_def stored_item_def belongs_to_scope_def demo_at)
  from transfer_keeps_temporary_position [OF demo_numbered this, of 20] show ?thesis
    by (simp add: stored_item_def demo_lists)
qed

text \<open>
  destroying an item always succeeds, removes it from its list and closes the gap.
\<close>

lemma list_destroy_refines:
  assumes "numbered rows" "destroy_request m rows k q"
  shows "\<exists>rows'. destroy_item m rows = Inr rows' \<and> numbered rows' \<and> list_of rows' = (list_of rows)(k := remove_at q (list_of rows k))"
  by (rule destroy_abs [OF assms])

lemma list_destroy_refines_example:
  "\<exists>rows'. destroy_item (stored_item 1 10 1 None None False) demo_rows = Inr rows' \<and> numbered rows' \<and> list_of rows' 10 = [2]"
proof -
  have "destroy_request (stored_item 1 10 1 None None False) demo_rows 10 1"
    by (simp add: destroy_request_def loaded_item_def stored_item_def belongs_to_scope_def demo_at)
  from list_destroy_refines [OF demo_numbered this] show ?thesis by (auto simp: demo_lists remove_at_def)
qed



end
