(* ===== verification/Transport.thy ===== *)
theory Transport
  imports Js_Value
begin

text \<open>
  The transport serialisation of frontend models
  (\<open>src/src/frontend-models/transport-serialization.js\<close>, \<open>src/src/time-zone.js\<close> and
  \<open>src/src/utils/plain-object.js\<close>): values JSON cannot carry travel as marker objects.

  An object is the list of its own enumerable properties in enumeration order. Copying an object
  property by property in that order, as both directions do with \<open>assignSafeProperty\<close>, keeps the
  order, so it is a \<open>map\<close>. A \<open>Date\<close> is its time value, \<open>None\<close> for an invalid one. A
  backend model is a reference into the environment's \<open>model_of\<close>, because preloaded relationships
  may be cyclic; an instance of a registered frontend model is \<open>TFront\<close> with its own properties.

  The environment holds what is not of this code: the two conversions of \<open>Date\<close>, the time zone
  library, the record instances, and the registered frontend model classes: \<open>hydrate\<close> is
  \<open>None\<close> when no class of that name can be instantiated from a response, else the function
  \<open>instantiateFromResponse\<close>, which returns the class and the own properties of the instance.
\<close>

subsection \<open>Values\<close>

datatype tval =
    TUndef
  | TNull
  | TBool bool
  | TNum jsnum
  | TStr string
  | TBigInt int
  | TDate "int option"
  | TArr "tval list"
  | TObj "(string \<times> tval) list"
  | TBackend nat
  | TFront string "(string \<times> tval) list"

record backend_model =
  bm_name :: string
  bm_attributes :: "(string \<times> tval) list"
  bm_relationships :: "(string \<times> bool \<times> tval) list"

record transport_env =
  iso_string :: "int \<Rightarrow> string"
  date_parse :: "string \<Rightarrow> int option"
  zone_known :: "string \<Rightarrow> bool"
  zone_format :: "string \<Rightarrow> int \<Rightarrow> string"
  model_of :: "nat \<Rightarrow> backend_model"
  hydrate :: "string \<Rightarrow> (tval \<Rightarrow> string \<times> (string \<times> tval) list) option"

datatype transport_error =
    Invalid_Date
  | Not_A_Time_Zone
  | Offset_Not_Allowed string
  | Unknown_Time_Zone string
  | Keys_Of_Undefined
  | Out_Of_Fuel

definition TYPE_KEY :: string where "TYPE_KEY = ''__velocious_type''"
definition TYPE_DATE :: string where "TYPE_DATE = ''date''"
definition TYPE_UNDEFINED :: string where "TYPE_UNDEFINED = ''undefined''"
definition TYPE_BIGINT :: string where "TYPE_BIGINT = ''bigint''"
definition TYPE_NUMBER :: string where "TYPE_NUMBER = ''number''"
definition TYPE_FRONTEND_MODEL :: string where "TYPE_FRONTEND_MODEL = ''frontend_model''"
definition NUMBER_NAN :: string where "NUMBER_NAN = ''NaN''"
definition NUMBER_POSITIVE_INFINITY :: string where "NUMBER_POSITIVE_INFINITY = ''Infinity''"
definition NUMBER_NEGATIVE_INFINITY :: string where "NUMBER_NEGATIVE_INFINITY = ''-Infinity''"
definition PRELOADED_RELATIONSHIPS_KEY :: string where
  "PRELOADED_RELATIONSHIPS_KEY = ''__preloadedRelationships''"

lemmas transport_names = TYPE_KEY_def TYPE_DATE_def TYPE_UNDEFINED_def TYPE_BIGINT_def TYPE_NUMBER_def
  TYPE_FRONTEND_MODEL_def NUMBER_NAN_def NUMBER_POSITIVE_INFINITY_def NUMBER_NEGATIVE_INFINITY_def
  PRELOADED_RELATIONSHIPS_KEY_def

definition isPlainObject :: "tval \<Rightarrow> bool" where
  "isPlainObject v = (case v of TObj _ \<Rightarrow> True | _ \<Rightarrow> False)"

definition field_of :: "(string \<times> tval) list \<Rightarrow> string \<Rightarrow> tval" where
  "field_of fs k = (case map_of fs k of None \<Rightarrow> TUndef | Some v \<Rightarrow> v)"

definition own :: "(string \<times> tval) list \<Rightarrow> string \<Rightarrow> bool" where
  "own fs k = (map_of fs k \<noteq> None)"

text \<open>The pattern of a big integer marker.\<close>

definition bigint_digits :: "string \<Rightarrow> string" where
  "bigint_digits s = (case s of [] \<Rightarrow> [] | c # r \<Rightarrow> if c = CHR ''-'' then r else s)"

definition bigint_pattern :: "string \<Rightarrow> bool" where
  "bigint_pattern s = (bigint_digits s \<noteq> [] \<and> list_all (is_digit 10) (bigint_digits s))"

subsection \<open>Time zones\<close>

definition timezone_offset_pattern :: "string \<Rightarrow> bool" where
  "timezone_offset_pattern s =
     (length s = 6 \<and> (s ! 0 = CHR ''+'' \<or> s ! 0 = CHR ''-'') \<and> is_digit 10 (s ! 1) \<and> is_digit 10 (s ! 2) \<and>
      s ! 3 = CHR '':'' \<and> is_digit 10 (s ! 4) \<and> is_digit 10 (s ! 5))"

definition validateTimeZone :: "transport_env \<Rightarrow> jsval \<Rightarrow> transport_error + string" where
  "validateTimeZone env timeZone =
     (case timeZone of
        JStr s \<Rightarrow>
          (let z = js_trim s in
           if z = [] then Inl Not_A_Time_Zone
           else if timezone_offset_pattern z then Inl (Offset_Not_Allowed z)
           else if \<not> zone_known env z then Inl (Unknown_Time_Zone z)
           else Inr z)
      | _ \<Rightarrow> Inl Not_A_Time_Zone)"

definition formatDateInTimeZone :: "transport_env \<Rightarrow> int option \<Rightarrow> string \<Rightarrow> transport_error + string" where
  "formatDateInTimeZone env t timeZone =
     bindE (validateTimeZone env (JStr timeZone))
       (\<lambda>z. case t of None \<Rightarrow> Inl Invalid_Date | Some ms \<Rightarrow> Inr (zone_format env z ms))"

subsection \<open>Markers\<close>

definition isUndefinedMarker :: "(string \<times> tval) list \<Rightarrow> bool" where
  "isUndefinedMarker fs = (length fs = 1 \<and> own fs TYPE_KEY \<and> field_of fs TYPE_KEY = TStr TYPE_UNDEFINED)"

definition isStringValueMarker :: "(string \<times> tval) list \<Rightarrow> string \<Rightarrow> (string \<Rightarrow> bool) \<Rightarrow> bool" where
  "isStringValueMarker fs markerType valueMatches =
     (length fs = 2 \<and> own fs TYPE_KEY \<and> own fs ''value'' \<and> field_of fs TYPE_KEY = TStr markerType \<and>
      (case field_of fs ''value'' of TStr s \<Rightarrow> valueMatches s | _ \<Rightarrow> False))"

definition isDateMarker :: "(string \<times> tval) list \<Rightarrow> bool" where
  "isDateMarker fs = isStringValueMarker fs TYPE_DATE (\<lambda>_. True)"

definition isBigIntMarker :: "(string \<times> tval) list \<Rightarrow> bool" where
  "isBigIntMarker fs = isStringValueMarker fs TYPE_BIGINT bigint_pattern"

definition isNonFiniteNumberMarker :: "(string \<times> tval) list \<Rightarrow> bool" where
  "isNonFiniteNumberMarker fs =
     (length fs = 2 \<and> own fs TYPE_KEY \<and> own fs ''value'' \<and> field_of fs TYPE_KEY = TStr TYPE_NUMBER \<and>
      (field_of fs ''value'' = TStr NUMBER_NAN \<or> field_of fs ''value'' = TStr NUMBER_POSITIVE_INFINITY \<or>
       field_of fs ''value'' = TStr NUMBER_NEGATIVE_INFINITY))"

definition isFrontendModelMarker :: "(string \<times> tval) list \<Rightarrow> bool" where
  "isFrontendModelMarker fs =
     (own fs TYPE_KEY \<and> field_of fs TYPE_KEY = TStr TYPE_FRONTEND_MODEL \<and>
      (case field_of fs ''modelName'' of TStr s \<Rightarrow> s \<noteq> [] | _ \<Rightarrow> False) \<and>
      isPlainObject (field_of fs ''attributes'') \<and>
      (field_of fs ''preloadedRelationships'' = TUndef \<or> isPlainObject (field_of fs ''preloadedRelationships'')))"

definition isMarker :: "(string \<times> tval) list \<Rightarrow> bool" where
  "isMarker fs =
     (isUndefinedMarker fs \<or> isDateMarker fs \<or> isBigIntMarker fs \<or> isNonFiniteNumberMarker fs \<or> isFrontendModelMarker fs)"

subsection \<open>Serialising\<close>

definition string_marker :: "string \<Rightarrow> string \<Rightarrow> tval" where
  "string_marker ty s = TObj [(TYPE_KEY, TStr ty), (''value'', TStr s)]"

definition nonfinite_name :: "jsnum \<Rightarrow> string" where
  "nonfinite_name n =
     (if n = NaN then NUMBER_NAN else if n = PosInf then NUMBER_POSITIVE_INFINITY else NUMBER_NEGATIVE_INFINITY)"

definition is_Fin :: "jsnum \<Rightarrow> bool" where
  "is_Fin n = (case n of Fin _ \<Rightarrow> True | _ \<Rightarrow> False)"

definition date_text :: "transport_env \<Rightarrow> string option \<Rightarrow> int option \<Rightarrow> transport_error + string" where
  "date_text env zone t =
     (case zone of
        Some z \<Rightarrow> formatDateInTimeZone env t z
      | None \<Rightarrow> (case t of None \<Rightarrow> Inl Invalid_Date | Some ms \<Rightarrow> Inr (iso_string env ms)))"

text \<open>
  The fuel counts nested backend models: attributes and relationships of a model are serialised with
  one unit less. \<open>Out_Of_Fuel\<close> stands for a recursion deeper than that.
\<close>

function serializeValue :: "transport_env \<Rightarrow> string option \<Rightarrow> nat \<Rightarrow> nat list \<Rightarrow> tval \<Rightarrow> transport_error + tval" where
  "serializeValue env zone n seen TUndef = Inr (TObj [(TYPE_KEY, TStr TYPE_UNDEFINED)])"
| "serializeValue env zone n seen (TDate t) = bindE (date_text env zone t) (\<lambda>s. Inr (string_marker TYPE_DATE s))"
| "serializeValue env zone n seen (TBigInt z) = Inr (string_marker TYPE_BIGINT (bigint_string z))"
| "serializeValue env zone n seen (TNum x) =
     Inr (if is_Fin x then TNum x else string_marker TYPE_NUMBER (nonfinite_name x))"
| "serializeValue env zone n seen (TArr vs) =
     bindE (collectE (map (serializeValue env zone n seen) vs)) (\<lambda>ws. Inr (TArr ws))"
| "serializeValue env zone n seen (TObj fs) =
     bindE (collectE (map (\<lambda>p. serializeValue env zone n seen (snd p)) fs)) (\<lambda>ws. Inr (TObj (zip (map fst fs) ws)))"
| "serializeValue env zone 0 seen (TBackend i) = Inl Out_Of_Fuel"
| "serializeValue env zone (Suc n) seen (TBackend i) =
     (let model = model_of env i in
      bindE (serializeValue env zone n seen (TObj (bm_attributes model))) (\<lambda>attributes.
        (let serializedModel = [(TYPE_KEY, TStr TYPE_FRONTEND_MODEL), (''attributes'', attributes), (''modelName'', TStr (bm_name model))] in
         if i \<in> set seen then Inr (TObj serializedModel)
         else (let loaded = filter (\<lambda>r. fst (snd r)) (bm_relationships model) in
           bindE (collectE (map (\<lambda>r. serializeValue env zone n (i # seen) (if snd (snd r) = TUndef then TNull else snd (snd r))) loaded))
             (\<lambda>ws. let preloaded = zip (map fst loaded) ws in
                Inr (TObj (if preloaded \<noteq> [] then serializedModel @ [(''preloadedRelationships'', TObj preloaded)]
                           else serializedModel)))))))"
| "serializeValue env zone n seen TNull = Inr TNull"
| "serializeValue env zone n seen (TBool b) = Inr (TBool b)"
| "serializeValue env zone n seen (TStr s) = Inr (TStr s)"
| "serializeValue env zone n seen (TFront c fs) = Inr (TFront c fs)"
  by pat_completeness auto
termination
proof (relation "measures [\<lambda>(_, _, n, _, _). n, \<lambda>(_, _, _, _, v). size v]")
  show "wf (measures [\<lambda>(_ :: transport_env, _ :: string option, n :: nat, _ :: nat list, _ :: tval). n,
      \<lambda>(_, _, _, _, v). size v])" by simp
next
  fix env zone n seen vs and x :: tval
  assume "x \<in> set vs"
  then have "size x < Suc (size_list size vs)" by (simp add: less_Suc_eq_le size_list_estimation')
  then show "((env, zone, n, seen, x), env, zone, n, seen, TArr vs) \<in> measures [\<lambda>(_, _, n, _, _). n, \<lambda>(_, _, _, _, v). size v]"
    by simp
next
  fix env zone n seen fs and p :: "string \<times> tval"
  assume "p \<in> set fs"
  then have "size_prod (\<lambda>_. 0) size p \<le> size_list (size_prod (\<lambda>_. 0) size) fs"
    by (rule size_list_estimation') simp
  then have "size (snd p) < size (TObj fs)" by (cases p) simp
  then show "((env, zone, n, seen, snd p), env, zone, n, seen, TObj fs) \<in> measures [\<lambda>(_, _, n, _, _). n, \<lambda>(_, _, _, _, v). size v]"
    by simp
qed simp_all

definition serializeFrontendModelTransportValue ::
    "transport_env \<Rightarrow> nat \<Rightarrow> jsval \<Rightarrow> tval \<Rightarrow> transport_error + tval" where
  "serializeFrontendModelTransportValue env fuel timeZone value =
     (if timeZone = JUndef then serializeValue env None fuel [] value
      else bindE (validateTimeZone env timeZone) (\<lambda>z. serializeValue env (Some z) fuel [] value))"

subsection \<open>Deserialising\<close>

definition string_of_field :: "tval \<Rightarrow> string" where
  "string_of_field v = (case v of TStr s \<Rightarrow> s | _ \<Rightarrow> [])"

definition number_of_name :: "string \<Rightarrow> jsnum" where
  "number_of_name s = (if s = NUMBER_NAN then NaN else if s = NUMBER_POSITIVE_INFINITY then PosInf else NegInf)"

text \<open>The own enumerable properties of a value that \<open>deserialize\<close> makes of an object.\<close>

definition own_properties :: "tval \<Rightarrow> (string \<times> tval) list" where
  "own_properties v = (case v of TObj fs \<Rightarrow> fs | TFront _ fs \<Rightarrow> fs | _ \<Rightarrow> [])"

definition object_keys :: "tval \<Rightarrow> transport_error + string list" where
  "object_keys v = (if v = TUndef then Inl Keys_Of_Undefined else Inr (map fst (own_properties v)))"

definition spread_with :: "(string \<times> tval) list \<Rightarrow> string \<Rightarrow> tval \<Rightarrow> (string \<times> tval) list" where
  "spread_with fs k v =
     (if k \<in> fst ` set fs then map (\<lambda>(k', v'). if k' = k then (k', v) else (k', v')) fs else fs @ [(k, v)])"

text \<open>
  \<open>ds\<close> holds the deserialised properties of the object \<open>fs\<close>; since deserialising has no
  effect, the model computes all of them and each case takes the ones the source computes.
\<close>

definition deserialized_field ::
    "(string \<times> (transport_error + tval)) list \<Rightarrow> string \<Rightarrow> transport_error + tval" where
  "deserialized_field ds k = (case map_of ds k of None \<Rightarrow> Inr TUndef | Some r \<Rightarrow> r)"

definition deserializeFrontendModelMarker :: "transport_env \<Rightarrow> (string \<times> tval) list \<Rightarrow>
    (string \<times> (transport_error + tval)) list \<Rightarrow> transport_error + tval" where
  "deserializeFrontendModelMarker env fs ds =
     bindE (deserialized_field ds ''attributes'') (\<lambda>attributes.
     bindE (if isPlainObject (field_of fs ''preloadedRelationships'')
            then deserialized_field ds ''preloadedRelationships'' else Inr (TObj [])) (\<lambda>preloaded.
     bindE (object_keys preloaded) (\<lambda>names.
       let response = (if names = [] then attributes
                       else TObj (spread_with (own_properties attributes) PRELOADED_RELATIONSHIPS_KEY preloaded))
       in (case hydrate env (string_of_field (field_of fs ''modelName'')) of
             None \<Rightarrow> Inr response
           | Some instantiate \<Rightarrow> (case instantiate response of (c, props) \<Rightarrow> Inr (TFront c props))))))"

definition deserialize_object :: "transport_env \<Rightarrow> (string \<times> tval) list \<Rightarrow>
    (string \<times> (transport_error + tval)) list \<Rightarrow> transport_error + tval" where
  "deserialize_object env fs ds =
     (let value = string_of_field (field_of fs ''value'') in
      if isUndefinedMarker fs then Inr TUndef
      else if isDateMarker fs then Inr (TDate (date_parse env value))
      else if isBigIntMarker fs then Inr (TBigInt (bigint_of value))
      else if isNonFiniteNumberMarker fs then Inr (TNum (number_of_name value))
      else if isFrontendModelMarker fs then deserializeFrontendModelMarker env fs ds
      else bindE (collectE (map snd ds)) (\<lambda>ws. Inr (TObj (zip (map fst ds) ws))))"

fun deserializeFrontendModelTransportValue :: "transport_env \<Rightarrow> tval \<Rightarrow> transport_error + tval" where
  "deserializeFrontendModelTransportValue env (TArr vs) =
     bindE (collectE (map (deserializeFrontendModelTransportValue env) vs)) (\<lambda>ws. Inr (TArr ws))"
| "deserializeFrontendModelTransportValue env (TObj fs) =
     deserialize_object env fs (map (\<lambda>p. (fst p, deserializeFrontendModelTransportValue env (snd p))) fs)"
| "deserializeFrontendModelTransportValue env v = Inr v"

end
