(* ===== verification/Sync_Conflict.thy ===== *)
theory Sync_Conflict
  imports Stable_Json
begin

text \<open>
  Conflict strategies of offline sync (\<open>src/src/sync/conflict-strategy.js\<close>): what a replayed
  mutation may do to the current server record, and what a replay result means for the local log.

  Attributes, mutations and results are JavaScript values; a result is the object the source builds.
  The text of a number belongs to the host (\<open>number_text\<close>); quoting a string is spelled out. The
  conflict hook of a resource is a function on its five arguments.
\<close>

datatype sync_error =
    Unknown_Strategy string
  | Handler_Returned_No_Object
  | Handler_Unknown_Status
  | Unknown_Replay_Status

record sync_record =
  sr_attributes :: "(string \<times> jsval) list"
  sr_version :: jsval

type_synonym number_text = "rat \<Rightarrow> string"

subsection \<open>Text\<close>

definition hex_digit :: "nat \<Rightarrow> char" where
  "hex_digit n = char_of (if n < 10 then 48 + n else 87 + n)"

definition json_escape :: "char \<Rightarrow> string" where
  "json_escape c =
     (let n = (of_char c :: nat) in
      if n = 34 then [CHR 0x5C, CHR 0x22] else if n = 92 then [CHR 0x5C, CHR 0x5C]
      else if n = 8 then [CHR 0x5C, CHR ''b''] else if n = 9 then [CHR 0x5C, CHR ''t'']
      else if n = 10 then [CHR 0x5C, CHR ''n''] else if n = 12 then [CHR 0x5C, CHR ''f'']
      else if n = 13 then [CHR 0x5C, CHR ''r'']
      else if n < 32 then [CHR 0x5C, CHR ''u'', CHR ''0'', CHR ''0'', hex_digit (n div 16), hex_digit (n mod 16)]
      else [c])"

definition json_quote :: "string \<Rightarrow> string" where
  "json_quote s = CHR 0x22 # concat (map json_escape s) @ [CHR 0x22]"

text \<open>\<open>parts.join(",")\<close>.\<close>

definition join_comma :: "string list \<Rightarrow> string" where
  "join_comma ps = join_char (CHR '','') ps"

text \<open>
  \<open>stableJsonStringify\<close> of this file; \<open>None\<close> is \<open>undefined\<close>, which \<open>join\<close> prints as
  nothing and a template as \<open>undefined\<close>.
\<close>

fun stable_text :: "number_text \<Rightarrow> jsval \<Rightarrow> string option" where
  "stable_text num (JArr xs) =
     Some (''['' @ join_comma (map (\<lambda>x. case stable_text num x of None \<Rightarrow> [] | Some s \<Rightarrow> s) xs) @ '']'')"
| "stable_text num (JObj fs) =
     Some (''{'' @ join_comma (map (\<lambda>p. json_quote (fst p) @ '':'' @ snd p)
       (sort_key fst (map (\<lambda>p. (fst p, case stable_text num (snd p) of None \<Rightarrow> ''undefined'' | Some s \<Rightarrow> s)) fs))) @ ''}'')"
| "stable_text num JUndef = None"
| "stable_text num JNull = Some ''null''"
| "stable_text num (JBool b) = Some (if b then ''true'' else ''false'')"
| "stable_text num (JNum n) = Some (case n of Fin q \<Rightarrow> num q | _ \<Rightarrow> ''null'')"
| "stable_text num (JStr s) = Some (json_quote s)"

definition jsonValuesEqual :: "number_text \<Rightarrow> jsval \<Rightarrow> jsval \<Rightarrow> bool" where
  "jsonValuesEqual num left right = (stable_text num left = stable_text num right)"

subsection \<open>Mutations\<close>

text \<open>\<open>JSON.parse(JSON.stringify(v))\<close> of a value other than \<open>undefined\<close>.\<close>

fun json_clone :: "jsval \<Rightarrow> jsval" where
  "json_clone (JArr xs) = JArr (map (\<lambda>x. if x = JUndef then JNull else json_clone x) xs)"
| "json_clone (JObj fs) = JObj (map (\<lambda>p. (fst p, json_clone (snd p))) (filter (\<lambda>p. snd p \<noteq> JUndef) fs))"
| "json_clone (JNum n) = (case n of Fin q \<Rightarrow> JNum (Fin q) | _ \<Rightarrow> JNull)"
| "json_clone v = v"

definition mutationAttributesFor :: "jsval \<Rightarrow> (string \<times> jsval) list" where
  "mutationAttributesFor mutation =
     (case obj_get mutation ''attributes'' of
        JObj fs \<Rightarrow> (case json_clone (JObj fs) of JObj gs \<Rightarrow> gs | _ \<Rightarrow> [])
      | _ \<Rightarrow> [])"

definition field_value :: "(string \<times> jsval) list \<Rightarrow> string \<Rightarrow> jsval" where
  "field_value fs k = (case map_of fs k of None \<Rightarrow> JUndef | Some v \<Rightarrow> v)"

text \<open>\<open>a ?? b\<close>.\<close>

definition js_coalesce :: "jsval \<Rightarrow> jsval \<Rightarrow> jsval" where
  "js_coalesce a b = (if a = JUndef \<or> a = JNull then b else a)"

definition server_version :: "sync_record \<Rightarrow> string \<Rightarrow> jsval" where
  "server_version r versionAttribute =
     js_coalesce (js_coalesce (sr_version r) (field_value (sr_attributes r) versionAttribute)) JNull"

definition hasVersionConflict :: "number_text \<Rightarrow> jsval \<Rightarrow> sync_record option \<Rightarrow> string \<Rightarrow> bool" where
  "hasVersionConflict num mutation serverRecord versionAttribute =
     (case serverRecord of
        None \<Rightarrow> False
      | Some r \<Rightarrow>
          (let baseVersion = obj_get mutation ''baseVersion'' in
           if baseVersion = JUndef \<or> baseVersion = JNull then False
           else \<not> jsonValuesEqual num (server_version r versionAttribute) baseVersion))"

subsection \<open>Results\<close>

definition applied_result :: "(string \<times> jsval) list \<Rightarrow> string \<Rightarrow> jsval" where
  "applied_result attributes strategy =
     JObj [(''attributes'', JObj attributes), (''status'', JStr ''applied''), (''strategy'', JStr strategy)]"

definition conflictResult :: "string list option \<Rightarrow> sync_record option \<Rightarrow> jsval \<Rightarrow> sync_record option \<Rightarrow>
    string \<Rightarrow> string \<Rightarrow> jsval" where
  "conflictResult affectedFields baseRecord mutation serverRecord strategy versionAttribute =
     (let mutationAttributes = mutationAttributesFor mutation;
          fields = (case affectedFields of Some fs \<Rightarrow> fs | None \<Rightarrow> map fst mutationAttributes)
      in JObj [
        (''conflict'', JObj [
          (''affectedFields'', JArr (map JStr fields)),
          (''baseRecord'', case baseRecord of None \<Rightarrow> JNull | Some r \<Rightarrow> JObj (sr_attributes r)),
          (''baseVersion'', js_coalesce (obj_get mutation ''baseVersion'') JNull),
          (''localMutation'', JObj [
            (''attributes'', JObj mutationAttributes),
            (''clientMutationId'', obj_get mutation ''clientMutationId''),
            (''model'', obj_get mutation ''model''),
            (''operation'', obj_get mutation ''operation''),
            (''payload'', js_or (obj_get mutation ''payload'') JNull)]),
          (''serverModel'', case serverRecord of None \<Rightarrow> JNull | Some r \<Rightarrow> JObj (sr_attributes r)),
          (''serverVersion'', case serverRecord of None \<Rightarrow> JNull | Some r \<Rightarrow> server_version r versionAttribute),
          (''suggestedResolution'', JStr (if strategy = ''serverWins'' then ''keep_server'' else ''manual'')),
          (''versionAttribute'', JStr versionAttribute)]),
        (''status'', JStr ''conflict''),
        (''strategy'', JStr strategy)])"

text \<open>The loop over the mutation's fields, with the fields that conflict and the merged ones so far.\<close>

fun merge_fields :: "number_text \<Rightarrow> sync_record \<Rightarrow> sync_record \<Rightarrow> (string \<times> jsval) list \<Rightarrow>
    string list \<Rightarrow> (string \<times> jsval) list \<Rightarrow> string list \<times> (string \<times> jsval) list" where
  "merge_fields num base server [] affected merged = (affected, merged)"
| "merge_fields num base server ((field, localValue) # rest) affected merged =
     (let baseValue = field_value (sr_attributes base) field;
          serverValue = field_value (sr_attributes server) field
      in if jsonValuesEqual num serverValue baseValue \<or> jsonValuesEqual num serverValue localValue
         then merge_fields num base server rest affected (obj_set merged field localValue)
         else merge_fields num base server rest (affected @ [field]) merged)"

definition fieldThreeWayResult :: "number_text \<Rightarrow> sync_record option \<Rightarrow> jsval \<Rightarrow> sync_record option \<Rightarrow>
    string \<Rightarrow> string \<Rightarrow> jsval" where
  "fieldThreeWayResult num baseRecord mutation serverRecord strategy versionAttribute =
     (case (baseRecord, serverRecord) of
        (Some base, Some server) \<Rightarrow>
          (case merge_fields num base server (mutationAttributesFor mutation) [] [] of
             (affectedFields, mergedAttributes) \<Rightarrow>
               if affectedFields \<noteq> [] then conflictResult (Some affectedFields) baseRecord mutation serverRecord strategy versionAttribute
               else applied_result mergedAttributes strategy)
      | _ \<Rightarrow> applied_result (mutationAttributesFor mutation) strategy)"

text \<open>\<open>String(v)\<close>, and \<open>{strategy, ...result}\<close>.\<close>

fun js_String :: "number_text \<Rightarrow> jsval \<Rightarrow> string" where
  "js_String num JUndef = ''undefined''"
| "js_String num JNull = ''null''"
| "js_String num (JBool b) = (if b then ''true'' else ''false'')"
| "js_String num (JNum n) = (case n of Fin q \<Rightarrow> num q | NaN \<Rightarrow> ''NaN'' | PosInf \<Rightarrow> ''Infinity'' | NegInf \<Rightarrow> ''-Infinity'')"
| "js_String num (JStr s) = s"
| "js_String num (JArr xs) = join_comma (map (\<lambda>x. if x = JUndef \<or> x = JNull then [] else js_String num x) xs)"
| "js_String num (JObj fs) = ''[object Object]''"

definition define_property :: "(string \<times> jsval) list \<Rightarrow> string \<Rightarrow> jsval \<Rightarrow> (string \<times> jsval) list" where
  "define_property fs k v =
     (if k \<in> fst ` set fs then map (\<lambda>(k', v'). if k' = k then (k', v) else (k', v')) fs
      else case array_index k of Some i \<Rightarrow> insert_index i (k, v) fs | None \<Rightarrow> fs @ [(k, v)])"

definition normalizeConflictResult :: "number_text \<Rightarrow> jsval \<Rightarrow> string \<Rightarrow> sync_error + jsval" where
  "normalizeConflictResult num result strategy =
     (case result of
        JObj fs \<Rightarrow>
          if js_String num (field_value fs ''status'') \<notin> set [''applied'', ''conflict'', ''rejected''] then Inl Handler_Unknown_Status
          else Inr (JObj (foldl (\<lambda>acc (k, v). define_property acc k v) [(''strategy'', JStr strategy)] fs))
      | _ \<Rightarrow> Inl Handler_Returned_No_Object)"

definition CONFLICT_STRATEGIES :: "string list" where
  "CONFLICT_STRATEGIES = [''optimisticVersion'', ''serverWins'', ''lastWriterWins'', ''fieldThreeWay'', ''appendOnly'']"

type_synonym conflict_handler = "sync_record option \<Rightarrow> jsval \<Rightarrow> sync_record option \<Rightarrow> string \<Rightarrow> string \<Rightarrow> jsval"

definition resolveSyncConflict :: "number_text \<Rightarrow> sync_record option \<Rightarrow> conflict_handler option \<Rightarrow> jsval \<Rightarrow>
    sync_record option \<Rightarrow> string \<Rightarrow> string \<Rightarrow> sync_error + jsval" where
  "resolveSyncConflict num baseRecord customHandler mutation serverRecord strategy versionAttribute =
     (case customHandler of
        Some handler \<Rightarrow> normalizeConflictResult num (handler baseRecord mutation serverRecord strategy versionAttribute) strategy
      | None \<Rightarrow>
          if strategy \<notin> set CONFLICT_STRATEGIES then Inl (Unknown_Strategy strategy)
          else if strategy = ''appendOnly'' \<or> strategy = ''lastWriterWins'' then
            Inr (applied_result (mutationAttributesFor mutation) strategy)
          else if strategy = ''fieldThreeWay'' then
            Inr (fieldThreeWayResult num baseRecord mutation serverRecord strategy versionAttribute)
          else if hasVersionConflict num mutation serverRecord versionAttribute then
            Inr (conflictResult None baseRecord mutation serverRecord strategy versionAttribute)
          else Inr (applied_result (mutationAttributesFor mutation) strategy))"

subsection \<open>Replay results\<close>

datatype mutation_status = Pending | Applied_Locally | Peer_Applied | Conflict | Rejected | Synced

definition replayResultHasFailedApplication :: "jsval \<Rightarrow> bool" where
  "replayResultHasFailedApplication result =
     (if obj_get result ''serverSequence'' = JNull \<or> obj_get result ''serverChangeFeedStatus'' = JStr ''error'' then True
      else (case obj_get result ''response'' of
              JObj fs \<Rightarrow> field_value fs ''status'' = JStr ''error''
            | _ \<Rightarrow> False))"

definition replayResultLocalStatus :: "jsval \<Rightarrow> sync_error + mutation_status" where
  "replayResultLocalStatus result =
     (let syncState = obj_get result ''syncState''; status = obj_get result ''status'' in
      if syncState = JStr ''conflict'' then Inr Conflict
      else if syncState = JStr ''failed'' \<or> syncState = JStr ''rejected'' then Inr Rejected
      else if syncState = JStr ''successful'' \<or> syncState = JStr ''duplicate'' then Inr Synced
      else if status = JStr ''conflict'' then Inr Conflict
      else if status = JStr ''error'' \<or> status = JStr ''rejected'' then Inr Rejected
      else if status = JStr ''success'' \<and> replayResultHasFailedApplication result then Inr Rejected
      else if status = JStr ''success'' \<or> status = JStr ''applied'' \<or> status = JStr ''duplicate'' then Inr Synced
      else Inl Unknown_Replay_Status)"

end
