(* ===== verification/Sync_Conflict_Claims.thy ===== *)
theory Sync_Conflict_Claims
  imports Sync_Conflict
begin

text \<open>
  Claims about the conflict strategies. The comparison of JSON texts is shown to be equality up to the
  order of properties, so what the three-way merge lets through can be stated on values.
\<close>

subsection \<open>Texts are uniquely readable\<close>

text \<open>JSON values proper, and the value with the properties of every object sorted.\<close>

fun json_data :: "jsval \<Rightarrow> bool" where
  "json_data JUndef = False"
| "json_data (JNum n) = (case n of Fin _ \<Rightarrow> True | _ \<Rightarrow> False)"
| "json_data (JArr xs) = list_all json_data xs"
| "json_data (JObj fs) = list_all (\<lambda>p. json_data (snd p)) fs"
| "json_data v = True"

fun sort_properties :: "jsval \<Rightarrow> jsval" where
  "sort_properties (JArr xs) = JArr (map sort_properties xs)"
| "sort_properties (JObj fs) = JObj (sort_key fst (map (\<lambda>p. (fst p, sort_properties (snd p))) fs))"
| "sort_properties v = v"

text \<open>What the language promises of the text of a number.\<close>

definition number_chars :: string where
  "number_chars = ''0123456789+-.e''"

definition number_text_ok :: "number_text \<Rightarrow> bool" where
  "number_text_ok num \<longleftrightarrow> inj num \<and> (\<forall>q. num q \<noteq> [] \<and> set (num q) \<subseteq> set number_chars)"

fun raw_text :: "number_text \<Rightarrow> jsval \<Rightarrow> string" where
  "raw_text num (JArr xs) = CHR ''['' # join_comma (map (raw_text num) xs) @ '']''"
| "raw_text num (JObj fs) = CHR ''{'' # join_comma (map (\<lambda>p. json_quote (fst p) @ CHR '':'' # raw_text num (snd p)) fs) @ ''}''"
| "raw_text num v = (case stable_text num v of None \<Rightarrow> [] | Some s \<Rightarrow> s)"

lemma stable_text_raw: "json_data v \<Longrightarrow> stable_text num v = Some (raw_text num (sort_properties v))"
proof (induction v)
  case (JArr xs)
  then have "map (\<lambda>x. case stable_text num x of None \<Rightarrow> [] | Some s \<Rightarrow> s) xs = map (raw_text num \<circ> sort_properties) xs"
    by (auto simp: list_all_iff)
  then show ?case by (simp only: stable_text.simps sort_properties.simps raw_text.simps map_map append_Cons append_Nil)
next
  case (JObj fs)
  let ?t = "\<lambda>p. (fst p, case stable_text num (snd p) of None \<Rightarrow> ''undefined'' | Some s \<Rightarrow> s)"
  have "map ?t fs = map (\<lambda>p. (fst p, raw_text num (snd p))) (map (\<lambda>p. (fst p, sort_properties (snd p))) fs)"
    using JObj by (auto simp: list_all_iff snds.simps)
  then have "sort_key fst (map ?t fs) =
      map (\<lambda>p. (fst p, raw_text num (snd p))) (sort_key fst (map (\<lambda>p. (fst p, sort_properties (snd p))) fs))"
    by (simp only: sort_key_map_snd)
  then show ?case by (simp add: comp_def)
qed auto

fun unescape :: "string \<Rightarrow> (nat \<times> string) option" where
  "unescape (c # cs) =
     (if c \<noteq> CHR 0x5C then Some (of_char c, cs)
      else (case cs of
          [] \<Rightarrow> None
        | d # ds \<Rightarrow>
            if d = CHR ''b'' then Some (8, ds) else if d = CHR ''t'' then Some (9, ds)
            else if d = CHR ''n'' then Some (10, ds) else if d = CHR ''f'' then Some (12, ds)
            else if d = CHR ''r'' then Some (13, ds)
            else if d = CHR ''u'' then Some (digit_value (ds ! 2) * 16 + digit_value (ds ! 3), drop 4 ds)
            else Some (of_char d, ds)))"
| "unescape [] = None"

lemma hex_digit_value: "n < 16 \<Longrightarrow> digit_value (hex_digit n) = n"
  by (simp add: digit_value_def hex_digit_def Let_def)

lemma of_char_eq: "(of_char c = (n :: nat)) \<longleftrightarrow> n < 256 \<and> c = char_of n"
  by auto

lemma unescape_escape: "unescape (json_escape c @ x) = Some (of_char c, x)"
proof -
  define n :: nat where "n = of_char c"
  consider "n = 34" | "n = 92" | "n \<in> {8, 9, 10, 12, 13}" | "n < 32" "n \<notin> {8, 9, 10, 12, 13}"
    | "32 \<le> n" "n \<noteq> 34" "n \<noteq> 92" by fastforce
  then show ?thesis
  proof cases
    case 3
    then show ?thesis by (auto simp: json_escape_def n_def [symmetric])
  next
    case 4
    then have "json_escape c = [CHR 0x5C, CHR ''u'', CHR ''0'', CHR ''0'', hex_digit (n div 16), hex_digit (n mod 16)]"
      by (simp add: json_escape_def n_def [symmetric])
    moreover have "n div 16 < 16" using \<open>n < 32\<close> by simp
    ultimately show ?thesis by (simp add: hex_digit_value n_def [symmetric])
  next
    case 5
    then have "json_escape c = [c]" by (simp add: json_escape_def n_def [symmetric])
    moreover have "c \<noteq> CHR 0x5C" using \<open>n \<noteq> 92\<close> by (auto simp: n_def)
    ultimately show ?thesis by (simp add: n_def)
  qed (simp_all add: json_escape_def n_def [symmetric])
qed

lemma escape_prefix: "json_escape c @ x = json_escape d @ y \<Longrightarrow> c = d \<and> x = y"
proof -
  assume "json_escape c @ x = json_escape d @ y"
  then have "Some (of_char c :: nat, x) = Some (of_char d, y)"
    by (metis unescape_escape)
  then show ?thesis by simp
qed

lemma escape_not_quote: "json_escape c @ x \<noteq> CHR 0x22 # y"
  by (auto simp: json_escape_def Let_def)

lemma escapes_prefix:
  "concat (map json_escape s) @ CHR 0x22 # x = concat (map json_escape t) @ CHR 0x22 # y \<Longrightarrow> s = t \<and> x = y"
proof (induction s arbitrary: t)
  case Nil
  then show ?case
    by (cases t) (simp_all, metis escape_not_quote)
next
  case (Cons c s)
  show ?case
  proof (cases t)
    case Nil
    then show ?thesis using Cons.prems by (simp add: escape_not_quote)
  next
    case (Cons d t')
    with Cons.prems have "json_escape c @ concat (map json_escape s) @ CHR 0x22 # x =
        json_escape d @ concat (map json_escape t') @ CHR 0x22 # y" by simp
    from escape_prefix [OF this] have "c = d" "concat (map json_escape s) @ CHR 0x22 # x = concat (map json_escape t') @ CHR 0x22 # y"
      by auto
    with Cons.IH Cons show ?thesis by blast
  qed
qed

lemma quote_prefix: "json_quote s @ x = json_quote t @ y \<Longrightarrow> s = t \<and> x = y"
  using escapes_prefix [of s x t y] by (simp add: json_quote_def)

definition delimited :: "string \<Rightarrow> bool" where
  "delimited r \<longleftrightarrow> r = [] \<or> hd r \<in> set '',]}''"

lemma delimited_simps [simp]: "delimited []" "delimited (c # r) \<longleftrightarrow> c \<in> set '',]}''"
  by (simp_all add: delimited_def)

text \<open>The texts of the elements, each followed by a comma or the closing bracket.\<close>

lemma join_comma_simps [simp]:
  "join_comma [] = []" "join_comma [p] = p" "join_comma (p # q # ps) = p @ CHR '','' # join_comma (q # ps)"
  by (simp_all add: join_comma_def)

lemma join_comma_tail:
  "\<exists>z. join_comma (p # ps) @ c # r = p @ z \<and> (ps = [] \<longrightarrow> z = c # r) \<and> (ps \<noteq> [] \<longrightarrow> z = CHR '','' # join_comma ps @ c # r)"
  by (cases ps) simp_all

lemma join_prefix:
  assumes "\<And>x y r s. x \<in> set xs \<Longrightarrow> y \<in> set ys \<Longrightarrow> f x @ r = f y @ s \<Longrightarrow> delimited r \<Longrightarrow> delimited s \<Longrightarrow> x = y \<and> r = s"
    and "\<And>x. x \<in> set xs \<union> set ys \<Longrightarrow> f x \<noteq> [] \<and> hd (f x) \<noteq> c" "c \<in> set '']}''"
    and "join_comma (map f xs) @ c # r = join_comma (map f ys) @ c # s"
  shows "xs = ys \<and> r = s"
  using assms
proof (induction xs arbitrary: ys)
  case Nil
  show ?case
  proof (cases ys)
    case (Cons y ys')
    with Nil.prems(2) [of y] obtain d ds where "f y = d # ds" "d \<noteq> c" by (cases "f y") auto
    with Cons Nil.prems(4) join_comma_tail [of "f y" "map f ys'" c s] show ?thesis by auto
  qed (use Nil in simp)
next
  case (Cons x xs)
  show ?case
  proof (cases ys)
    case Nil
    with Cons.prems(2) [of x] obtain d ds where "f x = d # ds" "d \<noteq> c" by (cases "f x") auto
    with Nil Cons.prems(4) join_comma_tail [of "f x" "map f xs" c r] show ?thesis by auto
  next
    case ys: (Cons y ys')
    obtain z where z: "join_comma (f x # map f xs) @ c # r = f x @ z" "xs = [] \<longrightarrow> z = c # r"
        "xs \<noteq> [] \<longrightarrow> z = CHR '','' # join_comma (map f xs) @ c # r"
      using join_comma_tail [of "f x" "map f xs" c r] by auto
    obtain w where w: "join_comma (f y # map f ys') @ c # s = f y @ w" "ys' = [] \<longrightarrow> w = c # s"
        "ys' \<noteq> [] \<longrightarrow> w = CHR '','' # join_comma (map f ys') @ c # s"
      using join_comma_tail [of "f y" "map f ys'" c s] by auto
    have d: "delimited z" "delimited w" using z w Cons.prems(3) by (cases xs; auto)+
    have "f x @ z = f y @ w" using Cons.prems(4) ys z(1) w(1) by simp
    with Cons.prems(1) [of x y z w] d ys have xy: "x = y" "z = w" by auto
    show ?thesis
    proof (cases "xs = [] \<or> ys' = []")
      case True
      with z w xy Cons.prems(3) have "xs = [] \<and> ys' = [] \<and> r = s" by (cases "xs = []"; cases "ys' = []") auto
      with xy ys show ?thesis by simp
    next
      case False
      with z w xy have "join_comma (map f xs) @ c # r = join_comma (map f ys') @ c # s" by simp
      moreover have "\<And>x y r s. x \<in> set xs \<Longrightarrow> y \<in> set ys' \<Longrightarrow> f x @ r = f y @ s \<Longrightarrow> delimited r \<Longrightarrow> delimited s \<Longrightarrow> x = y \<and> r = s"
        using Cons.prems(1) ys by (metis list.set_intros(2))
      ultimately have "xs = ys' \<and> r = s"
        using Cons.prems(2,3) ys by (intro Cons.IH) auto
      with xy ys show ?thesis by simp
    qed
  qed
qed

lemma number_prefix:
  assumes "number_text_ok num" "num p @ r = num q @ s" "delimited r" "delimited s"
  shows "p = q \<and> r = s"
proof -
  let ?digit = "\<lambda>c. c \<notin> set '',]}''"
  have all: "\<forall>c \<in> set (num x). ?digit c" for x
    using assms(1) unfolding number_text_ok_def number_chars_def by fastforce
  have "takeWhile ?digit (num x @ t) = num x" if "delimited t" for x t
    using all [of x] that by (cases t) (simp_all add: takeWhile_append)
  with assms(2-4) have "num p = num q" by metis
  with assms show ?thesis by (auto simp: number_text_ok_def dest: injD)
qed

text \<open>The characters a text may start with tell what kind of value it is the text of.\<close>

fun leads :: "jsval \<Rightarrow> string" where
  "leads (JArr _) = ''[''"
| "leads (JObj _) = ''{''"
| "leads (JStr _) = [CHR 0x22]"
| "leads JNull = ''n''"
| "leads (JBool b) = (if b then ''t'' else ''f'')"
| "leads (JNum _) = number_chars"
| "leads JUndef = []"

lemma raw_text_lead:
  assumes "number_text_ok num" "json_data v"
  shows "raw_text num v \<noteq> [] \<and> hd (raw_text num v) \<in> set (leads v)"
proof (cases v)
  case (JNum n)
  with assms obtain q where q: "n = Fin q" by (cases n) auto
  then have "raw_text num v = num q" using JNum by simp
  moreover have "num q \<noteq> []" "set (num q) \<subseteq> set number_chars" using assms(1) unfolding number_text_ok_def by blast+
  ultimately show ?thesis unfolding JNum leads.simps by (metis hd_in_set subsetD)
qed (use assms in \<open>auto simp: json_quote_def\<close>)

lemma same_lead:
  assumes "number_text_ok num" "json_data a" "json_data b" "raw_text num a @ r = raw_text num b @ s"
  shows "\<exists>c. c \<in> set (leads a) \<and> c \<in> set (leads b)"
  using raw_text_lead [OF assms(1,2)] raw_text_lead [OF assms(1,3)] assms(4)
  by (metis hd_append2)

lemma raw_text_prefix:
  assumes num: "number_text_ok num"
  shows "json_data a \<Longrightarrow> json_data b \<Longrightarrow> raw_text num a @ r = raw_text num b @ s \<Longrightarrow> delimited r \<Longrightarrow> delimited s \<Longrightarrow>
    a = b \<and> r = s"
proof (induction a arbitrary: b r s)
  case (JArr xs)
  from same_lead [OF num JArr.prems(1-3)] obtain ys where b: "b = JArr ys" by (cases b) (auto simp: number_chars_def split: if_splits)
  have "xs = ys \<and> r = s"
  proof (rule join_prefix [where f = "raw_text num" and c = "CHR '']''"])
    show "x = y \<and> r = s" if "x \<in> set xs" "y \<in> set ys" "raw_text num x @ r = raw_text num y @ s"
        "delimited r" "delimited s" for x y r s
      using that JArr.prems(1,2) b by (intro JArr.IH [of x]) (simp_all add: list_all_iff)
    show "raw_text num x \<noteq> [] \<and> hd (raw_text num x) \<noteq> CHR '']''" if "x \<in> set xs \<union> set ys" for x
    proof -
      have "json_data x" using that JArr.prems(1,2) b by (auto simp: list_all_iff)
      from raw_text_lead [OF num this] show ?thesis by (cases x) (auto simp: number_chars_def split: if_splits)
    qed
    show "join_comma (map (raw_text num) xs) @ CHR '']'' # r = join_comma (map (raw_text num) ys) @ CHR '']'' # s"
      using JArr.prems(3) b by simp
  qed simp
  with b show ?case by simp
next
  case (JObj fs)
  from same_lead [OF num JObj.prems(1-3)] obtain gs where b: "b = JObj gs" by (cases b) (auto simp: number_chars_def split: if_splits)
  let ?f = "\<lambda>p. json_quote (fst p) @ CHR '':'' # raw_text num (snd p)"
  have "fs = gs \<and> r = s"
  proof (rule join_prefix [where f = ?f and c = "CHR ''}''"])
    show "p = q \<and> r = s" if "p \<in> set fs" "q \<in> set gs" "?f p @ r = ?f q @ s" "delimited r" "delimited s" for p q r s
    proof -
      from that(3) quote_prefix [of "fst p" "CHR '':'' # raw_text num (snd p) @ r" "fst q" "CHR '':'' # raw_text num (snd q) @ s"]
      have "fst p = fst q" "raw_text num (snd p) @ r = raw_text num (snd q) @ s" by simp_all
      moreover have "json_data (snd p)" "json_data (snd q)"
        using that(1,2) JObj.prems(1,2) b by (auto simp: list_all_iff)
      ultimately have "snd p = snd q \<and> r = s" using JObj.IH [of p "snd p" "snd q" r s] that by (auto simp: snds.simps)
      with \<open>fst p = fst q\<close> show ?thesis by (simp add: prod_eq_iff)
    qed
    show "join_comma (map ?f fs) @ CHR ''}'' # r = join_comma (map ?f gs) @ CHR ''}'' # s"
      using JObj.prems(3) b by simp
  qed (auto simp: json_quote_def)
  with b show ?case by simp
next
  case (JStr t)
  from same_lead [OF num JStr.prems(1-3)] obtain u where b: "b = JStr u" by (cases b) (auto simp: number_chars_def split: if_splits)
  with JStr.prems(3) quote_prefix [of t r u s] show ?case by simp
next
  case (JNum n)
  from same_lead [OF num JNum.prems(1-3)] obtain m where b: "b = JNum m" by (cases b) (auto simp: number_chars_def split: if_splits)
  from JNum b obtain p q where "n = Fin p" "m = Fin q" by (cases n; cases m) auto
  with JNum.prems(3-5) b number_prefix [OF num, of p r q s] show ?case by simp
next
  case (JBool x)
  from same_lead [OF num JBool.prems(1-3)] obtain y where b: "b = JBool y" by (cases b) (auto simp: number_chars_def split: if_splits)
  with JBool.prems(3) show ?case by (auto split: if_splits)
next
  case JNull
  from same_lead [OF num JNull.prems(1-3)] have b: "b = JNull" by (cases b) (auto simp: number_chars_def split: if_splits)
  with JNull.prems(3) show ?case by simp
qed simp

lemma sort_properties_data: "json_data v \<Longrightarrow> json_data (sort_properties v)"
  by (induction v) (auto simp: list_all_iff snds.simps)

lemma text_equality:
  assumes num: "number_text_ok num" and a: "json_data a \<or> a = JUndef" and b: "json_data b \<or> b = JUndef"
  shows "jsonValuesEqual num a b \<longleftrightarrow> sort_properties a = sort_properties b"
proof (cases "a = JUndef \<or> b = JUndef")
  case True
  with a b stable_text_raw [of a num] stable_text_raw [of b num] show ?thesis
    by (cases a; cases b) (auto simp: jsonValuesEqual_def split: jsnum.splits)
next
  case False
  with a b have "json_data a" "json_data b" by simp_all
  with raw_text_prefix [OF num sort_properties_data sort_properties_data, of a b "[]" "[]"] show ?thesis
    by (auto simp: jsonValuesEqual_def stable_text_raw)
qed

subsection \<open>The three-way merge\<close>

text \<open>A list of properties in the order in which an object made of them enumerates them.\<close>

definition own_order :: "(string \<times> jsval) list \<Rightarrow> bool" where
  "own_order fs \<longleftrightarrow> foldl (\<lambda>acc (k, v). obj_set acc k v) [] fs = fs"

definition same_value :: "jsval \<Rightarrow> jsval \<Rightarrow> bool" where
  "same_value a b \<longleftrightarrow> sort_properties a = sort_properties b"

text \<open>The server changed the field since the base, and not to the value the client wants.\<close>

definition field_conflict :: "sync_record \<Rightarrow> sync_record \<Rightarrow> string \<times> jsval \<Rightarrow> bool" where
  "field_conflict base server p \<longleftrightarrow>
     \<not> same_value (field_value (sr_attributes server) (fst p)) (field_value (sr_attributes base) (fst p)) \<and>
     \<not> same_value (field_value (sr_attributes server) (fst p)) (snd p)"

text \<open>The record the server keeps when attributes are applied to it.\<close>

definition after_apply :: "(string \<times> jsval) list \<Rightarrow> sync_record \<Rightarrow> string \<Rightarrow> jsval" where
  "after_apply attributes server f =
     (case map_of attributes f of Some v \<Rightarrow> v | None \<Rightarrow> field_value (sr_attributes server) f)"

lemma json_clone_data: "v \<noteq> JUndef \<Longrightarrow> json_data (json_clone v)"
  by (induction v) (auto simp: list_all_iff snds.simps split: jsnum.splits)

lemma mutation_attributes_data: "list_all (\<lambda>p. json_data (snd p)) (mutationAttributesFor mutation)"
proof (cases "obj_get mutation ''attributes''")
  case (JObj fs)
  then have "JObj (mutationAttributesFor mutation) = json_clone (JObj fs)" by (simp add: mutationAttributesFor_def)
  moreover have "json_data (json_clone (JObj fs))" by (rule json_clone_data) simp
  ultimately show ?thesis by (metis json_data.simps(4))
qed (simp_all add: mutationAttributesFor_def)

lemma field_value_data:
  "list_all (\<lambda>p. json_data (snd p)) fs \<Longrightarrow> json_data (field_value fs k) \<or> field_value fs k = JUndef"
  by (auto simp: field_value_def list_all_iff split: option.split dest!: map_of_SomeD)

lemma merge_fields_result:
  assumes "\<And>p. p \<in> set fs \<Longrightarrow> conf p \<longleftrightarrow>
      \<not> jsonValuesEqual num (field_value (sr_attributes server) (fst p)) (field_value (sr_attributes base) (fst p)) \<and>
      \<not> jsonValuesEqual num (field_value (sr_attributes server) (fst p)) (snd p)"
  shows "merge_fields num base server fs affected merged =
    (affected @ map fst (filter conf fs), foldl (\<lambda>acc (k, v). obj_set acc k v) merged (filter (\<lambda>p. \<not> conf p) fs))"
  using assms
proof (induction fs arbitrary: affected merged)
  case Nil
  show ?case by simp
next
  case (Cons p fs)
  then show ?case by (cases p) (auto simp: Let_def)
qed

text \<open>
  C24: A field-level three-way merge reports exactly the fields that the server has changed
  since the client's base to something else than the client's value, where values are compared up to
  the order of properties. When there is none, the mutation's attributes are applied as they are, and
  then no field the server has changed loses its value.
\<close>

theorem three_way_merge:
  fixes base server :: sync_record and mutation :: jsval
  defines "attributes \<equiv> mutationAttributesFor mutation"
  defines "conflicts \<equiv> map fst (filter (field_conflict base server) attributes)"
  assumes "number_text_ok num"
    and "list_all (\<lambda>p. json_data (snd p)) (sr_attributes base)" "list_all (\<lambda>p. json_data (snd p)) (sr_attributes server)"
    and "own_order attributes"
  shows "resolveSyncConflict num (Some base) None mutation (Some server) ''fieldThreeWay'' versionAttribute =
      Inr (if conflicts = [] then applied_result attributes ''fieldThreeWay''
           else conflictResult (Some conflicts) (Some base) mutation (Some server) ''fieldThreeWay'' versionAttribute) \<and>
    (conflicts = [] \<longrightarrow> (\<forall>f. same_value (field_value (sr_attributes server) f) (field_value (sr_attributes base) f) \<or>
       same_value (after_apply attributes server f) (field_value (sr_attributes server) f)))"
proof -
  have m: "merge_fields num base server attributes [] [] =
      (conflicts, foldl (\<lambda>acc (k, v). obj_set acc k v) [] (filter (\<lambda>p. \<not> field_conflict base server p) attributes))"
    unfolding conflicts_def
  proof (subst merge_fields_result [where conf = "field_conflict base server"])
    fix p
    assume "p \<in> set attributes"
    then have "json_data (snd p)"
      using mutation_attributes_data [of mutation] by (auto simp: attributes_def list_all_iff)
    then show "field_conflict base server p \<longleftrightarrow>
        \<not> jsonValuesEqual num (field_value (sr_attributes server) (fst p)) (field_value (sr_attributes base) (fst p)) \<and>
        \<not> jsonValuesEqual num (field_value (sr_attributes server) (fst p)) (snd p)"
      using assms(3-5) field_value_data by (simp add: text_equality field_conflict_def same_value_def)
  qed simp
  have none: "filter (\<lambda>p. \<not> field_conflict base server p) attributes = attributes" if "conflicts = []"
    using that by (auto simp: conflicts_def filter_empty_conv intro: filter_id_all)
  have "same_value (field_value (sr_attributes server) f) (field_value (sr_attributes base) f) \<or>
      same_value (after_apply attributes server f) (field_value (sr_attributes server) f)" if c: "conflicts = []" for f
  proof (cases "map_of attributes f")
    case (Some v)
    then have "(f, v) \<in> set attributes" by (rule map_of_SomeD)
    with c have "\<not> field_conflict base server (f, v)" by (auto simp: conflicts_def filter_empty_conv)
    with Some show ?thesis by (auto simp: field_conflict_def after_apply_def same_value_def)
  qed (simp add: after_apply_def same_value_def)
  with m none assms(6) show ?thesis
    by (auto simp: resolveSyncConflict_def CONFLICT_STRATEGIES_def fieldThreeWayResult_def own_order_def
        simp flip: attributes_def)
qed

text \<open>A text of numbers with the promised properties, and a merge it decides.\<close>

definition fraction_text :: number_text where
  "fraction_text q = bigint_string (fst (quotient_of q)) @ CHR ''e'' # decimal (nat (snd (quotient_of q)))"

definition decimal_digits :: string where
  "decimal_digits = map char_of [48..<58 :: nat]"

lemma decimal_digits_text: "decimal_digits = ''0123456789''"
  by code_simp

lemma digit_char: "is_digit 10 c \<Longrightarrow> c \<in> set decimal_digits"
proof -
  assume "is_digit 10 c"
  then have "of_char c \<in> set [48..<58 :: nat]"
    unfolding set_upt atLeastLessThan_iff
    by (simp add: is_digit_def digit_value_def Let_def split: if_splits)
  then have "c \<in> set (map char_of [48..<58 :: nat])" by (metis char_of_char image_eqI image_set)
  then show ?thesis by (simp only: decimal_digits_def)
qed

lemma decimal_chars: "c \<in> set (decimal n) \<Longrightarrow> c \<in> set decimal_digits"
  using decimal_props [of n] digit_char [of c] by (metis list_all_iff)

lemma bigint_chars: "c \<in> set (bigint_string z) \<Longrightarrow> c = CHR ''-'' \<or> c \<in> set decimal_digits"
  using decimal_chars [of c "nat z"] decimal_chars [of c "nat (- z)"]
  by (auto simp: bigint_string_def split: if_splits)

lemma fraction_text_ok: "number_text_ok fraction_text"
  unfolding number_text_ok_def
proof (intro conjI allI)
  show "inj fraction_text"
  proof (rule injI)
    fix p q
    assume e: "fraction_text p = fraction_text q"
    have "\<forall>c \<in> set (bigint_string z). c \<noteq> CHR ''e''" for z
      using bigint_chars [of _ z] by (auto simp: decimal_digits_text)
    then have t: "takeWhile (\<lambda>c. c \<noteq> CHR ''e'') (fraction_text x) = bigint_string (fst (quotient_of x))" for x
      by (simp add: fraction_text_def takeWhile_append)
    from e have "fst (quotient_of p) = fst (quotient_of q)" by (metis t bigint_of_string)
    moreover from this e have "decimal (nat (snd (quotient_of p))) = decimal (nat (snd (quotient_of q)))"
      by (simp add: fraction_text_def)
    then have "int (nat (snd (quotient_of p))) = int (nat (snd (quotient_of q)))" by (metis decimal_props)
    then have "snd (quotient_of p) = snd (quotient_of q)"
      using quotient_of_denom_pos' [of p] quotient_of_denom_pos' [of q] by simp
    ultimately show "p = q" by (metis prod.collapse quotient_of_inject)
  qed
  fix q
  show "fraction_text q \<noteq> []" by (simp add: fraction_text_def)
  show "set (fraction_text q) \<subseteq> set number_chars"
  proof
    fix c
    assume "c \<in> set (fraction_text q)"
    then have "c = CHR ''e'' \<or> c = CHR ''-'' \<or> c \<in> set decimal_digits"
      using bigint_chars [of c "fst (quotient_of q)"] decimal_chars [of c "nat (snd (quotient_of q))"]
      by (auto simp: fraction_text_def)
    then show "c \<in> set number_chars" by (auto simp: number_chars_def decimal_digits_text)
  qed
qed

lemma three_way_merge_witness:
  "resolveSyncConflict fraction_text (Some \<lparr>sr_attributes = [(''a'', JNum (Fin 1)), (''b'', JNum (Fin 1))], sr_version = JUndef\<rparr>) None
     (JObj [(''attributes'', JObj [(''a'', JNum (Fin 5))])])
     (Some \<lparr>sr_attributes = [(''a'', JNum (Fin 1)), (''b'', JNum (Fin 2))], sr_version = JUndef\<rparr>) ''fieldThreeWay'' ''updatedAt'' =
   Inr (applied_result [(''a'', JNum (Fin 5))] ''fieldThreeWay'')"
proof -
  let ?base = "\<lparr>sr_attributes = [(''a'', JNum (Fin 1)), (''b'', JNum (Fin 1))], sr_version = JUndef\<rparr>"
  let ?server = "\<lparr>sr_attributes = [(''a'', JNum (Fin 1)), (''b'', JNum (Fin 2))], sr_version = JUndef\<rparr>"
  let ?mutation = "JObj [(''attributes'', JObj [(''a'', JNum (Fin 5))])]"
  have m: "mutationAttributesFor ?mutation = [(''a'', JNum (Fin 5))]"
    by (simp add: mutationAttributesFor_def obj_get_def)
  have "own_order [(''a'', JNum (Fin 5))]"
    by (simp add: own_order_def obj_set_def array_index_def is_digit_def digit_value_def)
  then show ?thesis
    using three_way_merge [of fraction_text ?base ?server ?mutation "''updatedAt''", OF fraction_text_ok]
    by (simp add: m field_conflict_def same_value_def field_value_def)
qed

end
