(* ===== verification/Base64_Url.thy ===== *)
theory Base64_Url
  imports Js_Value
begin

text \<open>
  The URL-safe base64 of signatures (\<open>base64UrlEncode\<close> and \<open>base64UrlDecode\<close> in
  \<open>src/src/sync/device-identity.js\<close>) on top of the web platform's \<open>btoa\<close> and
  \<open>atob\<close>. A byte array is the string of its bytes, as \<open>String.fromCharCode\<close> makes it.
\<close>

subsection \<open>The alphabet\<close>

definition b64_char :: "nat \<Rightarrow> char" where
  "b64_char n =
     (if n < 26 then char_of (65 + n) else if n < 52 then char_of (71 + n) else if n < 62 then char_of (n - 4)
      else if n = 62 then CHR ''+'' else CHR ''/'')"

definition b64_value :: "char \<Rightarrow> nat option" where
  "b64_value c =
     (let n = of_char c in
      if 65 \<le> n \<and> n \<le> 90 then Some (n - 65) else if 97 \<le> n \<and> n \<le> 122 then Some (n - 71)
      else if 48 \<le> n \<and> n \<le> 57 then Some (n + 4) else if n = 43 then Some 62 else if n = 47 then Some 63 else None)"

abbreviation byte :: "char \<Rightarrow> nat" where "byte c \<equiv> of_char c"

subsection \<open>\<open>btoa\<close> and \<open>atob\<close>\<close>

fun btoa :: "string \<Rightarrow> string" where
  "btoa (a # b # c # rest) =
     b64_char (byte a div 4) # b64_char (byte a mod 4 * 16 + byte b div 16) #
     b64_char (byte b mod 16 * 4 + byte c div 64) # b64_char (byte c mod 64) # btoa rest"
| "btoa [a, b] =
     [b64_char (byte a div 4), b64_char (byte a mod 4 * 16 + byte b div 16), b64_char (byte b mod 16 * 4), CHR ''='']"
| "btoa [a] = [b64_char (byte a div 4), b64_char (byte a mod 4 * 16), CHR ''='', CHR ''='']"
| "btoa [] = []"

text \<open>The bytes of a list of six-bit values; a rest of fewer than eight bits is dropped.\<close>

fun b64_bytes :: "nat list \<Rightarrow> string" where
  "b64_bytes (p # q # r # s # rest) =
     char_of (p * 4 + q div 16) # char_of (q mod 16 * 16 + r div 4) # char_of (r mod 4 * 64 + s) # b64_bytes rest"
| "b64_bytes [p, q, r] = [char_of (p * 4 + q div 16), char_of (q mod 16 * 16 + r div 4)]"
| "b64_bytes [p, q] = [char_of (p * 4 + q div 16)]"
| "b64_bytes _ = []"

definition b64_space :: "char \<Rightarrow> bool" where
  "b64_space c = (byte c \<in> {9, 10, 12, 13, 32})"

definition strip_padding :: "string \<Rightarrow> string" where
  "strip_padding s =
     (if length s mod 4 = 0 \<and> s \<noteq> [] \<and> last s = CHR ''='' then
        (if butlast s \<noteq> [] \<and> last (butlast s) = CHR ''='' then butlast (butlast s) else butlast s)
      else s)"

definition atob :: "string \<Rightarrow> string option" where
  "atob s =
     (let t = strip_padding (filter (\<lambda>c. \<not> b64_space c) s); vs = map b64_value t in
      if length t mod 4 = 1 \<or> None \<in> set vs then None else Some (b64_bytes (map the vs)))"

subsection \<open>The URL-safe variant\<close>

definition replace_char :: "char \<Rightarrow> char \<Rightarrow> string \<Rightarrow> string" where
  "replace_char a b s = map (\<lambda>c. if c = a then b else c) s"

definition base64UrlEncode :: "string \<Rightarrow> string" where
  "base64UrlEncode bytes =
     filter (\<lambda>c. c \<noteq> CHR ''='') (replace_char (CHR ''/'') (CHR ''_'') (replace_char (CHR ''+'') (CHR ''-'') (btoa bytes)))"

definition padEnd :: "nat \<Rightarrow> char \<Rightarrow> string \<Rightarrow> string" where
  "padEnd n c s = s @ replicate (n - length s) c"

definition base64UrlDecode :: "string \<Rightarrow> string option" where
  "base64UrlDecode value =
     atob (padEnd ((length value + 3) div 4 * 4) (CHR ''='')
       (replace_char (CHR ''_'') (CHR ''/'') (replace_char (CHR ''-'') (CHR ''+'') value)))"

subsection \<open>The round trip\<close>

lemma b64_char_cases:
  assumes "n < 64"
  shows "b64_value (b64_char n) = Some n \<and> b64_char n \<noteq> CHR ''='' \<and> b64_char n \<noteq> CHR ''-'' \<and> b64_char n \<noteq> CHR ''_'' \<and>
    \<not> b64_space (b64_char n)"
proof -
  have b: "byte (b64_char n) = (if n < 26 then 65 + n else if n < 52 then 71 + n else if n < 62 then n - 4 else if n = 62 then 43 else 47)"
    using assms by (simp add: b64_char_def)
  have "byte (b64_char n) \<notin> {61, 45, 95} \<union> {9, 10, 12, 13, 32}"
    using assms by (auto simp: b)
  then have "b64_char n \<noteq> CHR ''='' \<and> b64_char n \<noteq> CHR ''-'' \<and> b64_char n \<noteq> CHR ''_'' \<and> \<not> b64_space (b64_char n)"
    by (auto simp: b64_space_def)
  moreover have "b64_value (b64_char n) = Some n"
    using assms by (auto simp: b64_value_def Let_def b)
  ultimately show ?thesis by blast
qed

text \<open>The six-bit values behind \<open>btoa\<close>, without the padding.\<close>

fun sextets :: "string \<Rightarrow> nat list" where
  "sextets (a # b # c # rest) =
     byte a div 4 # (byte a mod 4 * 16 + byte b div 16) # (byte b mod 16 * 4 + byte c div 64) # byte c mod 64 # sextets rest"
| "sextets [a, b] = [byte a div 4, byte a mod 4 * 16 + byte b div 16, byte b mod 16 * 4]"
| "sextets [a] = [byte a div 4, byte a mod 4 * 16]"
| "sextets [] = []"

lemma byte_less [simp]: "byte c < 256"
  by (rule nat_of_char_less_256)

lemma byte_bounds [simp]: "byte c div 4 < 64" "byte c div 16 < 16" "byte c div 64 < 4"
  using byte_less [of c] by (simp_all add: less_mult_imp_div_less)

lemma sextets_bound: "n \<in> set (sextets bs) \<Longrightarrow> n < 64"
proof (induction bs rule: sextets.induct)
  case (1 a b c rest)
  have "byte a mod 4 < 4" "byte b mod 16 < 16" "byte c mod 64 < 64" by simp_all
  moreover have "byte b div 16 < 16" "byte c div 64 < 4" "byte a div 4 < 64" by simp_all
  ultimately have "byte a mod 4 * 16 + byte b div 16 < 64" "byte b mod 16 * 4 + byte c div 64 < 64"
    by linarith+
  with 1 show ?case by auto
next
  case (2 a b)
  have "byte a mod 4 < 4" "byte b mod 16 < 16" "byte b div 16 < 16" by simp_all
  then have "byte a mod 4 * 16 + byte b div 16 < 64" "byte b mod 16 * 4 < 64" by linarith+
  with 2 show ?case by auto
next
  case (3 a)
  have "byte a mod 4 < 4" by simp
  then have "byte a mod 4 * 16 < 64" by linarith
  with 3 show ?case by auto
qed simp

lemma join_parts:
  "x mod 4 * 16 div 16 = (x :: nat) mod 4" "(x mod 4 * 16 + y) div 16 = x mod 4 + y div 16"
  "(x mod 4 * 16 + y) mod 16 = y mod 16" "(x mod 16 * 4 + y) div 4 = x mod 16 + y div 4"
  "(x mod 16 * 4 + y) mod 4 = y mod 4"
  by (simp_all add: div_add1_eq)

lemma b64_bytes_sextets: "b64_bytes (sextets bs) = bs"
proof (induction bs rule: sextets.induct)
  case (1 a b c rest)
  have "byte b div 16 div 16 = 0" "byte c div 64 div 4 = 0" by simp_all
  moreover have "byte b div 16 mod 16 = byte b div 16" "byte c div 64 mod 4 = byte c div 64" by simp_all
  moreover have "byte a div 4 * 4 + byte a mod 4 = byte a" "byte b div 16 * 16 + byte b mod 16 = byte b"
    "byte c div 64 * 64 + byte c mod 64 = byte c" by simp_all
  ultimately show ?case using 1 by (simp add: join_parts)
next
  case (2 a b)
  have "byte b div 16 div 16 = 0" "byte b div 16 mod 16 = byte b div 16" by simp_all
  then show ?case by (simp add: join_parts)
qed (simp_all add: join_parts)

lemma encode_sextets:
  "base64UrlEncode bs = replace_char (CHR ''/'') (CHR ''_'') (replace_char (CHR ''+'') (CHR ''-'') (map b64_char (sextets bs)))"
proof -
  have "filter (\<lambda>c. c \<noteq> CHR ''='') (replace_char (CHR ''/'') (CHR ''_'') (replace_char (CHR ''+'') (CHR ''-'') (map b64_char ns))) =
      replace_char (CHR ''/'') (CHR ''_'') (replace_char (CHR ''+'') (CHR ''-'') (map b64_char ns))"
    if "\<forall>n \<in> set ns. n < 64" for ns
    using that b64_char_cases by (intro filter_id_all) (force simp: replace_char_def)
  moreover have "\<exists>k. btoa bs = map b64_char (sextets bs) @ replicate k (CHR ''='')" for bs
  proof (induction bs rule: btoa.induct)
    case (2 a b) show ?case by (rule exI [of _ 1]) simp
  next
    case (3 a) show ?case by (rule exI [of _ 2]) (simp add: numeral_2_eq_2)
  qed auto
  then obtain k where "btoa bs = map b64_char (sextets bs) @ replicate k (CHR ''='')" by blast
  ultimately show ?thesis
    using sextets_bound [of _ bs] by (simp add: base64UrlEncode_def replace_char_def)
qed

lemma sextets_length: "length (sextets bs) mod 4 \<noteq> 1"
  by (induction bs rule: sextets.induct) simp_all

lemma strip_padded:
  assumes "\<forall>c \<in> set s. c \<noteq> CHR ''=''" "length s mod 4 \<noteq> 1"
  shows "strip_padding (s @ replicate ((length s + 3) div 4 * 4 - length s) (CHR ''='')) = s"
proof -
  let ?k = "(length s + 3) div 4 * 4 - length s"
  have "length s mod 4 = 0 \<or> length s mod 4 = 2 \<or> length s mod 4 = 3" using assms(2) by presburger
  then have k: "?k = 0 \<and> length s mod 4 = 0 \<or> ?k = 2 \<and> length s mod 4 = 2 \<or> ?k = 1 \<and> length s mod 4 = 3" by presburger
  have last: "s \<noteq> [] \<Longrightarrow> last s \<noteq> CHR ''=''" using assms(1) last_in_set by blast
  from k show ?thesis
    using last by (auto simp: strip_padding_def numeral_2_eq_2 butlast_append mod_Suc)
qed

lemma base64_roundtrip: "base64UrlDecode (base64UrlEncode bytes) = Some bytes"
proof -
  let ?s = "map b64_char (sextets bytes)"
  have "replace_char (CHR ''_'') (CHR ''/'') (replace_char (CHR ''-'') (CHR ''+'') (base64UrlEncode bytes)) = ?s"
    unfolding encode_sextets replace_char_def map_map
    using b64_char_cases sextets_bound by (auto intro!: map_cong)
  moreover have "length (base64UrlEncode bytes) = length ?s" by (simp add: encode_sextets replace_char_def)
  ultimately have d: "base64UrlDecode (base64UrlEncode bytes) = atob (?s @ replicate ((length ?s + 3) div 4 * 4 - length ?s) (CHR ''=''))"
    by (simp add: base64UrlDecode_def padEnd_def)
  have "filter (\<lambda>c. \<not> b64_space c) (?s @ replicate k (CHR ''='')) = ?s @ replicate k (CHR ''='')" for k
    using b64_char_cases sextets_bound by (intro filter_id_all) (auto simp: b64_space_def)
  moreover have "strip_padding (?s @ replicate ((length ?s + 3) div 4 * 4 - length ?s) (CHR ''='')) = ?s"
    using b64_char_cases sextets_bound sextets_length by (intro strip_padded) auto
  moreover have v: "map b64_value ?s = map Some (sextets bytes)"
    using b64_char_cases sextets_bound by auto
  ultimately show ?thesis
    unfolding d atob_def Let_def by (simp only: v) (use sextets_length [of bytes] in \<open>auto simp: comp_def b64_bytes_sextets\<close>)
qed

end
