(* ===== verification/Device_Identity.thy ===== *)
theory Device_Identity
  imports Stable_Json Transport Base64_Url
begin

text \<open>
  Device identity of offline sync (\<open>src/src/sync/device-identity.js\<close>): certificates a backend
  signs for a device, mutations a device signs, and their verification.

  What arrives from outside is a JavaScript value; what normalisation returns is a record, and the
  \<open>_object\<close> functions give the object it stands for. The algorithm is not a field, since a
  normalised envelope always has the one supported algorithm. WebCrypto belongs to the environment:
  \<open>jwk_imports\<close> tells whether a JWK can be imported, \<open>ecdsa_sign\<close> and
  \<open>ecdsa_verify\<close> take a JWK and bytes. Dates are those of the transport environment.
\<close>

record sync_env =
  se_transport :: transport_env
  se_host :: host
  jwk_imports :: "jsval \<Rightarrow> bool"
  ecdsa_sign :: "jsval \<Rightarrow> string \<Rightarrow> string"
  ecdsa_verify :: "jsval \<Rightarrow> string \<Rightarrow> string \<Rightarrow> bool"

datatype identity_error =
    Expected_String string
  | Expected_Object string
  | Invalid_Iso_Date string
  | Unsupported_Algorithm string
  | Not_Deterministic_Json
  | Expected_Signature string
  | Certificate_Signature_Mismatch
  | Mutation_Signature_Mismatch
  | Actor_Mismatch
  | Invalid_Verification_Time
  | Certificate_Expired
  | Crypto_Failed
  | Invalid_Base64

subsection \<open>Data\<close>

record sync_mutation =
  sm_actorDeviceId :: string
  sm_actorUserId :: string
  sm_clientMutationId :: string
  sm_model :: string
  sm_occurredAt :: string
  sm_offlineGrantId :: string
  sm_operation :: string
  sm_policyHash :: string
  sm_attributes :: "jsval option"
  sm_baseVersion :: "jsval option"
  sm_command :: "string option"
  sm_payload :: "jsval option"

record certificate_payload =
  cp_actorDeviceId :: string
  cp_actorUserId :: string
  cp_certificateId :: string
  cp_devicePublicKey :: jsval
  cp_expiresAt :: string
  cp_issuedAt :: string

record device_certificate =
  dc_certificate :: certificate_payload
  dc_signature :: string

record signed_mutation =
  sg_deviceCertificate :: device_certificate
  sg_mutation :: sync_mutation
  sg_signature :: string

definition ECDSA_P256_SHA256_ALGORITHM :: string where
  "ECDSA_P256_SHA256_ALGORITHM = ''ECDSA-P256-SHA256''"

definition ECDSA_P256_SHA256_SIGNATURE_PREFIX :: string where
  "ECDSA_P256_SHA256_SIGNATURE_PREFIX = ''ecdsa-p256-sha256-''"

text \<open>A property that is assigned only when it is defined.\<close>

definition optional_field :: "string \<Rightarrow> jsval option \<Rightarrow> (string \<times> jsval) list" where
  "optional_field k v = (case v of None \<Rightarrow> [] | Some x \<Rightarrow> [(k, x)])"

definition mutation_object :: "sync_mutation \<Rightarrow> jsval" where
  "mutation_object m = JObj (
     [(''actorDeviceId'', JStr (sm_actorDeviceId m)), (''actorUserId'', JStr (sm_actorUserId m)),
      (''clientMutationId'', JStr (sm_clientMutationId m)), (''model'', JStr (sm_model m)),
      (''occurredAt'', JStr (sm_occurredAt m)), (''offlineGrantId'', JStr (sm_offlineGrantId m)),
      (''operation'', JStr (sm_operation m)), (''policyHash'', JStr (sm_policyHash m))] @
     optional_field ''attributes'' (sm_attributes m) @ optional_field ''baseVersion'' (sm_baseVersion m) @
     optional_field ''command'' (map_option JStr (sm_command m)) @ optional_field ''payload'' (sm_payload m))"

definition certificate_payload_object :: "certificate_payload \<Rightarrow> jsval" where
  "certificate_payload_object c = JObj
     [(''actorDeviceId'', JStr (cp_actorDeviceId c)), (''actorUserId'', JStr (cp_actorUserId c)),
      (''certificateId'', JStr (cp_certificateId c)), (''devicePublicKey'', cp_devicePublicKey c),
      (''expiresAt'', JStr (cp_expiresAt c)), (''issuedAt'', JStr (cp_issuedAt c))]"

definition device_certificate_object :: "device_certificate \<Rightarrow> jsval" where
  "device_certificate_object c = JObj
     [(''algorithm'', JStr ECDSA_P256_SHA256_ALGORITHM),
      (''certificate'', certificate_payload_object (dc_certificate c)), (''signature'', JStr (dc_signature c))]"

definition signed_mutation_object :: "signed_mutation \<Rightarrow> jsval" where
  "signed_mutation_object s = JObj
     [(''algorithm'', JStr ECDSA_P256_SHA256_ALGORITHM),
      (''deviceCertificate'', device_certificate_object (sg_deviceCertificate s)),
      (''mutation'', mutation_object (sg_mutation s)), (''signature'', JStr (sg_signature s))]"

subsection \<open>Normalisation\<close>

definition requiredString :: "jsval \<Rightarrow> string \<Rightarrow> identity_error + string" where
  "requiredString v name = (case v of JStr s \<Rightarrow> if s = [] then Inl (Expected_String name) else Inr s | _ \<Rightarrow> Inl (Expected_String name))"

definition isoDateString :: "sync_env \<Rightarrow> string \<Rightarrow> string \<Rightarrow> identity_error + string" where
  "isoDateString env s label =
     (case date_parse (se_transport env) s of
        None \<Rightarrow> Inl (Invalid_Iso_Date label)
      | Some t \<Rightarrow> Inr (iso_string (se_transport env) t))"

definition requiredIso :: "sync_env \<Rightarrow> jsval \<Rightarrow> string \<Rightarrow> identity_error + string" where
  "requiredIso env v name = bindE (requiredString v name) (\<lambda>s. isoDateString env s name)"

fun deterministicJson :: "jsval \<Rightarrow> identity_error + jsval" where
  "deterministicJson JUndef = Inl Not_Deterministic_Json"
| "deterministicJson (JArr xs) = bindE (collectE (map deterministicJson xs)) (\<lambda>ys. Inr (JArr ys))"
| "deterministicJson (JObj fs) =
     bindE (collectE (map (\<lambda>(k, r). bindE r (\<lambda>v. Inr (k, v)))
         (sort_key fst (map (\<lambda>p. (fst p, deterministicJson (snd p))) (filter (\<lambda>p. snd p \<noteq> JUndef) fs)))))
       (\<lambda>ps. Inr (JObj (foldl (\<lambda>normalized (k, v). obj_set normalized k v) [] ps)))"
| "deterministicJson v = Inr v"

definition deterministicJsonObject :: "string \<Rightarrow> jsval \<Rightarrow> identity_error + jsval" where
  "deterministicJsonObject label value =
     bindE (deterministicJson value) (\<lambda>normalized.
       case normalized of JObj _ \<Rightarrow> Inr normalized | _ \<Rightarrow> Inl (Expected_Object label))"

definition normalizeJwk :: "jsval \<Rightarrow> string \<Rightarrow> identity_error + jsval" where
  "normalizeJwk key label = deterministicJsonObject label key"

definition starts_with :: "string \<Rightarrow> string \<Rightarrow> bool" where
  "starts_with p s = (take (length p) s = p)"

definition normalizeSignature :: "jsval \<Rightarrow> string \<Rightarrow> identity_error + string" where
  "normalizeSignature signature label =
     (case signature of
        JStr s \<Rightarrow> if starts_with ECDSA_P256_SHA256_SIGNATURE_PREFIX s then Inr s else Inl (Expected_Signature label)
      | _ \<Rightarrow> Inl (Expected_Signature label))"

definition signatureWithoutPrefix :: "string \<Rightarrow> string" where
  "signatureWithoutPrefix signature = drop (length ECDSA_P256_SHA256_SIGNATURE_PREFIX) signature"

text \<open>\<open>if (value !== undefined) target.key = f(value)\<close>.\<close>

definition when_defined :: "jsval \<Rightarrow> (jsval \<Rightarrow> identity_error + 'a) \<Rightarrow> identity_error + 'a option" where
  "when_defined v f = (if v = JUndef then Inr None else bindE (f v) (\<lambda>x. Inr (Some x)))"

definition is_object :: "jsval \<Rightarrow> bool" where
  "is_object v = (case v of JObj _ \<Rightarrow> True | _ \<Rightarrow> False)"

definition normalizeSyncMutation :: "sync_env \<Rightarrow> jsval \<Rightarrow> identity_error + sync_mutation" where
  "normalizeSyncMutation env mutation =
     (if \<not> is_object mutation then Inl (Expected_Object ''sync mutation'') else
      bindE (requiredString (obj_get mutation ''actorDeviceId'') ''actorDeviceId'') (\<lambda>actorDeviceId.
      bindE (requiredString (obj_get mutation ''actorUserId'') ''actorUserId'') (\<lambda>actorUserId.
      bindE (requiredString (obj_get mutation ''clientMutationId'') ''clientMutationId'') (\<lambda>clientMutationId.
      bindE (requiredString (obj_get mutation ''model'') ''model'') (\<lambda>model.
      bindE (requiredIso env (obj_get mutation ''occurredAt'') ''occurredAt'') (\<lambda>occurredAt.
      bindE (requiredString (obj_get mutation ''offlineGrantId'') ''offlineGrantId'') (\<lambda>offlineGrantId.
      bindE (requiredString (obj_get mutation ''operation'') ''operation'') (\<lambda>operation.
      bindE (requiredString (obj_get mutation ''policyHash'') ''policyHash'') (\<lambda>policyHash.
      bindE (when_defined (obj_get mutation ''attributes'') (deterministicJsonObject ''attributes'')) (\<lambda>attributes.
      bindE (when_defined (obj_get mutation ''baseVersion'') deterministicJson) (\<lambda>baseVersion.
      bindE (when_defined (obj_get mutation ''command'') (\<lambda>v. requiredString v ''command'')) (\<lambda>command.
      bindE (when_defined (obj_get mutation ''payload'') (deterministicJsonObject ''payload'')) (\<lambda>payload.
        Inr \<lparr>sm_actorDeviceId = actorDeviceId, sm_actorUserId = actorUserId, sm_clientMutationId = clientMutationId,
          sm_model = model, sm_occurredAt = occurredAt, sm_offlineGrantId = offlineGrantId, sm_operation = operation,
          sm_policyHash = policyHash, sm_attributes = attributes, sm_baseVersion = baseVersion, sm_command = command,
          sm_payload = payload\<rparr>)))))))))))))"

definition normalizeDeviceCertificatePayload :: "sync_env \<Rightarrow> jsval \<Rightarrow> identity_error + certificate_payload" where
  "normalizeDeviceCertificatePayload env certificate =
     (if \<not> is_object certificate then Inl (Expected_Object ''device certificate payload'') else
      bindE (requiredString (obj_get certificate ''actorDeviceId'') ''actorDeviceId'') (\<lambda>actorDeviceId.
      bindE (requiredString (obj_get certificate ''actorUserId'') ''actorUserId'') (\<lambda>actorUserId.
      bindE (requiredString (obj_get certificate ''certificateId'') ''certificateId'') (\<lambda>certificateId.
      bindE (normalizeJwk (obj_get certificate ''devicePublicKey'') ''devicePublicKey'') (\<lambda>devicePublicKey.
      bindE (requiredIso env (obj_get certificate ''expiresAt'') ''expiresAt'') (\<lambda>expiresAt.
      bindE (requiredIso env (obj_get certificate ''issuedAt'') ''issuedAt'') (\<lambda>issuedAt.
        Inr \<lparr>cp_actorDeviceId = actorDeviceId, cp_actorUserId = actorUserId, cp_certificateId = certificateId,
          cp_devicePublicKey = devicePublicKey, cp_expiresAt = expiresAt, cp_issuedAt = issuedAt\<rparr>)))))))"

definition check_algorithm :: "jsval \<Rightarrow> string \<Rightarrow> identity_error + unit" where
  "check_algorithm v what =
     (if v = JStr ECDSA_P256_SHA256_ALGORITHM then Inr () else Inl (Unsupported_Algorithm what))"

definition normalizeDeviceCertificate :: "sync_env \<Rightarrow> jsval \<Rightarrow> identity_error + device_certificate" where
  "normalizeDeviceCertificate env certificate =
     (if \<not> is_object certificate then Inl (Expected_Object ''device certificate'') else
      bindE (check_algorithm (obj_get certificate ''algorithm'') ''device certificate'') (\<lambda>_.
      bindE (normalizeDeviceCertificatePayload env (obj_get certificate ''certificate'')) (\<lambda>payload.
      bindE (normalizeSignature (obj_get certificate ''signature'') ''device certificate signature'') (\<lambda>signature.
        Inr \<lparr>dc_certificate = payload, dc_signature = signature\<rparr>))))"

definition normalizeSignedSyncMutation :: "sync_env \<Rightarrow> jsval \<Rightarrow> identity_error + signed_mutation" where
  "normalizeSignedSyncMutation env signedMutation =
     (if \<not> is_object signedMutation then Inl (Expected_Object ''signed sync mutation'') else
      bindE (check_algorithm (obj_get signedMutation ''algorithm'') ''sync mutation'') (\<lambda>_.
      bindE (normalizeDeviceCertificate env (obj_get signedMutation ''deviceCertificate'')) (\<lambda>deviceCertificate.
      bindE (normalizeSyncMutation env (obj_get signedMutation ''mutation'')) (\<lambda>mutation.
      bindE (normalizeSignature (obj_get signedMutation ''signature'') ''sync mutation signature'') (\<lambda>signature.
        Inr \<lparr>sg_deviceCertificate = deviceCertificate, sg_mutation = mutation, sg_signature = signature\<rparr>)))))"

subsection \<open>Signing and verifying\<close>

text \<open>\<open>new TextEncoder().encode(value)\<close> for code units below 256.\<close>

definition utf8 :: "string \<Rightarrow> string" where
  "utf8 value = concat (map (\<lambda>c. let n = (of_char c :: nat) in
     if n < 128 then [c] else [char_of (192 + n div 64), char_of (128 + n mod 64)]) value)"

definition deterministic_text :: "sync_env \<Rightarrow> jsval \<Rightarrow> identity_error + string" where
  "deterministic_text env value = bindE (deterministicJson value) (\<lambda>v. Inr (json_stringify (se_host env) v))"

definition signStableJson :: "sync_env \<Rightarrow> jsval \<Rightarrow> jsval \<Rightarrow> identity_error + string" where
  "signStableJson env privateKey value =
     (if \<not> jwk_imports env privateKey then Inl Crypto_Failed else
      bindE (deterministic_text env value) (\<lambda>text.
        Inr (ECDSA_P256_SHA256_SIGNATURE_PREFIX @ base64UrlEncode (ecdsa_sign env privateKey (utf8 text)))))"

definition verifyStableJsonSignature :: "sync_env \<Rightarrow> jsval \<Rightarrow> string \<Rightarrow> jsval \<Rightarrow> identity_error + bool" where
  "verifyStableJsonSignature env publicKey signature value =
     (if \<not> jwk_imports env publicKey then Inl Crypto_Failed else
      (case base64UrlDecode (signatureWithoutPrefix signature) of
         None \<Rightarrow> Inl Invalid_Base64
       | Some signatureBytes \<Rightarrow>
           bindE (deterministic_text env value) (\<lambda>text.
             Inr (ecdsa_verify env publicKey signatureBytes (utf8 text)))))"

definition deviceCertificateSignatureValue :: "certificate_payload \<Rightarrow> identity_error + jsval" where
  "deviceCertificateSignatureValue certificate =
     bindE (deterministicJsonObject ''certificate'' (certificate_payload_object certificate)) (\<lambda>c.
       Inr (JObj [(''algorithm'', JStr ECDSA_P256_SHA256_ALGORITHM), (''certificate'', c)]))"

definition signedMutationSignatureValue :: "device_certificate \<Rightarrow> sync_mutation \<Rightarrow> identity_error + jsval" where
  "signedMutationSignatureValue deviceCertificate mutation =
     bindE (deterministicJsonObject ''deviceCertificate'' (device_certificate_object deviceCertificate)) (\<lambda>c.
     bindE (deterministicJsonObject ''mutation'' (mutation_object mutation)) (\<lambda>m.
       Inr (JObj [(''algorithm'', JStr ECDSA_P256_SHA256_ALGORITHM), (''deviceCertificate'', c), (''mutation'', m)])))"

definition assertMutationMatchesCertificate :: "certificate_payload \<Rightarrow> sync_mutation \<Rightarrow> identity_error + unit" where
  "assertMutationMatchesCertificate certificate mutation =
     (if sm_actorDeviceId mutation \<noteq> cp_actorDeviceId certificate \<or> sm_actorUserId mutation \<noteq> cp_actorUserId certificate
      then Inl Actor_Mismatch else Inr ())"

definition assertNotExpired :: "sync_env \<Rightarrow> string \<Rightarrow> int option \<Rightarrow> identity_error + unit" where
  "assertNotExpired env expiresAt now =
     (case now of
        None \<Rightarrow> Inl Invalid_Verification_Time
      | Some n \<Rightarrow>
          (case date_parse (se_transport env) expiresAt of
             None \<Rightarrow> Inr ()
           | Some t \<Rightarrow> if t \<le> n then Inl Certificate_Expired else Inr ()))"

definition createDeviceCertificate :: "sync_env \<Rightarrow> jsval \<Rightarrow> jsval \<Rightarrow> identity_error + device_certificate" where
  "createDeviceCertificate env backendPrivateKey certificate =
     bindE (normalizeDeviceCertificatePayload env certificate) (\<lambda>normalizedCertificate.
     bindE (deviceCertificateSignatureValue normalizedCertificate) (\<lambda>value.
     bindE (signStableJson env backendPrivateKey value) (\<lambda>signature.
       Inr \<lparr>dc_certificate = normalizedCertificate, dc_signature = signature\<rparr>)))"

definition verifyDeviceCertificate :: "sync_env \<Rightarrow> jsval \<Rightarrow> jsval \<Rightarrow> int option \<Rightarrow> identity_error + certificate_payload" where
  "verifyDeviceCertificate env backendPublicKey certificate now =
     bindE (normalizeDeviceCertificate env certificate) (\<lambda>normalizedCertificate.
     bindE (deviceCertificateSignatureValue (dc_certificate normalizedCertificate)) (\<lambda>value.
     bindE (verifyStableJsonSignature env backendPublicKey (dc_signature normalizedCertificate) value) (\<lambda>verified.
       if \<not> verified then Inl Certificate_Signature_Mismatch
       else bindE (assertNotExpired env (cp_expiresAt (dc_certificate normalizedCertificate)) now) (\<lambda>_.
         Inr (dc_certificate normalizedCertificate)))))"

definition createSignedMutation :: "sync_env \<Rightarrow> jsval \<Rightarrow> jsval \<Rightarrow> jsval \<Rightarrow> identity_error + signed_mutation" where
  "createSignedMutation env deviceCertificate devicePrivateKey mutation =
     bindE (normalizeDeviceCertificate env deviceCertificate) (\<lambda>normalizedDeviceCertificate.
     bindE (normalizeSyncMutation env mutation) (\<lambda>normalizedMutation.
     bindE (assertMutationMatchesCertificate (dc_certificate normalizedDeviceCertificate) normalizedMutation) (\<lambda>_.
     bindE (signedMutationSignatureValue normalizedDeviceCertificate normalizedMutation) (\<lambda>value.
     bindE (signStableJson env devicePrivateKey value) (\<lambda>signature.
       Inr \<lparr>sg_deviceCertificate = normalizedDeviceCertificate, sg_mutation = normalizedMutation, sg_signature = signature\<rparr>)))))"

definition verifySignedMutation :: "sync_env \<Rightarrow> jsval \<Rightarrow> int option \<Rightarrow> jsval \<Rightarrow> identity_error + sync_mutation" where
  "verifySignedMutation env backendPublicKey now signedMutation =
     bindE (normalizeSignedSyncMutation env signedMutation) (\<lambda>normalized.
     bindE (verifyDeviceCertificate env backendPublicKey (device_certificate_object (sg_deviceCertificate normalized)) now) (\<lambda>certificatePayload.
     bindE (assertMutationMatchesCertificate certificatePayload (sg_mutation normalized)) (\<lambda>_.
     bindE (signedMutationSignatureValue (sg_deviceCertificate normalized) (sg_mutation normalized)) (\<lambda>value.
     bindE (verifyStableJsonSignature env (cp_devicePublicKey certificatePayload) (sg_signature normalized) value) (\<lambda>verified.
       if \<not> verified then Inl Mutation_Signature_Mismatch else Inr (sg_mutation normalized))))))"

text \<open>\<open>[userId, deviceId, mutationId].join(":")\<close> of the fields of a mutation.\<close>

definition mutationIdempotencyKey :: "jsval \<Rightarrow> identity_error + string" where
  "mutationIdempotencyKey mutation =
     bindE (requiredString (obj_get mutation ''actorUserId'') ''actorUserId'') (\<lambda>actorUserId.
     bindE (requiredString (obj_get mutation ''actorDeviceId'') ''actorDeviceId'') (\<lambda>actorDeviceId.
     bindE (requiredString (obj_get mutation ''clientMutationId'') ''clientMutationId'') (\<lambda>clientMutationId.
       Inr (join_char (CHR '':'') [actorUserId, actorDeviceId, clientMutationId]))))"

end
