(* ===== verification/Identity_Claims.thy ===== *)
theory Identity_Claims
  imports Device_Identity Sync_Conflict_Claims
begin

text \<open>
  Claims about device identity: normalisation is idempotent, so what a device signed is what a peer
  or the backend verifies.
\<close>

subsection \<open>Deterministic JSON\<close>

lemma collect_pairs:
  "map (\<lambda>(k, r). bindE r (\<lambda>v. Inr (k, v))) kept = map Inr ps \<longleftrightarrow>
     map fst kept = map fst ps \<and> map snd kept = map (\<lambda>p. Inr (snd p)) ps"
proof (induction kept arbitrary: ps)
  case (Cons q kept)
  show ?case
  proof (cases ps)
    case (Cons p ps')
    with Cons.IH [of ps'] show ?thesis by (cases q; cases p) (auto simp: bindE_eq_Inr)
  qed simp
qed simp

lemma det_object:
  assumes "deterministicJson (JObj fs) = Inr w" "plain_json (JObj fs)"
  obtains ps where "w = JObj (foldl (\<lambda>normalized (k, v). obj_set normalized k v) [] ps)"
    and "sorted (map fst ps)" "distinct (map fst ps)" "''__proto__'' \<notin> fst ` set ps"
    and "\<And>p. p \<in> set ps \<Longrightarrow> \<exists>v. (fst p, v) \<in> set fs \<and> v \<noteq> JUndef \<and> deterministicJson v = Inr (snd p)"
proof -
  let ?src = "sort_key fst (filter (\<lambda>p. snd p \<noteq> JUndef) fs)"
  have "bindE (collectE (map (\<lambda>(k, r). bindE r (\<lambda>v. Inr (k, v))) (map (\<lambda>p. (fst p, deterministicJson (snd p))) ?src)))
      (\<lambda>ps. Inr (JObj (foldl (\<lambda>normalized (k, v). obj_set normalized k v) [] ps))) = Inr w"
    using assms(1) by (simp add: sort_key_map_snd)
  then obtain ps where ps: "map (\<lambda>(k, r). bindE r (\<lambda>v. Inr (k, v))) (map (\<lambda>p. (fst p, deterministicJson (snd p))) ?src) = map Inr ps"
      and w: "w = JObj (foldl (\<lambda>normalized (k, v). obj_set normalized k v) [] ps)"
    unfolding bindE_eq_Inr collectE_Inr by blast
  from ps have keys: "map fst ps = map fst ?src" and vals: "map (\<lambda>p. deterministicJson (snd p)) ?src = map (\<lambda>p. Inr (snd p)) ps"
    unfolding collect_pairs by (simp_all add: comp_def)
  have len: "length ?src = length ps" using vals by (metis length_map)
  show thesis
  proof (rule that [OF w])
    show "sorted (map fst ps)" unfolding keys by simp
    show "distinct (map fst ps)" unfolding keys using assms(2) by (simp add: distinct_map_filter)
    show "''__proto__'' \<notin> fst ` set ps"
    proof
      assume "''__proto__'' \<in> fst ` set ps"
      then have "''__proto__'' \<in> set (map fst ?src)" using keys by (metis list.set_map)
      then show False using assms(2) by auto
    qed
    show "\<exists>v. (fst p, v) \<in> set fs \<and> v \<noteq> JUndef \<and> deterministicJson v = Inr (snd p)" if "p \<in> set ps" for p
    proof -
      from that obtain i where i: "i < length ps" "p = ps ! i" by (metis in_set_conv_nth)
      have "fst (?src ! i) = fst p" "deterministicJson (snd (?src ! i)) = Inr (snd p)"
        using keys vals i len by (metis nth_map)+
      moreover have "?src ! i \<in> set ?src" using i len by (metis nth_mem)
      ultimately show ?thesis by (metis (mono_tags, lifting) mem_Collect_eq prod.collapse set_filter set_sort)
    qed
  qed
qed

lemma deterministic_normal:
  "deterministicJson v = Inr w \<Longrightarrow> plain_json v \<Longrightarrow>
     deterministicJson w = Inr w \<and> plain_json w \<and> w \<noteq> JUndef \<and> (is_object w \<longleftrightarrow> is_object v)"
proof (induction v arbitrary: w)
  case (JArr xs)
  then obtain ys where ys: "map deterministicJson xs = map Inr ys" "w = JArr ys"
    by (auto simp: bindE_eq_Inr collectE_Inr)
  have "deterministicJson y = Inr y \<and> plain_json y" if "y \<in> set ys" for y
  proof -
    from that ys(1) have "Inr y \<in> deterministicJson ` set xs" by (metis image_eqI list.set_map)
    with JArr show ?thesis by (auto simp: list_all_iff)
  qed
  then show ?case using ys(2) by (auto simp: list_all_iff collectE_Inr is_object_def bindE_eq_Inr)
next
  case (JObj fs)
  from JObj.prems obtain ps where w: "w = JObj (foldl (\<lambda>normalized (k, v). obj_set normalized k v) [] ps)"
      and ps: "sorted (map fst ps)" "distinct (map fst ps)" "''__proto__'' \<notin> fst ` set ps"
      and vals: "\<And>p. p \<in> set ps \<Longrightarrow> \<exists>v. (fst p, v) \<in> set fs \<and> v \<noteq> JUndef \<and> deterministicJson v = Inr (snd p)"
    by (rule det_object) (rule that)
  define gs where "gs = foldl (\<lambda>normalized (k, v). obj_set normalized k v) [] ps"
  have gs: "mset gs = mset ps" unfolding gs_def using ps(2,3) by (subst mset_foldl_obj_set) simp_all
  then have set: "set gs = set ps" by (metis set_mset_mset)
  have normal: "deterministicJson (snd p) = Inr (snd p) \<and> plain_json (snd p) \<and> snd p \<noteq> JUndef" if p: "p \<in> set gs" for p
  proof -
    from p set vals obtain v where v: "(fst p, v) \<in> set fs" "deterministicJson v = Inr (snd p)" by blast
    moreover have "plain_json v" using JObj.prems(2) v(1) by (auto simp: list_all_iff)
    ultimately show ?thesis using JObj.IH [of "(fst p, v)" v "snd p"] by (simp add: snds.simps)
  qed
  have "distinct (map fst gs)" using gs ps(2) by (metis mset_eq_imp_distinct_iff mset_map)
  then have "sort_key fst gs = sort_key fst ps" using gs by (rule sort_key_mset_eq)
  also have "\<dots> = ps" using ps(1) by (rule sort_key_id_if_sorted)
  finally have sorted: "sort_key fst gs = ps" .
  have keep: "filter (\<lambda>p. snd p \<noteq> JUndef) gs = gs" using normal by (intro filter_id_all) blast
  have "map (\<lambda>p. (fst p, deterministicJson (snd p))) gs = map (\<lambda>p. (fst p, Inr (snd p))) gs"
    using normal by simp
  then have "sort_key fst (map (\<lambda>p. (fst p, deterministicJson (snd p))) gs) = map (\<lambda>p. (fst p, Inr (snd p))) ps"
    by (simp only: sort_key_map_snd sorted)
  then have "deterministicJson (JObj gs) = Inr (JObj gs)"
    by (simp add: keep bindE_eq_Inr collectE_Inr comp_def flip: gs_def)
  moreover have "plain_json (JObj gs)"
    using \<open>distinct (map fst gs)\<close> normal ps(3) set by (auto simp: list_all_iff)
  ultimately show ?case using w by (simp add: gs_def is_object_def)
qed (auto simp: is_object_def)

lemma deterministicJsonObject_Inr:
  "deterministicJsonObject l v = Inr w \<longleftrightarrow> deterministicJson v = Inr w \<and> is_object w"
proof (cases "deterministicJson v")
  case (Inr u)
  then show ?thesis by (cases u) (auto simp: deterministicJsonObject_def is_object_def)
qed (simp add: deterministicJsonObject_def)

lemma deterministic_object:
  assumes "deterministicJsonObject l v = Inr w" "plain_json v"
  shows "deterministicJsonObject l' w = Inr w" "w \<noteq> JUndef" "plain_json w"
  using assms deterministic_normal [of v w] by (simp_all add: deterministicJsonObject_Inr)

subsection \<open>Normal forms\<close>

text \<open>Dates whose text is read back as the same date.\<close>

definition date_texts :: "sync_env \<Rightarrow> bool" where
  "date_texts env \<longleftrightarrow> (\<forall>t. iso_string (se_transport env) t \<noteq> [] \<and>
     date_parse (se_transport env) (iso_string (se_transport env) t) = Some t)"

lemma requiredString_Inr [simp]: "requiredString v n = Inr s \<longleftrightarrow> v = JStr s \<and> s \<noteq> []"
  by (auto simp: requiredString_def split: jsval.splits if_splits)

lemma optional_field_simps [simp]: "optional_field k None = []" "optional_field k (Some x) = [(k, x)]"
  by (simp_all add: optional_field_def)

lemma requiredIso_again:
  "date_texts env \<Longrightarrow> requiredIso env v n = Inr s \<Longrightarrow> requiredIso env (JStr s) n = Inr s"
  by (auto simp: requiredIso_def isoDateString_def bindE_eq_Inr date_texts_def split: option.splits)

lemma plain_obj_get: "plain_json v \<Longrightarrow> plain_json (obj_get v k)"
  by (cases v) (auto simp: obj_get_def list_all_iff split: option.splits dest!: map_of_SomeD)

lemma when_defined_again:
  assumes "when_defined v f = Inr x" "\<And>w. f v = Inr w \<Longrightarrow> f (g w) = Inr w \<and> g w \<noteq> JUndef"
  shows "when_defined (case x of None \<Rightarrow> JUndef | Some w \<Rightarrow> g w) f = Inr x"
  using assms by (auto simp: when_defined_def bindE_eq_Inr split: if_splits)

lemma mutation_object_get [simp]:
  "obj_get (mutation_object m) ''actorDeviceId'' = JStr (sm_actorDeviceId m)"
  "obj_get (mutation_object m) ''actorUserId'' = JStr (sm_actorUserId m)"
  "obj_get (mutation_object m) ''clientMutationId'' = JStr (sm_clientMutationId m)"
  "obj_get (mutation_object m) ''model'' = JStr (sm_model m)"
  "obj_get (mutation_object m) ''occurredAt'' = JStr (sm_occurredAt m)"
  "obj_get (mutation_object m) ''offlineGrantId'' = JStr (sm_offlineGrantId m)"
  "obj_get (mutation_object m) ''operation'' = JStr (sm_operation m)"
  "obj_get (mutation_object m) ''policyHash'' = JStr (sm_policyHash m)"
  by (simp_all add: mutation_object_def obj_get_def)

lemma mutation_object_optional [simp]:
  "obj_get (mutation_object m) ''attributes'' = (case sm_attributes m of None \<Rightarrow> JUndef | Some w \<Rightarrow> w)"
  "obj_get (mutation_object m) ''baseVersion'' = (case sm_baseVersion m of None \<Rightarrow> JUndef | Some w \<Rightarrow> w)"
  "obj_get (mutation_object m) ''command'' = (case sm_command m of None \<Rightarrow> JUndef | Some w \<Rightarrow> JStr w)"
  "obj_get (mutation_object m) ''payload'' = (case sm_payload m of None \<Rightarrow> JUndef | Some w \<Rightarrow> w)"
  by (simp_all add: mutation_object_def obj_get_def optional_field_def split: option.splits)

lemma is_object_simps [simp]:
  "is_object (JObj fs)" "is_object (mutation_object m)" "is_object (certificate_payload_object c)"
  "is_object (device_certificate_object d)" "is_object (signed_mutation_object s)"
  by (simp_all add: is_object_def mutation_object_def certificate_payload_object_def device_certificate_object_def
      signed_mutation_object_def)

lemma mutation_normal:
  assumes "normalizeSyncMutation env v = Inr m" "plain_json v" "date_texts env"
  shows "normalizeSyncMutation env (mutation_object m) = Inr m"
proof -
  note plain = plain_obj_get [OF assms(2)]
  from assms(1) have
    t: "requiredIso env (obj_get v ''occurredAt'') ''occurredAt'' = Inr (sm_occurredAt m)"
    and a: "when_defined (obj_get v ''attributes'') (deterministicJsonObject ''attributes'') = Inr (sm_attributes m)"
    and b: "when_defined (obj_get v ''baseVersion'') deterministicJson = Inr (sm_baseVersion m)"
    and c: "when_defined (obj_get v ''command'') (\<lambda>x. requiredString x ''command'') = Inr (sm_command m)"
    and p: "when_defined (obj_get v ''payload'') (deterministicJsonObject ''payload'') = Inr (sm_payload m)"
    and s: "sm_actorDeviceId m \<noteq> []" "sm_actorUserId m \<noteq> []" "sm_clientMutationId m \<noteq> []" "sm_model m \<noteq> []"
      "sm_offlineGrantId m \<noteq> []" "sm_operation m \<noteq> []" "sm_policyHash m \<noteq> []"
    by (auto simp: normalizeSyncMutation_def bindE_eq_Inr split: if_splits)
  note t = requiredIso_again [OF assms(3) t]
  have a: "when_defined (obj_get (mutation_object m) ''attributes'') (deterministicJsonObject ''attributes'') = Inr (sm_attributes m)"
    unfolding mutation_object_optional using a by (rule when_defined_again) (use deterministic_object plain in blast)
  have b: "when_defined (obj_get (mutation_object m) ''baseVersion'') deterministicJson = Inr (sm_baseVersion m)"
    unfolding mutation_object_optional using b by (rule when_defined_again) (use deterministic_normal plain in blast)
  have c: "when_defined (obj_get (mutation_object m) ''command'') (\<lambda>x. requiredString x ''command'') = Inr (sm_command m)"
    unfolding mutation_object_optional using c by (rule when_defined_again) simp
  have p: "when_defined (obj_get (mutation_object m) ''payload'') (deterministicJsonObject ''payload'') = Inr (sm_payload m)"
    unfolding mutation_object_optional using p by (rule when_defined_again) (use deterministic_object plain in blast)
  show ?thesis
    unfolding normalizeSyncMutation_def using s t a b c p by (simp add: bindE_eq_Inr del: mutation_object_optional)
qed

lemma certificate_payload_get [simp]:
  "obj_get (certificate_payload_object c) ''actorDeviceId'' = JStr (cp_actorDeviceId c)"
  "obj_get (certificate_payload_object c) ''actorUserId'' = JStr (cp_actorUserId c)"
  "obj_get (certificate_payload_object c) ''certificateId'' = JStr (cp_certificateId c)"
  "obj_get (certificate_payload_object c) ''devicePublicKey'' = cp_devicePublicKey c"
  "obj_get (certificate_payload_object c) ''expiresAt'' = JStr (cp_expiresAt c)"
  "obj_get (certificate_payload_object c) ''issuedAt'' = JStr (cp_issuedAt c)"
  by (simp_all add: certificate_payload_object_def obj_get_def)

lemma certificate_payload_normal:
  assumes "normalizeDeviceCertificatePayload env v = Inr c" "plain_json v" "date_texts env"
  shows "normalizeDeviceCertificatePayload env (certificate_payload_object c) = Inr c"
proof -
  from assms(1) have k: "deterministicJsonObject ''devicePublicKey'' (obj_get v ''devicePublicKey'') = Inr (cp_devicePublicKey c)"
    and e: "requiredIso env (obj_get v ''expiresAt'') ''expiresAt'' = Inr (cp_expiresAt c)"
    and i: "requiredIso env (obj_get v ''issuedAt'') ''issuedAt'' = Inr (cp_issuedAt c)"
    and s: "cp_actorDeviceId c \<noteq> []" "cp_actorUserId c \<noteq> []" "cp_certificateId c \<noteq> []"
    by (auto simp: normalizeDeviceCertificatePayload_def bindE_eq_Inr normalizeJwk_def split: if_splits)
  show ?thesis
    unfolding normalizeDeviceCertificatePayload_def normalizeJwk_def
    using s deterministic_object(1) [OF k plain_obj_get [OF assms(2)]] requiredIso_again [OF assms(3) e] requiredIso_again [OF assms(3) i]
    by (simp add: bindE_eq_Inr)
qed

lemma certificate_get [simp]:
  "obj_get (device_certificate_object d) ''algorithm'' = JStr ECDSA_P256_SHA256_ALGORITHM"
  "obj_get (device_certificate_object d) ''certificate'' = certificate_payload_object (dc_certificate d)"
  "obj_get (device_certificate_object d) ''signature'' = JStr (dc_signature d)"
  by (simp_all add: device_certificate_object_def obj_get_def)

lemma certificate_normal:
  "normalizeDeviceCertificate env (device_certificate_object d) = Inr d \<longleftrightarrow>
     normalizeDeviceCertificatePayload env (certificate_payload_object (dc_certificate d)) = Inr (dc_certificate d) \<and>
     starts_with ECDSA_P256_SHA256_SIGNATURE_PREFIX (dc_signature d)"
  by (cases d) (auto simp: normalizeDeviceCertificate_def check_algorithm_def normalizeSignature_def bindE_eq_Inr)

lemma signed_get [simp]:
  "obj_get (signed_mutation_object s) ''algorithm'' = JStr ECDSA_P256_SHA256_ALGORITHM"
  "obj_get (signed_mutation_object s) ''deviceCertificate'' = device_certificate_object (sg_deviceCertificate s)"
  "obj_get (signed_mutation_object s) ''mutation'' = mutation_object (sg_mutation s)"
  "obj_get (signed_mutation_object s) ''signature'' = JStr (sg_signature s)"
  by (simp_all add: signed_mutation_object_def obj_get_def)

lemma signed_normal:
  assumes "normalizeDeviceCertificate env (device_certificate_object (sg_deviceCertificate s)) = Inr (sg_deviceCertificate s)"
    and "normalizeSyncMutation env (mutation_object (sg_mutation s)) = Inr (sg_mutation s)"
    and "starts_with ECDSA_P256_SHA256_SIGNATURE_PREFIX (sg_signature s)"
  shows "normalizeSignedSyncMutation env (signed_mutation_object s) = Inr s"
  using assms by (cases s) (simp add: normalizeSignedSyncMutation_def check_algorithm_def normalizeSignature_def)

subsection \<open>Signatures\<close>

lemma prefix_simps [simp]:
  "starts_with p (p @ s)" "signatureWithoutPrefix (ECDSA_P256_SHA256_SIGNATURE_PREFIX @ s) = s"
  by (simp_all add: starts_with_def signatureWithoutPrefix_def)

text \<open>A pair of keys: the public one can be imported and accepts what the private one signs.\<close>

definition key_pair :: "sync_env \<Rightarrow> jsval \<Rightarrow> jsval \<Rightarrow> bool" where
  "key_pair env private public \<longleftrightarrow> jwk_imports env public \<and>
     (\<forall>bytes. ecdsa_verify env public (ecdsa_sign env private bytes) bytes)"

lemma signed_verifies:
  assumes "signStableJson env private v = Inr s" "key_pair env private public"
  shows "verifyStableJsonSignature env public s v = Inr True" "starts_with ECDSA_P256_SHA256_SIGNATURE_PREFIX s"
  using assms
  by (auto simp: signStableJson_def verifyStableJsonSignature_def key_pair_def bindE_eq_Inr base64_roundtrip split: if_splits)

lemma verify_certificate:
  assumes "normalizeDeviceCertificate env (device_certificate_object d) = Inr d"
    and "deviceCertificateSignatureValue (dc_certificate d) = Inr v"
    and "verifyStableJsonSignature env public (dc_signature d) v = Inr True"
    and "date_parse (se_transport env) (cp_expiresAt (dc_certificate d)) = Some t" "n < t"
  shows "verifyDeviceCertificate env public (device_certificate_object d) (Some n) = Inr (dc_certificate d)"
  using assms by (simp add: verifyDeviceCertificate_def assertNotExpired_def)

lemma verify_signed:
  assumes "normalizeSignedSyncMutation env (signed_mutation_object s) = Inr s"
    and "verifyDeviceCertificate env public (device_certificate_object (sg_deviceCertificate s)) now = Inr c"
    and "assertMutationMatchesCertificate c (sg_mutation s) = Inr ()"
    and "signedMutationSignatureValue (sg_deviceCertificate s) (sg_mutation s) = Inr v"
    and "verifyStableJsonSignature env (cp_devicePublicKey c) (sg_signature s) v = Inr True"
  shows "verifySignedMutation env public now (signed_mutation_object s) = Inr (sg_mutation s)"
  using assms by (simp add: verifySignedMutation_def)

text \<open>
  C26: What a device signs, with a certificate the backend signed for it, is verified before the
  certificate expires: the verification returns the normalised mutation. The law of the signature
  scheme is the only assumption on the cryptography.
\<close>

theorem signed_mutation_roundtrip:
  assumes "createDeviceCertificate env backendPrivate certificate = Inr c"
    and "createSignedMutation env (device_certificate_object c) devicePrivate mutation = Inr s"
    and "key_pair env backendPrivate backendPublic" "key_pair env devicePrivate (cp_devicePublicKey (dc_certificate c))"
    and "date_texts env" "plain_json certificate" "plain_json mutation"
    and "date_parse (se_transport env) (cp_expiresAt (dc_certificate c)) = Some t" "n < t"
  shows "normalizeSyncMutation env mutation = Inr (sg_mutation s) \<and>
    verifySignedMutation env backendPublic (Some n) (signed_mutation_object s) = Inr (sg_mutation s)"
proof -
  from assms(1) obtain v where c: "normalizeDeviceCertificatePayload env certificate = Inr (dc_certificate c)"
      and v: "deviceCertificateSignatureValue (dc_certificate c) = Inr v" "signStableJson env backendPrivate v = Inr (dc_signature c)"
    by (auto simp: createDeviceCertificate_def bindE_eq_Inr)
  have "starts_with ECDSA_P256_SHA256_SIGNATURE_PREFIX (dc_signature c)"
    using v(2) assms(3) by (rule signed_verifies)
  with certificate_payload_normal [OF c assms(6,5)]
  have cert: "normalizeDeviceCertificate env (device_certificate_object c) = Inr c"
    by (simp add: certificate_normal)
  from assms(2) cert obtain w where m: "normalizeSyncMutation env mutation = Inr (sg_mutation s)" "sg_deviceCertificate s = c"
      and match: "assertMutationMatchesCertificate (dc_certificate c) (sg_mutation s) = Inr ()"
      and w: "signedMutationSignatureValue c (sg_mutation s) = Inr w" "signStableJson env devicePrivate w = Inr (sg_signature s)"
    by (auto simp: createSignedMutation_def bindE_eq_Inr)
  have "normalizeSignedSyncMutation env (signed_mutation_object s) = Inr s"
    using signed_verifies(2) [OF w(2) assms(4)] cert mutation_normal [OF m(1) assms(7,5)] by (intro signed_normal) (simp_all add: m(2))
  moreover have "verifyDeviceCertificate env backendPublic (device_certificate_object (sg_deviceCertificate s)) (Some n) = Inr (dc_certificate c)"
    unfolding m(2) using cert v(1) signed_verifies(1) [OF v(2) assms(3)] assms(8,9) by (rule verify_certificate)
  ultimately show ?thesis
    using m match w(1) signed_verifies(1) [OF w(2) assms(4)] by (auto intro: verify_signed)
qed

subsection \<open>Examples\<close>

text \<open>
  An environment for the examples: dates are decimal numbers, and the one signature that any key
  makes and accepts is the byte \<open>A\<close>.
\<close>

definition demo_sync_env :: sync_env where
  "demo_sync_env = \<lparr>se_transport = \<lparr>iso_string = bigint_string, date_parse = (\<lambda>s. Some (bigint_of s)), zone_known = (\<lambda>_. False),
     zone_format = (\<lambda>_. bigint_string), model_of = (\<lambda>_. \<lparr>bm_name = [], bm_attributes = [], bm_relationships = []\<rparr>),
     hydrate = (\<lambda>_. None)\<rparr>,
     se_host = \<lparr>json_stringify = raw_text fraction_text, json_parse = (\<lambda>_. None), sha256_hex = id\<rparr>,
     jwk_imports = (\<lambda>_. True), ecdsa_sign = (\<lambda>_ _. ''A''), ecdsa_verify = (\<lambda>_ s _. s = ''A'')\<rparr>"

definition demo_sync_mutation :: "string \<Rightarrow> sync_mutation" where
  "demo_sync_mutation i = \<lparr>sm_actorDeviceId = ''d'', sm_actorUserId = ''u'', sm_clientMutationId = i, sm_model = ''Task'',
     sm_occurredAt = ''5'', sm_offlineGrantId = ''g'', sm_operation = ''update'', sm_policyHash = ''p'',
     sm_attributes = Some (JObj [(''name'', JStr ''x'')]), sm_baseVersion = None, sm_command = None, sm_payload = None\<rparr>"

definition demo_certificate :: device_certificate where
  "demo_certificate = \<lparr>dc_certificate = \<lparr>cp_actorDeviceId = ''d'', cp_actorUserId = ''u'', cp_certificateId = ''c'',
     cp_devicePublicKey = JObj [], cp_expiresAt = ''9'', cp_issuedAt = ''1''\<rparr>, dc_signature = ECDSA_P256_SHA256_SIGNATURE_PREFIX @ ''QQ''\<rparr>"

definition demo_signed :: "string \<Rightarrow> signed_mutation" where
  "demo_signed i = \<lparr>sg_deviceCertificate = demo_certificate, sg_mutation = demo_sync_mutation i,
     sg_signature = ECDSA_P256_SHA256_SIGNATURE_PREFIX @ ''QQ''\<rparr>"

lemma demo_key_pair: "key_pair demo_sync_env a b"
  by (simp add: key_pair_def demo_sync_env_def)

lemma demo_dates: "date_texts demo_sync_env"
proof -
  have "bigint_string t \<noteq> []" for t using decimal_props by (simp add: bigint_string_def)
  then show ?thesis by (simp add: date_texts_def demo_sync_env_def)
qed

lemma demo_signature: "base64UrlEncode ''A'' = ''QQ''"
  by code_simp

lemma demo_sign:
  "is_ok (deterministicJson v) \<Longrightarrow>
     signStableJson demo_sync_env k v = Inr (ECDSA_P256_SHA256_SIGNATURE_PREFIX @ ''QQ'')"
  by (auto simp: signStableJson_def deterministic_text_def demo_sync_env_def demo_signature elim!: is_okE)

lemma demo_certificate_value: "is_ok (bindE (deviceCertificateSignatureValue (dc_certificate demo_certificate)) deterministicJson)"
  by code_simp

lemma demo_signed_value: "is_ok (bindE (signedMutationSignatureValue demo_certificate (demo_sync_mutation ''m'')) deterministicJson)"
  by code_simp

lemma demo_certificate_normal:
  "normalizeDeviceCertificate demo_sync_env (device_certificate_object demo_certificate) = Inr demo_certificate"
  by code_simp

lemma demo_mutation_normal:
  "normalizeSyncMutation demo_sync_env (mutation_object (demo_sync_mutation ''m'')) = Inr (demo_sync_mutation ''m'')"
  by code_simp

lemma demo_created:
  "createDeviceCertificate demo_sync_env JNull (certificate_payload_object (dc_certificate demo_certificate)) = Inr demo_certificate"
  "createSignedMutation demo_sync_env (device_certificate_object demo_certificate) JNull (mutation_object (demo_sync_mutation ''m'')) =
     Inr (demo_signed ''m'')"
proof -
  have p: "normalizeDeviceCertificatePayload demo_sync_env (certificate_payload_object (dc_certificate demo_certificate)) =
      Inr (dc_certificate demo_certificate)"
    using demo_certificate_normal by (simp only: certificate_normal)
  from demo_certificate_value obtain v where v: "deviceCertificateSignatureValue (dc_certificate demo_certificate) = Inr v"
      "is_ok (deterministicJson v)"
    by (auto simp: bindE_eq_Inr elim!: is_okE)
  show "createDeviceCertificate demo_sync_env JNull (certificate_payload_object (dc_certificate demo_certificate)) = Inr demo_certificate"
    unfolding createDeviceCertificate_def p bindE_Inr v(1) demo_sign [OF v(2)] by (simp add: demo_certificate_def)
  from demo_signed_value obtain w where w: "signedMutationSignatureValue demo_certificate (demo_sync_mutation ''m'') = Inr w"
      "is_ok (deterministicJson w)"
    by (auto simp: bindE_eq_Inr elim!: is_okE)
  have "assertMutationMatchesCertificate (dc_certificate demo_certificate) (demo_sync_mutation ''m'') = Inr ()"
    by (simp add: assertMutationMatchesCertificate_def demo_certificate_def demo_sync_mutation_def)
  then show "createSignedMutation demo_sync_env (device_certificate_object demo_certificate) JNull (mutation_object (demo_sync_mutation ''m'')) =
      Inr (demo_signed ''m'')"
    by (simp add: createSignedMutation_def demo_certificate_normal demo_mutation_normal w(1) demo_sign [OF w(2)] demo_signed_def)
qed

lemma demo_expiry: "date_parse (se_transport demo_sync_env) (cp_expiresAt (dc_certificate demo_certificate)) = Some 9"
  by code_simp

lemma demo_verified:
  "verifySignedMutation demo_sync_env JNull (Some 5) (signed_mutation_object (demo_signed ''m'')) = Inr (demo_sync_mutation ''m'')"
proof -
  from demo_certificate_value obtain v where v: "deviceCertificateSignatureValue (dc_certificate demo_certificate) = Inr v"
      "is_ok (deterministicJson v)"
    by (auto simp: bindE_eq_Inr elim!: is_okE)
  from demo_signed_value obtain w where w: "signedMutationSignatureValue demo_certificate (demo_sync_mutation ''m'') = Inr w"
      "is_ok (deterministicJson w)"
    by (auto simp: bindE_eq_Inr elim!: is_okE)
  have verify: "verifyStableJsonSignature demo_sync_env k (ECDSA_P256_SHA256_SIGNATURE_PREFIX @ ''QQ'') x = Inr True"
    if "is_ok (deterministicJson x)" for k x
    using that demo_key_pair by (intro signed_verifies(1) demo_sign)
  have signatures: "dc_signature demo_certificate = ECDSA_P256_SHA256_SIGNATURE_PREFIX @ ''QQ''"
      "sg_signature (demo_signed ''m'') = ECDSA_P256_SHA256_SIGNATURE_PREFIX @ ''QQ''"
      "sg_deviceCertificate (demo_signed ''m'') = demo_certificate" "sg_mutation (demo_signed ''m'') = demo_sync_mutation ''m''"
    by (simp_all add: demo_certificate_def demo_signed_def)
  have "verifyDeviceCertificate demo_sync_env JNull (device_certificate_object demo_certificate) (Some 5) = Inr (dc_certificate demo_certificate)"
    using demo_certificate_normal v(1) _ demo_expiry
    by (rule verify_certificate) (simp_all only: signatures verify [OF v(2)])
  moreover have "normalizeSignedSyncMutation demo_sync_env (signed_mutation_object (demo_signed ''m'')) = Inr (demo_signed ''m'')"
    using demo_certificate_normal demo_mutation_normal by (intro signed_normal) (simp_all add: signatures)
  moreover have "assertMutationMatchesCertificate (dc_certificate demo_certificate) (demo_sync_mutation ''m'') = Inr ()"
    by (simp add: assertMutationMatchesCertificate_def demo_certificate_def demo_sync_mutation_def)
  ultimately show ?thesis
    using verify_signed [of demo_sync_env "demo_signed ''m''"] w(1) verify [OF w(2)] by (simp only: signatures)
qed

lemma demo_plain: "plain_json (certificate_payload_object (dc_certificate demo_certificate))"
  "plain_json (mutation_object (demo_sync_mutation ''m''))"
  by code_simp+

lemma signed_mutation_roundtrip_witness:
  "createSignedMutation demo_sync_env (device_certificate_object demo_certificate) JNull (mutation_object (demo_sync_mutation ''m'')) =
     Inr (demo_signed ''m'') \<and>
   verifySignedMutation demo_sync_env JNull (Some 5) (signed_mutation_object (demo_signed ''m'')) = Inr (demo_sync_mutation ''m'')"
  using signed_mutation_roundtrip [OF demo_created demo_key_pair demo_key_pair demo_dates demo_plain demo_expiry, of 5 JNull] demo_created(2)
  by (simp add: demo_signed_def)

end
