(* ===== verification/Mutation_Log.thy ===== *)
theory Mutation_Log
  imports Device_Identity Sync_Conflict
begin

text \<open>
  The local mutation log (\<open>src/src/sync/local-mutation-log.js\<close>). The storage adapter is the
  application's; its contract is a row store, so a log is the list of its rows under one storage key.
  The sequence number the adapter hands out, the generated record id and the clock are arguments.
  \<open>withStorageKeyLock\<close> lets one operation on a storage key run at a time, so each is one step
  from rows to rows.

  A stored record holds a replay result in its wire form; reading a record back restores the typed
  values.
\<close>

record log_dependency =
  dep_clientMutationId :: string
  dep_model :: string

record log_record =
  lr_createdAt :: string
  lr_dependencies :: "log_dependency list"
  lr_id :: string
  lr_mutation :: sync_mutation
  lr_sequence :: int
  lr_status :: mutation_status
  lr_updatedAt :: string
  lr_signedMutation :: "jsval option"
  lr_syncResult :: "tval option"

type_synonym log_rows = "log_record list"

datatype log_error =
    Log_Expected string
  | Unknown_Local_Record string
  | Not_Pending mutation_status
  | Signed_Payload_Mismatch
  | Invalid_Clock
  | Empty_Partition_Key
  | Result_Not_Serializable transport_error

definition PENDING_STATUS_VALUES :: "mutation_status list" where
  "PENDING_STATUS_VALUES = [Pending, Applied_Locally, Peer_Applied]"

definition TERMINAL_STATUSES :: "mutation_status list" where
  "TERMINAL_STATUSES = [Rejected, Synced]"

definition partition_storage_key :: "string \<Rightarrow> string \<Rightarrow> log_error + string" where
  "partition_storage_key storageKey partitionKey =
     (if partitionKey = [] then Inl Empty_Partition_Key
      else Inr (storageKey @ '':'' @ decimal (length partitionKey) @ '':'' @ partitionKey))"

subsection \<open>Normalising a record\<close>

definition required_text :: "string \<Rightarrow> string \<Rightarrow> log_error + string" where
  "required_text s label = (if s = [] then Inl (Log_Expected label) else Inr s)"

definition requiredIsoTimestamp :: "sync_env \<Rightarrow> string \<Rightarrow> string \<Rightarrow> log_error + string" where
  "requiredIsoTimestamp env s label =
     bindE (required_text s label) (\<lambda>v.
       case date_parse (se_transport env) v of
         None \<Rightarrow> Inl (Log_Expected label)
       | Some t \<Rightarrow> if iso_string (se_transport env) t \<noteq> v then Inl (Log_Expected label) else Inr v)"

definition requiredPositiveInteger :: "int \<Rightarrow> string \<Rightarrow> log_error + int" where
  "requiredPositiveInteger n label = (if n < 1 then Inl (Log_Expected label) else Inr n)"

definition cloneJsonObject :: "string \<Rightarrow> jsval \<Rightarrow> log_error + jsval" where
  "cloneJsonObject label v = (case v of JObj _ \<Rightarrow> Inr (json_clone v) | _ \<Rightarrow> Inl (Log_Expected label))"

definition cloneBaseVersion :: "jsval \<Rightarrow> log_error + jsval" where
  "cloneBaseVersion v =
     (case v of JNull \<Rightarrow> Inr v | JStr _ \<Rightarrow> Inr v | JNum _ \<Rightarrow> Inr v | _ \<Rightarrow> Inl (Log_Expected ''baseVersion''))"

definition optionalE :: "('a \<Rightarrow> 'e + 'b) \<Rightarrow> 'a option \<Rightarrow> 'e + 'b option" where
  "optionalE f v = (case v of None \<Rightarrow> Inr None | Some x \<Rightarrow> bindE (f x) (\<lambda>y. Inr (Some y)))"

definition normalizeMutation :: "sync_env \<Rightarrow> sync_mutation \<Rightarrow> log_error + sync_mutation" where
  "normalizeMutation env mutation =
     bindE (required_text (sm_actorDeviceId mutation) ''actorDeviceId'') (\<lambda>actorDeviceId.
     bindE (required_text (sm_actorUserId mutation) ''actorUserId'') (\<lambda>actorUserId.
     bindE (required_text (sm_clientMutationId mutation) ''clientMutationId'') (\<lambda>clientMutationId.
     bindE (required_text (sm_model mutation) ''model'') (\<lambda>model.
     bindE (requiredIsoTimestamp env (sm_occurredAt mutation) ''occurredAt'') (\<lambda>occurredAt.
     bindE (required_text (sm_offlineGrantId mutation) ''offlineGrantId'') (\<lambda>offlineGrantId.
     bindE (required_text (sm_operation mutation) ''operation'') (\<lambda>operation.
     bindE (required_text (sm_policyHash mutation) ''policyHash'') (\<lambda>policyHash.
     bindE (optionalE (cloneJsonObject ''attributes'') (sm_attributes mutation)) (\<lambda>attributes.
     bindE (optionalE cloneBaseVersion (sm_baseVersion mutation)) (\<lambda>baseVersion.
     bindE (optionalE (\<lambda>c. required_text c ''command'') (sm_command mutation)) (\<lambda>command.
     bindE (optionalE (cloneJsonObject ''payload'') (sm_payload mutation)) (\<lambda>payload.
       Inr \<lparr>sm_actorDeviceId = actorDeviceId, sm_actorUserId = actorUserId, sm_clientMutationId = clientMutationId,
         sm_model = model, sm_occurredAt = occurredAt, sm_offlineGrantId = offlineGrantId, sm_operation = operation,
         sm_policyHash = policyHash, sm_attributes = attributes, sm_baseVersion = baseVersion, sm_command = command,
         sm_payload = payload\<rparr>))))))))))))"

definition normalizeDependency :: "log_dependency \<Rightarrow> log_error + log_dependency" where
  "normalizeDependency d =
     bindE (required_text (dep_clientMutationId d) ''dependency clientMutationId'') (\<lambda>clientMutationId.
     bindE (required_text (dep_model d) ''dependency model'') (\<lambda>model.
       Inr \<lparr>dep_clientMutationId = clientMutationId, dep_model = model\<rparr>))"

definition normalizeDependencies :: "log_dependency list \<Rightarrow> log_error + log_dependency list" where
  "normalizeDependencies ds = collectE (map normalizeDependency ds)"

definition wire_object :: "tval \<Rightarrow> log_error + tval" where
  "wire_object v = (case v of TObj _ \<Rightarrow> Inr v | _ \<Rightarrow> Inl (Log_Expected ''syncResult''))"

definition normalizeRecord :: "sync_env \<Rightarrow> log_record \<Rightarrow> log_error + log_record" where
  "normalizeRecord env record =
     bindE (requiredIsoTimestamp env (lr_createdAt record) ''createdAt'') (\<lambda>createdAt.
     bindE (normalizeDependencies (lr_dependencies record)) (\<lambda>dependencies.
     bindE (required_text (lr_id record) ''id'') (\<lambda>i.
     bindE (normalizeMutation env (lr_mutation record)) (\<lambda>mutation.
     bindE (requiredPositiveInteger (lr_sequence record) ''sequence'') (\<lambda>sequence.
     bindE (requiredIsoTimestamp env (lr_updatedAt record) ''updatedAt'') (\<lambda>updatedAt.
     bindE (optionalE (cloneJsonObject ''signedMutation'') (lr_signedMutation record)) (\<lambda>signedMutation.
     bindE (optionalE wire_object (lr_syncResult record)) (\<lambda>syncResult.
       Inr \<lparr>lr_createdAt = createdAt, lr_dependencies = dependencies, lr_id = i, lr_mutation = mutation,
         lr_sequence = sequence, lr_status = lr_status record, lr_updatedAt = updatedAt,
         lr_signedMutation = signedMutation, lr_syncResult = syncResult\<rparr>))))))))"

text \<open>\<open>cloneRecord\<close>; a wire form is already what JSON returns.\<close>

definition cloneRecord :: "log_record \<Rightarrow> log_record" where
  "cloneRecord r = r\<lparr>
     lr_mutation := (lr_mutation r)\<lparr>sm_attributes := map_option json_clone (sm_attributes (lr_mutation r)),
       sm_baseVersion := map_option json_clone (sm_baseVersion (lr_mutation r)),
       sm_payload := map_option json_clone (sm_payload (lr_mutation r))\<rparr>,
     lr_signedMutation := map_option json_clone (lr_signedMutation r)\<rparr>"

text \<open>
  \<open>restoreSyncResultTypes\<close>. The restored value is what a caller sees; it is never written back.
\<close>

definition restoreSyncResultTypes :: "sync_env \<Rightarrow> log_record \<Rightarrow> log_error + log_record" where
  "restoreSyncResultTypes env record =
     (case lr_syncResult record of
        None \<Rightarrow> Inr record
      | Some w \<Rightarrow>
          (case deserializeFrontendModelTransportValue (se_transport env) w of
             Inl e \<Rightarrow> Inl (Result_Not_Serializable e)
           | Inr v \<Rightarrow> Inr (record\<lparr>lr_syncResult := Some v\<rparr>)))"

definition normalizeRecordList :: "sync_env \<Rightarrow> log_rows \<Rightarrow> log_error + log_rows" where
  "normalizeRecordList env rows =
     bindE (collectE (map (normalizeRecord env) rows)) (\<lambda>normalized.
       collectE (map (\<lambda>r. restoreSyncResultTypes env (cloneRecord r)) (sort_key lr_sequence normalized)))"

subsection \<open>The storage adapter\<close>

definition row_by_id :: "string \<Rightarrow> log_rows \<Rightarrow> log_record option" where
  "row_by_id i rows = find (\<lambda>r. lr_id r = i) rows"

definition update_row :: "log_record \<Rightarrow> log_rows \<Rightarrow> log_rows" where
  "update_row record rows = map (\<lambda>r. if lr_id r = lr_id record then record else r) rows"

definition delete_rows :: "string list \<Rightarrow> log_rows \<Rightarrow> log_rows" where
  "delete_rows ids rows = filter (\<lambda>r. lr_id r \<notin> set ids) rows"

subsection \<open>Operations\<close>

text \<open>
  An operation returns its outcome and the rows it leaves, since it may throw after it has written:
  restoring the typed values of a result comes after the update.
\<close>

type_synonym 'a log_outcome = "(log_error + 'a) \<times> log_rows"

definition currentTimestamp :: "sync_env \<Rightarrow> int option \<Rightarrow> log_error + string" where
  "currentTimestamp env now =
     (case now of None \<Rightarrow> Inl Invalid_Clock | Some t \<Rightarrow> Inr (iso_string (se_transport env) t))"

definition new_record :: "sync_env \<Rightarrow> int option \<Rightarrow> string \<Rightarrow> int \<Rightarrow> log_dependency list \<Rightarrow> sync_mutation \<Rightarrow>
    jsval option \<Rightarrow> log_error + log_record" where
  "new_record env now newId nextSequence dependencies mutation signedMutation =
     bindE (currentTimestamp env now) (\<lambda>timestamp.
       normalizeRecord env \<lparr>lr_createdAt = timestamp, lr_dependencies = dependencies, lr_id = newId,
         lr_mutation = mutation, lr_sequence = nextSequence, lr_status = Pending, lr_updatedAt = timestamp,
         lr_signedMutation = signedMutation, lr_syncResult = None\<rparr>)"

definition append_record :: "sync_env \<Rightarrow> int option \<Rightarrow> string \<Rightarrow> int \<Rightarrow> log_dependency list \<Rightarrow> sync_mutation \<Rightarrow>
    jsval option \<Rightarrow> log_rows \<Rightarrow> log_record log_outcome" where
  "append_record env now newId nextSequence dependencies mutation signedMutation rows =
     (if signedMutation \<noteq> None \<and>
         stableJsonStringify (se_host env) (obj_get (the signedMutation) ''mutation'') \<noteq>
         stableJsonStringify (se_host env) (mutation_object mutation)
      then (Inl Signed_Payload_Mismatch, rows)
      else
        (case new_record env now newId nextSequence dependencies mutation signedMutation of
           Inl e \<Rightarrow> (Inl e, rows)
         | Inr record \<Rightarrow> (Inr (cloneRecord record), rows @ [cloneRecord record])))"

definition records :: "sync_env \<Rightarrow> log_rows \<Rightarrow> log_error + log_rows" where
  "records env rows = normalizeRecordList env rows"

definition pendingRecords :: "sync_env \<Rightarrow> log_rows \<Rightarrow> log_error + log_rows" where
  "pendingRecords env rows = normalizeRecordList env (filter (\<lambda>r. lr_status r \<in> set PENDING_STATUS_VALUES) rows)"

text \<open>The common end of the two updates: write the record, then return it with its typed values.\<close>

definition store_and_return :: "sync_env \<Rightarrow> log_error + log_record \<Rightarrow> log_rows \<Rightarrow> log_record log_outcome" where
  "store_and_return env result rows =
     (case result of
        Inl e \<Rightarrow> (Inl e, rows)
      | Inr record \<Rightarrow> (restoreSyncResultTypes env (cloneRecord record), update_row (cloneRecord record) rows))"

definition wire_result :: "sync_env \<Rightarrow> nat \<Rightarrow> tval \<Rightarrow> log_error + tval" where
  "wire_result env fuel v =
     (case serializeFrontendModelTransportValue (se_transport env) fuel JUndef v of
        Inl e \<Rightarrow> Inl (Result_Not_Serializable e)
      | Inr w \<Rightarrow> wire_object w)"

definition updateStatus :: "sync_env \<Rightarrow> nat \<Rightarrow> int option \<Rightarrow> string \<Rightarrow> mutation_status \<Rightarrow> tval option \<Rightarrow> log_rows \<Rightarrow>
    log_record log_outcome" where
  "updateStatus env fuel now i status syncResult rows =
     (case row_by_id i rows of
        None \<Rightarrow> (Inl (Unknown_Local_Record i), rows)
      | Some rawRecord \<Rightarrow>
          store_and_return env
            (bindE (normalizeRecord env rawRecord) (\<lambda>record.
             bindE (optionalE (wire_result env fuel) syncResult) (\<lambda>result.
             bindE (currentTimestamp env now) (\<lambda>timestamp.
               Inr (record\<lparr>lr_status := status, lr_updatedAt := timestamp,
                 lr_syncResult := (if result = None then lr_syncResult record else result)\<rparr>))))) rows)"

definition updateMutation :: "sync_env \<Rightarrow> int option \<Rightarrow> string \<Rightarrow> sync_mutation \<Rightarrow> log_rows \<Rightarrow>
    log_record log_outcome" where
  "updateMutation env now i mutation rows =
     (case row_by_id i rows of
        None \<Rightarrow> (Inl (Unknown_Local_Record i), rows)
      | Some rawRecord \<Rightarrow>
          store_and_return env
            (bindE (normalizeRecord env rawRecord) (\<lambda>record.
             if lr_status record \<notin> set PENDING_STATUS_VALUES then Inl (Not_Pending (lr_status record))
             else bindE (normalizeMutation env mutation) (\<lambda>normalized.
                  bindE (currentTimestamp env now) (\<lambda>timestamp.
                    Inr (record\<lparr>lr_mutation := normalized, lr_updatedAt := timestamp\<rparr>))))) rows)"

text \<open>
  \<open>compareRecordsNewestFirst\<close>: by \<open>localeCompare\<close> of the update times (\<open>locale_le\<close>),
  then by sequence, newest first; sorting is stable.
\<close>

definition newest_first :: "(string \<Rightarrow> string \<Rightarrow> bool) \<Rightarrow> log_record \<Rightarrow> log_record \<Rightarrow> bool" where
  "newest_first locale_le l r =
     (if locale_le (lr_updatedAt r) (lr_updatedAt l) \<and> locale_le (lr_updatedAt l) (lr_updatedAt r)
      then lr_sequence r \<le> lr_sequence l
      else locale_le (lr_updatedAt r) (lr_updatedAt l))"

fun insert_newest :: "(string \<Rightarrow> string \<Rightarrow> bool) \<Rightarrow> log_record \<Rightarrow> log_rows \<Rightarrow> log_rows" where
  "insert_newest le r [] = [r]"
| "insert_newest le r (x # xs) = (if newest_first le r x then r # x # xs else x # insert_newest le r xs)"

definition sort_newest :: "(string \<Rightarrow> string \<Rightarrow> bool) \<Rightarrow> log_rows \<Rightarrow> log_rows" where
  "sort_newest le rows = foldr (insert_newest le) rows []"

definition protected_ids :: "log_rows \<Rightarrow> string list" where
  "protected_ids rows =
     concat (map (\<lambda>r. map dep_clientMutationId (lr_dependencies r))
       (filter (\<lambda>r. lr_status r \<in> set PENDING_STATUS_VALUES \<or> lr_status r = Conflict) rows))"

definition prunable :: "(string \<Rightarrow> string \<Rightarrow> bool) \<Rightarrow> log_rows \<Rightarrow> log_rows" where
  "prunable le rows =
     sort_newest le (filter (\<lambda>r. sm_clientMutationId (lr_mutation r) \<notin> set (protected_ids rows))
       (filter (\<lambda>r. lr_status r \<in> set TERMINAL_STATUSES) rows))"

text \<open>The options are numbers when the caller gives them; a negative one is ignored.\<close>

definition excess_records :: "int option \<Rightarrow> log_rows \<Rightarrow> log_rows" where
  "excess_records maxTerminalRecords terminalRecords =
     (case maxTerminalRecords of
        None \<Rightarrow> []
      | Some n \<Rightarrow> if 0 \<le> n then drop (nat n) terminalRecords else [])"

definition expired_records :: "sync_env \<Rightarrow> int option \<Rightarrow> int option \<Rightarrow> log_rows \<Rightarrow> log_rows" where
  "expired_records env terminalRetentionMs now terminalRecords =
     (case terminalRetentionMs of
        None \<Rightarrow> []
      | Some ms \<Rightarrow>
          if ms < 0 then []
          else filter (\<lambda>r. case (now, date_parse (se_transport env) (lr_updatedAt r)) of
                 (Some n, Some t) \<Rightarrow> t < n - ms | _ \<Rightarrow> False) terminalRecords)"

definition compact :: "sync_env \<Rightarrow> (string \<Rightarrow> string \<Rightarrow> bool) \<Rightarrow> int option \<Rightarrow> int option \<Rightarrow> int option \<Rightarrow> log_rows \<Rightarrow>
    string list log_outcome" where
  "compact env le maxTerminalRecords terminalRetentionMs now rows =
     (case records env rows of
        Inl e \<Rightarrow> (Inl e, rows)
      | Inr rs \<Rightarrow>
          (let terminalRecords = prunable le rs;
               deletedRecordIds = rev (remdups (rev (map lr_id
                 (excess_records maxTerminalRecords terminalRecords @
                  expired_records env terminalRetentionMs now terminalRecords))))
           in (Inr deletedRecordIds, if deletedRecordIds \<noteq> [] then delete_rows deletedRecordIds rows else rows)))"

definition applySyncReplayResultToLocalMutationLog :: "sync_env \<Rightarrow> nat \<Rightarrow> int option \<Rightarrow> log_record \<Rightarrow> jsval \<Rightarrow> tval \<Rightarrow> log_rows \<Rightarrow>
    ((sync_error + log_error) + log_record) \<times> log_rows" where
  "applySyncReplayResultToLocalMutationLog env fuel now record result transportResult rows =
     (case replayResultLocalStatus result of
        Inl e \<Rightarrow> (Inl (Inl e), rows)
      | Inr status \<Rightarrow>
          (case updateStatus env fuel now (lr_id record) status (Some transportResult) rows of
             (Inl e, rows') \<Rightarrow> (Inl (Inr e), rows')
           | (Inr r, rows') \<Rightarrow> (Inr r, rows')))"

end
