(* ===== verification/Mutation_Log_Claims.thy ===== *)
theory Mutation_Log_Claims
  imports Mutation_Log Identity_Claims
begin

text \<open>
  Claims about the local mutation log: what reading a record back keeps, and what compaction may
  remove.
\<close>

subsection \<open>Reading keeps what identifies a record\<close>

text \<open>The fields of a record that no normalisation, clone or restoration touches.\<close>

definition core :: "log_record \<Rightarrow> (string \<times> mutation_status \<times> log_dependency list \<times> string \<times> int) \<times> string \<times> string \<times> string" where
  "core r = ((lr_id r, lr_status r, lr_dependencies r, lr_updatedAt r, lr_sequence r),
     sm_actorUserId (lr_mutation r), sm_actorDeviceId (lr_mutation r), sm_clientMutationId (lr_mutation r))"

lemma required_text_Inr [simp]: "required_text s l = Inr t \<longleftrightarrow> t = s \<and> s \<noteq> []"
  by (auto simp: required_text_def)

lemma requiredIsoTimestamp_Inr [simp]:
  "requiredIsoTimestamp env s l = Inr t \<longleftrightarrow>
     t = s \<and> s \<noteq> [] \<and> (\<exists>d. date_parse (se_transport env) s = Some d \<and> iso_string (se_transport env) d = s)"
  by (auto simp: requiredIsoTimestamp_def bindE_eq_Inr split: option.splits)

lemma requiredPositiveInteger_Inr [simp]: "requiredPositiveInteger n l = Inr m \<longleftrightarrow> m = n \<and> 1 \<le> n"
  by (auto simp: requiredPositiveInteger_def)

lemma normalizeDependency_Inr [simp]:
  "normalizeDependency d = Inr e \<longleftrightarrow> e = d \<and> dep_clientMutationId d \<noteq> [] \<and> dep_model d \<noteq> []"
  by (auto simp: normalizeDependency_def bindE_eq_Inr)

lemma normalizeDependencies_Inr:
  "normalizeDependencies ds = Inr es \<longleftrightarrow> es = ds \<and> (\<forall>d \<in> set ds. dep_clientMutationId d \<noteq> [] \<and> dep_model d \<noteq> [])"
proof -
  have "map normalizeDependency ds = map Inr es \<longleftrightarrow> es = ds \<and> (\<forall>d \<in> set ds. dep_clientMutationId d \<noteq> [] \<and> dep_model d \<noteq> [])"
    by (induction ds arbitrary: es) (auto simp: Cons_eq_map_conv)
  then show ?thesis by (simp add: normalizeDependencies_def collectE_Inr)
qed

lemma normalizeMutation_strings:
  assumes "normalizeMutation env m = Inr m'"
  shows "sm_actorUserId m' = sm_actorUserId m" "sm_actorDeviceId m' = sm_actorDeviceId m"
    "sm_clientMutationId m' = sm_clientMutationId m"
    "sm_actorUserId m \<noteq> []" "sm_actorDeviceId m \<noteq> []" "sm_clientMutationId m \<noteq> []"
  using assms by (auto simp: normalizeMutation_def bindE_eq_Inr)

lemma normalizeRecord_core: "normalizeRecord env r = Inr r' \<Longrightarrow> core r' = core r"
  using normalizeMutation_strings
  by (fastforce simp: normalizeRecord_def bindE_eq_Inr normalizeDependencies_Inr core_def)

lemma cloneRecord_core [simp]: "core (cloneRecord r) = core r"
  by (simp add: cloneRecord_def core_def)

lemma restore_core: "restoreSyncResultTypes env r = Inr r' \<Longrightarrow> core r' = core r"
  by (auto simp: restoreSyncResultTypes_def core_def split: option.splits sum.splits)

lemma map_Inr_core:
  "map f xs = map Inr ys \<Longrightarrow> (\<And>x y. f x = Inr y \<Longrightarrow> core y = core x) \<Longrightarrow> map core ys = map core xs"
proof (induction xs arbitrary: ys)
  case (Cons x xs)
  then obtain y ys' where "ys = y # ys'" "f x = Inr y" "map f xs = map Inr ys'"
    by (auto simp: Cons_eq_map_conv)
  with Cons show ?case by simp
qed simp

lemma records_core:
  assumes "records env rows = Inr rs"
  shows "mset (map core rs) = mset (map core rows)"
proof -
  from assms obtain ns where ns: "map (normalizeRecord env) rows = map Inr ns"
      "map (\<lambda>r. restoreSyncResultTypes env (cloneRecord r)) (sort_key lr_sequence ns) = map Inr rs"
    by (auto simp: records_def normalizeRecordList_def bindE_eq_Inr collectE_Inr)
  have "map core ns = map core rows"
    using ns(1) normalizeRecord_core by (rule map_Inr_core)
  moreover have "map core rs = map core (sort_key lr_sequence ns)"
    using ns(2) by (rule map_Inr_core) (auto dest: restore_core)
  ultimately show ?thesis by (metis mset_map mset_sort)
qed

lemma records_row:
  assumes "records env rows = Inr rs" "r \<in> set rows"
  shows "\<exists>r' \<in> set rs. core r' = core r"
proof -
  have "core r \<in> set (map core rows)" using assms(2) by simp
  then have "core r \<in> set (map core rs)" using records_core [OF assms(1)] by (metis set_mset_mset)
  then show ?thesis by force
qed

lemma row_of_record:
  assumes "records env rows = Inr rs" "r \<in> set rs"
  shows "\<exists>r' \<in> set rows. core r' = core r"
proof -
  have "core r \<in> set (map core rs)" using assms(2) by simp
  then have "core r \<in> set (map core rows)" using records_core [OF assms(1)] by (metis set_mset_mset)
  then show ?thesis by force
qed

subsection \<open>Compaction\<close>

definition settled :: "mutation_status \<Rightarrow> bool" where
  "settled s \<longleftrightarrow> s = Rejected \<or> s = Synced"

text \<open>Another mutation that is not settled waits for this one.\<close>

definition awaited :: "log_rows \<Rightarrow> log_record \<Rightarrow> bool" where
  "awaited rows r \<longleftrightarrow> (\<exists>p \<in> set rows. \<not> settled (lr_status p) \<and>
     sm_clientMutationId (lr_mutation r) \<in> dep_clientMutationId ` set (lr_dependencies p))"

lemma status_cases: "lr_status r \<in> set PENDING_STATUS_VALUES \<or> lr_status r = Conflict \<longleftrightarrow> \<not> settled (lr_status r)"
  "lr_status r \<in> set TERMINAL_STATUSES \<longleftrightarrow> settled (lr_status r)"
  by (cases "lr_status r"; simp add: PENDING_STATUS_VALUES_def TERMINAL_STATUSES_def settled_def)+

lemma protected_awaited: "sm_clientMutationId (lr_mutation r) \<in> set (protected_ids rows) \<longleftrightarrow> awaited rows r"
  by (auto simp: protected_ids_def awaited_def status_cases)

lemma core_eq:
  assumes "core r = core r'"
  shows "lr_id r = lr_id r'" "lr_status r = lr_status r'" "lr_dependencies r = lr_dependencies r'"
    "sm_clientMutationId (lr_mutation r) = sm_clientMutationId (lr_mutation r')"
    "sm_actorUserId (lr_mutation r) = sm_actorUserId (lr_mutation r')"
    "sm_actorDeviceId (lr_mutation r) = sm_actorDeviceId (lr_mutation r')"
  using assms by (simp_all add: core_def)

lemma awaited_core:
  assumes "records env rows = Inr rs" "core r = core r'"
  shows "awaited rs r \<longleftrightarrow> awaited rows r'"
proof
  assume "awaited rs r"
  then obtain p where p: "p \<in> set rs" "\<not> settled (lr_status p)"
      "sm_clientMutationId (lr_mutation r) \<in> dep_clientMutationId ` set (lr_dependencies p)"
    by (auto simp: awaited_def)
  from row_of_record [OF assms(1) p(1)] obtain q where "q \<in> set rows" "core q = core p" by blast
  with p core_eq [of q p] core_eq [OF assms(2)] show "awaited rows r'"
    unfolding awaited_def by (intro bexI [of _ q]) simp_all
next
  assume "awaited rows r'"
  then obtain p where p: "p \<in> set rows" "\<not> settled (lr_status p)"
      "sm_clientMutationId (lr_mutation r') \<in> dep_clientMutationId ` set (lr_dependencies p)"
    by (auto simp: awaited_def)
  from records_row [OF assms(1) p(1)] obtain q where "q \<in> set rs" "core q = core p" by blast
  with p core_eq [of q p] core_eq [OF assms(2)] show "awaited rs r"
    unfolding awaited_def by (intro bexI [of _ q]) simp_all
qed

lemma mset_insert_newest: "mset (insert_newest le r xs) = add_mset r (mset xs)"
  by (induction xs) auto

lemma mset_sort_newest: "mset (sort_newest le rows) = mset rows"
  unfolding sort_newest_def by (induction rows) (auto simp: mset_insert_newest)

lemma prunable_mset: "mset (prunable le rs) = mset (filter (\<lambda>r. settled (lr_status r) \<and> \<not> awaited rs r) rs)"
  by (simp add: prunable_def mset_sort_newest protected_awaited status_cases conj_commute)

lemma prunable_set: "r \<in> set (prunable le rs) \<longleftrightarrow> r \<in> set rs \<and> settled (lr_status r) \<and> \<not> awaited rs r"
proof -
  have "set (prunable le rs) = set (filter (\<lambda>r. settled (lr_status r) \<and> \<not> awaited rs r) rs)"
    using prunable_mset by (metis set_mset_mset)
  then show ?thesis by auto
qed

lemma deleted_prunable:
  "set (excess_records n ts @ expired_records env ms now ts) \<subseteq> set ts"
  by (auto simp: excess_records_def expired_records_def dest: in_set_dropD split: option.splits if_splits)

text \<open>A row that may go and stays is one of the newest terminal records.\<close>

lemma kept_rows_bound:
  assumes rs: "records env rows = Inr rs" and ids: "distinct (map lr_id rows)"
    and rows': "rows' = filter (\<lambda>r. lr_id r \<notin> deleted) rows" and ts: "ts = prunable le rs"
    and gone: "lr_id ` set (drop n ts) \<subseteq> deleted"
  shows "length (filter (\<lambda>r. settled (lr_status r) \<and> \<not> awaited rows r) rows') \<le> n"
proof -
  let ?left = "filter (\<lambda>r. settled (lr_status r) \<and> \<not> awaited rows r) rows'"
  have "lr_id ` set ?left \<subseteq> lr_id ` set (take n ts)"
  proof
    fix i
    assume "i \<in> lr_id ` set ?left"
    then obtain r where left: "r \<in> set ?left" and i: "i = lr_id r" by blast
    from left have r: "r \<in> set rows" "lr_id r \<notin> deleted" "settled (lr_status r)" "\<not> awaited rows r"
      unfolding rows' by simp_all
    from records_row [OF rs r(1)] obtain t where t: "t \<in> set rs" "core t = core r" by blast
    then have "t \<in> set ts" using r(3,4) awaited_core [OF rs t(2)] core_eq(2) [OF t(2)] by (simp add: ts prunable_set)
    moreover have "t \<notin> set (drop n ts)" using gone r(2) core_eq(1) [OF t(2)] by (metis image_eqI subsetD)
    ultimately have "t \<in> set (take n ts)" by (metis Un_iff append_take_drop_id set_append)
    with i core_eq(1) [OF t(2)] show "i \<in> lr_id ` set (take n ts)" by (metis image_eqI)
  qed
  then have "card (lr_id ` set ?left) \<le> card (lr_id ` set (take n ts))" by (intro card_mono) simp_all
  also have "\<dots> \<le> length (take n ts)" by (metis card_length length_map list.set_map)
  also have "\<dots> \<le> n" by simp
  moreover have "distinct (map lr_id ?left)" using ids by (simp add: rows' distinct_map_filter)
  from distinct_card [OF this] have "card (lr_id ` set ?left) = length ?left" by (simp only: set_map length_map)
  ultimately show ?thesis by linarith
qed

text \<open>
  C27: Compaction removes only settled records that no unsettled mutation depends on, whatever the
  options; it keeps the others as they are; and with a limit it leaves at most that many removable
  records.
\<close>

theorem compact_safe:
  assumes "compact env le maxTerminalRecords terminalRetentionMs now rows = (Inr deleted, rows')"
    and "distinct (map lr_id rows)"
  shows "rows' = filter (\<lambda>r. lr_id r \<notin> set deleted) rows \<and>
    (\<forall>r \<in> set rows. settled (lr_status r) \<and> \<not> awaited rows r \<or> r \<in> set rows') \<and>
    (\<forall>n. maxTerminalRecords = Some (int n) \<longrightarrow>
       length (filter (\<lambda>r. settled (lr_status r) \<and> \<not> awaited rows r) rows') \<le> n)"
proof -
  from assms(1) obtain rs where rs: "records env rows = Inr rs"
    by (auto simp: compact_def split: sum.splits)
  define ts where "ts = prunable le rs"
  let ?gone = "excess_records maxTerminalRecords ts @ expired_records env terminalRetentionMs now ts"
  have out: "deleted = rev (remdups (rev (map lr_id ?gone)))" "rows' = (if deleted \<noteq> [] then delete_rows deleted rows else rows)"
    using assms(1) unfolding compact_def Let_def rs sum.case ts_def prod.inject sum.inject by blast+
  then have deleted: "set deleted = lr_id ` set ?gone" by (simp only: set_rev set_remdups set_map)
  have rows': "rows' = filter (\<lambda>r. lr_id r \<notin> set deleted) rows" using out(2) by (simp add: delete_rows_def)
  have same_row: "core r = core t" if "r \<in> set rows" "t \<in> set rs" "lr_id r = lr_id t" for r t
  proof -
    from row_of_record [OF rs that(2)] obtain q where "q \<in> set rows" "core q = core t" by blast
    with that assms(2) core_eq(1) show ?thesis by (metis distinct_map_inj_on_eq)
  qed
  have removable: "settled (lr_status r) \<and> \<not> awaited rows r" if "r \<in> set rows" "lr_id r \<in> set deleted" for r
  proof -
    from that(2) deleted obtain t where t: "t \<in> set ?gone" "lr_id r = lr_id t" by auto
    with deleted_prunable [of maxTerminalRecords ts env terminalRetentionMs now] have "t \<in> set ts" by blast
    then have "t \<in> set rs" "settled (lr_status t)" "\<not> awaited rs t" by (simp_all add: ts_def prunable_set)
    moreover from this(1) have "core r = core t" using same_row that(1) t(2) by blast
    ultimately show ?thesis using awaited_core [OF rs, of t r] core_eq(2) [of r t] by simp
  qed
  have limit: "length (filter (\<lambda>r. settled (lr_status r) \<and> \<not> awaited rows r) rows') \<le> n"
    if n: "maxTerminalRecords = Some (int n)" for n
    using rs assms(2) rows' ts_def
  proof (rule kept_rows_bound)
    show "lr_id ` set (drop n ts) \<subseteq> set deleted" unfolding deleted by (simp add: n excess_records_def image_Un)
  qed
  have "\<forall>r \<in> set rows. settled (lr_status r) \<and> \<not> awaited rows r \<or> r \<in> set rows'"
    using removable unfolding rows' by auto
  with rows' limit show ?thesis by blast
qed

definition demo_log_record :: "string \<Rightarrow> int \<Rightarrow> mutation_status \<Rightarrow> log_dependency list \<Rightarrow> log_record" where
  "demo_log_record i n s ds = \<lparr>lr_createdAt = ''6'', lr_dependencies = ds, lr_id = i, lr_mutation = demo_sync_mutation i, lr_sequence = n,
     lr_status = s, lr_updatedAt = ''7'', lr_signedMutation = None, lr_syncResult = None\<rparr>"

text \<open>\<open>b\<close> depends on \<open>a\<close>, and both \<open>a\<close> and \<open>c\<close> are settled: only \<open>c\<close> may go.\<close>

definition demo_log_rows :: log_rows where
  "demo_log_rows = [demo_log_record ''a'' 1 Synced [],
     demo_log_record ''b'' 2 Pending [\<lparr>dep_clientMutationId = ''a'', dep_model = ''Task''\<rparr>], demo_log_record ''c'' 3 Rejected []]"

lemma demo_records: "records demo_sync_env demo_log_rows = Inr demo_log_rows"
  by code_simp

lemma demo_prunable: "map lr_id (prunable (\<le>) demo_log_rows) = [''c'']"
  by code_simp

lemma demo_kept: "delete_rows [''c''] demo_log_rows = [demo_log_rows ! 0, demo_log_rows ! 1]"
  by code_simp

lemma demo_compact:
  "compact demo_sync_env (\<le>) (Some 0) None (Some 9) demo_log_rows = (Inr [''c''], [demo_log_rows ! 0, demo_log_rows ! 1])"
proof -
  have "prunable (\<le>) demo_log_rows \<noteq> []" using demo_prunable by auto
  then show ?thesis
    by (simp add: compact_def Let_def demo_records excess_records_def expired_records_def demo_prunable demo_kept del: nth_Cons_Suc)
qed

lemma compact_safe_witness:
  "[demo_log_rows ! 0, demo_log_rows ! 1] = filter (\<lambda>r. lr_id r \<notin> set [''c'']) demo_log_rows"
proof -
  have "distinct (map lr_id demo_log_rows)" by code_simp
  from compact_safe [OF demo_compact this] show ?thesis by (rule conjunct1)
qed

end
