(* ===== verification/Peer_Bundle.thy ===== *)
theory Peer_Bundle
  imports Mutation_Log
begin

text \<open>
  Peer transfer of mutations (\<open>src/src/sync/peer-mutation-bundle.js\<close>): a device exports its
  unsettled mutations as signed envelopes, another one verifies and imports them into its own log.

  An import is a sequence of steps on the log, one append and one status update per new mutation; a
  step that throws ends the import but not what was written before. For each entry, \<open>fresh\<close>
  holds what the log obtains on the way: the generated id, the sequence number, and the clock at the
  append and at the update.
\<close>

record bundle_entry =
  be_localRecordId :: "string option"
  be_localSequence :: "int option"
  be_signedMutation :: jsval

record peer_bundle =
  pb_exportedAt :: string
  pb_mutations :: "bundle_entry list"

datatype peer_error =
    Identity identity_error
  | Log log_error
  | Expected_Bundle
  | Unsupported_Bundle_Format
  | Expected_Bundle_Text string
  | Invalid_Bundle_Date
  | Expected_Bundle_Mutations
  | Expected_Bundle_Entry nat
  | Unsupported_Export_Status mutation_status

definition PEER_MUTATION_BUNDLE_FORMAT :: string where
  "PEER_MUTATION_BUNDLE_FORMAT = ''velocious.sync.peer-mutation-bundle.v1''"

definition EXPORTABLE_STATUSES :: "mutation_status list" where
  "EXPORTABLE_STATUSES = [Pending, Applied_Locally, Conflict]"

subsection \<open>Export\<close>

definition normalizeExportStatuses :: "mutation_status list option \<Rightarrow> peer_error + mutation_status list" where
  "normalizeExportStatuses statuses =
     (case statuses of
        None \<Rightarrow> Inr EXPORTABLE_STATUSES
      | Some ss \<Rightarrow>
          (case find (\<lambda>s. s \<notin> set EXPORTABLE_STATUSES) ss of
             Some s \<Rightarrow> Inl (Unsupported_Export_Status s)
           | None \<Rightarrow> Inr (remdups ss)))"

definition bundle_timestamp :: "sync_env \<Rightarrow> int option \<Rightarrow> peer_error + string" where
  "bundle_timestamp env date = (case date of None \<Rightarrow> Inl Invalid_Bundle_Date | Some t \<Rightarrow> Inr (iso_string (se_transport env) t))"

definition export_entry :: "sync_env \<Rightarrow> jsval \<Rightarrow> jsval \<Rightarrow> log_record \<Rightarrow> peer_error + bundle_entry" where
  "export_entry env deviceCertificate devicePrivateKey record =
     bindE (case lr_signedMutation record of
              Some s \<Rightarrow> Inr s
            | None \<Rightarrow> lift_error Identity (bindE (createSignedMutation env deviceCertificate devicePrivateKey
                (mutation_object (lr_mutation record))) (\<lambda>s. Inr (signed_mutation_object s))))
       (\<lambda>s. Inr \<lparr>be_localRecordId = Some (lr_id record), be_localSequence = Some (lr_sequence record), be_signedMutation = s\<rparr>)"

definition exportPeerMutationBundle :: "sync_env \<Rightarrow> jsval \<Rightarrow> jsval \<Rightarrow> int option \<Rightarrow> mutation_status list option \<Rightarrow> log_rows \<Rightarrow>
    peer_error + peer_bundle" where
  "exportPeerMutationBundle env deviceCertificate devicePrivateKey now statuses rows =
     bindE (normalizeExportStatuses statuses) (\<lambda>selectedStatuses.
     bindE (bundle_timestamp env now) (\<lambda>timestamp.
     bindE (lift_error Log (records env rows)) (\<lambda>rs.
     bindE (collectE (map (export_entry env deviceCertificate devicePrivateKey)
         (sort_key lr_sequence (filter (\<lambda>r. lr_status r \<in> set selectedStatuses) rs)))) (\<lambda>mutations.
       Inr \<lparr>pb_exportedAt = timestamp, pb_mutations = mutations\<rparr>))))"

definition entry_object :: "bundle_entry \<Rightarrow> jsval" where
  "entry_object e = JObj (optional_field ''localRecordId'' (map_option JStr (be_localRecordId e)) @
     optional_field ''localSequence'' (map_option JInt (be_localSequence e)) @ [(''signedMutation'', be_signedMutation e)])"

definition bundle_object :: "peer_bundle \<Rightarrow> jsval" where
  "bundle_object b = JObj
     [(''exportedAt'', JStr (pb_exportedAt b)), (''format'', JStr PEER_MUTATION_BUNDLE_FORMAT),
      (''mutations'', JArr (map entry_object (pb_mutations b)))]"

subsection \<open>Import\<close>

definition bundle_text :: "jsval \<Rightarrow> string \<Rightarrow> peer_error + string" where
  "bundle_text v label = (case v of JStr s \<Rightarrow> if s = [] then Inl (Expected_Bundle_Text label) else Inr s | _ \<Rightarrow> Inl (Expected_Bundle_Text label))"

definition positiveInteger :: "jsval \<Rightarrow> string \<Rightarrow> peer_error + int" where
  "positiveInteger v label =
     (case js_integer v of None \<Rightarrow> Inl (Expected_Bundle_Text label) | Some n \<Rightarrow> if n < 1 then Inl (Expected_Bundle_Text label) else Inr n)"

definition normalizePeerMutationBundleEntry :: "nat \<Rightarrow> jsval \<Rightarrow> peer_error + bundle_entry" where
  "normalizePeerMutationBundleEntry index entry =
     (if \<not> is_object entry \<or> \<not> is_object (obj_get entry ''signedMutation'') then Inl (Expected_Bundle_Entry index) else
      bindE (if obj_get entry ''localRecordId'' = JUndef then Inr None
             else bindE (bundle_text (obj_get entry ''localRecordId'') ''localRecordId'') (\<lambda>s. Inr (Some s))) (\<lambda>localRecordId.
      bindE (if obj_get entry ''localSequence'' = JUndef then Inr None
             else bindE (positiveInteger (obj_get entry ''localSequence'') ''localSequence'') (\<lambda>n. Inr (Some n))) (\<lambda>localSequence.
        Inr \<lparr>be_localRecordId = localRecordId, be_localSequence = localSequence,
          be_signedMutation = obj_get entry ''signedMutation''\<rparr>)))"

definition normalizePeerMutationBundle :: "sync_env \<Rightarrow> jsval \<Rightarrow> peer_error + peer_bundle" where
  "normalizePeerMutationBundle env bundle =
     (if \<not> is_object bundle then Inl Expected_Bundle
      else if obj_get bundle ''format'' \<noteq> JStr PEER_MUTATION_BUNDLE_FORMAT then Inl Unsupported_Bundle_Format
      else bindE (bundle_text (obj_get bundle ''exportedAt'') ''exportedAt'') (\<lambda>exportedAt.
           bindE (bundle_timestamp env (date_parse (se_transport env) exportedAt)) (\<lambda>_.
           (case obj_get bundle ''mutations'' of
              JArr entries \<Rightarrow>
                bindE (collectE (map (\<lambda>(i, e). normalizePeerMutationBundleEntry i e) (enumerate 0 entries))) (\<lambda>mutations.
                  Inr \<lparr>pb_exportedAt = exportedAt, pb_mutations = mutations\<rparr>)
            | _ \<Rightarrow> Inl Expected_Bundle_Mutations))))"

record fresh_record =
  fr_id :: string
  fr_sequence :: int
  fr_createdAt :: "int option"
  fr_updatedAt :: "int option"

text \<open>
  Imported and skipped entries as client mutation id, idempotency key and local record id; rejected
  ones as error and index.
\<close>

record import_result =
  ir_imported :: "(string \<times> string \<times> string) list"
  ir_rejected :: "(identity_error \<times> nat) list"
  ir_skipped :: "(string \<times> string \<times> string) list"

record import_state =
  is_rows :: log_rows
  is_existing :: "string \<Rightarrow> log_record option"
  is_result :: import_result

definition record_key :: "log_record \<Rightarrow> identity_error + string" where
  "record_key r = mutationIdempotencyKey (mutation_object (lr_mutation r))"

definition existing_by_key :: "log_rows \<Rightarrow> peer_error + (string \<Rightarrow> log_record option)" where
  "existing_by_key rs =
     bindE (collectE (map (\<lambda>r. lift_error Identity (bindE (record_key r) (\<lambda>k. Inr (k, r)))) rs)) (\<lambda>pairs.
       Inr (foldl (\<lambda>m (k, r). m(k \<mapsto> r)) Map.empty pairs))"

definition import_entry :: "sync_env \<Rightarrow> jsval \<Rightarrow> int option \<Rightarrow> fresh_record \<Rightarrow> nat \<Rightarrow> bundle_entry \<Rightarrow> import_state \<Rightarrow>
    (peer_error + unit) \<times> import_state" where
  "import_entry env backendPublicKey now fresh index entry st =
     (case verifySignedMutation env backendPublicKey now (be_signedMutation entry) of
        Inl e \<Rightarrow> (Inr (), st\<lparr>is_result := (is_result st)\<lparr>ir_rejected := ir_rejected (is_result st) @ [(e, index)]\<rparr>\<rparr>)
      | Inr mutation \<Rightarrow>
          (case mutationIdempotencyKey (obj_get (be_signedMutation entry) ''mutation'') of
             Inl e \<Rightarrow> (Inl (Identity e), st)
           | Inr key \<Rightarrow>
               (case is_existing st key of
                  Some duplicateRecord \<Rightarrow>
                    (Inr (), st\<lparr>is_result := (is_result st)\<lparr>ir_skipped := ir_skipped (is_result st) @
                      [(sm_clientMutationId mutation, key, lr_id duplicateRecord)]\<rparr>\<rparr>)
                | None \<Rightarrow>
                    (case append_record env (fr_createdAt fresh) (fr_id fresh) (fr_sequence fresh) [] mutation
                        (Some (be_signedMutation entry)) (is_rows st) of
                       (Inl e, rows1) \<Rightarrow> (Inl (Log e), st\<lparr>is_rows := rows1\<rparr>)
                     | (Inr record, rows1) \<Rightarrow>
                         (case updateStatus env 0 (fr_updatedAt fresh) (lr_id record) Peer_Applied None rows1 of
                            (Inl e, rows2) \<Rightarrow> (Inl (Log e), st\<lparr>is_rows := rows2\<rparr>)
                          | (Inr updated, rows2) \<Rightarrow>
                              (Inr (), st\<lparr>is_rows := rows2, is_existing := (is_existing st)(key \<mapsto> updated),
                                 is_result := (is_result st)\<lparr>ir_imported := ir_imported (is_result st) @
                                   [(sm_clientMutationId mutation, key, lr_id updated)]\<rparr>\<rparr>))))))"

fun import_entries :: "sync_env \<Rightarrow> jsval \<Rightarrow> int option \<Rightarrow> (nat \<Rightarrow> fresh_record) \<Rightarrow> nat \<Rightarrow> bundle_entry list \<Rightarrow> import_state \<Rightarrow>
    (peer_error + unit) \<times> import_state" where
  "import_entries env backendPublicKey now fresh index [] st = (Inr (), st)"
| "import_entries env backendPublicKey now fresh index (entry # entries) st =
     (case import_entry env backendPublicKey now (fresh index) index entry st of
        (Inl e, st') \<Rightarrow> (Inl e, st')
      | (Inr _, st') \<Rightarrow> import_entries env backendPublicKey now fresh (Suc index) entries st')"

definition importPeerMutationBundle :: "sync_env \<Rightarrow> jsval \<Rightarrow> jsval \<Rightarrow> int option \<Rightarrow> (nat \<Rightarrow> fresh_record) \<Rightarrow> log_rows \<Rightarrow>
    (peer_error + import_result) \<times> log_rows" where
  "importPeerMutationBundle env backendPublicKey bundle now fresh rows =
     (case bindE (normalizePeerMutationBundle env bundle) (\<lambda>b.
             bindE (lift_error Log (records env rows)) (\<lambda>rs.
             bindE (existing_by_key rs) (\<lambda>existing. Inr (b, existing)))) of
        Inl e \<Rightarrow> (Inl e, rows)
      | Inr (b, existing) \<Rightarrow>
          (case import_entries env backendPublicKey now fresh 0 (pb_mutations b)
             \<lparr>is_rows = rows, is_existing = existing, is_result = \<lparr>ir_imported = [], ir_rejected = [], ir_skipped = []\<rparr>\<rparr> of
             (Inl e, st) \<Rightarrow> (Inl e, is_rows st)
           | (Inr _, st) \<Rightarrow> (Inr (is_result st), is_rows st)))"

end
