(* ===== verification/Log_Records.thy ===== *)
theory Log_Records
  imports Mutation_Log_Claims Peer_Bundle
begin

text \<open>
  When a log record is accepted and what its stored form is: the checks of \<open>normalizeRecord\<close> as a
  predicate, and the effect of one append and of one status update on the rows. The import of peer
  bundles rests on these.
\<close>

subsection \<open>Accepted records\<close>

definition iso_ok :: "sync_env \<Rightarrow> string \<Rightarrow> bool" where
  "iso_ok env s \<longleftrightarrow> s \<noteq> [] \<and> (\<exists>d. date_parse (se_transport env) s = Some d \<and> iso_string (se_transport env) d = s)"

definition base_ok :: "jsval option \<Rightarrow> bool" where
  "base_ok v \<longleftrightarrow> (case v of None \<Rightarrow> True | Some x \<Rightarrow> (case x of JNull \<Rightarrow> True | JStr _ \<Rightarrow> True | JNum _ \<Rightarrow> True | _ \<Rightarrow> False))"

definition object_or_none :: "jsval option \<Rightarrow> bool" where
  "object_or_none v \<longleftrightarrow> (case v of None \<Rightarrow> True | Some x \<Rightarrow> is_object x)"

definition mutation_ok :: "sync_env \<Rightarrow> sync_mutation \<Rightarrow> bool" where
  "mutation_ok env m \<longleftrightarrow>
     sm_actorDeviceId m \<noteq> [] \<and> sm_actorUserId m \<noteq> [] \<and> sm_clientMutationId m \<noteq> [] \<and> sm_model m \<noteq> [] \<and>
     iso_ok env (sm_occurredAt m) \<and> sm_offlineGrantId m \<noteq> [] \<and> sm_operation m \<noteq> [] \<and> sm_policyHash m \<noteq> [] \<and>
     object_or_none (sm_attributes m) \<and> base_ok (sm_baseVersion m) \<and> sm_command m \<noteq> Some [] \<and> object_or_none (sm_payload m)"

definition clone_parts :: "sync_mutation \<Rightarrow> sync_mutation" where
  "clone_parts m = m\<lparr>sm_attributes := map_option json_clone (sm_attributes m), sm_payload := map_option json_clone (sm_payload m)\<rparr>"

definition record_ok :: "sync_env \<Rightarrow> log_record \<Rightarrow> bool" where
  "record_ok env r \<longleftrightarrow>
     iso_ok env (lr_createdAt r) \<and> (\<forall>d \<in> set (lr_dependencies r). dep_clientMutationId d \<noteq> [] \<and> dep_model d \<noteq> []) \<and>
     lr_id r \<noteq> [] \<and> mutation_ok env (lr_mutation r) \<and> 1 \<le> lr_sequence r \<and> iso_ok env (lr_updatedAt r) \<and>
     object_or_none (lr_signedMutation r) \<and> (case lr_syncResult r of None \<Rightarrow> True | Some w \<Rightarrow> isPlainObject w)"

lemma requiredIso_iff [simp]: "requiredIsoTimestamp env s l = Inr t \<longleftrightarrow> t = s \<and> iso_ok env s"
  by (auto simp: iso_ok_def)

declare requiredIsoTimestamp_Inr [simp del]

lemma optional_clone [simp]:
  "optionalE (cloneJsonObject l) v = Inr w \<longleftrightarrow> w = map_option json_clone v \<and> object_or_none v"
  by (auto simp: optionalE_def cloneJsonObject_def object_or_none_def is_object_def split: option.splits jsval.splits)

lemma optional_base [simp]: "optionalE cloneBaseVersion v = Inr w \<longleftrightarrow> w = v \<and> base_ok v"
  by (auto simp: optionalE_def cloneBaseVersion_def base_ok_def split: option.splits jsval.splits)

lemma optional_text [simp]: "optionalE (\<lambda>c. required_text c l) v = Inr w \<longleftrightarrow> w = v \<and> v \<noteq> Some []"
  by (auto simp: optionalE_def bindE_eq_Inr split: option.splits)

lemma optional_wire [simp]:
  "optionalE wire_object v = Inr w \<longleftrightarrow> w = v \<and> (case v of None \<Rightarrow> True | Some x \<Rightarrow> isPlainObject x)"
  by (auto simp: optionalE_def wire_object_def isPlainObject_def split: option.splits tval.splits)

lemma normalizeMutation_iff: "normalizeMutation env m = Inr m' \<longleftrightarrow> mutation_ok env m \<and> m' = clone_parts m"
  by (auto simp: normalizeMutation_def bindE_eq_Inr mutation_ok_def clone_parts_def)

lemma normalizeRecord_iff:
  "normalizeRecord env r = Inr r' \<longleftrightarrow> record_ok env r \<and>
     r' = r\<lparr>lr_mutation := clone_parts (lr_mutation r), lr_signedMutation := map_option json_clone (lr_signedMutation r)\<rparr>"
  by (auto simp: normalizeRecord_def bindE_eq_Inr record_ok_def normalizeDependencies_Inr normalizeMutation_iff)

lemma is_object_clone [simp]: "is_object (json_clone v) \<longleftrightarrow> is_object v"
  by (cases v) (auto simp: is_object_def split: jsnum.splits)

lemma object_or_none_clone [simp]: "object_or_none (map_option json_clone v) \<longleftrightarrow> object_or_none v"
  by (cases v) (simp_all add: object_or_none_def)

lemma base_ok_clone: "base_ok v \<Longrightarrow> base_ok (map_option json_clone v)"
  by (auto simp: base_ok_def split: option.splits jsval.splits jsnum.splits)

lemma mutation_ok_stored:
  "mutation_ok env m \<Longrightarrow> mutation_ok env (m\<lparr>sm_attributes := map_option json_clone a, sm_baseVersion := map_option json_clone b,
     sm_payload := map_option json_clone p\<rparr>) \<longleftrightarrow> object_or_none a \<and> base_ok (map_option json_clone b) \<and> object_or_none p"
  by (auto simp: mutation_ok_def)

lemma record_ok_stored:
  assumes "record_ok env r" "normalizeRecord env r = Inr r'"
  shows "record_ok env (cloneRecord r')"
  using assms base_ok_clone [of "sm_baseVersion (lr_mutation r)"]
  by (auto simp: normalizeRecord_iff cloneRecord_def record_ok_def clone_parts_def mutation_ok_def)

subsection \<open>Reading the log\<close>

definition readable :: "sync_env \<Rightarrow> log_record \<Rightarrow> bool" where
  "readable env r \<longleftrightarrow> (\<exists>n r'. normalizeRecord env r = Inr n \<and> restoreSyncResultTypes env (cloneRecord n) = Inr r')"

lemma collectE_ok_iff: "(\<exists>ys. collectE (map f xs) = Inr ys) \<longleftrightarrow> (\<forall>x \<in> set xs. \<exists>y. f x = Inr y)"
  by (induction xs) (auto simp: bindE_eq_Inr)

lemma records_readable: "(\<exists>rs. records env rows = Inr rs) \<longleftrightarrow> (\<forall>r \<in> set rows. readable env r)"
proof
  assume "\<exists>rs. records env rows = Inr rs"
  then obtain rs ns where ns: "map (normalizeRecord env) rows = map Inr ns"
      and rs: "collectE (map (\<lambda>r. restoreSyncResultTypes env (cloneRecord r)) (sort_key lr_sequence ns)) = Inr rs"
    by (auto simp: records_def normalizeRecordList_def bindE_eq_Inr collectE_Inr)
  from rs collectE_ok_iff [of "\<lambda>r. restoreSyncResultTypes env (cloneRecord r)" "sort_key lr_sequence ns"]
  have restored: "\<forall>n \<in> set ns. \<exists>y. restoreSyncResultTypes env (cloneRecord n) = Inr y" by auto
  show "\<forall>r \<in> set rows. readable env r"
  proof
    fix r
    assume "r \<in> set rows"
    then have "normalizeRecord env r \<in> set (map Inr ns)" using ns by (metis image_eqI list.set_map)
    with restored show "readable env r" by (auto simp: readable_def)
  qed
next
  assume all: "\<forall>r \<in> set rows. readable env r"
  then obtain ns where "collectE (map (normalizeRecord env) rows) = Inr ns"
    using collectE_ok_iff [of "normalizeRecord env" rows] by (auto simp: readable_def)
  moreover from this have ns: "map (normalizeRecord env) rows = map Inr ns" by (simp add: collectE_Inr)
  have "\<exists>y. restoreSyncResultTypes env (cloneRecord n) = Inr y" if "n \<in> set ns" for n
  proof -
    from that ns have "Inr n \<in> normalizeRecord env ` set rows" by (metis image_eqI list.set_map)
    then show ?thesis using all by (auto simp: readable_def)
  qed
  then obtain rs where "collectE (map (\<lambda>r. restoreSyncResultTypes env (cloneRecord r)) (sort_key lr_sequence ns)) = Inr rs"
    using collectE_ok_iff [of "\<lambda>r. restoreSyncResultTypes env (cloneRecord r)" "sort_key lr_sequence ns"] by auto
  ultimately show "\<exists>rs. records env rows = Inr rs" by (simp add: records_def normalizeRecordList_def)
qed

lemma readable_no_result: "record_ok env r \<Longrightarrow> lr_syncResult r = None \<Longrightarrow> readable env r"
  by (simp add: readable_def normalizeRecord_iff restoreSyncResultTypes_def cloneRecord_def)

end
