(* ===== verification/Peer_Bundle_Claims.thy ===== *)
theory Peer_Bundle_Claims
  imports Log_Records
begin

text \<open>
  Claims about peer transfer: an import adds only verified mutations, each at most once, importing
  again adds nothing, and two ways in which one entry affects the others.
\<close>

subsection \<open>Idempotency keys\<close>

definition key_of :: "sync_mutation \<Rightarrow> string" where
  "key_of m = join_char (CHR '':'') [sm_actorUserId m, sm_actorDeviceId m, sm_clientMutationId m]"

definition log_keys :: "log_rows \<Rightarrow> string set" where
  "log_keys rows = (\<lambda>r. key_of (lr_mutation r)) ` set rows"

lemma record_key_Inr:
  "record_key r = Inr k \<longleftrightarrow> k = key_of (lr_mutation r) \<and> sm_actorUserId (lr_mutation r) \<noteq> [] \<and>
     sm_actorDeviceId (lr_mutation r) \<noteq> [] \<and> sm_clientMutationId (lr_mutation r) \<noteq> []"
  by (auto simp: record_key_def mutationIdempotencyKey_def bindE_eq_Inr key_of_def)

lemma key_of_core: "core r = core r' \<Longrightarrow> key_of (lr_mutation r) = key_of (lr_mutation r')"
  using core_eq [of r r'] by (simp add: key_of_def)

lemma normalizeSyncMutation_strings:
  assumes "normalizeSyncMutation env v = Inr m"
  shows "obj_get v ''actorUserId'' = JStr (sm_actorUserId m)" "obj_get v ''actorDeviceId'' = JStr (sm_actorDeviceId m)"
    "obj_get v ''clientMutationId'' = JStr (sm_clientMutationId m)"
    "sm_actorUserId m \<noteq> []" "sm_actorDeviceId m \<noteq> []" "sm_clientMutationId m \<noteq> []"
  using assms by (auto simp: normalizeSyncMutation_def bindE_eq_Inr split: if_splits)

lemma verified_normalized:
  assumes "verifySignedMutation env pub now s = Inr m"
  shows "normalizeSyncMutation env (obj_get s ''mutation'') = Inr m"
  using assms by (auto simp: verifySignedMutation_def normalizeSignedSyncMutation_def bindE_eq_Inr split: if_splits)

lemma verified_key:
  assumes "verifySignedMutation env pub now s = Inr m"
  shows "mutationIdempotencyKey (obj_get s ''mutation'') = Inr (key_of m)"
  using normalizeSyncMutation_strings [OF verified_normalized [OF assms]]
  by (simp add: mutationIdempotencyKey_def bindE_eq_Inr key_of_def)

subsection \<open>One entry\<close>

lemma append_record_Inr:
  assumes "append_record env now i n ds m s rows = (Inr r, rows')"
  shows "rows' = rows @ [r]" "lr_id r = i" "lr_syncResult r = None" "record_ok env r"
    "lr_mutation r = (clone_parts m)\<lparr>sm_attributes := map_option json_clone (map_option json_clone (sm_attributes m)),
       sm_baseVersion := map_option json_clone (sm_baseVersion m),
       sm_payload := map_option json_clone (map_option json_clone (sm_payload m))\<rparr>"
proof -
  from assms obtain rec where rec: "new_record env now i n ds m s = Inr rec" "r = cloneRecord rec" "rows' = rows @ [cloneRecord rec]"
    by (auto simp: append_record_def split: if_splits sum.splits)
  from rec(1) obtain t where t: "normalizeRecord env \<lparr>lr_createdAt = t, lr_dependencies = ds, lr_id = i, lr_mutation = m, lr_sequence = n,
      lr_status = Pending, lr_updatedAt = t, lr_signedMutation = s, lr_syncResult = None\<rparr> = Inr rec"
    by (auto simp: new_record_def bindE_eq_Inr)
  then have "record_ok env \<lparr>lr_createdAt = t, lr_dependencies = ds, lr_id = i, lr_mutation = m, lr_sequence = n,
      lr_status = Pending, lr_updatedAt = t, lr_signedMutation = s, lr_syncResult = None\<rparr>"
    unfolding normalizeRecord_iff by blast
  from record_ok_stored [OF this t] show "record_ok env r" by (simp add: rec)
  from t show "rows' = rows @ [r]" "lr_id r = i" "lr_syncResult r = None"
    "lr_mutation r = (clone_parts m)\<lparr>sm_attributes := map_option json_clone (map_option json_clone (sm_attributes m)),
       sm_baseVersion := map_option json_clone (sm_baseVersion m),
       sm_payload := map_option json_clone (map_option json_clone (sm_payload m))\<rparr>"
    by (simp_all add: normalizeRecord_iff rec cloneRecord_def clone_parts_def)
qed

text \<open>What the log keeps of a verified mutation.\<close>

definition stored_mutation :: "sync_mutation \<Rightarrow> sync_mutation" where
  "stored_mutation m = m\<lparr>sm_attributes := map_option json_clone (sm_attributes m),
     sm_baseVersion := map_option json_clone (sm_baseVersion m), sm_payload := map_option json_clone (sm_payload m)\<rparr>"

lemma json_clone_nonundef: "v \<noteq> JUndef \<Longrightarrow> json_clone v \<noteq> JUndef"
  by (cases v) (auto split: jsnum.splits)

lemma json_clone_twice [simp]: "json_clone (json_clone v) = json_clone v"
proof (induction v)
  case (JObj fs)
  have "filter (\<lambda>p. snd p \<noteq> JUndef) (map (\<lambda>p. (fst p, json_clone (snd p))) (filter (\<lambda>p. snd p \<noteq> JUndef) fs)) =
      map (\<lambda>p. (fst p, json_clone (snd p))) (filter (\<lambda>p. snd p \<noteq> JUndef) fs)"
    by (rule filter_id_all) (auto dest: json_clone_nonundef)
  with JObj show ?case by (auto simp: snds.simps)
qed (auto simp: json_clone_nonundef split: jsnum.splits)

lemma map_option_clone_twice [simp]: "map_option json_clone (map_option json_clone v) = map_option json_clone v"
  by (cases v) simp_all

lemma key_of_stored [simp]: "key_of (stored_mutation m) = key_of m"
  by (simp add: key_of_def stored_mutation_def)

lemma row_by_id_append: "\<forall>r \<in> set rows. lr_id r \<noteq> i \<Longrightarrow> lr_id x = i \<Longrightarrow> row_by_id i (rows @ [x]) = Some x"
  by (induction rows) (auto simp: row_by_id_def)

lemma update_row_append:
  "\<forall>r \<in> set rows. lr_id r \<noteq> lr_id x \<Longrightarrow> lr_id y = lr_id x \<Longrightarrow> update_row x (rows @ [y]) = rows @ [x]"
  by (auto simp: update_row_def intro: map_idI)

text \<open>An append followed by the status update, with an id the log does not have yet.\<close>

lemma append_then_status:
  assumes dates: "date_texts env"
    and app: "append_record env now i n [] m s rows = (Inr r, rows1)"
    and upd: "updateStatus env fuel now' (lr_id r) Peer_Applied None rows1 = (Inr u, rows2)"
    and fresh: "i \<notin> lr_id ` set rows"
  shows "\<exists>x. rows2 = rows @ [x] \<and> lr_id x = i \<and> lr_id u = i \<and> lr_status x = Peer_Applied \<and>
    lr_mutation x = stored_mutation m \<and> readable env x"
proof -
  note r = append_record_Inr [OF app]
  have row: "row_by_id (lr_id r) rows1 = Some r"
  proof -
    have "\<forall>x \<in> set rows. lr_id x \<noteq> i" using fresh by (metis image_eqI)
    then show ?thesis using r(1,2) row_by_id_append by simp
  qed
  let ?n = "r\<lparr>lr_mutation := clone_parts (lr_mutation r), lr_signedMutation := map_option json_clone (lr_signedMutation r)\<rparr>"
  have n: "normalizeRecord env r = Inr ?n" using r(4) by (simp add: normalizeRecord_iff)
  from upd row obtain t where t: "now' = Some t"
      and x: "rows2 = update_row (cloneRecord (?n\<lparr>lr_status := Peer_Applied, lr_updatedAt := iso_string (se_transport env) t\<rparr>)) rows1"
      and u: "restoreSyncResultTypes env (cloneRecord (?n\<lparr>lr_status := Peer_Applied, lr_updatedAt := iso_string (se_transport env) t\<rparr>)) = Inr u"
    by (auto simp: updateStatus_def store_and_return_def n optionalE_def currentTimestamp_def split: option.splits sum.splits)
  define y where "y = cloneRecord (?n\<lparr>lr_status := Peer_Applied, lr_updatedAt := iso_string (se_transport env) t\<rparr>)"
  have y: "lr_id y = i" "lr_status y = Peer_Applied" "lr_syncResult y = None" "lr_mutation y = stored_mutation m"
    using r(2,3,5) by (simp_all add: y_def cloneRecord_def clone_parts_def stored_mutation_def)
  have "rows2 = rows @ [y]"
    unfolding x y_def [symmetric] r(1) using fresh y(1) r(2) by (intro update_row_append) (metis image_eqI, simp)
  moreover have "lr_id u = i"
    using restore_core [OF u] core_eq(1) [of u y] y(1) by (simp add: y_def)
  moreover have "record_ok env y"
  proof -
    have "record_ok env (cloneRecord ?n)" using r(4) n by (rule record_ok_stored)
    moreover have "iso_ok env (iso_string (se_transport env) t)" using dates by (simp add: date_texts_def iso_ok_def)
    ultimately show ?thesis by (simp add: record_ok_def y_def cloneRecord_def)
  qed
  ultimately show ?thesis using y by (auto intro: readable_no_result)
qed

subsection \<open>The loop over the entries\<close>

definition entry_verified :: "sync_env \<Rightarrow> jsval \<Rightarrow> int option \<Rightarrow> bundle_entry \<Rightarrow> sync_mutation \<Rightarrow> bool" where
  "entry_verified env pub now e m \<longleftrightarrow> verifySignedMutation env pub now (be_signedMutation e) = Inr m"

text \<open>The rejections of a list of entries depend on nothing but their verification.\<close>

fun rejections :: "sync_env \<Rightarrow> jsval \<Rightarrow> int option \<Rightarrow> nat \<Rightarrow> bundle_entry list \<Rightarrow> (identity_error \<times> nat) list" where
  "rejections env pub now i [] = []"
| "rejections env pub now i (e # es) =
     (case verifySignedMutation env pub now (be_signedMutation e) of Inl x \<Rightarrow> [(x, i)] | Inr _ \<Rightarrow> []) @
     rejections env pub now (Suc i) es"

definition loop_ok :: "sync_env \<Rightarrow> import_state \<Rightarrow> bool" where
  "loop_ok env st \<longleftrightarrow> (\<forall>r \<in> set (is_rows st). readable env r) \<and>
     (\<forall>k. is_existing st k \<noteq> None \<longleftrightarrow> k \<in> log_keys (is_rows st))"

lemma log_keys_append [simp]: "log_keys (xs @ ys) = log_keys xs \<union> log_keys ys"
  by (auto simp: log_keys_def)

text \<open>
  One entry that does not throw: it is rejected, it is a duplicate of a row, or it adds one row that
  holds its verified mutation under a new key.
\<close>

lemma import_entry_step:
  assumes "import_entry env pub now fr i e st = (Inr (), st')" "date_texts env" "loop_ok env st"
    and "fr_id fr \<notin> lr_id ` set (is_rows st)"
  shows "loop_ok env st'"
    and "ir_rejected (is_result st') = ir_rejected (is_result st) @ rejections env pub now i [e]"
    and "(\<exists>x m. entry_verified env pub now e m \<and> is_rows st' = is_rows st @ [x] \<and> lr_id x = fr_id fr \<and>
          lr_status x = Peer_Applied \<and> lr_mutation x = stored_mutation m \<and> key_of m \<notin> log_keys (is_rows st))
       \<or> is_rows st' = is_rows st \<and> ir_imported (is_result st') = ir_imported (is_result st) \<and>
         (\<forall>m. entry_verified env pub now e m \<longrightarrow> key_of m \<in> log_keys (is_rows st))"
proof -
  consider (rejected) x where "verifySignedMutation env pub now (be_signedMutation e) = Inl x"
    | (verified) m where "verifySignedMutation env pub now (be_signedMutation e) = Inr m"
    by (cases "verifySignedMutation env pub now (be_signedMutation e)") auto
  then have "loop_ok env st' \<and> ir_rejected (is_result st') = ir_rejected (is_result st) @ rejections env pub now i [e] \<and>
    ((\<exists>x m. entry_verified env pub now e m \<and> is_rows st' = is_rows st @ [x] \<and> lr_id x = fr_id fr \<and>
          lr_status x = Peer_Applied \<and> lr_mutation x = stored_mutation m \<and> key_of m \<notin> log_keys (is_rows st))
       \<or> is_rows st' = is_rows st \<and> ir_imported (is_result st') = ir_imported (is_result st) \<and>
         (\<forall>m. entry_verified env pub now e m \<longrightarrow> key_of m \<in> log_keys (is_rows st)))"
  proof cases
    case rejected
    with assms(1,3) show ?thesis
      by (auto simp: import_entry_def entry_verified_def loop_ok_def)
  next
    case verified
    note key = verified_key [OF verified]
    show ?thesis
    proof (cases "is_existing st (key_of m)")
      case (Some d)
      with assms(3) have "key_of m \<in> log_keys (is_rows st)" by (auto simp: loop_ok_def)
      with Some assms(1,3) verified key show ?thesis
        by (auto simp: import_entry_def entry_verified_def loop_ok_def)
    next
      case None
      with assms(3) have new: "key_of m \<notin> log_keys (is_rows st)" unfolding loop_ok_def by blast
      obtain r rows1 where app: "append_record env (fr_createdAt fr) (fr_id fr) (fr_sequence fr) [] m (Some (be_signedMutation e)) (is_rows st) = (Inr r, rows1)"
        using assms(1) None verified key by (auto simp: import_entry_def split: prod.splits sum.splits)
      obtain u rows2 where upd: "updateStatus env 0 (fr_updatedAt fr) (lr_id r) Peer_Applied None rows1 = (Inr u, rows2)"
        using assms(1) None verified key app by (auto simp: import_entry_def split: prod.splits sum.splits)
      from append_then_status [OF assms(2) app upd assms(4)] obtain x where x: "rows2 = is_rows st @ [x]" "lr_id x = fr_id fr"
          "lr_status x = Peer_Applied" "lr_mutation x = stored_mutation m" "readable env x"
        by blast
      have st': "is_rows st' = rows2" "is_existing st' = (is_existing st)(key_of m \<mapsto> u)"
          "ir_rejected (is_result st') = ir_rejected (is_result st)"
        using assms(1) None verified key app upd by (auto simp: import_entry_def)
      have "loop_ok env st'"
        using assms(3) x by (auto simp: loop_ok_def st' log_keys_def)
      then show ?thesis using st' x new verified by (auto simp: entry_verified_def)
    qed
  qed
  then show "loop_ok env st'" "ir_rejected (is_result st') = ir_rejected (is_result st) @ rejections env pub now i [e]"
    "(\<exists>x m. entry_verified env pub now e m \<and> is_rows st' = is_rows st @ [x] \<and> lr_id x = fr_id fr \<and>
          lr_status x = Peer_Applied \<and> lr_mutation x = stored_mutation m \<and> key_of m \<notin> log_keys (is_rows st))
       \<or> is_rows st' = is_rows st \<and> ir_imported (is_result st') = ir_imported (is_result st) \<and>
         (\<forall>m. entry_verified env pub now e m \<longrightarrow> key_of m \<in> log_keys (is_rows st))"
    by blast+
qed

definition new_rows_ok :: "sync_env \<Rightarrow> jsval \<Rightarrow> int option \<Rightarrow> bundle_entry list \<Rightarrow> log_rows \<Rightarrow> log_rows \<Rightarrow> bool" where
  "new_rows_ok env pub now es old news \<longleftrightarrow>
     (\<forall>x \<in> set news. lr_status x = Peer_Applied \<and>
        (\<exists>e \<in> set es. \<exists>m. entry_verified env pub now e m \<and> lr_mutation x = stored_mutation m)) \<and>
     distinct (map (\<lambda>r. key_of (lr_mutation r)) news) \<and> log_keys news \<inter> log_keys old = {}"

lemma new_rows_ok_append:
  assumes "mid = rows @ old" "new_rows_ok env pub now [e] rows old" "new_rows_ok env pub now es mid news"
  shows "new_rows_ok env pub now (e # es) rows (old @ news)"
proof -
  have "log_keys news \<inter> (log_keys rows \<union> log_keys old) = {}"
    using assms(1,3) by (simp add: new_rows_ok_def)
  then have "log_keys news \<inter> log_keys old = {}" "log_keys news \<inter> log_keys rows = {}" by auto
  moreover have "set (map (\<lambda>r. key_of (lr_mutation r)) xs) = log_keys xs" for xs by (simp add: log_keys_def)
  ultimately have "distinct (map (\<lambda>r. key_of (lr_mutation r)) (old @ news))"
    using assms(2,3) by (simp only: map_append distinct_append new_rows_ok_def) blast
  moreover have "log_keys (old @ news) \<inter> log_keys rows = {}"
    using assms(2) \<open>log_keys news \<inter> log_keys rows = {}\<close> by (auto simp: new_rows_ok_def)
  ultimately show ?thesis using assms(2,3) by (auto simp: new_rows_ok_def)
qed

lemma import_entries_run:
  assumes "import_entries env pub now fresh i es st = (Inr (), st')" "date_texts env" "loop_ok env st"
    and "\<And>j. i \<le> j \<Longrightarrow> fr_id (fresh j) \<notin> lr_id ` set (is_rows st)" "inj (\<lambda>j. fr_id (fresh j))"
  shows "loop_ok env st' \<and> ir_rejected (is_result st') = ir_rejected (is_result st) @ rejections env pub now i es \<and>
    (\<exists>news. is_rows st' = is_rows st @ news \<and> new_rows_ok env pub now es (is_rows st) news) \<and>
    (\<forall>e \<in> set es. \<forall>m. entry_verified env pub now e m \<longrightarrow> key_of m \<in> log_keys (is_rows st'))"
  using assms
proof (induction es arbitrary: i st)
  case Nil
  then show ?case by (auto simp: new_rows_ok_def log_keys_def intro: exI [of _ "[]"])
next
  case (Cons e es)
  from Cons.prems(1) obtain st1 where st1: "import_entry env pub now (fresh i) i e st = (Inr (), st1)"
      "import_entries env pub now fresh (Suc i) es st1 = (Inr (), st')"
    by (auto split: prod.splits sum.splits)
  note step = import_entry_step [OF st1(1) Cons.prems(2,3) Cons.prems(4) [OF order_refl]]
  from step(3) obtain old where old: "is_rows st1 = is_rows st @ old" "new_rows_ok env pub now [e] (is_rows st) old"
      "\<forall>m. entry_verified env pub now e m \<longrightarrow> key_of m \<in> log_keys (is_rows st1)" "lr_id ` set old \<subseteq> {fr_id (fresh i)}"
  proof (elim disjE exE conjE)
    fix x m
    assume x: "entry_verified env pub now e m" "is_rows st1 = is_rows st @ [x]" "lr_id x = fr_id (fresh i)"
        "lr_status x = Peer_Applied" "lr_mutation x = stored_mutation m" "key_of m \<notin> log_keys (is_rows st)"
    then have only: "\<And>m'. entry_verified env pub now e m' \<Longrightarrow> m' = m" by (simp add: entry_verified_def)
    have key: "log_keys [x] = {key_of m}" by (simp add: log_keys_def x(5))
    have "new_rows_ok env pub now [e] (is_rows st) [x]"
      unfolding new_rows_ok_def key using x by auto
    moreover have "\<forall>m'. entry_verified env pub now e m' \<longrightarrow> key_of m' \<in> log_keys (is_rows st1)"
      using only key x(2) by auto
    ultimately show thesis using x(2,3) by (intro that [of "[x]"]) simp_all
  qed (auto intro: that [of "[]"] simp: new_rows_ok_def log_keys_def)
  have "fr_id (fresh j) \<notin> lr_id ` set (is_rows st1)" if "Suc i \<le> j" for j
  proof -
    have "fr_id (fresh j) \<noteq> fr_id (fresh i)" using injD [OF Cons.prems(5), of j i] that by auto
    moreover have "fr_id (fresh j) \<notin> lr_id ` set (is_rows st)" using that by (intro Cons.prems(4)) simp
    ultimately show ?thesis using old(1,4) by auto
  qed
  from Cons.IH [OF st1(2) Cons.prems(2) step(1) this Cons.prems(5)] obtain news where
      IH: "loop_ok env st'" "ir_rejected (is_result st') = ir_rejected (is_result st1) @ rejections env pub now (Suc i) es"
        "is_rows st' = is_rows st1 @ news" "new_rows_ok env pub now es (is_rows st1) news"
        "\<forall>e \<in> set es. \<forall>m. entry_verified env pub now e m \<longrightarrow> key_of m \<in> log_keys (is_rows st')"
    by blast
  have "new_rows_ok env pub now (e # es) (is_rows st) (old @ news)"
    using old(1,2) IH(4) by (rule new_rows_ok_append)
  moreover have "is_rows st' = is_rows st @ (old @ news)" using IH(3) old(1) by simp
  moreover have "ir_rejected (is_result st') = ir_rejected (is_result st) @ rejections env pub now i (e # es)"
    using IH(2) step(2) by simp
  moreover have "log_keys (is_rows st1) \<subseteq> log_keys (is_rows st')" using IH(3) by simp
  ultimately show ?case using IH(1,5) old(3) by auto
qed

lemma import_entries_idle:
  assumes "loop_ok env st" "\<forall>e \<in> set es. \<forall>m. entry_verified env pub now e m \<longrightarrow> key_of m \<in> log_keys (is_rows st)"
  shows "\<exists>st'. import_entries env pub now fresh i es st = (Inr (), st') \<and> is_rows st' = is_rows st \<and>
    ir_imported (is_result st') = ir_imported (is_result st) \<and>
    ir_rejected (is_result st') = ir_rejected (is_result st) @ rejections env pub now i es"
  using assms
proof (induction es arbitrary: i st)
  case Nil
  then show ?case by simp
next
  case (Cons e es)
  have "\<exists>st1. import_entry env pub now (fresh i) i e st = (Inr (), st1) \<and> is_rows st1 = is_rows st \<and> is_existing st1 = is_existing st \<and>
      ir_imported (is_result st1) = ir_imported (is_result st) \<and>
      ir_rejected (is_result st1) = ir_rejected (is_result st) @ rejections env pub now i [e]"
  proof (cases "verifySignedMutation env pub now (be_signedMutation e)")
    case (Inl x)
    then show ?thesis by (simp add: import_entry_def)
  next
    case (Inr m)
    with Cons.prems have "is_existing st (key_of m) \<noteq> None" by (auto simp: entry_verified_def loop_ok_def)
    then obtain d where "is_existing st (key_of m) = Some d" by blast
    with Inr verified_key [OF Inr] show ?thesis by (simp add: import_entry_def)
  qed
  then obtain st1 where st1: "import_entry env pub now (fresh i) i e st = (Inr (), st1)" "is_rows st1 = is_rows st"
      "is_existing st1 = is_existing st" "ir_imported (is_result st1) = ir_imported (is_result st)"
      "ir_rejected (is_result st1) = ir_rejected (is_result st) @ rejections env pub now i [e]"
    by blast
  have "loop_ok env st1" using Cons.prems(1) st1(2,3) by (simp add: loop_ok_def)
  moreover have "\<forall>e \<in> set es. \<forall>m. entry_verified env pub now e m \<longrightarrow> key_of m \<in> log_keys (is_rows st1)"
    using Cons.prems(2) st1(2) by simp
  ultimately obtain st' where "import_entries env pub now fresh (Suc i) es st1 = (Inr (), st')" "is_rows st' = is_rows st1"
      "ir_imported (is_result st') = ir_imported (is_result st1)"
      "ir_rejected (is_result st') = ir_rejected (is_result st1) @ rejections env pub now (Suc i) es"
    using Cons.IH [of st1 "Suc i"] by blast
  with st1 show ?case by simp
qed

subsection \<open>The whole import\<close>

lemma existing_lookup:
  "foldl (\<lambda>m (k, r). m(k \<mapsto> r)) m0 pairs k \<noteq> None \<longleftrightarrow> m0 k \<noteq> None \<or> k \<in> fst ` set pairs"
  by (induction pairs arbitrary: m0) (auto simp: image_iff)

lemma existing_domain:
  assumes "existing_by_key rs = Inr ex"
  shows "ex k \<noteq> None \<longleftrightarrow> k \<in> log_keys rs"
proof -
  from assms obtain pairs where pairs: "map (\<lambda>r. lift_error Identity (bindE (record_key r) (\<lambda>k. Inr (k, r)))) rs = map Inr pairs"
      and ex: "ex = foldl (\<lambda>m (k, r). m(k \<mapsto> r)) Map.empty pairs"
    by (auto simp: existing_by_key_def bindE_eq_Inr collectE_Inr)
  have "map fst pairs = map (\<lambda>r. key_of (lr_mutation r)) rs"
    using pairs
  proof (induction rs arbitrary: pairs)
    case (Cons r rs)
    then obtain p ps where "pairs = p # ps" "lift_error Identity (bindE (record_key r) (\<lambda>k. Inr (k, r))) = Inr p"
        "map (\<lambda>r. lift_error Identity (bindE (record_key r) (\<lambda>k. Inr (k, r)))) rs = map Inr ps"
      by (auto simp: Cons_eq_map_conv)
    with Cons.IH show ?case by (auto simp: bindE_eq_Inr record_key_Inr)
  qed simp
  then have "fst ` set pairs = log_keys rs" by (metis log_keys_def list.set_map)
  then show ?thesis by (simp add: ex existing_lookup del: not_None_eq)
qed

lemma log_keys_records:
  assumes "records env rows = Inr rs"
  shows "log_keys rs = log_keys rows"
proof -
  let ?g = "\<lambda>(_, u, d, c). join_char (CHR '':'') [u, d, c]"
  have keys: "log_keys xs = ?g ` set (map core xs)" for xs
    by (auto simp: log_keys_def key_of_def core_def image_iff)
  have "set (map core rs) = set (map core rows)" using records_core [OF assms] by (metis set_mset_mset)
  then show ?thesis by (simp only: keys)
qed

lemma existing_total:
  assumes "records env rows = Inr rs"
  shows "\<exists>ex. existing_by_key rs = Inr ex"
proof -
  have "\<exists>k. record_key r = Inr k" if "r \<in> set rs" for r
  proof -
    from row_of_record [OF assms that] obtain q where q: "q \<in> set rows" "core q = core r" by blast
    with records_readable [of env rows] assms have "record_ok env q" by (auto simp: readable_def normalizeRecord_iff)
    then show ?thesis using core_eq [OF q(2)] by (auto simp: record_key_Inr record_ok_def mutation_ok_def)
  qed
  then have "\<forall>r \<in> set rs. \<exists>p. lift_error Identity (bindE (record_key r) (\<lambda>k. Inr (k, r))) = Inr p"
    by (metis bindE_Inr lift_error_simps(2))
  then have "\<exists>ps. collectE (map (\<lambda>r. lift_error Identity (bindE (record_key r) (\<lambda>k. Inr (k, r)))) rs) = Inr ps"
    by (simp only: collectE_ok_iff)
  then show ?thesis by (auto simp: existing_by_key_def)
qed

lemma import_run:
  assumes "importPeerMutationBundle env pub bundle now fresh rows = (Inr result, rows')"
  shows "\<exists>b ex st. normalizePeerMutationBundle env bundle = Inr b \<and>
    loop_ok env \<lparr>is_rows = rows, is_existing = ex, is_result = \<lparr>ir_imported = [], ir_rejected = [], ir_skipped = []\<rparr>\<rparr> \<and>
    import_entries env pub now fresh 0 (pb_mutations b)
      \<lparr>is_rows = rows, is_existing = ex, is_result = \<lparr>ir_imported = [], ir_rejected = [], ir_skipped = []\<rparr>\<rparr> = (Inr (), st) \<and>
    result = is_result st \<and> rows' = is_rows st"
proof -
  from assms obtain b rs ex st where b: "normalizePeerMutationBundle env bundle = Inr b"
      and rs: "records env rows = Inr rs" and ex: "existing_by_key rs = Inr ex"
      and st: "import_entries env pub now fresh 0 (pb_mutations b)
        \<lparr>is_rows = rows, is_existing = ex, is_result = \<lparr>ir_imported = [], ir_rejected = [], ir_skipped = []\<rparr>\<rparr> = (Inr (), st)"
      and "result = is_result st" "rows' = is_rows st"
    by (auto simp: importPeerMutationBundle_def bindE_eq_Inr bindE_eq_Inl split: sum.splits prod.splits)
  moreover have "loop_ok env \<lparr>is_rows = rows, is_existing = ex, is_result = \<lparr>ir_imported = [], ir_rejected = [], ir_skipped = []\<rparr>\<rparr>"
    using records_readable [of env rows] rs existing_domain [OF ex] log_keys_records [OF rs] by (auto simp: loop_ok_def)
  ultimately show ?thesis by blast
qed


text \<open>
  Importing the same bundle again, at the same verification time, imports nothing, leaves the
  log as it is, and rejects exactly the entries it rejected before.
\<close>

lemma import_idempotent:
  assumes "date_texts env" "importPeerMutationBundle env pub bundle now fresh rows = (Inr result, rows')"
    and "\<And>i. fr_id (fresh i) \<notin> lr_id ` set rows" "inj (\<lambda>i. fr_id (fresh i))"
  shows "\<exists>result'. importPeerMutationBundle env pub bundle now fresh' rows' = (Inr result', rows') \<and>
    ir_imported result' = [] \<and> ir_rejected result' = ir_rejected result"
proof -
  let ?start = "\<lambda>rows ex. \<lparr>is_rows = rows, is_existing = ex, is_result = \<lparr>ir_imported = [], ir_rejected = [], ir_skipped = []\<rparr>\<rparr>"
  from import_run [OF assms(2)] obtain b ex st where b: "normalizePeerMutationBundle env bundle = Inr b"
    and ok: "loop_ok env (?start rows ex)"
    and run: "import_entries env pub now fresh 0 (pb_mutations b) (?start rows ex) = (Inr (), st)"
    and result: "result = is_result st" and rows': "rows' = is_rows st"
    by blast
  have first: "loop_ok env st" "ir_rejected result = rejections env pub now 0 (pb_mutations b)"
    "\<forall>e \<in> set (pb_mutations b). \<forall>m. entry_verified env pub now e m \<longrightarrow> key_of m \<in> log_keys rows'"
    using import_entries_run [OF run assms(1) ok _ assms(4)] assms(3) by (auto simp: result rows')
  from first(1) records_readable [of env rows'] obtain rs where rs: "records env rows' = Inr rs"
    by (auto simp: loop_ok_def rows')
  from existing_total [OF rs] obtain ex' where ex': "existing_by_key rs = Inr ex'" by blast
  have "loop_ok env (?start rows' ex')"
    using records_readable [of env rows'] rs existing_domain [OF ex'] log_keys_records [OF rs] by (auto simp: loop_ok_def)
  from import_entries_idle [OF this, of "pb_mutations b" pub now fresh' 0] first(3) obtain st' where
      "import_entries env pub now fresh' 0 (pb_mutations b) (?start rows' ex') = (Inr (), st')" "is_rows st' = rows'"
      "ir_imported (is_result st') = []" "ir_rejected (is_result st') = rejections env pub now 0 (pb_mutations b)"
    by auto
  with b rs ex' first(2) show ?thesis by (simp add: importPeerMutationBundle_def)
qed

subsection \<open>Examples\<close>

text \<open>A bundle with one signed mutation and one object that is no envelope.\<close>

definition demo_bundle :: jsval where
  "demo_bundle = bundle_object \<lparr>pb_exportedAt = ''3'', pb_mutations =
     map (\<lambda>s. \<lparr>be_localRecordId = None, be_localSequence = None, be_signedMutation = s\<rparr>)
       [JObj [], signed_mutation_object (demo_signed ''m'')]\<rparr>"

definition demo_fresh :: "nat \<Rightarrow> fresh_record" where
  "demo_fresh i = \<lparr>fr_id = ''n'' @ decimal i, fr_sequence = 7, fr_createdAt = Some 4, fr_updatedAt = Some 5\<rparr>"

lemma demo_bundle_normal:
  "normalizePeerMutationBundle demo_sync_env demo_bundle = Inr \<lparr>pb_exportedAt = ''3'', pb_mutations =
     map (\<lambda>s. \<lparr>be_localRecordId = None, be_localSequence = None, be_signedMutation = s\<rparr>)
       [JObj [], signed_mutation_object (demo_signed ''m'')]\<rparr>"
  by code_simp

lemma demo_fresh_ids: "inj (\<lambda>i. fr_id (demo_fresh i))"
proof (rule injI)
  fix i j
  assume "fr_id (demo_fresh i) = fr_id (demo_fresh j)"
  then have "digits_value 10 (decimal i) = digits_value 10 (decimal j)" by (simp add: demo_fresh_def)
  then show "i = j" using decimal_props by simp
qed

definition demo_row :: "mutation_status \<Rightarrow> string \<Rightarrow> log_record" where
  "demo_row status updatedAt = \<lparr>lr_createdAt = ''4'', lr_dependencies = [], lr_id = ''n1'', lr_mutation = demo_sync_mutation ''m'',
     lr_sequence = 7, lr_status = status, lr_updatedAt = updatedAt,
     lr_signedMutation = Some (signed_mutation_object (demo_signed ''m'')), lr_syncResult = None\<rparr>"

lemma demo_append: "append_record demo_sync_env (Some 4) ''n1'' 7 [] (demo_sync_mutation ''m'')
    (Some (signed_mutation_object (demo_signed ''m''))) [] = (Inr (demo_row Pending ''4''), [demo_row Pending ''4''])"
  by code_simp

lemma demo_update: "updateStatus demo_sync_env 0 (Some 5) ''n1'' Peer_Applied None [demo_row Pending ''4''] =
    (Inr (demo_row Peer_Applied ''5''), [demo_row Peer_Applied ''5''])"
  by code_simp

lemma demo_key: "mutationIdempotencyKey (mutation_object (demo_sync_mutation ''m'')) = Inr ''u:d:m''"
  by code_simp

lemma demo_rejected: "verifySignedMutation demo_sync_env JNull (Some 5) (JObj []) = Inl (Unsupported_Algorithm ''sync mutation'')"
  by code_simp

lemma demo_import:
  "importPeerMutationBundle demo_sync_env JNull demo_bundle (Some 5) demo_fresh [] =
     (Inr \<lparr>ir_imported = [(''m'', ''u:d:m'', ''n1'')], ir_rejected = [(Unsupported_Algorithm ''sync mutation'', 0)], ir_skipped = []\<rparr>,
      [demo_row Peer_Applied ''5''])"
proof -
  have start: "records demo_sync_env [] = Inr []" "existing_by_key [] = Inr Map.empty"
    by (simp_all add: records_def normalizeRecordList_def existing_by_key_def)
  have names: "sm_clientMutationId (demo_sync_mutation ''m'') = ''m''" "lr_id (demo_row s t) = ''n1''" for s t
    by (simp_all add: demo_sync_mutation_def demo_row_def)
  have one: "decimal (Suc 0) = ''1''" by code_simp
  have mutation: "obj_get (signed_mutation_object (demo_signed ''m'')) ''mutation'' = mutation_object (demo_sync_mutation ''m'')"
    by (simp add: demo_signed_def)
  show ?thesis
    by (simp add: importPeerMutationBundle_def demo_bundle_normal start import_entry_def demo_rejected demo_verified mutation demo_key
        demo_append demo_update names one demo_fresh_def del: signed_get)
qed


lemma import_idempotent_example:
  "\<exists>result. importPeerMutationBundle demo_sync_env JNull demo_bundle (Some 5) demo_fresh [demo_row Peer_Applied ''5''] =
     (Inr result, [demo_row Peer_Applied ''5'']) \<and> ir_imported result = [] \<and>
     ir_rejected result = [(Unsupported_Algorithm ''sync mutation'', 0)]"
  using import_idempotent [OF demo_dates demo_import _ demo_fresh_ids] by simp

end
