(* ===== verification/Peer_Bundle_Limits.thy ===== *)
theory Peer_Bundle_Limits
  imports Peer_Bundle_Claims
begin

text \<open>
  Two limits of peer transfer: a property outside the signed ones, which verification ignores, ends
  the import of the whole bundle; and idempotency keys are told apart only for ids without a colon.
\<close>

subsection \<open>Texts of canonical values\<close>

text \<open>\<open>JSON.stringify\<close> gives different JSON values different texts.\<close>

definition json_texts :: "sync_env \<Rightarrow> bool" where
  "json_texts env \<longleftrightarrow> (\<forall>a b. json_data a \<and> json_data b \<and>
     json_stringify (se_host env) a = json_stringify (se_host env) b \<longrightarrow> a = b)"

lemma stable_fields:
  assumes "plain_json (JObj fs)"
  shows "\<exists>gs. stableJsonValue (JObj fs) = JObj gs \<and> set gs = (\<lambda>(k, v). (k, stableJsonValue v)) ` set fs"
proof -
  let ?gs = "foldl (\<lambda>memo (k, v). obj_set memo k v) [] (sort_key fst (map (\<lambda>(k, v). (k, stableJsonValue v)) fs))"
  have "mset ?gs = mset (map (\<lambda>(k, v). (k, stableJsonValue v)) fs)" using assms by (intro mset_stable_obj) simp_all
  then have "set ?gs = set (map (\<lambda>(k, v). (k, stableJsonValue v)) fs)" by (metis set_mset_mset)
  then show ?thesis by (simp only: stableJsonValue.simps set_map jsval.inject) blast
qed

lemma stable_data: "json_data v \<Longrightarrow> plain_json v \<Longrightarrow> json_data (stableJsonValue v)"
proof (induction v)
  case (JObj fs)
  from stable_fields [OF JObj.prems(2)] obtain gs where gs: "stableJsonValue (JObj fs) = JObj gs"
      "set gs = (\<lambda>(k, v). (k, stableJsonValue v)) ` set fs" by blast
  have "json_data (stableJsonValue v)" if "(k, v) \<in> set fs" for k v
  proof -
    from that JObj.prems have "json_data v" "plain_json v" by (auto simp: list_all_iff)
    then show ?thesis using JObj.IH [OF that] by (simp add: snds.simps)
  qed
  then show ?case unfolding gs(1) by (auto simp: list_all_iff gs(2))
qed (auto simp: list_all_iff)

lemma stable_texts_differ:
  assumes "json_texts env" "json_data (JObj fs)" "plain_json (JObj fs)" "json_data (JObj gs)" "plain_json (JObj gs)"
    and "k \<in> fst ` set fs" "k \<notin> fst ` set gs"
  shows "stableJsonStringify (se_host env) (JObj fs) \<noteq> stableJsonStringify (se_host env) (JObj gs)"
proof
  assume "stableJsonStringify (se_host env) (JObj fs) = stableJsonStringify (se_host env) (JObj gs)"
  with assms(1) stable_data [OF assms(2,3)] stable_data [OF assms(4,5)]
  have eq: "stableJsonValue (JObj fs) = stableJsonValue (JObj gs)"
    unfolding json_texts_def stableJsonStringify_def by blast
  from stable_fields [OF assms(3)] stable_fields [OF assms(5)] eq
  have "(\<lambda>(k, v). (k, stableJsonValue v)) ` set fs = (\<lambda>(k, v). (k, stableJsonValue v)) ` set gs" by auto
  then have "fst ` (\<lambda>(k, v). (k, stableJsonValue v)) ` set fs = fst ` (\<lambda>(k, v). (k, stableJsonValue v)) ` set gs" by simp
  then have "fst ` set fs = fst ` set gs" by (simp add: image_image case_prod_unfold)
  with assms(6,7) show False by simp
qed

subsection \<open>An unsigned property\<close>

definition mutation_fields :: "sync_mutation \<Rightarrow> (string \<times> jsval) list" where
  "mutation_fields m = (case mutation_object m of JObj fs \<Rightarrow> fs | _ \<Rightarrow> [])"

definition signed_names :: "string list" where
  "signed_names = [''actorDeviceId'', ''actorUserId'', ''clientMutationId'', ''model'', ''occurredAt'', ''offlineGrantId'',
     ''operation'', ''policyHash'', ''attributes'', ''baseVersion'', ''command'', ''payload'']"

text \<open>The envelope with one more property in its mutation, which needs no key to make.\<close>

definition with_property :: "string \<Rightarrow> jsval \<Rightarrow> signed_mutation \<Rightarrow> jsval" where
  "with_property k v s = JObj
     [(''algorithm'', JStr ECDSA_P256_SHA256_ALGORITHM),
      (''deviceCertificate'', device_certificate_object (sg_deviceCertificate s)),
      (''mutation'', JObj (mutation_fields (sg_mutation s) @ [(k, v)])), (''signature'', JStr (sg_signature s))]"

lemma mutation_object_fields: "mutation_object m = JObj (mutation_fields m)"
  by (simp add: mutation_object_def mutation_fields_def)

lemma mutation_field_names: "fst ` set (mutation_fields m) \<subseteq> set signed_names"
  by (auto simp: mutation_fields_def mutation_object_def signed_names_def optional_field_def split: option.splits)

lemma get_appended: "n \<noteq> k \<Longrightarrow> obj_get (JObj (fs @ [(k, v)])) n = obj_get (JObj fs) n"
  by (auto simp: obj_get_def map_add_def split: option.splits)

lemma normalize_ignores:
  assumes "k \<notin> set signed_names"
  shows "normalizeSyncMutation env (JObj (mutation_fields m @ [(k, v)])) = normalizeSyncMutation env (mutation_object m)"
proof -
  have get: "obj_get (JObj (mutation_fields m @ [(k, v)])) n = obj_get (mutation_object m) n" if "n \<in> set signed_names" for n
    using assms that get_appended [of n k "mutation_fields m" v] by (metis mutation_object_fields)
  show ?thesis
    unfolding normalizeSyncMutation_def by (simp only: get signed_names_def list.set insert_iff simp_thms is_object_simps)
qed

lemma with_property_get:
  "obj_get (with_property k v s) ''mutation'' = JObj (mutation_fields (sg_mutation s) @ [(k, v)])"
  by (simp add: with_property_def obj_get_def)

lemma verify_ignores:
  assumes "k \<notin> set signed_names"
  shows "verifySignedMutation env public now (with_property k v s) = verifySignedMutation env public now (signed_mutation_object s)"
proof -
  have "normalizeSignedSyncMutation env (with_property k v s) = normalizeSignedSyncMutation env (signed_mutation_object s)"
    unfolding normalizeSignedSyncMutation_def
    by (simp add: with_property_def obj_get_def is_object_def normalize_ignores [OF assms] signed_mutation_object_def)
  then show ?thesis unfolding verifySignedMutation_def by (simp only:)
qed

text \<open>
  Adding a property that is not one of the signed ones to the mutation of an envelope leaves the
  envelope valid; but a bundle that starts with it, for a mutation the log does not have, is not
  imported at all: the import throws on the first entry, whatever the other entries are, and the log
  stays as it was.
\<close>

lemma import_aborted_by_unsigned_property:
  assumes "verifySignedMutation env public now (signed_mutation_object s) = Inr (sg_mutation s)"
    and "k \<notin> set signed_names" "k \<noteq> ''__proto__''" "json_data v" "plain_json v"
    and "json_data (mutation_object (sg_mutation s))" "plain_json (mutation_object (sg_mutation s))" "json_texts env"
    and "normalizePeerMutationBundle env bundle = Inr b" "pb_mutations b = entry # entries"
    and "be_signedMutation entry = with_property k v s"
    and "records env rows = Inr rs" "key_of (sg_mutation s) \<notin> log_keys rows"
  shows "verifySignedMutation env public now (with_property k v s) = Inr (sg_mutation s) \<and>
    importPeerMutationBundle env public bundle now fresh rows = (Inl (Log Signed_Payload_Mismatch), rows)"
proof -
  let ?m = "sg_mutation s"
  let ?fs = "mutation_fields ?m @ [(k, v)]"
  have verified: "verifySignedMutation env public now (with_property k v s) = Inr ?m"
    using assms(1,2) by (simp add: verify_ignores)
  from existing_total [OF assms(12)] obtain ex where ex: "existing_by_key rs = Inr ex" by blast
  have new: "ex (key_of ?m) = None"
    using existing_domain [OF ex, of "key_of ?m"] log_keys_records [OF assms(12)] assms(13) by (simp del: not_None_eq)
  have names: "k \<notin> fst ` set (mutation_fields ?m)" using mutation_field_names assms(2) by blast
  have "stableJsonStringify (se_host env) (JObj ?fs) \<noteq> stableJsonStringify (se_host env) (mutation_object ?m)"
    unfolding mutation_object_fields
  proof (rule stable_texts_differ [OF assms(8)])
    show "json_data (JObj ?fs)" "plain_json (JObj ?fs)"
      using assms(3-7) names unfolding mutation_object_fields by auto
  qed (use assms(6,7) names in \<open>simp_all add: mutation_object_fields\<close>)
  then have "append_record env c i n [] ?m (Some (with_property k v s)) rows = (Inl Signed_Payload_Mismatch, rows)" for c i n
    by (simp add: append_record_def with_property_get)
  moreover have "mutationIdempotencyKey (obj_get (with_property k v s) ''mutation'') = Inr (key_of ?m)"
    using verified_key [OF verified] .
  ultimately have "import_entry env public now (fresh 0) 0 entry \<lparr>is_rows = rows, is_existing = ex, is_result = r\<rparr> =
      (Inl (Log Signed_Payload_Mismatch), \<lparr>is_rows = rows, is_existing = ex, is_result = r\<rparr>)" for r
    by (simp add: import_entry_def assms(11) verified new)
  then show ?thesis
    by (simp add: verified importPeerMutationBundle_def assms(9,10,12) ex)
qed

definition demo_aborting :: jsval where
  "demo_aborting = bundle_object \<lparr>pb_exportedAt = ''3'', pb_mutations =
     map (\<lambda>s. \<lparr>be_localRecordId = None, be_localSequence = None, be_signedMutation = s\<rparr>)
       [with_property ''note'' JNull (demo_signed ''m''), signed_mutation_object (demo_signed ''m'')]\<rparr>"

lemma demo_aborting_normal:
  "normalizePeerMutationBundle demo_sync_env demo_aborting = Inr \<lparr>pb_exportedAt = ''3'', pb_mutations =
     \<lparr>be_localRecordId = None, be_localSequence = None, be_signedMutation = with_property ''note'' JNull (demo_signed ''m'')\<rparr> #
     [\<lparr>be_localRecordId = None, be_localSequence = None, be_signedMutation = signed_mutation_object (demo_signed ''m'')\<rparr>]\<rparr>"
  by code_simp

lemma demo_texts: "json_texts demo_sync_env"
  unfolding json_texts_def
  using raw_text_prefix [OF fraction_text_ok, of _ _ "[]" "[]"] by (simp add: demo_sync_env_def)

lemma demo_data: "json_data (mutation_object (demo_sync_mutation ''m''))"
  by code_simp

lemma import_aborted_example:
  "importPeerMutationBundle demo_sync_env JNull demo_aborting (Some 5) demo_fresh [] = (Inl (Log Signed_Payload_Mismatch), [])"
proof -
  have signed: "sg_mutation (demo_signed ''m'') = demo_sync_mutation ''m''" by (simp add: demo_signed_def)
  have none: "records demo_sync_env [] = Inr []" by (simp add: records_def normalizeRecordList_def)
  have "''note'' \<notin> set signed_names" by (simp add: signed_names_def)
  then show ?thesis
    using import_aborted_by_unsigned_property [OF demo_verified [folded signed] _ _ _ _ _ _ demo_texts demo_aborting_normal _ _ none,
        of "''note''" JNull] demo_data demo_plain(2)
    by (simp add: signed log_keys_def)
qed

subsection \<open>Keys with colons\<close>

text \<open>Ids without a colon can be read back from the key; with one, two mutations may share a key.\<close>

lemma until_colon: "CHR '':'' \<notin> set a \<Longrightarrow> takeWhile (\<lambda>c. c \<noteq> CHR '':'') (a @ CHR '':'' # r) = a"
  by (induction a) auto

lemma key_of_injective:
  assumes "key_of m = key_of m'" "CHR '':'' \<notin> set (sm_actorUserId m)" "CHR '':'' \<notin> set (sm_actorUserId m')"
    and "CHR '':'' \<notin> set (sm_actorDeviceId m)" "CHR '':'' \<notin> set (sm_actorDeviceId m')"
  shows "sm_actorUserId m = sm_actorUserId m' \<and> sm_actorDeviceId m = sm_actorDeviceId m' \<and>
    sm_clientMutationId m = sm_clientMutationId m'"
proof -
  have key: "key_of x = sm_actorUserId x @ CHR '':'' # sm_actorDeviceId x @ CHR '':'' # sm_clientMutationId x" for x
    by (simp add: key_of_def)
  from assms(1) have user: "sm_actorUserId m = sm_actorUserId m'"
    using until_colon [OF assms(2)] until_colon [OF assms(3)] unfolding key by metis
  with assms(1) have rest: "sm_actorDeviceId m @ CHR '':'' # sm_clientMutationId m = sm_actorDeviceId m' @ CHR '':'' # sm_clientMutationId m'"
    by (simp add: key)
  then have "sm_actorDeviceId m = sm_actorDeviceId m'"
    using until_colon [OF assms(4)] until_colon [OF assms(5)] by metis
  with user rest show ?thesis by simp
qed

lemma key_of_collision:
  "key_of ((demo_sync_mutation ''m'')\<lparr>sm_actorUserId := ''a:b'', sm_actorDeviceId := ''c''\<rparr>) =
   key_of ((demo_sync_mutation ''m'')\<lparr>sm_actorUserId := ''a'', sm_actorDeviceId := ''b:c''\<rparr>)"
  by (simp add: key_of_def demo_sync_mutation_def)

end
