(* ===== verification/Sync_Feed.thy ===== *)
theory Sync_Feed
  imports Stable_Json Transport
begin

text \<open>
  The server side of a pull: the cursor-paginated change feed over a table of sync rows
  (\<open>src/src/sync/sync-model-change-feed-service.js\<close>, with the decoding of
  \<open>sync-replay-persisted-data.js\<close> and the partition attributes of \<open>sync-scope-attributes.js\<close>).

  The table is a list of rows; the application's scope on the query is the predicate \<open>visible\<close>.
  Request parameters are a JavaScript object, since every one of them comes from the client. How the
  database compares a stored time or id with a text, how a locale orders names, and \<open>Number(object)\<close>
  belong to the environment; they matter to requests of old clients only.
\<close>

record feed_env =
  fe_transport :: transport_env
  fe_host :: host
  date_gt :: "int \<Rightarrow> string \<Rightarrow> bool"
  date_eq :: "int \<Rightarrow> string \<Rightarrow> bool"
  date_ge :: "int \<Rightarrow> string \<Rightarrow> bool"
  id_gt :: "string \<Rightarrow> string \<Rightarrow> bool"
  name_le :: "string \<Rightarrow> string \<Rightarrow> bool"
  object_number :: "jsval \<Rightarrow> jsnum"

record sync_row =
  sy_id :: string
  sy_serverSequence :: int
  sy_updatedAt :: int
  sy_resourceId :: jsval
  sy_resourceType :: jsval
  sy_syncType :: jsval
  sy_data :: jsval
  sy_scope :: "(string \<times> jsval) list"

record sync_cursor =
  sc_id :: "string option"
  sc_serverSequence :: "int option"
  sc_updatedAt :: string

datatype feed_error =
    Invalid_Changes_Limit
  | Invalid_Changes_Cursor string
  | Invalid_Row_Json

record feed_service =
  fs_defaultLimit :: int
  fs_maxLimit :: int

text \<open>The constructor's default limits.\<close>

definition default_service :: feed_service where
  "default_service = \<lparr>fs_defaultLimit = 1000, fs_maxLimit = 1000\<rparr>"

subsection \<open>Request parameters\<close>

text \<open>\<open>Number(value)\<close>.\<close>

fun js_to_number :: "feed_env \<Rightarrow> jsval \<Rightarrow> jsnum" where
  "js_to_number env JUndef = NaN"
| "js_to_number env JNull = Fin 0"
| "js_to_number env (JBool b) = Fin (if b then 1 else 0)"
| "js_to_number env (JNum n) = n"
| "js_to_number env (JStr s) = js_number s"
| "js_to_number env v = object_number env v"

definition omitted :: "jsval \<Rightarrow> bool" where
  "omitted v \<longleftrightarrow> v = JUndef \<or> v = JNull \<or> v = JStr []"

definition positive_integer :: "feed_env \<Rightarrow> jsval \<Rightarrow> int option" where
  "positive_integer env v =
     (case js_safe_integer (JNum (js_to_number env v)) of None \<Rightarrow> None | Some n \<Rightarrow> if n \<le> 0 then None else Some n)"

definition normalizedLimit :: "feed_env \<Rightarrow> feed_service \<Rightarrow> jsval \<Rightarrow> feed_error + int" where
  "normalizedLimit env service value =
     (if omitted value then Inr (fs_defaultLimit service)
      else case positive_integer env value of
             None \<Rightarrow> Inl Invalid_Changes_Limit
           | Some limit \<Rightarrow> Inr (min limit (fs_maxLimit service)))"

definition optionalPositiveIntegerParam :: "feed_env \<Rightarrow> jsval \<Rightarrow> string \<Rightarrow> feed_error + int option" where
  "optionalPositiveIntegerParam env value name =
     (if omitted value then Inr None
      else case positive_integer env value of
             None \<Rightarrow> Inl (Invalid_Changes_Cursor name)
           | Some n \<Rightarrow> Inr (Some n))"

definition is_text :: "jsval \<Rightarrow> bool" where
  "is_text v = (case v of JStr _ \<Rightarrow> True | _ \<Rightarrow> False)"

fun text_of :: "jsval \<Rightarrow> string" where
  "text_of (JStr s) = s"
| "text_of v = []"

subsection \<open>Rows\<close>

text \<open>\<open>isoDate\<close> of a stored time.\<close>

definition isoDate :: "feed_env \<Rightarrow> int \<Rightarrow> string" where
  "isoDate env t = iso_string (fe_transport env) t"

definition cursorForRecord :: "feed_env \<Rightarrow> sync_row \<Rightarrow> sync_cursor" where
  "cursorForRecord env r = \<lparr>sc_id = Some (sy_id r), sc_serverSequence = Some (sy_serverSequence r), sc_updatedAt = isoDate env (sy_updatedAt r)\<rparr>"

definition METADATA_KEY :: string where
  "METADATA_KEY = ''$velociousReplay''"

definition PAYLOAD_KEY :: string where
  "PAYLOAD_KEY = ''payload''"

definition has_own :: "jsval \<Rightarrow> string \<Rightarrow> bool" where
  "has_own v k = (case v of JObj fs \<Rightarrow> k \<in> fst ` set fs | _ \<Rightarrow> False)"

text \<open>The payload of \<open>decodeReplayPersistedData\<close>, and its metadata when there is any.\<close>

definition decodeReplayPersistedData :: "feed_env \<Rightarrow> jsval \<Rightarrow> feed_error + (jsval \<times> jsval option)" where
  "decodeReplayPersistedData env value =
     bindE (case value of
              JStr s \<Rightarrow> (case json_parse (fe_host env) s of None \<Rightarrow> Inl Invalid_Row_Json | Some v \<Rightarrow> Inr v)
            | _ \<Rightarrow> Inr value) (\<lambda>parsed.
     let metadata = obj_get parsed METADATA_KEY in
     (case (parsed, metadata) of
        (JObj _, JObj _) \<Rightarrow>
          if has_own parsed PAYLOAD_KEY \<and> is_text (obj_get metadata ''clientMutationId'') \<and>
             is_text (obj_get metadata ''payloadFingerprint'')
          then Inr (obj_get parsed PAYLOAD_KEY, Some metadata)
          else Inr (parsed, None)
      | _ \<Rightarrow> Inr (parsed, None)))"

definition recordData :: "feed_env \<Rightarrow> sync_row \<Rightarrow> feed_error + jsval" where
  "recordData env r =
     (if omitted (sy_data r) then Inr JNull
      else bindE (decodeReplayPersistedData env (sy_data r)) (\<lambda>d. Inr (fst d)))"

fun insert_named :: "(string \<Rightarrow> string \<Rightarrow> bool) \<Rightarrow> string \<times> jsval \<Rightarrow> (string \<times> jsval) list \<Rightarrow> (string \<times> jsval) list" where
  "insert_named le p [] = [p]"
| "insert_named le p (q # qs) = (if le (fst p) (fst q) then p # q # qs else q # insert_named le p qs)"

definition defaultSerializeRecord :: "feed_env \<Rightarrow> sync_row \<Rightarrow> feed_error + jsval" where
  "defaultSerializeRecord env r =
     bindE (recordData env r) (\<lambda>data.
       let serialized = foldl (\<lambda>fs (k, v). obj_set fs k v)
             [(''data'', data), (''id'', JStr (sy_id r)), (''resourceId'', sy_resourceId r), (''resourceType'', sy_resourceType r),
              (''serverSequence'', JInt (sy_serverSequence r)), (''syncType'', sy_syncType r),
              (''updatedAt'', JStr (isoDate env (sy_updatedAt r)))] (sy_scope r)
       in Inr (JObj (foldl (\<lambda>fs (k, v). obj_set fs k v) [] (foldr (insert_named (name_le env)) serialized []))))"

subsection \<open>Pages\<close>

definition resolveUpToCursor :: "feed_env \<Rightarrow> (sync_row \<Rightarrow> bool) \<Rightarrow> jsval \<Rightarrow> sync_row list \<Rightarrow> feed_error + sync_cursor option" where
  "resolveUpToCursor env visible params rows =
     bindE (optionalPositiveIntegerParam env (obj_get params ''upToServerSequence'') ''upToServerSequence'') (\<lambda>upTo.
       let upToUpdatedAt = obj_get params ''upToUpdatedAt''; upToId = obj_get params ''upToId'';
           latest = (case sort_key (\<lambda>r. - sy_serverSequence r) (filter visible rows) of
                       [] \<Rightarrow> None | r # _ \<Rightarrow> Some (cursorForRecord env r))
       in if is_text upToUpdatedAt \<and> is_text upToId
          then (case upTo of
                  Some n \<Rightarrow> Inr (Some \<lparr>sc_id = Some (text_of upToId), sc_serverSequence = Some n, sc_updatedAt = text_of upToUpdatedAt\<rparr>)
                | None \<Rightarrow>
                    (case find (\<lambda>r. sy_id r = text_of upToId) rows of
                       Some r \<Rightarrow> Inr (Some (cursorForRecord env r))
                     | None \<Rightarrow> Inr latest))
          else Inr latest)"

definition nonempty_text :: "jsval \<Rightarrow> bool" where
  "nonempty_text v \<longleftrightarrow> is_text v \<and> text_of v \<noteq> []"

definition cursorFilteredQuery :: "feed_env \<Rightarrow> (sync_row \<Rightarrow> bool) \<Rightarrow> jsval \<Rightarrow> int \<Rightarrow> sync_row list \<Rightarrow> feed_error + sync_row list" where
  "cursorFilteredQuery env visible params upToSequence rows =
     bindE (optionalPositiveIntegerParam env (obj_get params ''afterServerSequence'') ''afterServerSequence'') (\<lambda>after.
       let bounded = filter (\<lambda>r. sy_serverSequence r \<le> upToSequence) (filter visible rows);
           afterUpdatedAt = obj_get params ''afterUpdatedAt'';
           paging = (nonempty_text (obj_get params ''upToUpdatedAt'') \<and> nonempty_text (obj_get params ''upToId''))
       in Inr (case after of
                 Some n \<Rightarrow> filter (\<lambda>r. n < sy_serverSequence r) bounded
               | None \<Rightarrow>
                   if nonempty_text afterUpdatedAt
                   then if paging \<and> nonempty_text (obj_get params ''afterId'')
                        then filter (\<lambda>r. date_gt env (sy_updatedAt r) (text_of afterUpdatedAt) \<or>
                               date_eq env (sy_updatedAt r) (text_of afterUpdatedAt) \<and>
                               id_gt env (sy_id r) (text_of (obj_get params ''afterId''))) bounded
                        else filter (\<lambda>r. date_ge env (sy_updatedAt r) (text_of afterUpdatedAt)) bounded
                   else bounded))"

definition pageQuery :: "int \<Rightarrow> sync_row list \<Rightarrow> sync_row list" where
  "pageQuery limit rows = take (nat limit) (sort_key sy_serverSequence rows)"

record changes_page =
  pg_nextCursor :: "sync_cursor option"
  pg_syncs :: "jsval list"
  pg_total :: nat
  pg_upToCursor :: "sync_cursor option"

text \<open>
  \<open>changes\<close>. The upper bound of a cursor made here always has a sequence; the count and the page
  are two queries, and what is committed between them is in \<open>rows'\<close>.
\<close>

definition changes :: "feed_env \<Rightarrow> feed_service \<Rightarrow> (sync_row \<Rightarrow> bool) \<Rightarrow> jsval \<Rightarrow> sync_row list \<Rightarrow> sync_row list \<Rightarrow>
    feed_error + changes_page" where
  "changes env service visible params rows rows' =
     bindE (normalizedLimit env service (obj_get params ''limit'')) (\<lambda>limit.
     bindE (resolveUpToCursor env visible params rows) (\<lambda>upToCursor.
       case upToCursor of
         None \<Rightarrow> Inr \<lparr>pg_nextCursor = None, pg_syncs = [], pg_total = 0, pg_upToCursor = None\<rparr>
       | Some bound \<Rightarrow>
           let upToSequence = the (sc_serverSequence bound) in
           bindE (cursorFilteredQuery env visible params upToSequence rows) (\<lambda>counted.
           bindE (cursorFilteredQuery env visible params upToSequence rows') (\<lambda>found.
             let records = pageQuery limit found in
             bindE (collectE (map (defaultSerializeRecord env) records)) (\<lambda>syncs.
               Inr \<lparr>pg_nextCursor = (if records \<noteq> [] then Some (cursorForRecord env (last records)) else Some bound),
                 pg_syncs = syncs, pg_total = length counted, pg_upToCursor = Some bound\<rparr>)))))"

definition cursor_object :: "sync_cursor option \<Rightarrow> jsval" where
  "cursor_object c =
     (case c of
        None \<Rightarrow> JNull
      | Some c \<Rightarrow> JObj
          [(''id'', case sc_id c of None \<Rightarrow> JNull | Some i \<Rightarrow> JStr i),
           (''serverSequence'', case sc_serverSequence c of None \<Rightarrow> JNull | Some n \<Rightarrow> JInt n),
           (''updatedAt'', JStr (sc_updatedAt c))])"

definition page_object :: "changes_page \<Rightarrow> jsval" where
  "page_object p = JObj
     [(''status'', JStr ''success''), (''nextCursor'', cursor_object (pg_nextCursor p)), (''syncs'', JArr (pg_syncs p)),
      (''total'', JInt (int (pg_total p))), (''upToCursor'', cursor_object (pg_upToCursor p))]"

end
