(* ===== verification/Sync_Pull.thy ===== *)
theory Sync_Pull
  imports Sync_Feed
begin

text \<open>
  The client side of a pull (the pull operations of \<open>src/src/sync/sync-api-client.js\<close>): pages are
  requested from the saved cursor up to a bound that the first page fixes, every row is applied to the
  local store, and the cursor is saved after the last page.

  The local store is a type parameter; \<open>applySync\<close> returns its outcome and the store it leaves,
  since it may throw after it has written. \<open>post n\<close> answers the \<open>n\<close>-th request of the pull.
  \<open>optional_integer\<close> is the function of the package typanic that the client uses; \<open>None\<close> is
  a throw. The loop takes fuel.
\<close>

record pull_env =
  pe_host :: host
  optional_integer :: "jsval \<Rightarrow> int option option"
  string_of :: "jsval \<Rightarrow> string"

datatype pull_error =
    Server_Error feed_error
  | Response_Error string
  | Missing_Syncs
  | Entry_Not_Object
  | Not_An_Integer
  | Missing_Data
  | Invalid_Data
  | Local_Failure string

subsection \<open>Cursors\<close>

definition cursor_of_object :: "pull_env \<Rightarrow> jsval \<Rightarrow> pull_error + sync_cursor option" where
  "cursor_of_object env payload =
     (case payload of
        JObj _ \<Rightarrow>
          (case obj_get payload ''updatedAt'' of
             JStr updatedAt \<Rightarrow>
               if updatedAt = [] then Inr None
               else
                 (let i = obj_get payload ''id''; s = obj_get payload ''serverSequence'' in
                  case optional_integer env (if s = JStr [] then JNull else s) of
                    None \<Rightarrow> Inl Not_An_Integer
                  | Some n \<Rightarrow> Inr (Some \<lparr>sc_id = (if i = JNull \<or> i = JUndef then None
                                             else Some (case i of JStr t \<Rightarrow> t | _ \<Rightarrow> string_of env i)),
                      sc_serverSequence = n, sc_updatedAt = updatedAt\<rparr>))
           | _ \<Rightarrow> Inr None)
      | _ \<Rightarrow> Inr None)"

text \<open>
  \<open>syncCursorFromPayload\<close>; the recursion on a text that is the JSON of a text is bounded by its
  length, since the JSON of a text is longer than the text.
\<close>

fun cursor_from :: "pull_env \<Rightarrow> nat \<Rightarrow> jsval \<Rightarrow> pull_error + sync_cursor option" where
  "cursor_from env fuel (JStr s) =
     (if s = [] then Inr None
      else
        (let legacy = Inr (Some \<lparr>sc_id = None, sc_serverSequence = None, sc_updatedAt = s\<rparr>) in
         case json_parse (pe_host env) s of
           None \<Rightarrow> legacy
         | Some v \<Rightarrow>
             (case fuel of
                0 \<Rightarrow> legacy
              | Suc fuel' \<Rightarrow> (case cursor_from env fuel' v of Inl _ \<Rightarrow> legacy | Inr c \<Rightarrow> Inr c))))"
| "cursor_from env fuel v = (if truthy v then cursor_of_object env v else Inr None)"

definition syncCursorFromPayload :: "pull_env \<Rightarrow> jsval \<Rightarrow> pull_error + sync_cursor option" where
  "syncCursorFromPayload env payload = cursor_from env (length (text_of payload)) payload"

text \<open>\<open>cursorPayload\<close>.\<close>

definition cursorPayload :: "string \<Rightarrow> sync_cursor option \<Rightarrow> (string \<times> jsval) list" where
  "cursorPayload prefix cursor =
     (case cursor of
        None \<Rightarrow> []
      | Some c \<Rightarrow>
          [(prefix @ ''Id'', case sc_id c of None \<Rightarrow> JNull | Some i \<Rightarrow> JStr i)] @
          (case sc_serverSequence c of None \<Rightarrow> [] | Some n \<Rightarrow> if n = 0 then [] else [(prefix @ ''ServerSequence'', JInt n)]) @
          [(prefix @ ''UpdatedAt'', JStr (sc_updatedAt c))])"

subsection \<open>One page\<close>

definition normalizedBatchSize :: "jsval \<Rightarrow> int" where
  "normalizedBatchSize batchSize =
     (case batchSize of JNum (Fin q) \<Rightarrow> if q < 1 then 100 else \<lfloor>q\<rfloor> | _ \<Rightarrow> 100)"

definition ensureSuccessfulChangesResponse :: "jsval \<Rightarrow> pull_error + jsval list" where
  "ensureSuccessfulChangesResponse response =
     (if obj_get response ''status'' = JStr ''error''
      then Inl (Response_Error (case obj_get response ''errorMessage'' of JStr s \<Rightarrow> if s = [] then ''Sync changes failed'' else s | _ \<Rightarrow> ''Sync changes failed''))
      else case obj_get response ''syncs'' of JArr syncs \<Rightarrow> Inr syncs | _ \<Rightarrow> Inl Missing_Syncs)"

text \<open>The row adapter is the payload itself, read by the accessors below.\<close>

definition syncEnvelopeFromPayload :: "jsval \<Rightarrow> pull_error + jsval" where
  "syncEnvelopeFromPayload payload = (case payload of JObj _ \<Rightarrow> Inr payload | _ \<Rightarrow> Inl Entry_Not_Object)"

definition string_value :: "pull_env \<Rightarrow> jsval \<Rightarrow> string option" where
  "string_value env v =
     (if v = JNull \<or> v = JUndef then None else Some (case v of JStr s \<Rightarrow> s | _ \<Rightarrow> string_of env v))"

definition env_resourceType :: "pull_env \<Rightarrow> jsval \<Rightarrow> string option" where
  "env_resourceType env sync = string_value env (obj_get sync ''resourceType'')"

definition env_syncType :: "pull_env \<Rightarrow> jsval \<Rightarrow> string" where
  "env_syncType env sync = (case string_value env (obj_get sync ''syncType'') of None \<Rightarrow> [] | Some s \<Rightarrow> s)"

record client_page =
  cg_nextCursor :: "sync_cursor option"
  cg_syncs :: "jsval list"
  cg_total :: "int option"
  cg_upToCursor :: "sync_cursor option"

definition changes_request :: "string \<Rightarrow> int \<Rightarrow> sync_cursor option \<Rightarrow> sync_cursor option \<Rightarrow> jsval" where
  "changes_request authenticationToken batchSize afterCursor upToCursor =
     JObj ([(''authenticationToken'', JStr authenticationToken), (''limit'', JInt batchSize)] @
       cursorPayload ''after'' afterCursor @ cursorPayload ''upTo'' upToCursor)"

definition null_if_undefined :: "jsval \<Rightarrow> jsval" where
  "null_if_undefined v = (if v = JUndef then JNull else v)"

definition page_of_response :: "pull_env \<Rightarrow> jsval \<Rightarrow> pull_error + client_page" where
  "page_of_response env response =
     bindE (ensureSuccessfulChangesResponse response) (\<lambda>syncs.
     bindE (syncCursorFromPayload env (null_if_undefined (obj_get response ''nextCursor''))) (\<lambda>nextCursor.
     bindE (collectE (map syncEnvelopeFromPayload syncs)) (\<lambda>envelopes.
     bindE (case optional_integer env (obj_get response ''total'') of None \<Rightarrow> Inl Not_An_Integer | Some t \<Rightarrow> Inr t) (\<lambda>total.
     bindE (syncCursorFromPayload env (null_if_undefined (obj_get response ''upToCursor''))) (\<lambda>upToCursor.
       Inr \<lparr>cg_nextCursor = nextCursor, cg_syncs = envelopes, cg_total = total, cg_upToCursor = upToCursor\<rparr>)))))"

definition changesPage :: "pull_env \<Rightarrow> (jsval \<Rightarrow> pull_error + jsval) \<Rightarrow> string \<Rightarrow> int \<Rightarrow> sync_cursor option \<Rightarrow> sync_cursor option \<Rightarrow>
    pull_error + client_page" where
  "changesPage env post authenticationToken batchSize afterCursor upToCursor =
     bindE (post (changes_request authenticationToken batchSize afterCursor upToCursor)) (page_of_response env)"

subsection \<open>The pull\<close>

record apply_result =
  ar_changed :: bool
  ar_resourceType :: "string option"

type_synonym 'l applier = "jsval \<Rightarrow> 'l \<Rightarrow> (pull_error + apply_result) \<times> 'l"

record pull_result =
  pr_changed :: bool
  pr_pages :: nat
  pr_resourceChanged :: "string \<Rightarrow> bool option"
  pr_resourceCounts :: "string \<Rightarrow> nat option"
  pr_syncedCount :: nat
  pr_total :: int

record pull_progress =
  pp_pages :: nat
  pp_syncedCount :: nat
  pp_total :: int

text \<open>One applied row in the counters.\<close>

definition count_sync :: "pull_env \<Rightarrow> jsval \<Rightarrow> apply_result \<Rightarrow> pull_result \<Rightarrow> pull_result" where
  "count_sync env sync applied r =
     (let r1 = r\<lparr>pr_changed := pr_changed r \<or> ar_changed applied, pr_syncedCount := Suc (pr_syncedCount r)\<rparr>
      in case (case ar_resourceType applied of Some t \<Rightarrow> Some t | None \<Rightarrow> env_resourceType env sync) of
           None \<Rightarrow> r1
         | Some t \<Rightarrow>
             if t = [] then r1
             else r1\<lparr>pr_resourceCounts := (pr_resourceCounts r1)(t \<mapsto> Suc (case pr_resourceCounts r1 t of None \<Rightarrow> 0 | Some n \<Rightarrow> n)),
                    pr_resourceChanged := (pr_resourceChanged r1)(t \<mapsto>
                      (case pr_resourceChanged r1 t of None \<Rightarrow> False | Some b \<Rightarrow> b) \<or> ar_changed applied)\<rparr>)"

fun apply_page :: "pull_env \<Rightarrow> 'l applier \<Rightarrow> jsval list \<Rightarrow> pull_result \<times> 'l \<Rightarrow> (pull_error + pull_result) \<times> 'l" where
  "apply_page env applySync [] (r, local) = (Inr r, local)"
| "apply_page env applySync (sync # syncs) (r, local) =
     (case applySync sync local of
        (Inl e, local') \<Rightarrow> (Inl e, local')
      | (Inr applied, local') \<Rightarrow> apply_page env applySync syncs (count_sync env sync applied r, local'))"

record 'l pull_state =
  pl_afterCursor :: "sync_cursor option"
  pl_upToCursor :: "sync_cursor option"
  pl_result :: pull_result
  pl_progress :: "pull_progress list"
  pl_local :: 'l

definition report :: "'l pull_state \<Rightarrow> 'l pull_state" where
  "report st = st\<lparr>pl_progress := pl_progress st @
     [\<lparr>pp_pages = pr_pages (pl_result st), pp_syncedCount = pr_syncedCount (pl_result st), pp_total = pr_total (pl_result st)\<rparr>]\<rparr>"

text \<open>
  One turn of the loop: the flag tells whether the loop goes on.
\<close>

definition pull_turn :: "pull_env \<Rightarrow> (jsval \<Rightarrow> pull_error + jsval) \<Rightarrow> string \<Rightarrow> int \<Rightarrow> 'l applier \<Rightarrow> 'l pull_state \<Rightarrow>
    (pull_error + bool) \<times> 'l pull_state" where
  "pull_turn env post authenticationToken batchSize applySync st =
     (case changesPage env post authenticationToken batchSize (pl_afterCursor st) (pl_upToCursor st) of
        Inl e \<Rightarrow> (Inl e, st)
      | Inr page \<Rightarrow>
          (let syncs = cg_syncs page;
               r = pl_result st;
               r1 = (case cg_total page of None \<Rightarrow> r | Some t \<Rightarrow> r\<lparr>pr_total := int (pr_syncedCount r) + t\<rparr>);
               st1 = st\<lparr>pl_upToCursor := (case pl_upToCursor st of None \<Rightarrow> cg_upToCursor page | Some c \<Rightarrow> Some c), pl_result := r1\<rparr>
           in if syncs = [] then (Inr False, if pr_pages r1 = 0 then report st1 else st1)
              else
                (case apply_page env applySync syncs (r1\<lparr>pr_pages := Suc (pr_pages r1)\<rparr>, pl_local st1) of
                   (Inl e, local') \<Rightarrow> (Inl e, st1\<lparr>pl_local := local'\<rparr>)
                 | (Inr r2, local') \<Rightarrow>
                     (Inr (batchSize \<le> int (length syncs)),
                      report (st1\<lparr>pl_afterCursor := cg_nextCursor page, pl_result := r2, pl_local := local'\<rparr>)))))"

fun pull_loop :: "pull_env \<Rightarrow> nat \<Rightarrow> nat \<Rightarrow> (nat \<Rightarrow> jsval \<Rightarrow> pull_error + jsval) \<Rightarrow> string \<Rightarrow> int \<Rightarrow> 'l applier \<Rightarrow> 'l pull_state \<Rightarrow>
    ((pull_error + unit) \<times> 'l pull_state) option" where
  "pull_loop env 0 n post token batchSize applySync st = None"
| "pull_loop env (Suc fuel) n post token batchSize applySync st =
     (case pull_turn env (post n) token batchSize applySync st of
        (Inl e, st') \<Rightarrow> Some (Inl e, st')
      | (Inr False, st') \<Rightarrow> Some (Inr (), st')
      | (Inr True, st') \<Rightarrow> pull_loop env fuel (Suc n) post token batchSize applySync st')"

definition new_pull_result :: pull_result where
  "new_pull_result = \<lparr>pr_changed = False, pr_pages = 0, pr_resourceChanged = Map.empty, pr_resourceCounts = Map.empty,
     pr_syncedCount = 0, pr_total = 0\<rparr>"

text \<open>
  \<open>pullChanges\<close>: the saved cursor is read before the loop; the third component is the cursor that
  is saved at the end, if one is.
\<close>

definition pullChanges :: "pull_env \<Rightarrow> nat \<Rightarrow> (nat \<Rightarrow> jsval \<Rightarrow> pull_error + jsval) \<Rightarrow> string \<Rightarrow> jsval \<Rightarrow> jsval \<Rightarrow> 'l applier \<Rightarrow> 'l \<Rightarrow>
    ((pull_error + pull_result) \<times> 'l \<times> sync_cursor option) option" where
  "pullChanges env fuel post token batchSize savedCursor applySync local =
     (case syncCursorFromPayload env savedCursor of
        Inl e \<Rightarrow> Some (Inl e, local, None)
      | Inr afterCursor \<Rightarrow>
          (case pull_loop env fuel 0 post token (normalizedBatchSize batchSize) applySync
             \<lparr>pl_afterCursor = afterCursor, pl_upToCursor = None, pl_result = new_pull_result, pl_progress = [], pl_local = local\<rparr> of
             None \<Rightarrow> None
           | Some (Inl e, st) \<Rightarrow> Some (Inl e, pl_local st, None)
           | Some (Inr _, st) \<Rightarrow> Some (Inr (pl_result st), pl_local st, pl_afterCursor st)))"

text \<open>
  \<open>pullChangesWithCursor\<close> with the two functions it passes: the cursor is kept as JSON text in
  one row of a local table.
\<close>

definition loadSyncCursor :: "string option \<Rightarrow> jsval" where
  "loadSyncCursor option = (case option of None \<Rightarrow> JNull | Some value \<Rightarrow> JStr value)"

definition saveSyncCursor :: "pull_env \<Rightarrow> sync_cursor option \<Rightarrow> string option \<Rightarrow> string option" where
  "saveSyncCursor env cursor option =
     (case cursor of None \<Rightarrow> option | Some c \<Rightarrow> Some (json_stringify (pe_host env) (cursor_object (Some c))))"

definition pullChangesWithCursor :: "pull_env \<Rightarrow> nat \<Rightarrow> (nat \<Rightarrow> jsval \<Rightarrow> pull_error + jsval) \<Rightarrow> string \<Rightarrow> jsval \<Rightarrow> 'l applier \<Rightarrow>
    string option \<times> 'l \<Rightarrow> ((pull_error + pull_result) \<times> string option \<times> 'l) option" where
  "pullChangesWithCursor env fuel post token batchSize applySync =
     (\<lambda>(option, local).
        case pullChanges env fuel post token batchSize (loadSyncCursor option) applySync local of
          None \<Rightarrow> None
        | Some (Inl e, local', _) \<Rightarrow> Some (Inl e, option, local')
        | Some (Inr r, local', cursor) \<Rightarrow> Some (Inr r, saveSyncCursor env cursor option, local'))"

subsection \<open>Applying a row\<close>

text \<open>
  The local store: the attributes of every record, by model and id. A policy tells how rows of one
  resource type are applied; its hooks are the application's. A saved record is what validations and
  callbacks make of it (\<open>rp_save\<close>).
\<close>

type_synonym attributes = "(string \<times> jsval) list"
type_synonym local_store = "string \<Rightarrow> jsval \<Rightarrow> attributes option"

record resource_policy =
  rp_enabled :: bool
  rp_model :: string
  rp_findRecord :: "(jsval \<Rightarrow> jsval \<Rightarrow> jsval \<Rightarrow> local_store \<Rightarrow> attributes \<times> bool) option"
  rp_findRecordForDelete :: "(jsval \<Rightarrow> jsval \<Rightarrow> local_store \<Rightarrow> jsval option) option"
  rp_attributes :: "jsval \<Rightarrow> attributes \<Rightarrow> jsval \<Rightarrow> pull_error + attributes"
  rp_save :: "attributes \<Rightarrow> pull_error + attributes"
  rp_afterApply :: "(attributes \<Rightarrow> jsval \<Rightarrow> attributes \<Rightarrow> jsval \<Rightarrow> local_store \<Rightarrow> (pull_error + bool) \<times> local_store) option"

definition record_id :: "attributes \<Rightarrow> jsval" where
  "record_id fs = obj_get (JObj fs) ''id''"

definition put_record :: "string \<Rightarrow> jsval \<Rightarrow> attributes \<Rightarrow> local_store \<Rightarrow> local_store" where
  "put_record model oldId fs store = store(model := (store model)(oldId := None, record_id fs := Some fs))"

definition syncData :: "pull_env \<Rightarrow> jsval \<Rightarrow> pull_error + jsval" where
  "syncData env sync =
     (let data = obj_get sync ''data'' in
      if \<not> truthy data then Inl Missing_Data
      else case data of
             JStr s \<Rightarrow> (case json_parse (pe_host env) s of None \<Rightarrow> Inl Invalid_Data | Some v \<Rightarrow> if v = JNull then Inl Invalid_Data else Inr v)
           | JObj _ \<Rightarrow> Inr data
           | _ \<Rightarrow> Inl Invalid_Data)"

definition destroySyncedResource :: "resource_policy \<Rightarrow> jsval \<Rightarrow> local_store \<Rightarrow> bool \<times> local_store" where
  "destroySyncedResource policy sync store =
     (let resourceId = obj_get sync ''resourceId'';
          found = (case rp_findRecordForDelete policy of
                     Some f \<Rightarrow> f resourceId sync store
                   | None \<Rightarrow> (case store (rp_model policy) resourceId of None \<Rightarrow> None | Some _ \<Rightarrow> Some resourceId))
      in case found of
           None \<Rightarrow> (False, store)
         | Some i \<Rightarrow> (True, store(rp_model policy := (store (rp_model policy))(i := None))))"

text \<open>\<open>findOrInitializeBy({id})\<close>: the record and whether it is new.\<close>

definition find_or_initialize :: "string \<Rightarrow> jsval \<Rightarrow> local_store \<Rightarrow> attributes \<times> bool" where
  "find_or_initialize model i store =
     (case store model i of Some fs \<Rightarrow> (fs, False) | None \<Rightarrow> ([(''id'', i)], True))"

definition save_synced :: "resource_policy \<Rightarrow> attributes \<times> bool \<Rightarrow> attributes \<Rightarrow> local_store \<Rightarrow>
    (pull_error + bool \<times> attributes) \<times> local_store" where
  "save_synced policy found attributes store =
     (let (rec, isNew) = found;
          assigned = foldl (\<lambda>fs (k, v). obj_set fs k v) rec attributes
      in if isNew \<or> assigned \<noteq> rec
         then (case rp_save policy assigned of
                 Inl e \<Rightarrow> (Inl e, store)
               | Inr saved \<Rightarrow> (Inr (True, saved), put_record (rp_model policy) (record_id rec) saved store))
         else (Inr (False, rec), store))"

definition upsertSyncedResource :: "pull_env \<Rightarrow> resource_policy \<Rightarrow> jsval \<Rightarrow> local_store \<Rightarrow> (pull_error + bool) \<times> local_store" where
  "upsertSyncedResource env policy sync store =
     (case syncData env sync of
        Inl e \<Rightarrow> (Inl e, store)
      | Inr data \<Rightarrow>
          (let resourceId = obj_get sync ''resourceId'';
               dataId = obj_get data ''id'';
               found = (case rp_findRecord policy of
                          Some f \<Rightarrow> f data resourceId sync store
                        | None \<Rightarrow> find_or_initialize (rp_model policy)
                            (if dataId = JUndef \<or> dataId = JNull then resourceId else dataId) store)
           in case rp_attributes policy data (fst found) sync of
                Inl e \<Rightarrow> (Inl e, store)
              | Inr attributes \<Rightarrow>
                  (case save_synced policy found attributes store of
                     (Inl e, store1) \<Rightarrow> (Inl e, store1)
                   | (Inr (changed, rec), store1) \<Rightarrow>
                       (case rp_afterApply policy of
                          None \<Rightarrow> (Inr changed, store1)
                        | Some hook \<Rightarrow>
                            (case hook attributes data rec sync store1 of
                               (Inl e, store2) \<Rightarrow> (Inl e, store2)
                             | (Inr hookChanged, store2) \<Rightarrow> (Inr (changed \<or> hookChanged), store2))))))"

definition applyResourceSync :: "pull_env \<Rightarrow> (string \<Rightarrow> resource_policy option) \<Rightarrow> local_store applier" where
  "applyResourceSync env resources sync store =
     (let resourceType = env_resourceType env sync in
      case (case resourceType of None \<Rightarrow> None | Some t \<Rightarrow> if t = [] then None else resources t) of
        None \<Rightarrow> (Inr \<lparr>ar_changed = False, ar_resourceType = resourceType\<rparr>, store)
      | Some policy \<Rightarrow>
          if \<not> rp_enabled policy then (Inr \<lparr>ar_changed = False, ar_resourceType = resourceType\<rparr>, store)
          else if env_syncType env sync = ''delete'' then
            (let (changed, store') = destroySyncedResource policy sync store
             in (Inr \<lparr>ar_changed = changed, ar_resourceType = resourceType\<rparr>, store'))
          else
            (case upsertSyncedResource env policy sync store of
               (Inl e, store') \<Rightarrow> (Inl e, store')
             | (Inr changed, store') \<Rightarrow> (Inr \<lparr>ar_changed = changed, ar_resourceType = resourceType\<rparr>, store')))"

end
