(* ===== verification/Sync_Pull_Rows.thy ===== *)
theory Sync_Pull_Rows
  imports Sync_Pull
begin

text \<open>
  The rows of a pull: what one page of the server holds and how the client reads it, what the server's
  table can become while a pull runs, what a turn and the whole loop apply, and that the loop ends.
\<close>

subsection \<open>One page of the server\<close>

text \<open>The visible rows with a sequence in an interval, in order.\<close>

definition window :: "(sync_row \<Rightarrow> bool) \<Rightarrow> int \<Rightarrow> int \<Rightarrow> sync_row list \<Rightarrow> sync_row list" where
  "window visible a u rows = sort_key sy_serverSequence (filter (\<lambda>r. visible r \<and> a < sy_serverSequence r \<and> sy_serverSequence r \<le> u) rows)"

text \<open>Rows as the allocator numbers them, whose data can be read.\<close>

definition rows_ok :: "feed_env \<Rightarrow> sync_row list \<Rightarrow> bool" where
  "rows_ok env rows \<longleftrightarrow> distinct (map sy_serverSequence rows) \<and>
     (\<forall>r \<in> set rows. 0 < sy_serverSequence r \<and> sy_serverSequence r \<le> MAX_SAFE_INTEGER \<and> is_ok (defaultSerializeRecord env r))"

definition wire_row :: "feed_env \<Rightarrow> sync_row \<Rightarrow> jsval" where
  "wire_row env r = (case defaultSerializeRecord env r of Inr v \<Rightarrow> v | Inl _ \<Rightarrow> JUndef)"

text \<open>A cursor that stands for the rows up to a sequence; no cursor stands for none.\<close>

definition cursor_at :: "int \<Rightarrow> sync_cursor option \<Rightarrow> bool" where
  "cursor_at a c \<longleftrightarrow> (case c of None \<Rightarrow> a = 0
     | Some c \<Rightarrow> sc_serverSequence c = Some a \<and> 0 < a \<and> a \<le> MAX_SAFE_INTEGER \<and> sc_id c \<noteq> None)"

lemma positive_integer_JInt:
  "0 < n \<Longrightarrow> n \<le> MAX_SAFE_INTEGER \<Longrightarrow> positive_integer env (JInt n) = Some n"
  by (simp add: positive_integer_def js_safe_integer_def js_integer_def is_safe_int_def)

lemma omitted_simps [simp]:
  "omitted JUndef" "\<not> omitted (JInt n)" "\<not> omitted (JStr s) \<longleftrightarrow> s \<noteq> []"
  by (auto simp: omitted_def)

lemma is_text_simps [simp]: "is_text (JStr s)" "\<not> is_text JUndef" "\<not> is_text JNull"
  by (simp_all add: is_text_def)

lemma request_fields:
  "obj_get (changes_request token b c u) ''limit'' = JInt b"
  "obj_get (changes_request token b c u) ''afterServerSequence'' =
     (case c of None \<Rightarrow> JUndef | Some c \<Rightarrow> (case sc_serverSequence c of None \<Rightarrow> JUndef | Some n \<Rightarrow> if n = 0 then JUndef else JInt n))"
  "obj_get (changes_request token b c u) ''afterUpdatedAt'' = (case c of None \<Rightarrow> JUndef | Some c \<Rightarrow> JStr (sc_updatedAt c))"
  "obj_get (changes_request token b c u) ''upToServerSequence'' =
     (case u of None \<Rightarrow> JUndef | Some c \<Rightarrow> (case sc_serverSequence c of None \<Rightarrow> JUndef | Some n \<Rightarrow> if n = 0 then JUndef else JInt n))"
  "obj_get (changes_request token b c u) ''upToUpdatedAt'' = (case u of None \<Rightarrow> JUndef | Some c \<Rightarrow> JStr (sc_updatedAt c))"
  "obj_get (changes_request token b c u) ''upToId'' =
     (case u of None \<Rightarrow> JUndef | Some c \<Rightarrow> (case sc_id c of None \<Rightarrow> JNull | Some i \<Rightarrow> JStr i))"
proof -
  have c: "cursorPayload ''after'' c = (case c of None \<Rightarrow> [] | Some c \<Rightarrow>
      (''afterId'', case sc_id c of None \<Rightarrow> JNull | Some i \<Rightarrow> JStr i) #
      (case sc_serverSequence c of None \<Rightarrow> [] | Some n \<Rightarrow> if n = 0 then [] else [(''afterServerSequence'', JInt n)]) @
      [(''afterUpdatedAt'', JStr (sc_updatedAt c))])"
    by (cases c; cases "sc_serverSequence (the c)"; simp add: cursorPayload_def)
  have u: "cursorPayload ''upTo'' u = (case u of None \<Rightarrow> [] | Some c \<Rightarrow>
      (''upToId'', case sc_id c of None \<Rightarrow> JNull | Some i \<Rightarrow> JStr i) #
      (case sc_serverSequence c of None \<Rightarrow> [] | Some n \<Rightarrow> if n = 0 then [] else [(''upToServerSequence'', JInt n)]) @
      [(''upToUpdatedAt'', JStr (sc_updatedAt c))])"
    by (cases u; cases "sc_serverSequence (the u)"; simp add: cursorPayload_def)
  have up: "map_of (cursorPayload ''upTo'' u) ''limit'' = None" "map_of (cursorPayload ''upTo'' u) ''afterServerSequence'' = None"
      "map_of (cursorPayload ''upTo'' u) ''afterUpdatedAt'' = None"
      "map_of (cursorPayload ''upTo'' u) ''upToServerSequence'' =
        (case u of None \<Rightarrow> None | Some c \<Rightarrow> (case sc_serverSequence c of None \<Rightarrow> None | Some n \<Rightarrow> if n = 0 then None else Some (JInt n)))"
      "map_of (cursorPayload ''upTo'' u) ''upToUpdatedAt'' = (case u of None \<Rightarrow> None | Some c \<Rightarrow> Some (JStr (sc_updatedAt c)))"
      "map_of (cursorPayload ''upTo'' u) ''upToId'' =
        (case u of None \<Rightarrow> None | Some c \<Rightarrow> Some (case sc_id c of None \<Rightarrow> JNull | Some i \<Rightarrow> JStr i))"
    unfolding u by (cases u; cases "sc_serverSequence (the u)"; simp)+
  have af: "map_of (cursorPayload ''after'' c) ''limit'' = None"
      "map_of (cursorPayload ''after'' c) ''afterServerSequence'' =
        (case c of None \<Rightarrow> None | Some c \<Rightarrow> (case sc_serverSequence c of None \<Rightarrow> None | Some n \<Rightarrow> if n = 0 then None else Some (JInt n)))"
      "map_of (cursorPayload ''after'' c) ''afterUpdatedAt'' = (case c of None \<Rightarrow> None | Some c \<Rightarrow> Some (JStr (sc_updatedAt c)))"
      "map_of (cursorPayload ''after'' c) ''upToServerSequence'' = None" "map_of (cursorPayload ''after'' c) ''upToUpdatedAt'' = None"
      "map_of (cursorPayload ''after'' c) ''upToId'' = None"
    unfolding c by (cases c; cases "sc_serverSequence (the c)"; simp)+
  have get: "obj_get (changes_request token b c u) k =
      (case map_of ([(''authenticationToken'', JStr token), (''limit'', JInt b)]) k of Some v \<Rightarrow> v | None \<Rightarrow>
       (case map_of (cursorPayload ''after'' c) k of Some v \<Rightarrow> v | None \<Rightarrow>
       (case map_of (cursorPayload ''upTo'' u) k of Some v \<Rightarrow> v | None \<Rightarrow> JUndef)))" for k
    by (simp add: changes_request_def obj_get_def map_add_def split: option.split)
  show "obj_get (changes_request token b c u) ''limit'' = JInt b" by (simp add: get)
  show "obj_get (changes_request token b c u) ''afterServerSequence'' =
     (case c of None \<Rightarrow> JUndef | Some c \<Rightarrow> (case sc_serverSequence c of None \<Rightarrow> JUndef | Some n \<Rightarrow> if n = 0 then JUndef else JInt n))"
    unfolding get af up by (cases c; cases "sc_serverSequence (the c)"; simp)
  show "obj_get (changes_request token b c u) ''afterUpdatedAt'' = (case c of None \<Rightarrow> JUndef | Some c \<Rightarrow> JStr (sc_updatedAt c))"
    unfolding get af up by (cases c; simp)
  show "obj_get (changes_request token b c u) ''upToServerSequence'' =
     (case u of None \<Rightarrow> JUndef | Some c \<Rightarrow> (case sc_serverSequence c of None \<Rightarrow> JUndef | Some n \<Rightarrow> if n = 0 then JUndef else JInt n))"
    unfolding get af up by (cases u; cases "sc_serverSequence (the u)"; simp)
  show "obj_get (changes_request token b c u) ''upToUpdatedAt'' = (case u of None \<Rightarrow> JUndef | Some c \<Rightarrow> JStr (sc_updatedAt c))"
    unfolding get af up by (cases u; simp)
  show "obj_get (changes_request token b c u) ''upToId'' =
     (case u of None \<Rightarrow> JUndef | Some c \<Rightarrow> (case sc_id c of None \<Rightarrow> JNull | Some i \<Rightarrow> JStr i))"
    unfolding get af up by (cases u; simp)
qed

definition newest :: "(sync_row \<Rightarrow> bool) \<Rightarrow> sync_row list \<Rightarrow> sync_row option" where
  "newest visible rows = (case sort_key (\<lambda>r. - sy_serverSequence r) (filter visible rows) of [] \<Rightarrow> None | r # _ \<Rightarrow> Some r)"

text \<open>The upper bound of a request: the one it carries, or the newest visible row.\<close>

definition bound_of :: "feed_env \<Rightarrow> (sync_row \<Rightarrow> bool) \<Rightarrow> sync_row list \<Rightarrow> sync_cursor option \<Rightarrow> sync_cursor option" where
  "bound_of env visible rows u = (case u of Some c \<Rightarrow> Some c | None \<Rightarrow> map_option (cursorForRecord env) (newest visible rows))"

lemma newest_Some:
  assumes "newest visible rows = Some r"
  shows "r \<in> set rows" "visible r" "\<And>q. q \<in> set rows \<Longrightarrow> visible q \<Longrightarrow> sy_serverSequence q \<le> sy_serverSequence r"
proof -
  from assms obtain rs where rs: "sort_key (\<lambda>r. - sy_serverSequence r) (filter visible rows) = r # rs"
    by (auto simp: newest_def split: list.splits)
  then have set: "set (r # rs) = set (filter visible rows)" by (metis set_sort)
  then show "r \<in> set rows" "visible r" by auto
  have "sorted (map (\<lambda>r. - sy_serverSequence r) (r # rs))" using sorted_sort_key [of "\<lambda>r. - sy_serverSequence r" "filter visible rows"] rs by simp
  then show "sy_serverSequence q \<le> sy_serverSequence r" if "q \<in> set rows" "visible q" for q
    using that set by auto
qed

lemma newest_None: "newest visible rows = None \<Longrightarrow> r \<in> set rows \<Longrightarrow> \<not> visible r"
  by (auto simp: newest_def split: list.splits dest!: arg_cong [where f = set] simp: filter_empty_conv)

lemma row_cursor: "rows_ok env rows \<Longrightarrow> r \<in> set rows \<Longrightarrow> cursor_at (sy_serverSequence r) (Some (cursorForRecord env r))"
  by (simp add: rows_ok_def cursor_at_def cursorForRecord_def)

lemma resolve_bound:
  assumes "u = None \<or> cursor_at v u"
  shows "resolveUpToCursor env visible (changes_request token b c u) rows = Inr (bound_of env visible rows u)"
proof (cases u)
  case None
  show ?thesis
    unfolding resolveUpToCursor_def Let_def request_fields None
    by (simp add: optionalPositiveIntegerParam_def bound_of_def newest_def split: list.split)
next
  case (Some w)
  with assms have w: "sc_serverSequence w = Some v" "0 < v" "v \<le> MAX_SAFE_INTEGER" "sc_id w \<noteq> None"
    by (auto simp: cursor_at_def)
  from w(4) obtain i where "sc_id w = Some i" by blast
  with w show ?thesis
    unfolding resolveUpToCursor_def Let_def request_fields Some
    by (simp add: optionalPositiveIntegerParam_def positive_integer_JInt bound_of_def)
qed

lemma filtered_window:
  assumes "cursor_at a c" "rows_ok env rows"
  shows "\<exists>found. cursorFilteredQuery env visible (changes_request token b c u) v rows = Inr found \<and>
    sort_key sy_serverSequence found = window visible a v rows \<and> length found = length (window visible a v rows)"
proof (cases c)
  case None
  with assms(1) have "a = 0" by (simp add: cursor_at_def)
  with assms(2) have "filter (\<lambda>r. visible r \<and> a < sy_serverSequence r \<and> sy_serverSequence r \<le> v) rows =
      filter (\<lambda>r. visible r \<and> sy_serverSequence r \<le> v) rows"
    by (intro filter_cong) (auto simp: rows_ok_def)
  then show ?thesis
    unfolding cursorFilteredQuery_def Let_def request_fields None
    by (simp add: optionalPositiveIntegerParam_def window_def nonempty_text_def)
next
  case (Some w)
  with assms(1) have w: "sc_serverSequence w = Some a" "0 < a" "a \<le> MAX_SAFE_INTEGER" by (simp_all add: cursor_at_def)
  have "filter (\<lambda>r. a < sy_serverSequence r) (filter (\<lambda>r. sy_serverSequence r \<le> v) (filter visible rows)) =
      filter (\<lambda>r. visible r \<and> a < sy_serverSequence r \<and> sy_serverSequence r \<le> v) rows"
    by (simp add: conj_ac)
  with w show ?thesis
    unfolding cursorFilteredQuery_def Let_def request_fields Some
    by (simp add: optionalPositiveIntegerParam_def positive_integer_JInt window_def)
qed

lemma window_set: "r \<in> set (window visible a u rows) \<longleftrightarrow>
    r \<in> set rows \<and> visible r \<and> a < sy_serverSequence r \<and> sy_serverSequence r \<le> u"
  by (simp add: window_def)

lemma window_sorted: "rows_ok env rows \<Longrightarrow> sorted_wrt (\<lambda>p q. sy_serverSequence p < sy_serverSequence q) (window visible a u rows)"
proof -
  assume ok: "rows_ok env rows"
  have "distinct (map sy_serverSequence (window visible a u rows))"
    using ok by (simp add: window_def rows_ok_def distinct_map_filter)
  moreover have "sorted (map sy_serverSequence (window visible a u rows))" by (simp add: window_def)
  ultimately have "sorted_wrt (<) (map sy_serverSequence (window visible a u rows))" by (simp add: strict_sorted_iff)
  then show ?thesis by (simp add: sorted_wrt_map)
qed

lemma serialized_rows:
  assumes "rows_ok env rows" "set rs \<subseteq> set rows"
  shows "collectE (map (defaultSerializeRecord env) rs) = Inr (map (wire_row env) rs)"
proof -
  have "defaultSerializeRecord env r = Inr (wire_row env r)" if "r \<in> set rs" for r
  proof -
    from assms that have "is_ok (defaultSerializeRecord env r)" by (auto simp: rows_ok_def)
    then show ?thesis by (cases "defaultSerializeRecord env r") (simp_all add: wire_row_def)
  qed
  then show ?thesis by (simp add: collectE_Inr)
qed

text \<open>The answer to a request of this client.\<close>

lemma changes_answer:
  assumes "rows_ok env rows" "rows_ok env rows'" "cursor_at a c" "u = None \<or> cursor_at v u" "1 \<le> b" "b \<le> MAX_SAFE_INTEGER"
  shows "changes env default_service visible (changes_request token b c u) rows rows' =
    Inr (case bound_of env visible rows u of
           None \<Rightarrow> \<lparr>pg_nextCursor = None, pg_syncs = [], pg_total = 0, pg_upToCursor = None\<rparr>
         | Some bound \<Rightarrow>
             (let w = the (sc_serverSequence bound); rs = take (nat (min b 1000)) (window visible a w rows') in
              \<lparr>pg_nextCursor = (if rs \<noteq> [] then Some (cursorForRecord env (last rs)) else Some bound),
               pg_syncs = map (wire_row env) rs, pg_total = length (window visible a w rows), pg_upToCursor = Some bound\<rparr>))"
proof -
  have limit: "normalizedLimit env default_service (JInt b) = Inr (min b 1000)"
    using assms(5,6) by (simp add: normalizedLimit_def positive_integer_JInt default_service_def)
  note bound = resolve_bound [OF assms(4), of env visible token b c rows]
  show ?thesis
  proof (cases "bound_of env visible rows u")
    case None
    then show ?thesis unfolding changes_def request_fields(1) limit bound by simp
  next
    case (Some w)
    let ?v = "the (sc_serverSequence w)"
    from filtered_window [OF assms(3,1)] obtain counted where counted:
        "cursorFilteredQuery env visible (changes_request token b c u) ?v rows = Inr counted" "length counted = length (window visible a ?v rows)"
      by blast
    from filtered_window [OF assms(3,2)] obtain found where found:
        "cursorFilteredQuery env visible (changes_request token b c u) ?v rows' = Inr found" "sort_key sy_serverSequence found = window visible a ?v rows'"
      by blast
    define rs where "rs = take (nat (min b 1000)) (window visible a ?v rows')"
    have "set rs \<subseteq> set rows'"
      unfolding rs_def by (meson set_take_subset subset_trans window_set subsetI)
    note synced = serialized_rows [OF assms(2) this]
    have page: "pageQuery (min b 1000) found = rs" by (simp add: pageQuery_def found(2) rs_def)
    show ?thesis
      unfolding changes_def request_fields(1) limit bound bindE_Inr Some option.case Let_def counted(1) found(1) page synced
        counted(2) rs_def [symmetric] by simp
  qed
qed

subsection \<open>The answer on the wire\<close>

text \<open>What the client's integer check accepts, and that dates have texts.\<close>

definition wire_ok :: "feed_env \<Rightarrow> pull_env \<Rightarrow> bool" where
  "wire_ok fenv env \<longleftrightarrow> (\<forall>z. optional_integer env (JInt z) = Some (Some z)) \<and> optional_integer env JNull = Some None \<and>
     (\<forall>t. iso_string (fe_transport fenv) t \<noteq> [])"

definition cursor_text_ok :: "sync_cursor option \<Rightarrow> bool" where
  "cursor_text_ok c \<longleftrightarrow> (case c of None \<Rightarrow> True | Some c \<Rightarrow> sc_updatedAt c \<noteq> [])"

definition server_post :: "feed_env \<Rightarrow> (sync_row \<Rightarrow> bool) \<Rightarrow> sync_row list \<Rightarrow> sync_row list \<Rightarrow> jsval \<Rightarrow> pull_error + jsval" where
  "server_post fenv visible rows rows' params =
     lift_error Server_Error (bindE (changes fenv default_service visible params rows rows') (\<lambda>page. Inr (page_object page)))"

lemma cursor_object_fields:
  "obj_get (cursor_object (Some c)) ''updatedAt'' = JStr (sc_updatedAt c)"
  "obj_get (cursor_object (Some c)) ''id'' = (case sc_id c of None \<Rightarrow> JNull | Some i \<Rightarrow> JStr i)"
  "obj_get (cursor_object (Some c)) ''serverSequence'' = (case sc_serverSequence c of None \<Rightarrow> JNull | Some n \<Rightarrow> JInt n)"
  by (simp_all add: cursor_object_def obj_get_def)

lemma cursor_object_parsed:
  assumes "wire_ok fenv env" "cursor_text_ok c"
  shows "syncCursorFromPayload env (cursor_object c) = Inr c"
proof (cases c)
  case None
  then show ?thesis by (simp add: syncCursorFromPayload_def cursor_object_def)
next
  case (Some d)
  have "cursor_of_object env (cursor_object c) = Inr (Some d)"
  proof -
    have obj: "cursor_object (Some d) = JObj [(''id'', case sc_id d of None \<Rightarrow> JNull | Some i \<Rightarrow> JStr i),
           (''serverSequence'', case sc_serverSequence d of None \<Rightarrow> JNull | Some n \<Rightarrow> JInt n),
           (''updatedAt'', JStr (sc_updatedAt d))]"
      by (simp add: cursor_object_def)
    have "optional_integer env (if (case sc_serverSequence d of None \<Rightarrow> JNull | Some n \<Rightarrow> JInt n) = JStr [] then JNull
        else (case sc_serverSequence d of None \<Rightarrow> JNull | Some n \<Rightarrow> JInt n)) = Some (sc_serverSequence d)"
      using assms(1) by (cases "sc_serverSequence d") (simp_all add: wire_ok_def)
    then show ?thesis
      using assms(2) unfolding Some cursor_of_object_def cursor_object_fields Let_def
      by (cases "sc_id d") (simp_all add: obj cursor_text_ok_def)
  qed
  then show ?thesis by (simp add: syncCursorFromPayload_def Some cursor_object_def)
qed

lemma wire_row_object:
  assumes "rows_ok env rows" "r \<in> set rows"
  shows "\<exists>fs. wire_row env r = JObj fs"
proof -
  from assms have "is_ok (defaultSerializeRecord env r)" by (auto simp: rows_ok_def)
  then obtain v where v: "defaultSerializeRecord env r = Inr v" by (rule is_okE)
  then have "\<exists>fs. v = JObj fs" by (auto simp: defaultSerializeRecord_def Let_def bindE_eq_Inr)
  with v show ?thesis by (simp add: wire_row_def)
qed

lemma page_fields:
  "obj_get (page_object p) ''status'' = JStr ''success''" "obj_get (page_object p) ''nextCursor'' = cursor_object (pg_nextCursor p)"
  "obj_get (page_object p) ''syncs'' = JArr (pg_syncs p)" "obj_get (page_object p) ''total'' = JInt (int (pg_total p))"
  "obj_get (page_object p) ''upToCursor'' = cursor_object (pg_upToCursor p)"
  by (simp_all add: page_object_def obj_get_def)

lemma page_parsed:
  assumes "wire_ok fenv env" "cursor_text_ok (pg_nextCursor p)" "cursor_text_ok (pg_upToCursor p)"
    and "\<And>v. v \<in> set (pg_syncs p) \<Longrightarrow> \<exists>fs. v = JObj fs"
  shows "page_of_response env (page_object p) = Inr \<lparr>cg_nextCursor = pg_nextCursor p, cg_syncs = pg_syncs p,
    cg_total = Some (int (pg_total p)), cg_upToCursor = pg_upToCursor p\<rparr>"
proof -
  have "map syncEnvelopeFromPayload (pg_syncs p) = map Inr (pg_syncs p)"
    using assms(4) by (force simp: syncEnvelopeFromPayload_def)
  then have "collectE (map syncEnvelopeFromPayload (pg_syncs p)) = Inr (pg_syncs p)" by (simp only: collectE_Inr)
  moreover have "ensureSuccessfulChangesResponse (page_object p) = Inr (pg_syncs p)"
    unfolding ensureSuccessfulChangesResponse_def page_fields by simp
  moreover have "optional_integer env (JInt (int (pg_total p))) = Some (Some (int (pg_total p)))"
    using assms(1) unfolding wire_ok_def by blast
  moreover have "null_if_undefined (cursor_object c) = cursor_object c" for c
    by (simp add: null_if_undefined_def cursor_object_def split: option.split)
  ultimately show ?thesis
    using cursor_object_parsed [OF assms(1,2)] cursor_object_parsed [OF assms(1,3)]
    unfolding page_of_response_def page_fields by (simp only: bindE_Inr option.case)
qed

text \<open>The page the client gets.\<close>

lemma client_page:
  assumes "rows_ok fenv rows" "rows_ok fenv rows'" "cursor_at a c" "u = None \<or> cursor_at v u \<and> cursor_text_ok u"
    and "1 \<le> b" "b \<le> MAX_SAFE_INTEGER" "wire_ok fenv env"
  shows "changesPage env (server_post fenv visible rows rows') token b c u =
    Inr (case bound_of fenv visible rows u of
           None \<Rightarrow> \<lparr>cg_nextCursor = None, cg_syncs = [], cg_total = Some 0, cg_upToCursor = None\<rparr>
         | Some bound \<Rightarrow>
             (let w = the (sc_serverSequence bound); rs = take (nat (min b 1000)) (window visible a w rows') in
              \<lparr>cg_nextCursor = (if rs \<noteq> [] then Some (cursorForRecord fenv (last rs)) else Some bound),
               cg_syncs = map (wire_row fenv) rs, cg_total = Some (int (length (window visible a w rows))), cg_upToCursor = Some bound\<rparr>))"
proof -
  have texts: "cursor_text_ok (bound_of fenv visible rows u)" "cursor_text_ok (Some (cursorForRecord fenv r))" for r
    using assms(4,7) by (auto simp: bound_of_def cursor_text_ok_def wire_ok_def cursorForRecord_def isoDate_def split: option.splits)
  have u: "u = None \<or> cursor_at v u" using assms(4) by blast
  note answer = changes_answer [OF assms(1,2,3) u assms(5,6), of visible token]
  show ?thesis
  proof (cases "bound_of fenv visible rows u")
    case None
    have "page_of_response env (page_object \<lparr>pg_nextCursor = None, pg_syncs = [], pg_total = 0, pg_upToCursor = None\<rparr>) =
        Inr \<lparr>cg_nextCursor = None, cg_syncs = [], cg_total = Some 0, cg_upToCursor = None\<rparr>"
      by (subst page_parsed [OF assms(7)]) (simp_all add: cursor_text_ok_def)
    with None show ?thesis unfolding changesPage_def server_post_def answer by simp
  next
    case (Some w)
    define rs where "rs = take (nat (min b 1000)) (window visible a (the (sc_serverSequence w)) rows')"
    have "set rs \<subseteq> set rows'" unfolding rs_def by (meson set_take_subset subset_trans window_set subsetI)
    then have objects: "\<exists>fs. x = JObj fs" if "x \<in> set (map (wire_row fenv) rs)" for x
      using that wire_row_object [OF assms(2)] by auto
    have texts: "cursor_text_ok (if rs \<noteq> [] then Some (cursorForRecord fenv (last rs)) else Some w)" "cursor_text_ok (Some w)"
      using texts Some by simp_all
    have "page_of_response env (page_object \<lparr>pg_nextCursor = (if rs \<noteq> [] then Some (cursorForRecord fenv (last rs)) else Some w),
        pg_syncs = map (wire_row fenv) rs, pg_total = n, pg_upToCursor = Some w\<rparr>) =
      Inr \<lparr>cg_nextCursor = (if rs \<noteq> [] then Some (cursorForRecord fenv (last rs)) else Some w),
        cg_syncs = map (wire_row fenv) rs, cg_total = Some (int n), cg_upToCursor = Some w\<rparr>" for n
      using texts objects by (subst page_parsed [OF assms(7)]) (simp_all only: changes_page.simps)
    then show ?thesis
      unfolding changesPage_def server_post_def answer Some option.case Let_def rs_def [symmetric] by (simp only: bindE_Inr lift_error_simps)
  qed
qed

subsection \<open>The feed while a pull runs\<close>

text \<open>
  The table with the highest sequence handed out so far. A write publishes a row under a new sequence,
  in place of the row with its id if there is one, removes a row, or hands out a sequence that stays
  unused. A sequence thus becomes visible before any later one is handed out.
\<close>

record feed_state =
  fd_rows :: "sync_row list"
  fd_counter :: int

inductive feed_write :: "feed_state \<Rightarrow> feed_state \<Rightarrow> bool" where
  publish: "fd_counter s < sy_serverSequence r \<Longrightarrow>
    feed_write s \<lparr>fd_rows = filter (\<lambda>q. sy_id q \<noteq> sy_id r) (fd_rows s) @ [r], fd_counter = sy_serverSequence r\<rparr>"
| remove: "feed_write s (s\<lparr>fd_rows := filter (\<lambda>q. sy_id q \<noteq> i) (fd_rows s)\<rparr>)"
| unused: "fd_counter s < n \<Longrightarrow> feed_write s (s\<lparr>fd_counter := n\<rparr>)"

definition later :: "feed_state \<Rightarrow> feed_state \<Rightarrow> bool" where
  "later s s' \<longleftrightarrow> fd_counter s \<le> fd_counter s' \<and>
     (\<forall>r \<in> set (fd_rows s'). r \<in> set (fd_rows s) \<or> fd_counter s < sy_serverSequence r)"

lemma later_refl [simp]: "later s s"
  by (simp add: later_def)

lemma later_trans: "later s s' \<Longrightarrow> later s' s'' \<Longrightarrow> later s s''"
  unfolding later_def by (fastforce intro: le_less_trans)

lemma write_later: "feed_write s s' \<Longrightarrow> later s s'"
  by (induction rule: feed_write.induct) (auto simp: later_def)

lemma writes_later: "feed_write\<^sup>*\<^sup>* s s' \<Longrightarrow> later s s'"
  by (induction rule: rtranclp_induct) (auto intro: later_trans write_later)

definition feed_ok :: "feed_env \<Rightarrow> feed_state \<Rightarrow> bool" where
  "feed_ok fenv s \<longleftrightarrow> rows_ok fenv (fd_rows s) \<and> (\<forall>r \<in> set (fd_rows s). sy_serverSequence r \<le> fd_counter s)"

text \<open>A run of the server: request \<open>n\<close> reads states \<open>2 * n\<close> and \<open>2 * n + 1\<close>.\<close>

definition feed_run :: "feed_env \<Rightarrow> (nat \<Rightarrow> feed_state) \<Rightarrow> bool" where
  "feed_run fenv S \<longleftrightarrow> (\<forall>n. feed_ok fenv (S n) \<and> feed_write\<^sup>*\<^sup>* (S n) (S (Suc n)))"

definition served :: "feed_env \<Rightarrow> (sync_row \<Rightarrow> bool) \<Rightarrow> (nat \<Rightarrow> feed_state) \<Rightarrow> nat \<Rightarrow> jsval \<Rightarrow> pull_error + jsval" where
  "served fenv visible S n = server_post fenv visible (fd_rows (S (2 * n))) (fd_rows (S (2 * n + 1)))"

lemma run_later:
  assumes "feed_run fenv S" "m \<le> n"
  shows "later (S m) (S n)"
  using assms(2)
proof (induction rule: dec_induct)
  case (step n)
  then show ?case using assms(1) later_trans writes_later unfolding feed_run_def by blast
qed simp

lemma old_row:
  assumes "feed_run fenv S" "m \<le> n" "r \<in> set (fd_rows (S n))" "sy_serverSequence r \<le> fd_counter (S m)"
  shows "r \<in> set (fd_rows (S m))"
  using run_later [OF assms(1,2)] assms(3,4) by (auto simp: later_def)

subsection \<open>The loop\<close>

definition apply_all :: "pull_env \<Rightarrow> 'l applier \<Rightarrow> jsval list \<Rightarrow> 'l \<Rightarrow> 'l option" where
  "apply_all env applySync syncs local =
     (case apply_page env applySync syncs (new_pull_result, local) of (Inl _, _) \<Rightarrow> None | (Inr _, local') \<Rightarrow> Some local')"

lemma apply_page_any:
  "apply_page env applySync syncs (r, local) = (Inr r', local') \<Longrightarrow>
     \<exists>q'. apply_page env applySync syncs (q, local) = (Inr q', local')"
  by (induction syncs arbitrary: r q local) (auto split: prod.splits sum.splits)

lemma apply_page_all: "apply_page env applySync syncs (r, local) = (Inr r', local') \<Longrightarrow> apply_all env applySync syncs local = Some local'"
  using apply_page_any [of env applySync syncs r local r' local' new_pull_result] by (auto simp: apply_all_def)

lemma apply_all_Nil [simp]: "apply_all env applySync [] local = Some local"
  by (simp add: apply_all_def)

lemma apply_page_append:
  "apply_page env applySync (xs @ ys) (r, local) =
     (case apply_page env applySync xs (r, local) of
        (Inl e, local') \<Rightarrow> (Inl e, local')
      | (Inr r', local') \<Rightarrow> apply_page env applySync ys (r', local'))"
  by (induction xs arbitrary: r local) (auto split: prod.splits sum.splits)

lemma apply_all_append:
  assumes "apply_all env applySync xs local = Some local1" "apply_all env applySync ys local1 = Some local2"
  shows "apply_all env applySync (xs @ ys) local = Some local2"
proof -
  from assms(1) obtain r1 where "apply_page env applySync xs (new_pull_result, local) = (Inr r1, local1)"
    by (auto simp: apply_all_def split: prod.splits sum.splits)
  moreover from assms(2) obtain r2 where "apply_page env applySync ys (new_pull_result, local1) = (Inr r2, local2)"
    by (auto simp: apply_all_def split: prod.splits sum.splits)
  from apply_page_any [OF this] obtain q where "apply_page env applySync ys (r1, local1) = (Inr q, local2)" by blast
  ultimately show ?thesis by (simp add: apply_all_def apply_page_append)
qed

lemma sorted_last: "sorted_wrt (\<lambda>p q. f p < (f q :: int)) xs \<Longrightarrow> x \<in> set xs \<Longrightarrow> f x \<le> f (last xs)"
  by (induction xs) (auto simp: less_imp_le)

lemma prefix_complete:
  assumes "sorted_wrt (\<lambda>p q. f p < (f q :: int)) xs" "take k xs \<noteq> []" "r \<in> set xs" "f r \<le> f (last (take k xs))"
  shows "r \<in> set (take k xs)"
proof (rule ccontr)
  assume "r \<notin> set (take k xs)"
  with assms(3) have "r \<in> set (drop k xs)" by (metis Un_iff append_take_drop_id set_append)
  moreover have "sorted_wrt (\<lambda>p q. f p < f q) (take k xs @ drop k xs)" using assms(1) by simp
  ultimately have "f (last (take k xs)) < f r"
    using assms(2) by (metis last_in_set sorted_wrt_append)
  with assms(4) show False by simp
qed

text \<open>What a stretch of the loop applied, from a cursor to a cursor.\<close>

definition covers :: "(sync_row \<Rightarrow> bool) \<Rightarrow> int \<Rightarrow> int \<Rightarrow> sync_row list \<Rightarrow> feed_state \<Rightarrow> bool" where
  "covers visible a c xs s \<longleftrightarrow>
     (\<forall>r \<in> set (fd_rows s). visible r \<and> a < sy_serverSequence r \<and> sy_serverSequence r \<le> c \<longrightarrow> r \<in> set xs)"

definition stretch :: "(sync_row \<Rightarrow> bool) \<Rightarrow> int \<Rightarrow> int \<Rightarrow> sync_row list \<Rightarrow> bool" where
  "stretch visible a c xs \<longleftrightarrow> a \<le> c \<and> sorted_wrt (\<lambda>p q. sy_serverSequence p < sy_serverSequence q) xs \<and>
     (\<forall>x \<in> set xs. visible x \<and> a < sy_serverSequence x \<and> sy_serverSequence x \<le> c)"

lemma stretch_append:
  "stretch visible a m xs \<Longrightarrow> stretch visible m c ys \<Longrightarrow> stretch visible a c (xs @ ys)"
  by (fastforce simp: stretch_def sorted_wrt_append)

lemma covers_append:
  "covers visible a m xs s \<Longrightarrow> covers visible m c ys s \<Longrightarrow> covers visible a c (xs @ ys) s"
  unfolding covers_def by (metis Un_iff not_less set_append)

text \<open>The rows a pull is about: those of the state that fixes its bound, or those up to the bound.\<close>

definition due :: "feed_state \<Rightarrow> sync_cursor option \<Rightarrow> sync_row \<Rightarrow> bool" where
  "due s upTo r \<longleftrightarrow> (case upTo of None \<Rightarrow> r \<in> set (fd_rows s) | Some c \<Rightarrow> sy_serverSequence r \<le> the (sc_serverSequence c))"

text \<open>The upper bound of a request: none yet, or a sequence that has been handed out.\<close>

definition bounded :: "feed_state \<Rightarrow> sync_cursor option \<Rightarrow> bool" where
  "bounded s upTo \<longleftrightarrow> upTo = None \<or> (\<exists>v. cursor_at v upTo \<and> cursor_text_ok upTo \<and> v \<le> fd_counter s)"

lemma bounded_later: "bounded s u \<Longrightarrow> later s s' \<Longrightarrow> bounded s' u"
  by (auto simp: bounded_def later_def)

lemma bounded_Some:
  "bounded s (Some w) \<Longrightarrow> sc_serverSequence w = Some (the (sc_serverSequence w)) \<and> the (sc_serverSequence w) \<le> fd_counter s"
  by (auto simp: bounded_def cursor_at_def)

lemma bound_of_bounded:
  assumes "feed_ok fenv s" "wire_ok fenv env" "bounded s upTo" "bound_of fenv visible (fd_rows s) upTo = Some w"
  shows "bounded s (Some w)"
proof (cases upTo)
  case None
  with assms(4) obtain r where r: "newest visible (fd_rows s) = Some r" "w = cursorForRecord fenv r" by (auto simp: bound_of_def)
  have "r \<in> set (fd_rows s)" using newest_Some(1) [OF r(1)] .
  with assms(1,2) row_cursor [of fenv "fd_rows s" r] show ?thesis
    by (auto simp: bounded_def feed_ok_def r(2) cursorForRecord_def cursor_text_ok_def wire_ok_def isoDate_def)
next
  case (Some c)
  with assms show ?thesis by (simp add: bound_of_def)
qed

lemma due_bound:
  assumes "bound_of fenv visible (fd_rows s) upTo = Some w" "due s upTo r" "visible r"
  shows "sy_serverSequence r \<le> the (sc_serverSequence w)"
proof (cases upTo)
  case None
  with assms(1) obtain q where "newest visible (fd_rows s) = Some q" "w = cursorForRecord fenv q" by (auto simp: bound_of_def)
  with None assms(2,3) newest_Some(3) [of visible "fd_rows s" q r] show ?thesis by (simp add: due_def cursorForRecord_def)
next
  case (Some c)
  with assms show ?thesis by (simp add: bound_of_def due_def)
qed

lemma no_bound: "bound_of fenv visible (fd_rows s) upTo = None \<Longrightarrow> due s upTo r \<Longrightarrow> \<not> visible r"
  using newest_None [of visible "fd_rows s" r] by (auto simp: bound_of_def due_def split: option.splits)

text \<open>No later state has a row in the window that the page query did not see.\<close>

lemma in_window:
  assumes "feed_run fenv S" "k \<le> m" "u \<le> fd_counter (S k)"
    and "r \<in> set (fd_rows (S m))" "visible r" "a < sy_serverSequence r" "sy_serverSequence r \<le> u"
  shows "r \<in> set (window visible a u (fd_rows (S k)))"
  using old_row [OF assms(1,2,4)] assms(3,5-7) by (simp add: window_set)

lemma page_rows:
  assumes "rows_ok fenv rows" "rs = take k (window visible a u rows)" "rs \<noteq> []"
  shows "\<forall>r \<in> set rs. r \<in> set rows \<and> sy_serverSequence r \<le> u" "stretch visible a (sy_serverSequence (last rs)) rs"
    and "\<And>r. r \<in> set (window visible a u rows) \<Longrightarrow> sy_serverSequence r \<le> sy_serverSequence (last rs) \<Longrightarrow> r \<in> set rs"
proof -
  note sorted = window_sorted [OF assms(1), of visible a u]
  have member: "x \<in> set rows \<and> visible x \<and> a < sy_serverSequence x \<and> sy_serverSequence x \<le> u" if "x \<in> set rs" for x
  proof -
    have "x \<in> set (window visible a u rows)" using that unfolding assms(2) by (rule in_set_takeD)
    then show ?thesis unfolding window_set .
  qed
  have last: "last rs \<in> set rs" using assms(3) by simp
  show "\<forall>r \<in> set rs. r \<in> set rows \<and> sy_serverSequence r \<le> u" using member by blast
  have rs: "sorted_wrt (\<lambda>p q. sy_serverSequence p < sy_serverSequence q) rs"
    unfolding assms(2) using sorted by (rule sorted_wrt_take)
  have "sy_serverSequence x \<le> sy_serverSequence (last rs)" if "x \<in> set rs" for x
    using rs that by (rule sorted_last)
  with member last rs show "stretch visible a (sy_serverSequence (last rs)) rs"
    unfolding stretch_def by (meson less_imp_le)
  show "r \<in> set rs" if "r \<in> set (window visible a u rows)" "sy_serverSequence r \<le> sy_serverSequence (last rs)" for r
    using prefix_complete [where f = sy_serverSequence, OF sorted, of k r] assms(2,3) that by blast
qed

lemma served_page:
  assumes "feed_run fenv S" "wire_ok fenv env" "1 \<le> b" "b \<le> MAX_SAFE_INTEGER" "cursor_at a c" "bounded (S (2 * n)) upTo"
  shows "changesPage env (served fenv visible S n) token b c upTo =
    Inr (case bound_of fenv visible (fd_rows (S (2 * n))) upTo of
           None \<Rightarrow> \<lparr>cg_nextCursor = None, cg_syncs = [], cg_total = Some 0, cg_upToCursor = None\<rparr>
         | Some bound \<Rightarrow>
             (let w = the (sc_serverSequence bound); rs = take (nat (min b 1000)) (window visible a w (fd_rows (S (2 * n + 1)))) in
              \<lparr>cg_nextCursor = (if rs \<noteq> [] then Some (cursorForRecord fenv (last rs)) else Some bound),
               cg_syncs = map (wire_row fenv) rs, cg_total = Some (int (length (window visible a w (fd_rows (S (2 * n)))))),
               cg_upToCursor = Some bound\<rparr>))"
proof -
  have ok: "rows_ok fenv (fd_rows (S (2 * n)))" "rows_ok fenv (fd_rows (S (2 * n + 1)))"
    using assms(1) by (simp_all add: feed_run_def feed_ok_def)
  from assms(6) obtain v where "upTo = None \<or> cursor_at v upTo \<and> cursor_text_ok upTo"
    unfolding bounded_def by blast
  from client_page [OF ok assms(5) this assms(3,4,2)] show ?thesis unfolding served_def .
qed

text \<open>What one turn of the loop applies.\<close>

definition turn_result :: "(sync_row \<Rightarrow> bool) \<Rightarrow> (nat \<Rightarrow> feed_state) \<Rightarrow> nat \<Rightarrow> int \<Rightarrow> int \<Rightarrow> sync_cursor option \<Rightarrow> bool \<Rightarrow>
    sync_cursor option \<Rightarrow> int \<Rightarrow> sync_row list \<Rightarrow> bool" where
  "turn_result visible S n b a upTo ongoing upTo' a' rs \<longleftrightarrow>
     a' \<le> max a (fd_counter (S (2 * n + 1))) \<and> stretch visible a a' rs \<and> (\<forall>m \<ge> 2 * n + 1. covers visible a a' rs (S m)) \<and> bounded (S (2 * n)) upTo' \<and>
     (ongoing \<longrightarrow> b \<le> int (length rs) \<and> upTo' \<noteq> None) \<and> (upTo \<noteq> None \<longrightarrow> upTo' = upTo) \<and>
     (\<forall>r \<in> set rs. r \<in> set (fd_rows (S (2 * n + 1))) \<and> (\<forall>s. due s upTo' r)) \<and>
     (\<forall>r. due (S (2 * n)) upTo r \<and> visible r \<longrightarrow>
        ongoing \<and> (\<forall>s. due s upTo' r) \<or> \<not> ongoing \<and> (b \<le> 1000 \<longrightarrow> (\<forall>m \<ge> 2 * n + 1. r \<in> set (fd_rows (S m)) \<and> a < sy_serverSequence r \<longrightarrow> r \<in> set rs)))"

lemma turn_rows:
  assumes run: "feed_run fenv S" and wire: "wire_ok fenv env" and b: "1 \<le> b" "b \<le> MAX_SAFE_INTEGER"
    and turn: "pull_turn env (served fenv visible S n) token b applySync st = (Inr ongoing, st')"
    and after: "cursor_at a (pl_afterCursor st)" and upTo: "bounded (S (2 * n)) (pl_upToCursor st)"
  shows "\<exists>rs a'. apply_all env applySync (map (wire_row fenv) rs) (pl_local st) = Some (pl_local st') \<and>
    cursor_at a' (pl_afterCursor st') \<and> (cursor_text_ok (pl_afterCursor st) \<longrightarrow> cursor_text_ok (pl_afterCursor st')) \<and> turn_result visible S n b a (pl_upToCursor st) ongoing (pl_upToCursor st') a' rs"
proof -
  let ?R = "fd_rows (S (2 * n))" and ?R' = "fd_rows (S (2 * n + 1))"
  have ok: "feed_ok fenv (S (2 * n))" "rows_ok fenv ?R'" "\<forall>r \<in> set ?R'. sy_serverSequence r \<le> fd_counter (S (2 * n + 1))"
    using run by (simp_all add: feed_run_def feed_ok_def)
  note page = served_page [OF run wire b after upTo, of visible token]
  show ?thesis
  proof (cases "bound_of fenv visible ?R (pl_upToCursor st)")
    case None
    with turn have "pl_local st' = pl_local st" "pl_afterCursor st' = pl_afterCursor st" "\<not> ongoing" "pl_upToCursor st' = pl_upToCursor st"
      by (auto simp: pull_turn_def page Let_def report_def split: if_splits option.splits)
    with after upTo no_bound [OF None] show ?thesis
      by (intro exI [of _ "[]"] exI [of _ a]) (auto simp: turn_result_def stretch_def covers_def)
  next
    case (Some w)
    define u where "u = the (sc_serverSequence w)"
    define rs where "rs = take (nat (min b 1000)) (window visible a u ?R')"
    note bound = bound_of_bounded [OF ok(1) wire upTo Some]
    have "u \<le> fd_counter (S (2 * n + 1))"
      using bounded_Some [OF bound] run_later [OF run, of "2 * n" "2 * n + 1"] by (simp add: u_def later_def)
    note inside = in_window [OF run _ this, where visible = visible and a = a]
    have page': "changesPage env (served fenv visible S n) token b (pl_afterCursor st) (pl_upToCursor st) =
        Inr \<lparr>cg_nextCursor = (if rs \<noteq> [] then Some (cursorForRecord fenv (last rs)) else Some w), cg_syncs = map (wire_row fenv) rs,
          cg_total = Some (int (length (window visible a u ?R))), cg_upToCursor = Some w\<rparr>"
      unfolding page Some option.case Let_def u_def [symmetric] rs_def [symmetric] by simp
    have keep: "(case pl_upToCursor st of None \<Rightarrow> Some w | Some c \<Rightarrow> Some c) = Some w"
      using Some by (auto simp: bound_of_def split: option.splits)
    have same: "pl_upToCursor st \<noteq> None \<longrightarrow> Some w = pl_upToCursor st" using keep by (cases "pl_upToCursor st") simp_all
    have all: "rs = window visible a u ?R'" if "int (length rs) < b" "b \<le> 1000"
      using that by (simp add: rs_def)
    show ?thesis
    proof (cases "rs = []")
      case True
      with turn have st': "pl_local st' = pl_local st" "pl_afterCursor st' = pl_afterCursor st" "\<not> ongoing" "pl_upToCursor st' = Some w"
        using keep by (auto simp: pull_turn_def page' Let_def report_def split: if_splits option.splits)
      have "r \<in> set rs" if "due (S (2 * n)) (pl_upToCursor st) r" "visible r" "b \<le> 1000" "2 * n + 1 \<le> m" "r \<in> set (fd_rows (S m))" "a < sy_serverSequence r" for r m
        using inside [OF that(4,5,2,6)] due_bound [OF Some that(1,2)] all that(3) b(1) True by (simp add: u_def)
      with st' after bound show ?thesis
        by (intro exI [of _ rs] exI [of _ a]) (auto simp: turn_result_def True stretch_def covers_def same)
    next
      case False
      let ?a = "sy_serverSequence (last rs)"
      note rows = page_rows [OF ok(2) rs_def False]
      have last: "last rs \<in> set ?R'" "?a \<le> u" using rows(1) False by simp_all
      have "apply_all env applySync (map (wire_row fenv) rs) (pl_local st) = Some (pl_local st') \<and>
          pl_afterCursor st' = Some (cursorForRecord fenv (last rs)) \<and> pl_upToCursor st' = Some w \<and> (ongoing \<longleftrightarrow> b \<le> int (length rs))"
        using turn False keep unfolding pull_turn_def page'
        by (cases "pl_upToCursor st") (auto simp: Let_def report_def split: prod.splits sum.splits intro: apply_page_all)
      then have applied: "apply_all env applySync (map (wire_row fenv) rs) (pl_local st) = Some (pl_local st')"
          and st': "pl_afterCursor st' = Some (cursorForRecord fenv (last rs))" "pl_upToCursor st' = Some w" "ongoing \<longleftrightarrow> b \<le> int (length rs)"
        by blast+
      have "covers visible a ?a rs (S m)" if "2 * n + 1 \<le> m" for m
        unfolding covers_def using inside [OF that] last(2) rows(3) by (meson order_trans)
      moreover have "r \<in> set rs" if "due (S (2 * n)) (pl_upToCursor st) r" "visible r" "\<not> ongoing" "b \<le> 1000"
          "2 * n + 1 \<le> m" "r \<in> set (fd_rows (S m))" "a < sy_serverSequence r" for r m
      proof -
        have "rs = window visible a u ?R'" using that(3,4) st'(3) by (intro all) simp_all
        with inside [OF that(5,6,2,7)] due_bound [OF Some that(1,2)] show ?thesis by (simp add: u_def)
      qed
      moreover have "due s (Some w) r" if "due (S (2 * n)) (pl_upToCursor st) r" "visible r" for r s
        using due_bound [OF Some that] by (simp add: due_def)
      moreover have "due s (Some w) r" if "r \<in> set rs" for s r
        using rows(1) that by (simp add: due_def u_def)
      moreover have "?a \<le> max a (fd_counter (S (2 * n + 1)))" using ok(3) last(1) by (simp add: le_max_iff_disj)
      ultimately have "turn_result visible S n b a (pl_upToCursor st) ongoing (Some w) ?a rs"
        unfolding turn_result_def using rows(1,2) bound st'(3) same by blast
      moreover have "cursor_text_ok (pl_afterCursor st')"
        using wire by (simp add: st'(1) cursor_text_ok_def cursorForRecord_def isoDate_def wire_ok_def)
      ultimately show ?thesis using applied row_cursor [OF ok(2) last(1)] st' by auto
    qed
  qed
qed

text \<open>
  The loop from a cursor at \<open>a\<close> to one at \<open>c\<close>: it applies, in order, visible rows between the two,
  and no state the server reaches afterwards has another visible row between them. With pages the
  server does not cut, it reaches every row that is due.
\<close>

lemma loop_rows:
  assumes run: "feed_run fenv S" and wire: "wire_ok fenv env" and b: "1 \<le> b" "b \<le> MAX_SAFE_INTEGER"
  shows "pull_loop env fuel n (served fenv visible S) token b applySync st = Some (Inr (), st') \<Longrightarrow>
    cursor_at a (pl_afterCursor st) \<Longrightarrow> bounded (S (2 * n)) (pl_upToCursor st) \<Longrightarrow>
    \<exists>xs c. apply_all env applySync (map (wire_row fenv) xs) (pl_local st) = Some (pl_local st') \<and>
      cursor_at c (pl_afterCursor st') \<and> (cursor_text_ok (pl_afterCursor st) \<longrightarrow> cursor_text_ok (pl_afterCursor st')) \<and>
      c \<le> max a (fd_counter (S (2 * (n + fuel)))) \<and> stretch visible a c xs \<and> (\<forall>m \<ge> 2 * (n + fuel). covers visible a c xs (S m)) \<and>
      (b \<le> 1000 \<longrightarrow> (\<forall>m \<ge> 2 * (n + fuel). \<forall>r \<in> set (fd_rows (S m)). visible r \<and> a < sy_serverSequence r \<and>
        due (S (2 * n)) (pl_upToCursor st) r \<longrightarrow> r \<in> set xs))"
proof (induction fuel arbitrary: n st a)
  case (Suc fuel)
  from Suc.prems(1) obtain ongoing st2 where turn: "pull_turn env (served fenv visible S n) token b applySync st = (Inr ongoing, st2)"
      and go: "if ongoing then pull_loop env fuel (Suc n) (served fenv visible S) token b applySync st2 = Some (Inr (), st') else st' = st2"
    by (auto split: prod.splits sum.splits bool.splits)
  from turn_rows [OF run wire b turn Suc.prems(2,3)] obtain rs a' where
      rs: "apply_all env applySync (map (wire_row fenv) rs) (pl_local st) = Some (pl_local st2)" "cursor_at a' (pl_afterCursor st2)"
          "cursor_text_ok (pl_afterCursor st) \<longrightarrow> cursor_text_ok (pl_afterCursor st2)"
        and result: "turn_result visible S n b a (pl_upToCursor st) ongoing (pl_upToCursor st2) a' rs" by blast
  have "fd_counter (S (2 * n + 1)) \<le> fd_counter (S (2 * (n + Suc fuel)))"
    using run_later [OF run, of "2 * n + 1" "2 * (n + Suc fuel)"] by (simp add: later_def)
  moreover have "a' \<le> max a (fd_counter (S (2 * n + 1)))" using result unfolding turn_result_def by blast
  ultimately have high: "a' \<le> max a (fd_counter (S (2 * (n + Suc fuel))))" by linarith
  have here: "stretch visible a a' rs" "\<forall>m \<ge> 2 * n + 1. covers visible a a' rs (S m)" "bounded (S (2 * n)) (pl_upToCursor st2)"
    using result unfolding turn_result_def by blast+
  show ?case
  proof (cases ongoing)
    case False
    with go have "st' = st2" by simp
    moreover have "r \<in> set rs" if "b \<le> 1000" "2 * (n + Suc fuel) \<le> m" "r \<in> set (fd_rows (S m))"
        "visible r \<and> a < sy_serverSequence r \<and> due (S (2 * n)) (pl_upToCursor st) r" for m r
    proof -
      have "2 * n + 1 \<le> m" using that(2) by simp
      with result False that(1,3,4) show ?thesis unfolding turn_result_def by blast
    qed
    ultimately show ?thesis using rs here(1,2) high by (intro exI [of _ rs] exI [of _ a']) simp
  next
    case True
    with go have go: "pull_loop env fuel (Suc n) (served fenv visible S) token b applySync st2 = Some (Inr (), st')" by simp
    have "bounded (S (2 * Suc n)) (pl_upToCursor st2)"
      using here(3) by (rule bounded_later) (rule run_later [OF run], simp)
    from Suc.IH [OF go rs(2) this] obtain xs c where
        xs: "apply_all env applySync (map (wire_row fenv) xs) (pl_local st2) = Some (pl_local st')"
          "cursor_at c (pl_afterCursor st')" "c \<le> max a' (fd_counter (S (2 * (Suc n + fuel))))" "stretch visible a' c xs" "cursor_text_ok (pl_afterCursor st2) \<longrightarrow> cursor_text_ok (pl_afterCursor st')"
          "\<forall>m \<ge> 2 * (Suc n + fuel). covers visible a' c xs (S m)"
        and rest: "b \<le> 1000 \<longrightarrow> (\<forall>m \<ge> 2 * (Suc n + fuel). \<forall>r \<in> set (fd_rows (S m)). visible r \<and> a' < sy_serverSequence r \<and>
          due (S (2 * Suc n)) (pl_upToCursor st2) r \<longrightarrow> r \<in> set xs)" by blast
    have "r \<in> set (rs @ xs)" if "b \<le> 1000" "2 * (n + Suc fuel) \<le> m" "r \<in> set (fd_rows (S m))"
        "visible r \<and> a < sy_serverSequence r \<and> due (S (2 * n)) (pl_upToCursor st) r" for m r
    proof (cases "sy_serverSequence r \<le> a'")
      case True
      have "2 * n + 1 \<le> m" using that(2) by simp
      with True here(2) that(3,4) show ?thesis by (auto simp: covers_def)
    next
      case False
      moreover have "due (S (2 * Suc n)) (pl_upToCursor st2) r"
        using result True that unfolding turn_result_def by blast
      ultimately show ?thesis using rest that by auto
    qed
    moreover have "covers visible a c (rs @ xs) (S m)" if "2 * (n + Suc fuel) \<le> m" for m
      using xs(6) here(2) that by (intro covers_append [where m = a']) simp_all
    moreover have "apply_all env applySync (map (wire_row fenv) (rs @ xs)) (pl_local st) = Some (pl_local st')"
      using apply_all_append [OF rs(1) xs(1)] by simp
    moreover have "c \<le> max a (fd_counter (S (2 * (n + Suc fuel))))" using xs(3) high by simp
    ultimately show ?thesis using xs(2,5) rs(3) stretch_append [OF here(1) xs(4)]
      by (intro exI [of _ "rs @ xs"] exI [of _ c]) blast
  qed
qed simp

subsection \<open>The loop ends\<close>

text \<open>How many rows a loop may still apply.\<close>

definition pending :: "(sync_row \<Rightarrow> bool) \<Rightarrow> int \<Rightarrow> sync_cursor option \<Rightarrow> feed_state \<Rightarrow> nat" where
  "pending visible a upTo s = card {r \<in> set (fd_rows s). visible r \<and> a < sy_serverSequence r \<and>
     (upTo \<noteq> None \<longrightarrow> sy_serverSequence r \<le> the (sc_serverSequence (the upTo)))}"

lemma turn_pending:
  assumes run: "feed_run fenv S" and result: "turn_result visible S n b a upTo True upTo' a' rs"
  shows "pending visible a' upTo' (S (2 * Suc n + 1)) + nat b \<le> pending visible a upTo (S (2 * n + 1))"
proof -
  let ?new = "{r \<in> set (fd_rows (S (2 * Suc n + 1))). visible r \<and> a' < sy_serverSequence r \<and>
     (upTo' \<noteq> None \<longrightarrow> sy_serverSequence r \<le> the (sc_serverSequence (the upTo')))}"
  let ?old = "{r \<in> set (fd_rows (S (2 * n + 1))). visible r \<and> a < sy_serverSequence r \<and>
     (upTo \<noteq> None \<longrightarrow> sy_serverSequence r \<le> the (sc_serverSequence (the upTo)))}"
  from result obtain w where w: "upTo' = Some w" "upTo \<noteq> None \<longrightarrow> upTo' = upTo" "b \<le> int (length rs)" "bounded (S (2 * n)) upTo'"
    unfolding turn_result_def by auto
  have rs: "stretch visible a a' rs" "\<forall>r \<in> set rs. r \<in> set (fd_rows (S (2 * n + 1))) \<and> (\<forall>s. due s upTo' r)"
    using result unfolding turn_result_def by blast+
  have "sorted_wrt (<) (map sy_serverSequence rs)" using rs(1) by (simp add: stretch_def sorted_wrt_map)
  then have "distinct rs" by (simp add: strict_sorted_iff distinct_map)
  have sub: "set rs \<subseteq> ?old"
    using rs w(1,2) by (auto simp: stretch_def due_def)
  have "the (sc_serverSequence w) \<le> fd_counter (S (2 * n + 1))"
    using bounded_Some [of "S (2 * n)" w] w(1,4) run_later [OF run, of "2 * n" "2 * n + 1"] by (simp add: later_def)
  then have "?new \<subseteq> ?old - set rs"
    using w(1,2) rs(1) old_row [OF run, of "2 * n + 1" "2 * Suc n + 1"] by (fastforce simp: stretch_def)
  then have "card ?new \<le> card (?old - set rs)" by (intro card_mono) simp_all
  moreover have "card (?old - set rs) = card ?old - length rs" "length rs \<le> card ?old"
    using card_Diff_subset [OF _ sub] card_mono [OF _ sub] distinct_card [OF \<open>distinct rs\<close>] by simp_all
  ultimately show ?thesis using w(3) unfolding pending_def by linarith
qed

lemma loop_ends:
  assumes run: "feed_run fenv S" and wire: "wire_ok fenv env" and b: "1 \<le> b" "b \<le> MAX_SAFE_INTEGER"
  shows "cursor_at a (pl_afterCursor st) \<Longrightarrow> bounded (S (2 * n)) (pl_upToCursor st) \<Longrightarrow>
    pending visible a (pl_upToCursor st) (S (2 * n + 1)) < fuel * nat b \<Longrightarrow>
    pull_loop env fuel n (served fenv visible S) token b applySync st \<noteq> None"
proof (induction fuel arbitrary: n st a)
  case (Suc fuel)
  show ?case
  proof (cases "pull_turn env (served fenv visible S n) token b applySync st")
    case (Pair res st2)
    show ?thesis
    proof (cases "res = Inr True")
      case False
      with Pair show ?thesis by (auto split: sum.split bool.split)
    next
      case True
      with Pair have turn: "pull_turn env (served fenv visible S n) token b applySync st = (Inr True, st2)" by simp
      from turn_rows [OF run wire b turn Suc.prems(1,2)] obtain rs a' where
          rs: "cursor_at a' (pl_afterCursor st2)" "turn_result visible S n b a (pl_upToCursor st) True (pl_upToCursor st2) a' rs" by blast
      have "bounded (S (2 * n)) (pl_upToCursor st2)" using rs(2) unfolding turn_result_def by blast
      then have "bounded (S (2 * Suc n)) (pl_upToCursor st2)"
        by (rule bounded_later) (rule run_later [OF run], simp)
      moreover have "pending visible a' (pl_upToCursor st2) (S (2 * Suc n + 1)) < fuel * nat b"
        using turn_pending [OF run rs(2)] Suc.prems(3) by simp
      ultimately show ?thesis using Suc.IH [OF rs(1)] by (simp add: turn)
    qed
  qed
qed simp

subsection \<open>A pull with a saved cursor\<close>

text \<open>JSON text that reads back as the cursor it was written from.\<close>

definition cursor_json_ok :: "pull_env \<Rightarrow> bool" where
  "cursor_json_ok env \<longleftrightarrow> (\<forall>c. json_stringify (pe_host env) (cursor_object (Some c)) \<noteq> [] \<and>
     json_parse (pe_host env) (json_stringify (pe_host env) (cursor_object (Some c))) = Some (cursor_object (Some c)))"

text \<open>The cursor kept by the client stands for the rows up to a sequence.\<close>

definition saved_at :: "pull_env \<Rightarrow> int \<Rightarrow> string option \<Rightarrow> bool" where
  "saved_at env a option \<longleftrightarrow> (\<exists>c. option = saveSyncCursor env c None \<and> cursor_at a c \<and> cursor_text_ok c)"

lemma saved_cursor_loaded:
  assumes "wire_ok fenv env" "cursor_json_ok env" "cursor_text_ok c"
  shows "syncCursorFromPayload env (loadSyncCursor (saveSyncCursor env c None)) = Inr c"
proof (cases c)
  case None
  then show ?thesis by (simp add: saveSyncCursor_def loadSyncCursor_def syncCursorFromPayload_def)
next
  case (Some d)
  let ?t = "json_stringify (pe_host env) (cursor_object c)"
  have t: "?t \<noteq> []" "json_parse (pe_host env) ?t = Some (cursor_object c)"
    using assms(2) by (simp_all add: cursor_json_ok_def Some)
  obtain k where "length ?t = Suc k" using t(1) by (cases ?t) simp_all
  have "cursor_from env k (cursor_object c) = syncCursorFromPayload env (cursor_object c)"
    by (simp add: syncCursorFromPayload_def Some cursor_object_def)
  with cursor_object_parsed [OF assms(1,3)] have "cursor_from env k (cursor_object c) = Inr c" by simp
  with t \<open>length ?t = Suc k\<close> show ?thesis
    by (simp add: saveSyncCursor_def loadSyncCursor_def syncCursorFromPayload_def Some)
qed

lemma normalized_batch: "1 \<le> normalizedBatchSize batch"
  by (auto simp: normalizedBatchSize_def split: jsval.splits jsnum.splits)

text \<open>What a pull runs on: the server's states, and a batch size that is a safe integer.\<close>

definition pull_setting :: "feed_env \<Rightarrow> pull_env \<Rightarrow> (nat \<Rightarrow> feed_state) \<Rightarrow> jsval \<Rightarrow> bool" where
  "pull_setting fenv env S batch \<longleftrightarrow> feed_run fenv S \<and> wire_ok fenv env \<and> cursor_json_ok env \<and>
     normalizedBatchSize batch \<le> MAX_SAFE_INTEGER"

end
