(* ===== verification/Sync_Pull_Example.thy ===== *)
theory Sync_Pull_Example
  imports Sync_Pull_Rows
begin

text \<open>
  A small feed for the examples of the pull claims, with a concrete text form of cursors: the id and
  the sequence are written with their lengths in unary, the date follows.
\<close>

definition unary :: "nat \<Rightarrow> string" where
  "unary n = replicate n CHR ''1'' @ '';''"

definition read_unary :: "string \<Rightarrow> nat \<times> string" where
  "read_unary s = (length (takeWhile (\<lambda>c. c = CHR ''1'') s), drop 1 (dropWhile (\<lambda>c. c = CHR ''1'') s))"

lemma read_unary [simp]: "read_unary (unary n @ s) = (n, s)"
  by (induction n) (auto simp: read_unary_def unary_def)

fun write_part :: "jsval \<Rightarrow> string" where
  "write_part (JStr s) = ''s'' @ unary (length s) @ s"
| "write_part (JNum (Fin q)) = (if 0 \<le> q then ''p'' else ''m'') @ unary (nat \<lfloor>abs q\<rfloor>)"
| "write_part v = ''n''"

definition read_part :: "string \<Rightarrow> jsval \<times> string" where
  "read_part s =
     (let (n, rest) = read_unary (tl s) in
      if take 1 s = ''s'' then (JStr (take n rest), drop n rest)
      else if take 1 s = ''p'' then (JInt (int n), rest)
      else if take 1 s = ''m'' then (JInt (- int n), rest)
      else (JNull, tl s))"

lemma read_part_text [simp]: "read_part (write_part (JStr t) @ s) = (JStr t, s)"
  by (simp add: read_part_def)

lemma read_part_int [simp]: "read_part (write_part (JInt n) @ s) = (JInt n, s)"
  by (simp add: read_part_def)

lemma read_part_null [simp]: "read_part (write_part JNull @ s) = (JNull, s)"
  by (simp add: read_part_def split: prod.split)

declare write_part.simps [simp del]

definition demo_cursor_text :: "jsval \<Rightarrow> string" where
  "demo_cursor_text v = ''c'' @ write_part (obj_get v ''id'') @ write_part (obj_get v ''serverSequence'') @ text_of (obj_get v ''updatedAt'')"

definition demo_cursor_parse :: "string \<Rightarrow> jsval option" where
  "demo_cursor_parse s =
     (if take 1 s = ''c'' then
        (let (i, s1) = read_part (tl s); (n, s2) = read_part s1
         in Some (JObj [(''id'', i), (''serverSequence'', n), (''updatedAt'', JStr s2)]))
      else None)"

lemma demo_cursor_round_trip: "demo_cursor_parse (demo_cursor_text (cursor_object (Some c))) = Some (cursor_object (Some c))"
proof -
  have "demo_cursor_text (cursor_object (Some c)) = ''c'' @ write_part (case sc_id c of None \<Rightarrow> JNull | Some i \<Rightarrow> JStr i) @
      write_part (case sc_serverSequence c of None \<Rightarrow> JNull | Some n \<Rightarrow> JInt n) @ sc_updatedAt c"
    unfolding demo_cursor_text_def cursor_object_fields by simp
  then show ?thesis
    by (cases "sc_id c"; cases "sc_serverSequence c") (simp_all add: demo_cursor_parse_def cursor_object_def)
qed

definition demo_pull_host :: host where
  "demo_pull_host = \<lparr>json_stringify = demo_cursor_text, json_parse = demo_cursor_parse, sha256_hex = id\<rparr>"

definition demo_pull_env :: pull_env where
  "demo_pull_env = \<lparr>pe_host = demo_pull_host,
     optional_integer = (\<lambda>v. case v of JNum (Fin q) \<Rightarrow> Some (Some \<lfloor>q\<rfloor>) | JNull \<Rightarrow> Some None | JUndef \<Rightarrow> Some None | _ \<Rightarrow> None),
     string_of = (\<lambda>_. [])\<rparr>"

definition demo_feed_env :: feed_env where
  "demo_feed_env = \<lparr>fe_transport = \<lparr>iso_string = (\<lambda>t. ''day '' @ unary (nat t)), date_parse = (\<lambda>_. None), zone_known = (\<lambda>_. False),
       zone_format = (\<lambda>s t. s), model_of = (\<lambda>_. undefined), hydrate = (\<lambda>_. None)\<rparr>,
     fe_host = demo_pull_host, date_gt = (\<lambda>_ _. False), date_eq = (\<lambda>_ _. False), date_ge = (\<lambda>_ _. False),
     id_gt = (\<lambda>_ _. False), name_le = (\<le>), object_number = (\<lambda>_. NaN)\<rparr>"

definition demo_row :: "string \<Rightarrow> int \<Rightarrow> sync_row" where
  "demo_row i n = \<lparr>sy_id = i, sy_serverSequence = n, sy_updatedAt = n, sy_resourceId = JStr i, sy_resourceType = JStr ''Task'',
     sy_syncType = JStr ''update'', sy_data = JObj [(''name'', JStr i)], sy_scope = []\<rparr>"

definition demo_feed :: feed_state where
  "demo_feed = \<lparr>fd_rows = [demo_row ''b'' 2, demo_row ''a'' 1, demo_row ''c'' 5], fd_counter = 6\<rparr>"

definition demo_applier :: "jsval list applier" where
  "demo_applier sync local = (Inr \<lparr>ar_changed = True, ar_resourceType = None\<rparr>, local @ [sync])"

lemma demo_wire: "wire_ok demo_feed_env demo_pull_env"
  by (simp add: wire_ok_def demo_feed_env_def demo_pull_env_def)

lemma demo_json: "cursor_json_ok demo_pull_env"
  using demo_cursor_round_trip
  by (simp add: cursor_json_ok_def demo_pull_env_def demo_pull_host_def demo_cursor_text_def)

lemma demo_run: "feed_run demo_feed_env (\<lambda>_. demo_feed)"
proof -
  have "is_ok (defaultSerializeRecord demo_feed_env (demo_row i n))" for i n
    by (simp add: defaultSerializeRecord_def recordData_def demo_row_def omitted_def decodeReplayPersistedData_def Let_def
        obj_get_def METADATA_KEY_def)
  then show ?thesis
    by (simp add: feed_run_def feed_ok_def rows_ok_def demo_feed_def demo_row_def MAX_SAFE_INTEGER_def)
qed

lemma demo_setting: "pull_setting demo_feed_env demo_pull_env (\<lambda>_. demo_feed) (JInt 2)"
  using demo_run demo_wire demo_json by (simp add: pull_setting_def normalizedBatchSize_def MAX_SAFE_INTEGER_def)

lemma demo_saved: "saved_at demo_pull_env 0 None"
  unfolding saved_at_def by (intro exI [of _ None]) (simp add: saveSyncCursor_def cursor_at_def cursor_text_ok_def)

lemma demo_pending: "pending (\<lambda>_. True) 0 None demo_feed = 3"
proof -
  have "{r \<in> set (fd_rows demo_feed). (0 :: int) < sy_serverSequence r} = set (fd_rows demo_feed)"
    by (auto simp: demo_feed_def demo_row_def)
  moreover have "card (set (fd_rows demo_feed)) = 3" by (simp add: demo_feed_def demo_row_def)
  ultimately show ?thesis by (simp add: pending_def)
qed

end
