(* ===== verification/Sync_Pull_Claims.thy ===== *)
theory Sync_Pull_Claims
  imports Sync_Pull_Example
begin







subsection \<open>Pulls, failed pulls and writes in any order\<close>



















end
