(* ===== verification/Sync_Apply_Claims.thy ===== *)
theory Sync_Apply_Claims
  imports Sync_Pull_Example
begin

text \<open>
  Applying pulled rows to the local store. The client saves its cursor only after the last page, so the
  rows of a pull that failed are delivered again; the claim is that this changes nothing.
\<close>

subsection \<open>Assigning attributes\<close>

abbreviation assign :: "attributes \<Rightarrow> attributes \<Rightarrow> attributes" where
  "assign \<equiv> foldl (\<lambda>fs (k, v). obj_set fs k v)"

lemma set_insert_index: "set (insert_index i p fs) = insert p (set fs)"
  using arg_cong [OF mset_insert_index [of i p fs], of set_mset] by simp

lemma obj_set_present:
  "k \<noteq> ''__proto__'' \<Longrightarrow> k \<in> fst ` set fs \<Longrightarrow> obj_set fs k v = map (\<lambda>(k', v'). (k', if k' = k then v else v')) fs"
  by (auto simp: obj_set_def)

lemma obj_set_entries:
  assumes "k \<noteq> ''__proto__''"
  shows "(k', v') \<in> set (obj_set fs k v) \<Longrightarrow> if k' = k then v' = v else (k', v') \<in> set fs"
    and "fst ` set (obj_set fs k v) = insert k (fst ` set fs)"
proof -
  show "if k' = k then v' = v else (k', v') \<in> set fs" if "(k', v') \<in> set (obj_set fs k v)"
  proof (cases "k \<in> fst ` set fs")
    case True
    with that show ?thesis unfolding obj_set_present [OF assms True] by (auto split: if_splits)
  next
    case False
    with that assms show ?thesis
      by (force simp: obj_set_def set_insert_index image_iff split: option.splits)
  qed
  show "fst ` set (obj_set fs k v) = insert k (fst ` set fs)"
  proof (cases "k \<in> fst ` set fs")
    case True
    have "map fst (obj_set fs k v) = map fst fs"
      unfolding obj_set_present [OF assms True] by (simp add: case_prod_unfold comp_def)
    then have "fst ` set (obj_set fs k v) = fst ` set fs" by (metis list.set_map)
    with True show ?thesis by blast
  next
    case False
    with assms show ?thesis by (auto simp: obj_set_def set_insert_index split: option.split)
  qed
qed

lemma assign_keys: "''__proto__'' \<notin> fst ` set ps \<Longrightarrow> fst ` set (assign fs ps) = fst ` set fs \<union> fst ` set ps"
proof (induction ps arbitrary: fs)
  case (Cons p ps)
  obtain k v where p: "p = (k, v)" by (cases p)
  with Cons obj_set_entries(2) [of k fs v] show ?case by (auto simp: p)
qed simp

lemma assign_last:
  "''__proto__'' \<notin> fst ` set ps \<Longrightarrow> (k, v) \<in> set (assign fs ps) \<Longrightarrow> map_of (rev ps) k = Some w \<Longrightarrow> v = w"
proof (induction ps rule: rev_induct)
  case (snoc p ps)
  obtain a b where p: "p = (a, b)" by (cases p)
  with snoc.prems have "(k, v) \<in> set (obj_set (assign fs ps) a b)" "a \<noteq> ''__proto__''" by auto
  from obj_set_entries(1) [OF this(2,1)] snoc p show ?case by (auto split: if_splits)
qed simp

lemma assign_present:
  "''__proto__'' \<notin> fst ` set ps \<Longrightarrow> fst ` set ps \<subseteq> fst ` set fs \<Longrightarrow>
     assign fs ps = map (\<lambda>(k, v). (k, case map_of (rev ps) k of None \<Rightarrow> v | Some w \<Rightarrow> w)) fs"
proof (induction ps rule: rev_induct)
  case Nil
  show ?case by (simp add: case_prod_unfold)
next
  case (snoc p ps)
  obtain a b where p: "p = (a, b)" by (cases p)
  with snoc have keys: "a \<noteq> ''__proto__''" "a \<in> fst ` set (assign fs ps)"
    using assign_keys [of ps fs] by auto
  have "assign fs (ps @ [p]) = map (\<lambda>(k, v). (k, if k = a then b else v)) (assign fs ps)"
    using obj_set_present [OF keys] by (simp add: p)
  also have "assign fs ps = map (\<lambda>(k, v). (k, case map_of (rev ps) k of None \<Rightarrow> v | Some w \<Rightarrow> w)) fs"
    using snoc by simp
  finally show ?case by (auto simp: p split: option.split)
qed

lemma assign_again: "''__proto__'' \<notin> fst ` set ps \<Longrightarrow> assign (assign fs ps) ps = assign fs ps"
proof -
  assume ps: "''__proto__'' \<notin> fst ` set ps"
  then have "assign (assign fs ps) ps = map (\<lambda>(k, v). (k, case map_of (rev ps) k of None \<Rightarrow> v | Some w \<Rightarrow> w)) (assign fs ps)"
    by (intro assign_present) (simp_all add: assign_keys)
  also have "\<dots> = map (\<lambda>x. x) (assign fs ps)"
    using assign_last [OF ps] by (intro map_cong refl) (auto split: option.split intro: sym)
  finally show ?thesis by simp
qed

subsection \<open>What rows do to one record\<close>

text \<open>\<open>None\<close> removes the record, \<open>Some\<close> assigns attributes to it or to a new one.\<close>

fun run_effects :: "jsval \<Rightarrow> attributes option list \<Rightarrow> attributes option \<Rightarrow> attributes option" where
  "run_effects i [] r = r"
| "run_effects i (None # es) r = run_effects i es None"
| "run_effects i (Some as # es) r = run_effects i es (Some (assign (case r of None \<Rightarrow> [(''id'', i)] | Some fs \<Rightarrow> fs) as))"

lemma run_effects_append: "run_effects i (es @ es') r = run_effects i es' (run_effects i es r)"
  by (induction i es r rule: run_effects.induct) simp_all

lemma run_effects_removed: "None \<in> set es \<Longrightarrow> run_effects i es r = run_effects i es r'"
  by (induction i es r arbitrary: r' rule: run_effects.induct) auto

lemma run_effects_assign:
  "None \<notin> set es \<Longrightarrow> es \<noteq> [] \<Longrightarrow>
     run_effects i es r = Some (assign (case r of None \<Rightarrow> [(''id'', i)] | Some fs \<Rightarrow> fs) (concat (map the es)))"
proof (induction i es r rule: run_effects.induct)
  case (3 i as es r)
  then show ?case by (cases "es = []") simp_all
qed simp_all

lemma run_effects_again:
  assumes "\<And>as. Some as \<in> set es \<Longrightarrow> ''__proto__'' \<notin> fst ` set as"
  shows "run_effects i (es @ es') (run_effects i es r) = run_effects i (es @ es') r"
proof (cases "None \<in> set es")
  case True
  then show ?thesis by (intro run_effects_removed) simp
next
  case False
  show ?thesis
  proof (cases "es = []")
    case False
    have "''__proto__'' \<notin> fst ` set (concat (map the es))"
    proof
      assume "''__proto__'' \<in> fst ` set (concat (map the es))"
      then obtain e where "e \<in> set es" "''__proto__'' \<in> fst ` set (the e)" by auto
      with assms \<open>None \<notin> set es\<close> show False by (cases e) auto
    qed
    from assign_again [OF this] False \<open>None \<notin> set es\<close> have "run_effects i es (run_effects i es r) = run_effects i es r"
      by (simp add: run_effects_assign)
    then show ?thesis by (simp add: run_effects_append)
  qed simp
qed

subsection \<open>What a row does to the store\<close>

text \<open>
  A resource without hooks of its own: the attributes come from the row, and saving adds nothing. The id
  is not among the assigned attributes.
\<close>

definition plain_policy :: "resource_policy \<Rightarrow> bool" where
  "plain_policy p \<longleftrightarrow> rp_findRecord p = None \<and> rp_findRecordForDelete p = None \<and> rp_afterApply p = None \<and> rp_save p = Inr \<and>
     (\<forall>data rec sync. rp_attributes p data rec sync = rp_attributes p data [] sync) \<and>
     (\<forall>data rec sync as. rp_attributes p data rec sync = Inr as \<longrightarrow> ''id'' \<notin> fst ` set as \<and> ''__proto__'' \<notin> fst ` set as)"

definition plain_resources :: "(string \<Rightarrow> resource_policy option) \<Rightarrow> bool" where
  "plain_resources resources \<longleftrightarrow> (\<forall>t p. resources t = Some p \<longrightarrow> plain_policy p)"

definition store_ok :: "local_store \<Rightarrow> bool" where
  "store_ok store \<longleftrightarrow> (\<forall>model i fs. store model i = Some fs \<longrightarrow> record_id fs = i)"

definition upsert_effect :: "pull_env \<Rightarrow> resource_policy \<Rightarrow> jsval \<Rightarrow> pull_error + (string \<times> jsval \<times> attributes option) option" where
  "upsert_effect env p sync = bindE (syncData env sync) (\<lambda>data. bindE (rp_attributes p data [] sync) (\<lambda>as.
     Inr (Some (rp_model p, if obj_get data ''id'' = JUndef \<or> obj_get data ''id'' = JNull then obj_get sync ''resourceId''
       else obj_get data ''id'', Some as))))"

definition row_effect :: "pull_env \<Rightarrow> (string \<Rightarrow> resource_policy option) \<Rightarrow> jsval \<Rightarrow>
    pull_error + (string \<times> jsval \<times> attributes option) option" where
  "row_effect env resources sync =
     (case (case env_resourceType env sync of None \<Rightarrow> None | Some t \<Rightarrow> if t = [] then None else resources t) of
        None \<Rightarrow> Inr None
      | Some p \<Rightarrow>
          if \<not> rp_enabled p then Inr None
          else if env_syncType env sync = ''delete'' then Inr (Some (rp_model p, obj_get sync ''resourceId'', None))
          else upsert_effect env p sync)"

fun apply_effect :: "local_store \<Rightarrow> string \<times> jsval \<times> attributes option \<Rightarrow> local_store" where
  "apply_effect store (model, i, e) = store(model := (store model)(i := run_effects i [e] (store model i)))"

definition effect_on :: "local_store \<Rightarrow> pull_error + (string \<times> jsval \<times> attributes option) option \<Rightarrow> local_store" where
  "effect_on store e = (case e of Inr (Some x) \<Rightarrow> apply_effect store x | _ \<Rightarrow> store)"

lemma assign_record_id: "''id'' \<notin> fst ` set as \<Longrightarrow> record_id (assign fs as) = record_id fs"
proof (induction as arbitrary: fs)
  case (Cons p as)
  obtain k v where p: "p = (k, v)" by (cases p)
  with Cons.prems have "record_id (obj_set fs k v) = record_id fs" by (auto simp: record_id_def obj_get_obj_set_other)
  with Cons p show ?case by simp
qed simp

lemma upserted_row:
  assumes "plain_policy p" "store_ok store"
  shows "\<exists>res. upsertSyncedResource env p sync store = (res, effect_on store (upsert_effect env p sync)) \<and>
    (is_ok res \<longleftrightarrow> is_ok (upsert_effect env p sync))"
proof (cases "syncData env sync")
  case (Inl e)
  then show ?thesis by (simp add: upsertSyncedResource_def upsert_effect_def effect_on_def)
next
  case (Inr data)
  have policy: "rp_findRecord p = None" "rp_afterApply p = None" "rp_save p = Inr"
      "rp_attributes p data rec sync = rp_attributes p data [] sync" for rec
    using assms(1) unfolding plain_policy_def by blast+
  define i where "i = (if obj_get data ''id'' = JUndef \<or> obj_get data ''id'' = JNull then obj_get sync ''resourceId'' else obj_get data ''id'')"
  define old where "old = find_or_initialize (rp_model p) i store"
  have up: "upsertSyncedResource env p sync store = (case rp_attributes p data [] sync of
      Inl e \<Rightarrow> (Inl e, store)
    | Inr as \<Rightarrow> (case save_synced p old as store of (Inl e, store1) \<Rightarrow> (Inl e, store1) | (Inr (changed, rec), store1) \<Rightarrow> (Inr changed, store1)))"
    unfolding upsertSyncedResource_def Inr sum.case Let_def policy(1,2) option.case i_def [symmetric] old_def [symmetric] policy(4) [of "fst old"] ..
  show ?thesis
  proof (cases "rp_attributes p data [] sync")
    case (Inl e)
    then show ?thesis unfolding up upsert_effect_def Inr bindE_Inr by (simp add: effect_on_def)
  next
    case as: (Inr as)
    then have keys: "''id'' \<notin> fst ` set as"
      using assms(1) [unfolded plain_policy_def, THEN conjunct2, THEN conjunct2, THEN conjunct2, THEN conjunct2, THEN conjunct2] by blast
    have old: "fst old = (case store (rp_model p) i of None \<Rightarrow> [(''id'', i)] | Some fs \<Rightarrow> fs)" "record_id (fst old) = i"
        "\<not> snd old \<Longrightarrow> store (rp_model p) i = Some (fst old)"
    proof -
      show "fst old = (case store (rp_model p) i of None \<Rightarrow> [(''id'', i)] | Some fs \<Rightarrow> fs)"
        by (cases "store (rp_model p) i") (simp_all add: old_def find_or_initialize_def)
      show "record_id (fst old) = i" using assms(2)
        by (cases "store (rp_model p) i") (simp_all add: old_def find_or_initialize_def store_ok_def record_id_def obj_get_def)
      show "\<not> snd old \<Longrightarrow> store (rp_model p) i = Some (fst old)"
        by (cases "store (rp_model p) i") (simp_all add: old_def find_or_initialize_def)
    qed
    let ?new = "assign (fst old) as"
    have "record_id ?new = i" using assign_record_id [OF keys, of "fst old"] old(2) by simp
    have "\<exists>changed rec. save_synced p old as store = (Inr (changed, rec), store(rp_model p := (store (rp_model p))(i := Some ?new)))"
    proof (cases "snd old \<or> ?new \<noteq> fst old")
      case True
      then show ?thesis
        unfolding save_synced_def case_prod_beta Let_def policy(3) sum.case put_record_def old(2) \<open>record_id ?new = i\<close>
        by (intro exI [of _ True] exI [of _ ?new]) (simp add: case_prod_unfold)
    next
      case False
      with old(3) have "store(rp_model p := (store (rp_model p))(i := Some ?new)) = store" by (simp add: fun_upd_idem)
      with False show ?thesis unfolding save_synced_def case_prod_beta Let_def
        by (intro exI [of _ False] exI [of _ "fst old"]) (simp add: case_prod_unfold)
    qed
    then obtain changed rec where step: "save_synced p old as store = (Inr (changed, rec), store(rp_model p := (store (rp_model p))(i := Some ?new)))"
      by blast
    then show ?thesis
      unfolding up upsert_effect_def Inr bindE_Inr as sum.case i_def [symmetric] by (simp add: effect_on_def old(1))
  qed
qed

lemma applied_row:
  assumes "plain_resources resources" "store_ok store"
  shows "\<exists>res. applyResourceSync env resources sync store = (res, effect_on store (row_effect env resources sync)) \<and>
    (is_ok res \<longleftrightarrow> is_ok (row_effect env resources sync))"
proof (cases "case env_resourceType env sync of None \<Rightarrow> None | Some t \<Rightarrow> if t = [] then None else resources t")
  case None
  then show ?thesis unfolding applyResourceSync_def row_effect_def Let_def None by (simp add: effect_on_def)
next
  case (Some p)
  then have p: "plain_policy p" using assms(1) by (auto simp: plain_resources_def split: option.splits if_splits)
  then have find: "rp_findRecordForDelete p = None" unfolding plain_policy_def by blast
  show ?thesis
  proof (cases "rp_enabled p")
    case False
    then show ?thesis unfolding applyResourceSync_def row_effect_def Let_def Some by (simp add: effect_on_def)
  next
    case enabled: True
    show ?thesis
    proof (cases "env_syncType env sync = ''delete''")
      case True
      with enabled show ?thesis
        unfolding applyResourceSync_def row_effect_def Let_def Some destroySyncedResource_def
        by (auto simp: find effect_on_def fun_upd_idem split: option.split)
    next
      case False
      from upserted_row [OF p assms(2), of env sync] obtain res store' where
          up: "upsertSyncedResource env p sync store = (res, store')" "store' = effect_on store (row_effect env resources sync)"
            "is_ok res \<longleftrightarrow> is_ok (row_effect env resources sync)"
        unfolding row_effect_def Some using enabled False by auto
      with enabled False show ?thesis
        unfolding applyResourceSync_def Let_def Some by (cases res) simp_all
    qed
  qed
qed

lemma row_effect_keys:
  assumes "plain_resources resources" "row_effect env resources sync = Inr (Some (model, i, Some as))"
  shows "''id'' \<notin> fst ` set as" "''__proto__'' \<notin> fst ` set as"
proof -
  from assms(2) obtain t p where p: "resources t = Some p"
      and "upsert_effect env p sync = Inr (Some (model, i, Some as))"
    by (auto simp: row_effect_def split: option.splits if_splits)
  then obtain data where "rp_attributes p data [] sync = Inr as"
    by (auto simp: upsert_effect_def bindE_eq_Inr)
  moreover have "plain_policy p" using assms(1) p by (simp add: plain_resources_def)
  ultimately show "''id'' \<notin> fst ` set as" "''__proto__'' \<notin> fst ` set as"
    unfolding plain_policy_def by blast+
qed

lemma store_ok_effect:
  assumes "plain_resources resources" "store_ok store"
  shows "store_ok (effect_on store (row_effect env resources sync))"
proof (cases "row_effect env resources sync")
  case (Inr x)
  show ?thesis
  proof (cases x)
    case (Some y)
    obtain model i e where y: "y = (model, i, e)" by (cases y)
    have new: "record_id fs = i" if fs: "run_effects i [e] (store model i) = Some fs" for fs
    proof (cases e)
      case None
      with fs show ?thesis by simp
    next
      case as: (Some as)
      have "record_id (case store model i of None \<Rightarrow> [(''id'', i)] | Some fs \<Rightarrow> fs) = i"
        using assms(2) by (cases "store model i") (simp_all add: store_ok_def record_id_def obj_get_def)
      moreover have "''id'' \<notin> fst ` set as"
        using assms(1) by (rule row_effect_keys(1)) (use Inr Some y as in simp)
      moreover have "fs = assign (case store model i of None \<Rightarrow> [(''id'', i)] | Some fs \<Rightarrow> fs) as" using fs as by simp
      ultimately show ?thesis using assign_record_id by metis
    qed
    show ?thesis
      unfolding store_ok_def
    proof (intro allI impI)
      fix m j fs
      assume "effect_on store (row_effect env resources sync) m j = Some fs"
      with new assms(2) show "record_id fs = j"
        by (cases "m = model \<and> j = i") (auto simp: effect_on_def Inr Some y store_ok_def simp del: run_effects.simps split: if_splits)
    qed
  qed (use assms(2) Inr in \<open>simp add: effect_on_def\<close>)
qed (use assms(2) in \<open>simp add: effect_on_def\<close>)

text \<open>The rows of a list that concern one record, and what they do.\<close>

definition effects_on :: "pull_env \<Rightarrow> (string \<Rightarrow> resource_policy option) \<Rightarrow> string \<Rightarrow> jsval \<Rightarrow> jsval list \<Rightarrow> attributes option list" where
  "effects_on env resources model i syncs = concat (map (\<lambda>sync. case row_effect env resources sync of
     Inr (Some (m, j, e)) \<Rightarrow> if m = model \<and> j = i then [e] else [] | _ \<Rightarrow> []) syncs)"

lemma effect_on_record:
  "effect_on store (row_effect env resources sync) model i = run_effects i (effects_on env resources model i [sync]) (store model i)"
  by (auto simp: effect_on_def effects_on_def split: sum.split option.split prod.split)

lemma applied_rows:
  assumes "plain_resources resources"
  shows "store_ok store \<Longrightarrow> apply_page env (applyResourceSync env resources) syncs (r, store) = (res, store') \<Longrightarrow>
    (is_ok res \<longleftrightarrow> (\<forall>sync \<in> set syncs. is_ok (row_effect env resources sync))) \<and>
    (is_ok res \<longrightarrow> store_ok store' \<and> (\<forall>model i. store' model i = run_effects i (effects_on env resources model i syncs) (store model i)))"
proof (induction syncs arbitrary: r store)
  case Nil
  then show ?case by (auto simp: effects_on_def)
next
  case (Cons sync syncs)
  from applied_row [OF assms Cons.prems(1), of env sync] obtain res1 where
      row: "applyResourceSync env resources sync store = (res1, effect_on store (row_effect env resources sync))"
        "is_ok res1 \<longleftrightarrow> is_ok (row_effect env resources sync)" by blast
  have split: "run_effects i (effects_on env resources model i (sync # syncs)) (store model i) =
      run_effects i (effects_on env resources model i syncs) (effect_on store (row_effect env resources sync) model i)" for model i
    unfolding effect_on_record by (simp add: effects_on_def run_effects_append)
  show ?case
  proof (cases res1)
    case (Inl e)
    with row Cons.prems(2) show ?thesis by auto
  next
    case (Inr x)
    with row Cons.prems(2) have "apply_page env (applyResourceSync env resources) syncs
        (count_sync env sync x r, effect_on store (row_effect env resources sync)) = (res, store')" by simp
    note rest = Cons.IH [OF store_ok_effect [OF assms Cons.prems(1)] this]
    have "is_ok (row_effect env resources sync)" using row(2) Inr by simp
    with rest show ?thesis unfolding split list.set by blast
  qed
qed

text \<open>
  Rows may be delivered twice. A pull that fails keeps the rows it has applied and its old cursor,
  so the next pull applies them again; for resources whose attributes come from the row alone, the store
  is then the one that a pull without the failure leaves, deletions and later changes of the same record
  included.
\<close>

lemma redelivery_harmless:
  assumes "plain_resources resources" "store_ok store"
    and "apply_all env (applyResourceSync env resources) before store = Some interrupted"
    and "apply_all env (applyResourceSync env resources) (before @ rest) store = Some direct"
  shows "apply_all env (applyResourceSync env resources) (before @ rest) interrupted = Some direct"
proof -
  let ?A = "applyResourceSync env resources"
  have page: "\<exists>r. apply_page env ?A syncs (new_pull_result, s) = (Inr r, s')" if "apply_all env ?A syncs s = Some s'" for syncs s s'
    using that by (auto simp: apply_all_def split: prod.splits sum.splits)
  from page [OF assms(3)] applied_rows [OF assms(1,2), of env before] have
      interrupted: "store_ok interrupted" "\<And>model i. interrupted model i = run_effects i (effects_on env resources model i before) (store model i)"
    by fastforce+
  from page [OF assms(4)] applied_rows [OF assms(1,2), of env "before @ rest"] have
      direct: "\<forall>sync \<in> set (before @ rest). is_ok (row_effect env resources sync)"
        "\<And>model i. direct model i = run_effects i (effects_on env resources model i (before @ rest)) (store model i)"
    by fastforce+
  obtain res again where again: "apply_page env ?A (before @ rest) (new_pull_result, interrupted) = (res, again)" by fastforce
  note rows = applied_rows [OF assms(1) interrupted(1) again]
  have "again model i = direct model i" for model i
  proof -
    have "''__proto__'' \<notin> fst ` set as" if "Some as \<in> set (effects_on env resources model i before)" for as
    proof -
      from that obtain sync where "row_effect env resources sync = Inr (Some (model, i, Some as))"
        by (fastforce simp: effects_on_def split: sum.splits option.splits if_splits)
      with assms(1) show ?thesis by (rule row_effect_keys(2))
    qed
    note same = run_effects_again [OF this, where i = i and es' = "effects_on env resources model i rest"]
    have "effects_on env resources model i (before @ rest) = effects_on env resources model i before @ effects_on env resources model i rest"
      by (simp add: effects_on_def)
    moreover have "again model i = run_effects i (effects_on env resources model i (before @ rest)) (interrupted model i)"
      using rows direct(1) by blast
    ultimately show ?thesis unfolding interrupted(2) direct(2) same by (simp only: same)
  qed
  then have "again = direct" by blast
  moreover have "is_ok res" using rows direct(1) by blast
  ultimately show ?thesis using again by (auto simp: apply_all_def elim!: is_okE)
qed

text \<open>An example: a task is renamed, removed and made again; the first two rows are delivered twice.\<close>

definition demo_task :: resource_policy where
  "demo_task = \<lparr>rp_enabled = True, rp_model = ''Task'', rp_findRecord = None, rp_findRecordForDelete = None,
     rp_attributes = (\<lambda>data rec sync. Inr [(''name'', obj_get data ''name'')]), rp_save = Inr, rp_afterApply = None\<rparr>"

definition demo_change :: "string \<Rightarrow> string \<Rightarrow> jsval" where
  "demo_change kind name = JObj [(''resourceType'', JStr ''Task''), (''resourceId'', JInt 1), (''syncType'', JStr kind),
     (''data'', JObj [(''name'', JStr name)])]"

definition demo_changes :: "jsval list" where
  "demo_changes = [demo_change ''update'' ''a'', demo_change ''delete'' ''a'']"

definition demo_apply :: "jsval list \<Rightarrow> local_store \<Rightarrow> local_store option" where
  "demo_apply = apply_all demo_pull_env (applyResourceSync demo_pull_env [''Task'' \<mapsto> demo_task])"

lemma redelivery_harmless_example:
  "\<exists>direct. demo_apply (demo_changes @ [demo_change ''update'' ''b'']) (the (demo_apply demo_changes (\<lambda>_ _. None))) = Some direct \<and>
    direct ''Task'' (JInt 1) = Some [(''id'', JInt 1), (''name'', JStr ''b'')]"
proof -
  have "plain_resources [''Task'' \<mapsto> demo_task]"
    by (auto simp: plain_resources_def plain_policy_def demo_task_def split: if_splits)
  moreover have "store_ok (\<lambda>_ _. None)" by (simp add: store_ok_def)
  moreover have "demo_apply demo_changes (\<lambda>_ _. None) \<noteq> None" by code_simp
  then obtain interrupted where interrupted: "demo_apply demo_changes (\<lambda>_ _. None) = Some interrupted" by blast
  moreover have "demo_apply (demo_changes @ [demo_change ''update'' ''b'']) (\<lambda>_ _. None) \<noteq> None" by code_simp
  then obtain direct where direct: "demo_apply (demo_changes @ [demo_change ''update'' ''b'']) (\<lambda>_ _. None) = Some direct" by blast
  ultimately have "demo_apply (demo_changes @ [demo_change ''update'' ''b'']) interrupted = Some direct"
    unfolding demo_apply_def by (rule redelivery_harmless)
  moreover have "the (demo_apply (demo_changes @ [demo_change ''update'' ''b'']) (\<lambda>_ _. None)) ''Task'' (JInt 1) =
      Some [(''id'', JInt 1), (''name'', JStr ''b'')]"
    by code_simp
  ultimately show ?thesis using direct interrupted by simp
qed

end
