(* ===== verification/Http_Text.thy ===== *)
theory Http_Text
  imports Js_Value "HOL-Library.Sublist"
begin

text \<open>
  The text functions of the HTTP request parser: its regular expressions as functions on lists of
  characters, \<open>parseInt\<close>, and the pieces of a header line
  (\<open>src/src/http-server/client/request-buffer/index.js\<close> and \<open>header.js\<close>).
\<close>

definition CR :: char where "CR = CHR 0x0D"
definition LF :: char where "LF = CHR 0x0A"
definition CRLF :: string where "CRLF = [CR, LF]"

definition is_newline :: "char \<Rightarrow> bool" where
  "is_newline c \<longleftrightarrow> c = CR \<or> c = LF"

text \<open>What a pattern \<open>^...\\r\\n\<close> of \<open>.\<close> sees of a line that ends at its first newline.\<close>

definition line_content :: "string \<Rightarrow> string option" where
  "line_content line =
     (let s = take (length line - 2) line in
      if line = s @ CRLF \<and> list_all (\<lambda>c. \<not> is_newline c) s then Some s else None)"

text \<open>Splitting at the first or the last occurrence of a marker that has text after it.\<close>

fun split_first :: "string \<Rightarrow> string \<Rightarrow> (string \<times> string) option" where
  "split_first m [] = None"
| "split_first m (c # cs) =
     (if prefix m (c # cs) \<and> drop (length m) (c # cs) \<noteq> [] then Some ([], drop (length m) (c # cs))
      else map_option (apfst (Cons c)) (split_first m cs))"

fun split_last :: "string \<Rightarrow> string \<Rightarrow> (string \<times> string) option" where
  "split_last m [] = None"
| "split_last m (c # cs) =
     (case split_last m cs of
        Some (a, b) \<Rightarrow> Some (c # a, b)
      | None \<Rightarrow> if prefix m (c # cs) \<and> drop (length m) (c # cs) \<noteq> [] then Some ([], drop (length m) (c # cs)) else None)"

text \<open>The same, where the text before the marker must not be empty either.\<close>

definition after_first_char :: "(string \<Rightarrow> (string \<times> string) option) \<Rightarrow> string \<Rightarrow> (string \<times> string) option" where
  "after_first_char f s = (case s of [] \<Rightarrow> None | c # cs \<Rightarrow> map_option (apfst (Cons c)) (f cs))"

definition is_method_char :: "char \<Rightarrow> bool" where
  "is_method_char c \<longleftrightarrow> (65 \<le> (of_char c :: nat) \<and> (of_char c :: nat) \<le> 90) \<or> c = CHR ''-''"

text \<open>\<open>/^([A-Z-]+) (.+?) HTTP\\/(.+)\\r\\n/\<close>: method, path and version.\<close>

definition match_status_line :: "string \<Rightarrow> (string \<times> string \<times> string) option" where
  "match_status_line line =
     (case line_content line of
        None \<Rightarrow> None
      | Some s \<Rightarrow>
          (let m = takeWhile is_method_char s in
           case drop (length m) s of
             [] \<Rightarrow> None
           | c # rest \<Rightarrow>
               if m = [] \<or> c \<noteq> CHR '' '' then None
               else map_option (\<lambda>(path, version). (m, path, version)) (after_first_char (split_first '' HTTP/'') rest)))"

text \<open>\<open>/^(.+): (.+)\\r\\n/\<close>: the first group is greedy.\<close>

definition match_header :: "string \<Rightarrow> (string \<times> string) option" where
  "match_header line = (case line_content line of None \<Rightarrow> None | Some s \<Rightarrow> after_first_char (split_last '': '') s)"

text \<open>\<open>/^multipart\\/form-data;\\s*boundary=(.+)$/i\<close>.\<close>

definition strip_prefix_ci :: "string \<Rightarrow> string \<Rightarrow> string option" where
  "strip_prefix_ci p s = (if js_toLowerCase (take (length p) s) = p then Some (drop (length p) s) else None)"

definition match_multipart :: "string \<Rightarrow> string option" where
  "match_multipart value =
     (case strip_prefix_ci ''multipart/form-data;'' value of
        None \<Rightarrow> None
      | Some rest \<Rightarrow>
          (case strip_prefix_ci ''boundary='' (dropWhile is_js_space rest) of
             None \<Rightarrow> None
           | Some b \<Rightarrow> if b \<noteq> [] \<and> list_all (\<lambda>c. \<not> is_newline c) b then Some b else None))"

text \<open>\<open>parseInt(s)\<close> and \<open>parseInt(s, 16)\<close>.\<close>

definition js_parseInt :: "nat \<Rightarrow> string \<Rightarrow> jsnum" where
  "js_parseInt radix s =
     (let s1 = dropWhile is_js_space s;
          neg = prefix ''-'' s1;
          s2 = (if neg \<or> prefix ''+'' s1 then tl s1 else s1);
          hex = prefix ''0x'' s2 \<or> prefix ''0X'' s2;
          b = (if hex then 16 else radix);
          digits = takeWhile (is_digit b) (if hex then drop 2 s2 else s2)
      in if digits = [] then NaN
         else round_double (of_int (if neg then - digits_value b digits else digits_value b digits)))"

text \<open>\<open>s.includes(p)\<close>.\<close>

definition contains_text :: "string \<Rightarrow> string \<Rightarrow> bool" where
  "contains_text p s = list_ex (prefix p) (suffixes s)"

subsection \<open>Headers\<close>

record header =
  h_formattedName :: string
  h_name :: string
  h_value :: string

definition new_header :: "string \<Rightarrow> string \<Rightarrow> header" where
  "new_header name value = \<lparr>h_formattedName = js_trim (js_toLowerCase name), h_name = name, h_value = value\<rparr>"

definition readHeaderFromLine :: "string \<Rightarrow> header option" where
  "readHeaderFromLine line = map_option (\<lambda>(name, value). new_header name value) (match_header line)"

text \<open>Headers by formatted name: a name met again keeps its place.\<close>

fun put_header :: "header \<Rightarrow> header list \<Rightarrow> header list" where
  "put_header h [] = [h]"
| "put_header h (g # gs) = (if h_formattedName g = h_formattedName h then h # gs else g # put_header h gs)"

definition find_header :: "string \<Rightarrow> header list \<Rightarrow> header option" where
  "find_header name hs = find (\<lambda>h. h_formattedName h = js_trim (js_toLowerCase name)) hs"

subsection \<open>Lemmas\<close>

lemma line_content_CRLF: "list_all (\<lambda>c. \<not> is_newline c) s \<Longrightarrow> line_content (s @ CRLF) = Some s"
  by (simp add: line_content_def CRLF_def)

lemma split_first_found:
  assumes "v \<noteq> []" "\<And>a b. p @ m @ v = a @ m @ b \<Longrightarrow> b \<noteq> [] \<Longrightarrow> length p \<le> length a" "m \<noteq> []"
  shows "split_first m (p @ m @ v) = Some (p, v)"
  using assms(2)
proof (induction p)
  case Nil
  then show ?case using assms(1,3) by (cases m) (auto simp: prefix_def)
next
  case (Cons c p)
  have "\<not> (prefix m (c # p @ m @ v) \<and> drop (length m) (c # p @ m @ v) \<noteq> [])"
  proof
    assume a: "prefix m (c # p @ m @ v) \<and> drop (length m) (c # p @ m @ v) \<noteq> []"
    then obtain b where "c # p @ m @ v = m @ b" by (auto simp: prefix_def)
    with a Cons.prems [of "[]" b] show False by simp
  qed
  moreover have "split_first m (p @ m @ v) = Some (p, v)"
  proof (rule Cons.IH)
    fix a b
    assume "p @ m @ v = a @ m @ b" "b \<noteq> []"
    with Cons.prems [of "c # a" b] show "length p \<le> length a" by simp
  qed
  ultimately show ?case by simp
qed

lemma split_last_None: "(\<And>a b. s = a @ m @ b \<Longrightarrow> b = []) \<Longrightarrow> split_last m s = None"
proof (induction s)
  case (Cons c cs)
  have "split_last m cs = None"
  proof (rule Cons.IH)
    fix a b assume "cs = a @ m @ b"
    with Cons.prems [of "c # a" b] show "b = []" by simp
  qed
  moreover have "\<not> (prefix m (c # cs) \<and> drop (length m) (c # cs) \<noteq> [])"
    using Cons.prems [of "[]"] by (auto simp: prefix_def)
  ultimately show ?case by simp
qed simp

lemma split_last_found:
  assumes "v \<noteq> []" "m \<noteq> []" "\<And>a b. tl (m @ v) = a @ m @ b \<Longrightarrow> b = []"
  shows "split_last m (p @ m @ v) = Some (p, v)"
proof (induction p)
  case Nil
  obtain c ms where m: "m = c # ms" using assms(2) by (cases m) simp_all
  have "split_last m (ms @ v) = None" using assms(3) by (intro split_last_None) (simp add: m)
  then show ?case using assms(1) by (simp add: m prefix_def)
qed simp

lemma find_header_put: "find_header name (put_header h hs) =
    (if h_formattedName h = js_trim (js_toLowerCase name) then Some h else find_header name hs)"
  by (induction hs) (auto simp: find_header_def)

end
