(* ===== verification/Request_Params.thy ===== *)
theory Request_Params
  imports Stable_Json
begin

text \<open>
  Nested request parameters (\<open>src/src/http-server/client/params-to-object.js\<close>): a key such as
  \<open>task[name]\<close> is a path into an object, and \<open>[]\<close> at the end of a path appends to an array.

  The objects under construction are values, which the assignments update along a path. What JavaScript
  does outside of them is a branch of its own: \<open>key in object\<close> also holds for the names every object
  inherits, and the assignment then goes to the inherited object (\<open>Object.prototype\<close> for
  \<open>__proto__\<close>) and not into the result; and a named property of an array is not an element.
\<close>

datatype params_error =
    Malformed_Key string string
  | Expected_Array string
  | Not_An_Object string
  | Inherited_Name string
  | Array_Property string

definition inherited_names :: "string list" where
  "inherited_names = [''constructor'', ''__defineGetter__'', ''__defineSetter__'', ''hasOwnProperty'', ''__lookupGetter__'',
     ''__lookupSetter__'', ''isPrototypeOf'', ''propertyIsEnumerable'', ''toString'', ''valueOf'', ''__proto__'', ''toLocaleString'']"

definition line_break :: "char \<Rightarrow> bool" where
  "line_break c \<longleftrightarrow> c = CHR 0x0A \<or> c = CHR 0x0D"

text \<open>\<open>/^(.+?)(\\[([\\s\\S]+$))/\<close>: the text before the first bracket that can end it, and the rest.\<close>

fun match_bracket :: "string \<Rightarrow> (string \<times> string) option" where
  "match_bracket [] = None"
| "match_bracket (c # cs) =
     (if c = CHR ''['' \<and> cs \<noteq> [] then Some ([], c # cs)
      else if line_break c then None
      else map_option (apfst (Cons c)) (match_bracket cs))"

definition first_match :: "string \<Rightarrow> (string \<times> string) option" where
  "first_match key =
     (case key of [] \<Rightarrow> None | c # cs \<Rightarrow> if line_break c then None else map_option (apfst (Cons c)) (match_bracket cs))"

text \<open>\<open>/^\\[(.*?)\\]([\\s\\S]*)$/\<close>.\<close>

fun until_close :: "string \<Rightarrow> (string \<times> string) option" where
  "until_close [] = None"
| "until_close (c # cs) =
     (if c = CHR '']'' then Some ([], cs)
      else if line_break c then None
      else map_option (apfst (Cons c)) (until_close cs))"

definition second_match :: "string \<Rightarrow> (string \<times> string) option" where
  "second_match rest = (case rest of [] \<Rightarrow> None | c # cs \<Rightarrow> if c = CHR ''['' then until_close cs else None)"

lemma until_close_length: "until_close s = Some (key, rest) \<Longrightarrow> length rest < length s"
  by (induction s arbitrary: key) (auto split: if_splits simp: less_SucI)

lemma second_match_length: "second_match s = Some (key, rest) \<Longrightarrow> length rest < length s"
  by (auto simp: second_match_def less_SucI split: list.splits if_splits dest: until_close_length)

text \<open>\<open>object[key] = value\<close>, for the values that can be reached.\<close>

definition assign_key :: "jsval \<Rightarrow> string \<Rightarrow> jsval \<Rightarrow> params_error + jsval" where
  "assign_key result key value =
     (case result of
        JObj fs \<Rightarrow>
          if key = ''__proto__'' then
            (case value of JArr _ \<Rightarrow> Inl (Inherited_Name key) | JObj _ \<Rightarrow> Inl (Inherited_Name key) | JNull \<Rightarrow> Inl (Inherited_Name key)
             | _ \<Rightarrow> Inr result)
          else Inr (JObj (obj_set fs key value))
      | JArr xs \<Rightarrow>
          (case array_index key of
             None \<Rightarrow> Inl (Array_Property key)
           | Some i \<Rightarrow>
               if i < int (length xs) then Inr (JArr (xs[nat i := value]))
               else if i = int (length xs) then Inr (JArr (xs @ [value]))
               else Inl (Array_Property key))
      | _ \<Rightarrow> Inl (Not_An_Object key))"

text \<open>The object that the rest of a path is taken in: the one already there, or a new one.\<close>

definition child :: "jsval \<Rightarrow> string \<Rightarrow> string \<Rightarrow> params_error + jsval" where
  "child result key newRest =
     (let fresh = (if newRest = ''[]'' then JArr [] else JObj []) in
      case result of
        JObj fs \<Rightarrow>
          if key \<in> fst ` set fs then Inr (obj_get result key)
          else if key \<in> set inherited_names then Inl (Inherited_Name key)
          else Inr fresh
      | JArr _ \<Rightarrow> Inr fresh
      | _ \<Rightarrow> Inl (Not_An_Object key))"

function treatSecond :: "jsval \<Rightarrow> string \<Rightarrow> string \<Rightarrow> jsval \<Rightarrow> params_error + jsval" where
  "treatSecond value fullKey rest result =
     (case second_match rest of
        None \<Rightarrow> Inl (Malformed_Key fullKey rest)
      | Some (key, newRest) \<Rightarrow>
          if rest = ''[]'' then
            (case result of JArr xs \<Rightarrow> Inr (JArr (xs @ [value])) | _ \<Rightarrow> Inl (Expected_Array rest))
          else if newRest = [] then assign_key result key value
          else
            bindE (child result key newRest) (\<lambda>inner.
            bindE (treatSecond value fullKey newRest inner) (assign_key result key)))"
  by pat_completeness auto
termination
  by (relation "measure (\<lambda>(value, fullKey, rest, result). length rest)") (auto dest: second_match_length)

declare treatSecond.simps [simp del]

definition treatInitial :: "string \<Rightarrow> jsval \<Rightarrow> jsval \<Rightarrow> params_error + jsval" where
  "treatInitial key value result =
     (case first_match key of
        Some (inputName, rest) \<Rightarrow>
          bindE (child result inputName rest) (\<lambda>inner.
          bindE (treatSecond value key rest inner) (assign_key result inputName))
      | None \<Rightarrow> assign_key result key value)"

definition toObject :: "(string \<times> jsval) list \<Rightarrow> params_error + jsval" where
  "toObject pairs = foldE (\<lambda>(key, value). treatInitial key value) pairs (JObj [])"

end
