(* ===== verification/Request_Buffer.thy ===== *)
theory Request_Buffer
  imports Http_Text Request_Params
begin

text \<open>
  The incremental parser of one HTTP request: the request buffer with the parts of a multipart body
  (\<open>src/src/http-server/client/request-buffer/index.js\<close>, \<open>form-data-part.js\<close>) and the
  parameters that \<open>request-parser.js\<close> collects from its events. A buffer belongs to one parser, so
  both are one record; an event handler runs inside the step that emits the event.

  Bytes are characters below 256. The text a body is decoded to, JSON, query strings, files on disk and
  the package that merges parameters belong to the environment.
\<close>

record form_part =
  fp_headers :: "header list"
  fp_body :: string
  fp_name :: "string option"
  fp_filename :: "string option"
  fp_contentLength :: "jsnum option"
  fp_contentType :: "string option"

record request_env =
  utf8_text :: "string \<Rightarrow> string"
  json_body :: "string \<Rightarrow> jsval option"
  query_pairs :: "string \<Rightarrow> (string \<times> jsval) list"
  uploaded_file :: "form_part \<Rightarrow> string \<Rightarrow> string \<Rightarrow> jsval"
  incorporate :: "jsval \<Rightarrow> jsval \<Rightarrow> jsval"

datatype request_error =
    Bad_Status_Line string
  | No_Method
  | Bad_Content_Length
  | Bad_Chunk_Size string
  | Expected_Boundary string
  | Part_Without_Name
  | Part_Length_Stub
  | Not_Initialized string
  | Bad_Json
  | Bad_Params params_error
  | Parser_Completed

datatype buffer_state =
    Status | Headers | Multi_Part | Multi_Part_Header | Multi_Part_Body
  | Chunked_Size | Chunked_Data | Chunked_Data_Crlf | Chunked_Trailer | Post_Body | Done

record request_parser =
  rb_state :: buffer_state
  rb_data :: string
  rb_bodyLength :: nat
  rb_readingBody :: bool
  rb_headers :: "header list"
  rb_contentLength :: "jsnum option"
  rb_method :: "string option"
  rb_version :: "string option"
  rb_path :: "string option"
  rb_postBodyBuffers :: "string list option"
  rb_chunkedBodyChars :: "string option"
  rb_currentChunkSize :: "jsnum option"
  rb_currentChunkBytesRead :: nat
  rb_currentChunkCrlfRead :: nat
  rb_boundary :: "string option"
  rb_multiPartyFormData :: bool
  rb_formDataPart :: "form_part option"
  rb_postBody :: "string option"
  rb_params :: jsval
  rb_completed :: bool
  rp_params :: jsval
  rp_hasCompleted :: bool

definition new_parser :: request_parser where
  "new_parser = \<lparr>rb_state = Status, rb_data = [], rb_bodyLength = 0, rb_readingBody = False, rb_headers = [], rb_contentLength = None,
     rb_method = None, rb_version = None, rb_path = None, rb_postBodyBuffers = None, rb_chunkedBodyChars = None,
     rb_currentChunkSize = None, rb_currentChunkBytesRead = 0, rb_currentChunkCrlfRead = 0, rb_boundary = None,
     rb_multiPartyFormData = False, rb_formDataPart = None, rb_postBody = None, rb_params = JObj [], rb_completed = False,
     rp_params = JObj [], rp_hasCompleted = False\<rparr>"

subsection \<open>Numbers of bytes\<close>

text \<open>\<open>n && count >= n\<close> for a number that may be undefined, and \<open>count >= size\<close>.\<close>

definition count_at_least :: "nat \<Rightarrow> jsnum \<Rightarrow> bool" where
  "count_at_least k n = (case n of Fin q \<Rightarrow> q \<le> of_nat k | NaN \<Rightarrow> False | PosInf \<Rightarrow> False | NegInf \<Rightarrow> True)"

definition length_reached :: "jsnum option \<Rightarrow> nat \<Rightarrow> bool" where
  "length_reached n k = (case n of None \<Rightarrow> False | Some m \<Rightarrow> m \<noteq> Fin 0 \<and> count_at_least k m)"

text \<open>\<open>Math.min(available, Math.max(1, contentLength - k))\<close> for \<open>available > 0\<close>.\<close>

definition body_bytes :: "jsnum \<Rightarrow> nat \<Rightarrow> nat \<Rightarrow> nat" where
  "body_bytes contentLength k available =
     (case contentLength of
        Fin q \<Rightarrow> min available (nat (max 1 \<lfloor>q - of_nat k\<rfloor>))
      | PosInf \<Rightarrow> available
      | _ \<Rightarrow> min available 1)"

subsection \<open>Parts of a multipart body\<close>

definition new_part :: form_part where
  "new_part = \<lparr>fp_headers = [], fp_body = [], fp_name = None, fp_filename = None, fp_contentLength = None, fp_contentType = None\<rparr>"

text \<open>\<open>/^form-data;\\s*name="(.+?)"(?:;\\s*filename="(.+?)")?$/\<close>.\<close>

definition match_filename :: "string \<Rightarrow> string option option" where
  "match_filename s =
     (if s = [] then Some None
      else case s of
        c # rest \<Rightarrow>
          (let f = dropWhile is_js_space rest in
           if c = CHR '';'' \<and> prefix ''filename='' f \<and> prefix [CHR 0x22] (drop 9 f) \<and> 2 < length (drop 9 f) \<and> last f = CHR 0x22 \<and>
             list_all (\<lambda>c. \<not> is_newline c) f
           then Some (Some (butlast (drop 10 f))) else None)
      | [] \<Rightarrow> None)"

fun match_quoted :: "string \<Rightarrow> (string \<times> string option) option" where
  "match_quoted [] = None"
| "match_quoted (c # cs) =
     (case (if c = CHR 0x22 then match_filename cs else None) of
        Some f \<Rightarrow> Some ([], f)
      | None \<Rightarrow> if is_newline c then None else map_option (apfst (Cons c)) (match_quoted cs))"

definition match_disposition :: "string \<Rightarrow> (string \<times> string option) option" where
  "match_disposition value =
     (if prefix ''form-data;'' value then
        (let rest = dropWhile is_js_space (drop 10 value) in
         if prefix (''name='' @ [CHR 0x22]) rest then
           (case drop 6 rest of
              [] \<Rightarrow> None
            | c # cs \<Rightarrow> if is_newline c then None else map_option (apfst (Cons c)) (match_quoted cs))
         else None)
      else None)"

definition addPartHeader :: "header \<Rightarrow> form_part \<Rightarrow> form_part" where
  "addPartHeader h part =
     (let part1 = part\<lparr>fp_headers := put_header h (fp_headers part)\<rparr> in
      if h_formattedName h = ''content-disposition'' then
        (case match_disposition (h_value h) of
           Some (name, filename) \<Rightarrow> part1\<lparr>fp_name := Some name, fp_filename := filename\<rparr>
         | None \<Rightarrow> part1)
      else if h_formattedName h = ''content-length'' then part1\<lparr>fp_contentLength := Some (js_parseInt 10 (h_value h))\<rparr>
      else if h_formattedName h = ''content-type'' then part1\<lparr>fp_contentType := Some (h_value h)\<rparr>
      else part1)"

definition isFile :: "form_part \<Rightarrow> bool" where
  "isFile part = (case fp_filename part of None \<Rightarrow> False | Some f \<Rightarrow> f \<noteq> [])"

definition getName :: "form_part \<Rightarrow> request_error + string" where
  "getName part = (case fp_name part of None \<Rightarrow> Inl Part_Without_Name | Some n \<Rightarrow> if n = [] then Inl Part_Without_Name else Inr n)"

text \<open>\<open>path.basename(filename)\<close> on POSIX, and \<open>_sanitizeFilename\<close>.\<close>

definition basename :: "string \<Rightarrow> string" where
  "basename s = rev (takeWhile (\<lambda>c. c \<noteq> CHR ''/'') (dropWhile (\<lambda>c. c = CHR ''/'') (rev s)))"

definition sanitizeFilename :: "string option \<Rightarrow> string" where
  "sanitizeFilename filename =
     (case filename of
        None \<Rightarrow> []
      | Some f \<Rightarrow>
          if f = [] then []
          else let base = basename f in if base = ''.'' \<or> base = ''..'' \<or> base = [] then ''upload'' else base)"

text \<open>\<open>finish\<close>: the value of a part is its text, or an uploaded file.\<close>

definition part_value :: "request_env \<Rightarrow> form_part \<Rightarrow> request_error + jsval" where
  "part_value env part =
     (if isFile part then
        bindE (getName part) (\<lambda>_.
          let name = sanitizeFilename (fp_filename part) in
          Inr (uploaded_file env part (if name = [] then ''upload'' else name) (fp_body part)))
      else Inr (JStr (utf8_text env (fp_body part))))"

text \<open>\<open>formDataPartDone\<close> with the handler of its event, \<open>onFormDataPart\<close>.\<close>

definition onFormDataPart :: "request_env \<Rightarrow> form_part \<Rightarrow> jsval \<Rightarrow> request_parser \<Rightarrow> request_error + request_parser" where
  "onFormDataPart env part value st =
     bindE (getName part) (\<lambda>name.
     bindE (lift_error Bad_Params
        (if name = ''__proto__'' then (if isFile part then Inl (Inherited_Name name) else toObject []) else toObject [(name, value)])) (\<lambda>newParams.
       Inr (st\<lparr>rp_params := incorporate env (rp_params st) newParams\<rparr>)))"

definition formDataPartDone :: "request_env \<Rightarrow> request_parser \<Rightarrow> request_error + request_parser" where
  "formDataPartDone env st =
     (case rb_formDataPart st of
        None \<Rightarrow> Inl (Not_Initialized ''formDataPart'')
      | Some part \<Rightarrow>
          bindE (part_value env part) (\<lambda>value. onFormDataPart env part value (st\<lparr>rb_formDataPart := None\<rparr>)))"

definition newFormDataPart :: "request_parser \<Rightarrow> request_parser" where
  "newFormDataPart st = st\<lparr>rb_formDataPart := Some new_part, rb_state := Multi_Part_Header\<rparr>"

subsection \<open>The end of a request\<close>

definition getHeader :: "string \<Rightarrow> request_parser \<Rightarrow> string option" where
  "getHeader name st = map_option h_value (find_header name (rb_headers st))"

definition nonempty_body :: "request_parser \<Rightarrow> string option" where
  "nonempty_body st = (case rb_postBody st of None \<Rightarrow> None | Some b \<Rightarrow> if b = [] then None else Some b)"

definition parseApplicationJsonParams :: "request_env \<Rightarrow> request_parser \<Rightarrow> request_error + request_parser" where
  "parseApplicationJsonParams env st =
     (case nonempty_body st of
        None \<Rightarrow> Inr st
      | Some b \<Rightarrow>
          (case json_body env b of
             None \<Rightarrow> Inl Bad_Json
           | Some newParams \<Rightarrow> Inr (st\<lparr>rb_params := incorporate env (rb_params st) newParams\<rparr>)))"

definition parseQueryStringPostParams :: "request_env \<Rightarrow> request_parser \<Rightarrow> request_error + request_parser" where
  "parseQueryStringPostParams env st =
     (case nonempty_body st of
        None \<Rightarrow> Inr st
      | Some b \<Rightarrow>
          bindE (lift_error Bad_Params (toObject (query_pairs env b))) (\<lambda>newParams.
            Inr (st\<lparr>rb_params := incorporate env (rb_params st) newParams\<rparr>)))"

text \<open>\<open>requestDone\<close> of the parser handles the event at the end.\<close>

definition requestDone :: "request_env \<Rightarrow> request_parser \<Rightarrow> request_parser" where
  "requestDone env st = st\<lparr>rp_hasCompleted := True, rp_params := incorporate env (rp_params st) (rb_params st)\<rparr>"

definition completeRequest :: "request_env \<Rightarrow> request_parser \<Rightarrow> request_error + request_parser" where
  "completeRequest env st =
     (let st1 = st\<lparr>rb_state := Status, rb_completed := True\<rparr> in
      bindE (if (case getHeader ''content-type'' st1 of None \<Rightarrow> False | Some v \<Rightarrow> prefix ''application/json'' v)
             then parseApplicationJsonParams env st1
             else if rb_multiPartyFormData st1 then Inr st1
             else parseQueryStringPostParams env st1) (\<lambda>st2. Inr (requestDone env st2)))"

definition postRequestDone :: "request_env \<Rightarrow> request_parser \<Rightarrow> request_error + request_parser" where
  "postRequestDone env st =
     completeRequest env
       (st\<lparr>rb_postBody := (case rb_postBodyBuffers st of None \<Rightarrow> rb_postBody st | Some bs \<Rightarrow> Some (concat bs)), rb_postBodyBuffers := None\<rparr>)"

subsection \<open>Lines\<close>

definition addHeader :: "header \<Rightarrow> request_parser \<Rightarrow> request_parser" where
  "addHeader h st =
     (let st1 = st\<lparr>rb_headers := put_header h (rb_headers st)\<rparr> in
      if h_formattedName h = ''content-length'' then st1\<lparr>rb_contentLength := Some (js_parseInt 10 (h_value h))\<rparr> else st1)"

definition parseStatusLine :: "string \<Rightarrow> request_parser \<Rightarrow> request_error + request_parser" where
  "parseStatusLine line st =
     (case match_status_line line of
        None \<Rightarrow> Inl (Bad_Status_Line line)
      | Some (method, path, version) \<Rightarrow>
          Inr (st\<lparr>rb_method := Some method, rb_version := Some version, rb_path := Some path, rb_state := Headers\<rparr>))"

text \<open>The method is in upper case already: the status line allows no other.\<close>

definition expectsRequestBody :: "string \<Rightarrow> bool" where
  "expectsRequestBody httpMethod \<longleftrightarrow> httpMethod \<notin> {''GET'', ''OPTIONS'', ''HEAD''}"

definition isChunkedEncoding :: "request_parser \<Rightarrow> bool" where
  "isChunkedEncoding st =
     (case getHeader ''transfer-encoding'' st of None \<Rightarrow> False | Some v \<Rightarrow> contains_text ''chunked'' (js_toLowerCase v))"

definition initializeChunkedBody :: "request_parser \<Rightarrow> request_parser" where
  "initializeChunkedBody st =
     st\<lparr>rb_chunkedBodyChars := Some [], rb_currentChunkSize := None, rb_currentChunkBytesRead := 0, rb_state := Chunked_Size\<rparr>"

definition start_body :: "request_env \<Rightarrow> request_parser \<Rightarrow> request_error + request_parser" where
  "start_body env st =
     (let st1 = st\<lparr>rb_readingBody := True, rb_bodyLength := 0\<rparr> in
      case (case getHeader ''content-type'' st1 of None \<Rightarrow> None | Some v \<Rightarrow> match_multipart v) of
        Some b \<Rightarrow> Inr (st1\<lparr>rb_boundary := Some b, rb_multiPartyFormData := True, rb_state := Multi_Part\<rparr>)
      | None \<Rightarrow>
          (case rb_contentLength st1 of
             None \<Rightarrow> completeRequest env st1
           | Some n \<Rightarrow>
               if n = Fin 0 then completeRequest env st1
               else if n = NaN then Inl Bad_Content_Length
               else Inr (st1\<lparr>rb_postBodyBuffers := Some [], rb_state := Post_Body\<rparr>)))"

definition parseHeader :: "request_env \<Rightarrow> string \<Rightarrow> request_parser \<Rightarrow> request_error + request_parser" where
  "parseHeader env line st =
     (case readHeaderFromLine line of
        Some h \<Rightarrow> Inr (addHeader h st)
      | None \<Rightarrow>
          if line = CRLF then
            (case rb_method st of
               None \<Rightarrow> Inl No_Method
             | Some httpMethod \<Rightarrow>
                 if httpMethod = [] then Inl No_Method
                 else if \<not> expectsRequestBody httpMethod then completeRequest env st
                 else if isChunkedEncoding st then Inr (initializeChunkedBody (st\<lparr>rb_readingBody := True, rb_bodyLength := 0\<rparr>))
                 else start_body env st)
          else Inr st)"

definition parseChunkSizeLine :: "string \<Rightarrow> request_parser \<Rightarrow> request_error + request_parser" where
  "parseChunkSizeLine line st =
     (let trimmed = js_trim line in
      if trimmed = [] then Inr st
      else
        (let sizeToken = js_trim (hd (split_char CHR '';'' trimmed)) in
         if sizeToken = [] then Inl (Bad_Chunk_Size line)
         else
           (case js_parseInt 16 sizeToken of
              Fin q \<Rightarrow>
                if q = 0 then Inr (st\<lparr>rb_state := Chunked_Trailer\<rparr>)
                else Inr (st\<lparr>rb_currentChunkSize := Some (Fin q), rb_currentChunkBytesRead := 0, rb_state := Chunked_Data\<rparr>)
            | _ \<Rightarrow> Inl (Bad_Chunk_Size sizeToken))))"

definition finishChunkedBody :: "request_parser \<Rightarrow> request_parser" where
  "finishChunkedBody st =
     st\<lparr>rb_postBody := (case rb_chunkedBodyChars st of None \<Rightarrow> rb_postBody st | Some b \<Rightarrow> Some b), rb_chunkedBodyChars := None\<rparr>"

definition boundaryLine :: "string \<Rightarrow> string" where "boundaryLine b = ''--'' @ b @ CRLF"
definition boundaryLineNext :: "string \<Rightarrow> string" where "boundaryLineNext b = CRLF @ ''--'' @ b @ CRLF"
definition boundaryLineEnd :: "string \<Rightarrow> string" where "boundaryLineEnd b = CRLF @ ''--'' @ b @ ''--''"

definition parse_line :: "request_env \<Rightarrow> string \<Rightarrow> request_parser \<Rightarrow> request_error + request_parser" where
  "parse_line env line st =
     (case rb_state st of
        Status \<Rightarrow> parseStatusLine line st
      | Headers \<Rightarrow> parseHeader env line st
      | Chunked_Size \<Rightarrow> parseChunkSizeLine line st
      | Chunked_Trailer \<Rightarrow> if line = CRLF then completeRequest env (finishChunkedBody st) else Inr st
      | Multi_Part \<Rightarrow>
          if line = boundaryLine (the (rb_boundary st)) then Inr (newFormDataPart st)
          else if line = CRLF then Inr (st\<lparr>rb_state := Done\<rparr>)
          else Inl (Expected_Boundary line)
      | Multi_Part_Header \<Rightarrow>
          (case readHeaderFromLine line of
             Some h \<Rightarrow>
               (case rb_formDataPart st of
                  None \<Rightarrow> Inl (Not_Initialized ''formDataPart'')
                | Some part \<Rightarrow> Inr (st\<lparr>rb_formDataPart := Some (addPartHeader h part)\<rparr>))
           | None \<Rightarrow> if line = CRLF then Inr (st\<lparr>rb_state := Multi_Part_Body\<rparr>) else Inr st)
      | _ \<Rightarrow> Inl (Not_Initialized ''state''))"

subsection \<open>Feeding bytes\<close>

text \<open>The steps take the bytes from the current index on and return those that they leave.\<close>

definition feedLine :: "request_env \<Rightarrow> string \<Rightarrow> request_parser \<Rightarrow> request_error + (request_parser \<times> string)" where
  "feedLine env data st =
     (let line_end = takeWhile (\<lambda>c. c \<noteq> LF) data; rest = dropWhile (\<lambda>c. c \<noteq> LF) data;
          count = (\<lambda>n. if rb_readingBody st then rb_bodyLength st + n else rb_bodyLength st) in
      if rest = [] then Inr (st\<lparr>rb_bodyLength := count (length data), rb_data := rb_data st @ data\<rparr>, [])
      else
        bindE (parse_line env (rb_data st @ line_end @ [LF])
          (st\<lparr>rb_bodyLength := count (length line_end + 1), rb_data := []\<rparr>)) (\<lambda>st'. Inr (st', tl rest)))"

definition feedPostBody :: "request_env \<Rightarrow> string \<Rightarrow> request_parser \<Rightarrow> request_error + (request_parser \<times> string)" where
  "feedPostBody env data st =
     (case rb_postBodyBuffers st of
        None \<Rightarrow> Inl (Not_Initialized ''postBodyBuffers'')
      | Some buffers \<Rightarrow>
          (case rb_contentLength st of
             None \<Rightarrow> Inl (Not_Initialized ''contentLength'')
           | Some contentLength \<Rightarrow>
               (let k = body_bytes contentLength (rb_bodyLength st) (length data);
                    st1 = st\<lparr>rb_postBodyBuffers := Some (buffers @ [take k data]), rb_bodyLength := rb_bodyLength st + k\<rparr> in
                if length_reached (Some contentLength) (rb_bodyLength st1)
                then bindE (postRequestDone env st1) (\<lambda>st2. Inr (st2, drop k data))
                else Inr (st1, drop k data))))"

definition ends_in :: "string \<Rightarrow> string \<Rightarrow> bool" where
  "ends_in body marker \<longleftrightarrow> length marker \<le> length body \<and> drop (length body - length marker) body = marker"

definition removeFromBody :: "string \<Rightarrow> form_part \<Rightarrow> form_part" where
  "removeFromBody text part = part\<lparr>fp_body := take (length (fp_body part) - length text) (fp_body part)\<rparr>"

definition feed_part_byte :: "request_env \<Rightarrow> char \<Rightarrow> request_parser \<Rightarrow> request_error + request_parser" where
  "feed_part_byte env c st =
     (case (rb_formDataPart st, rb_boundary st) of
        (Some part, Some b) \<Rightarrow>
          (let part1 = part\<lparr>fp_body := fp_body part @ [c]\<rparr>;
               finished = (\<lambda>part. formDataPartDone env (st\<lparr>rb_formDataPart := Some part\<rparr>)) in
           if ends_in (fp_body part1) (boundaryLineEnd b)
           then bindE (finished (removeFromBody (boundaryLineEnd b) part1)) (completeRequest env)
           else if ends_in (fp_body part1) (boundaryLineNext b)
           then bindE (finished (removeFromBody (boundaryLineNext b) part1)) (\<lambda>st'. Inr (newFormDataPart st'))
           else if length_reached (rb_contentLength st) (rb_bodyLength st)
           then bindE (finished part1) (completeRequest env)
           else if length_reached (case fp_contentLength part1 of Some NaN \<Rightarrow> None | n \<Rightarrow> n) (rb_bodyLength st)
           then bindE (finished part1) (\<lambda>_. Inl Part_Length_Stub)
           else Inr (st\<lparr>rb_formDataPart := Some part1\<rparr>))
      | _ \<Rightarrow> Inl (Not_Initialized ''formDataPart''))"

definition feedByte :: "request_env \<Rightarrow> char \<Rightarrow> request_parser \<Rightarrow> request_error + request_parser" where
  "feedByte env c st =
     (let st1 = (if rb_readingBody st then st\<lparr>rb_bodyLength := rb_bodyLength st + 1\<rparr> else st) in
      case rb_state st1 of
        Chunked_Data \<Rightarrow>
          (case (rb_currentChunkSize st1, rb_chunkedBodyChars st1) of
             (Some chunkSize, Some chars) \<Rightarrow>
               (let n = rb_currentChunkBytesRead st1 + 1;
                    st2 = st1\<lparr>rb_chunkedBodyChars := Some (chars @ [c]), rb_currentChunkBytesRead := n\<rparr> in
                Inr (if count_at_least n chunkSize then st2\<lparr>rb_currentChunkCrlfRead := 0, rb_state := Chunked_Data_Crlf\<rparr> else st2))
           | _ \<Rightarrow> Inl (Not_Initialized ''chunk''))
      | Chunked_Data_Crlf \<Rightarrow>
          (let n = rb_currentChunkCrlfRead st1 + 1; st2 = st1\<lparr>rb_currentChunkCrlfRead := n\<rparr> in
           Inr (if 2 \<le> n then st2\<lparr>rb_currentChunkBytesRead := 0, rb_state := Chunked_Size\<rparr> else st2))
      | Multi_Part_Body \<Rightarrow> feed_part_byte env c st1
      | _ \<Rightarrow> Inr st1)"

definition line_state :: "buffer_state \<Rightarrow> bool" where
  "line_state s \<longleftrightarrow> s \<in> {Status, Headers, Multi_Part, Multi_Part_Header, Chunked_Size, Chunked_Trailer}"

definition feed_some :: "request_env \<Rightarrow> string \<Rightarrow> request_parser \<Rightarrow> request_error + (request_parser \<times> string)" where
  "feed_some env data st =
     (if line_state (rb_state st) then feedLine env data st
      else if rb_state st = Post_Body then feedPostBody env data st
      else bindE (feedByte env (hd data) st) (\<lambda>st'. Inr (st', tl data)))"

lemma body_bytes_pos: "0 < n \<Longrightarrow> 0 < body_bytes contentLength k n"
  by (auto simp: body_bytes_def min_def split: jsnum.split)

lemma feed_some_length: "feed_some env data st = Inr (st', rest) \<Longrightarrow> data \<noteq> [] \<Longrightarrow> length rest < length data"
proof -
  assume fed: "feed_some env data st = Inr (st', rest)" and ne: "data \<noteq> []"
  have "0 < length data" "length (dropWhile (\<lambda>c. c \<noteq> LF) data) \<le> length data"
    using ne by (simp_all add: length_dropWhile_le)
  then have "length (dropWhile (\<lambda>c. c \<noteq> LF) data) - Suc 0 < length data" by linarith
  moreover have "0 < body_bytes n c (length data)" for n c
    using ne body_bytes_pos [of "length data"] by simp
  ultimately show ?thesis
    using fed ne by (auto simp: feed_some_def feedLine_def feedPostBody_def bindE_eq_Inr Let_def
        split: if_splits option.splits)
qed

text \<open>\<open>feed\<close>: \<open>None\<close> is the answer that all bytes were used and the request is not complete.\<close>

function feed_buffer :: "request_env \<Rightarrow> string \<Rightarrow> request_parser \<Rightarrow> request_error + (request_parser \<times> string option)" where
  "feed_buffer env data st =
     (if data = [] then Inr (st, None)
      else case feed_some env data st of
             Inl e \<Rightarrow> Inl e
           | Inr (st', rest) \<Rightarrow> if rb_completed st' then Inr (st', Some rest) else feed_buffer env rest st')"
  by pat_completeness auto
termination
  by (relation "measure (\<lambda>(env, data, st). length data)") (auto dest: feed_some_length)

declare feed_buffer.simps [simp del]

text \<open>\<open>feed\<close> of the request parser.\<close>

definition feed :: "request_env \<Rightarrow> string \<Rightarrow> request_parser \<Rightarrow> request_error + (request_parser \<times> string option)" where
  "feed env data st = (if rp_hasCompleted st then Inl Parser_Completed else feed_buffer env data st)"

end
