(* ===== verification/Request_Pieces.thy ===== *)
theory Request_Pieces
  imports Request_Buffer
begin

text \<open>
  A request is parsed the same way however its bytes are cut into pieces. The reference is the parser
  that gets one byte at a time; the buffers of a body are compared by the bytes they hold.
\<close>

subsection \<open>States up to the cutting of body buffers\<close>

definition flatten :: "string list \<Rightarrow> string list" where
  "flatten bs = (if concat bs = [] then [] else [concat bs])"

definition flat :: "request_parser \<Rightarrow> request_parser" where
  "flat st = st\<lparr>rb_postBodyBuffers := map_option flatten (rb_postBodyBuffers st)\<rparr>"

definition flatR :: "request_error + request_parser \<Rightarrow> request_error + request_parser" where
  "flatR = map_sum id flat"

lemma flatR_simps [simp]: "flatR (Inl e) = Inl e" "flatR (Inr st) = Inr (flat st)"
  by (simp_all add: flatR_def)

lemma flatR_bind: "(\<And>st. f (flat st) = flatR (f st)) \<Longrightarrow> bindE (flatR r) f = flatR (bindE r f)"
  by (cases r) simp_all

lemma concat_flatten [simp]: "concat (flatten bs) = concat bs"
  by (simp add: flatten_def)

lemma flatten_Nil [simp]: "flatten [] = []"
  by (simp add: flatten_def)

lemma flatten_flatten [simp]: "flatten (flatten bs) = flatten bs"
  by (simp add: flatten_def)

lemma flat_flat [simp]: "flat (flat st) = flat st"
  by (simp add: flat_def option.map_comp comp_def)

lemma flatR_flatR [simp]: "flatR (flatR r) = flatR r"
  by (cases r) simp_all

lemma flat_fields [simp]:
  "rb_state (flat st) = rb_state st" "rb_data (flat st) = rb_data st" "rb_bodyLength (flat st) = rb_bodyLength st"
  "rb_readingBody (flat st) = rb_readingBody st" "rb_headers (flat st) = rb_headers st" "rb_contentLength (flat st) = rb_contentLength st"
  "rb_method (flat st) = rb_method st" "rb_boundary (flat st) = rb_boundary st" "rb_completed (flat st) = rb_completed st"
  "rb_multiPartyFormData (flat st) = rb_multiPartyFormData st" "rb_formDataPart (flat st) = rb_formDataPart st"
  "rb_postBody (flat st) = rb_postBody st" "rb_params (flat st) = rb_params st" "rp_params (flat st) = rp_params st"
  "rb_chunkedBodyChars (flat st) = rb_chunkedBodyChars st" "rb_currentChunkSize (flat st) = rb_currentChunkSize st"
  "rb_currentChunkBytesRead (flat st) = rb_currentChunkBytesRead st" "rb_currentChunkCrlfRead (flat st) = rb_currentChunkCrlfRead st"
  "rb_postBodyBuffers (flat st) = map_option flatten (rb_postBodyBuffers st)"
  by (simp_all add: flat_def)

lemma flat_updates [simp]:
  "flat st\<lparr>rb_state := x1\<rparr> = flat (st\<lparr>rb_state := x1\<rparr>)" "flat st\<lparr>rb_data := x2\<rparr> = flat (st\<lparr>rb_data := x2\<rparr>)"
  "flat st\<lparr>rb_bodyLength := x3\<rparr> = flat (st\<lparr>rb_bodyLength := x3\<rparr>)" "flat st\<lparr>rb_readingBody := x4\<rparr> = flat (st\<lparr>rb_readingBody := x4\<rparr>)"
  "flat st\<lparr>rb_headers := x5\<rparr> = flat (st\<lparr>rb_headers := x5\<rparr>)" "flat st\<lparr>rb_contentLength := x6\<rparr> = flat (st\<lparr>rb_contentLength := x6\<rparr>)"
  "flat st\<lparr>rb_method := x7\<rparr> = flat (st\<lparr>rb_method := x7\<rparr>)" "flat st\<lparr>rb_version := x8\<rparr> = flat (st\<lparr>rb_version := x8\<rparr>)"
  "flat st\<lparr>rb_path := x9\<rparr> = flat (st\<lparr>rb_path := x9\<rparr>)" "flat st\<lparr>rb_chunkedBodyChars := x10\<rparr> = flat (st\<lparr>rb_chunkedBodyChars := x10\<rparr>)"
  "flat st\<lparr>rb_currentChunkSize := x11\<rparr> = flat (st\<lparr>rb_currentChunkSize := x11\<rparr>)"
  "flat st\<lparr>rb_currentChunkBytesRead := x12\<rparr> = flat (st\<lparr>rb_currentChunkBytesRead := x12\<rparr>)"
  "flat st\<lparr>rb_currentChunkCrlfRead := x13\<rparr> = flat (st\<lparr>rb_currentChunkCrlfRead := x13\<rparr>)"
  "flat st\<lparr>rb_boundary := x14\<rparr> = flat (st\<lparr>rb_boundary := x14\<rparr>)" "flat st\<lparr>rb_multiPartyFormData := x15\<rparr> = flat (st\<lparr>rb_multiPartyFormData := x15\<rparr>)"
  "flat st\<lparr>rb_formDataPart := x16\<rparr> = flat (st\<lparr>rb_formDataPart := x16\<rparr>)" "flat st\<lparr>rb_postBody := x17\<rparr> = flat (st\<lparr>rb_postBody := x17\<rparr>)"
  "flat st\<lparr>rb_params := x18\<rparr> = flat (st\<lparr>rb_params := x18\<rparr>)" "flat st\<lparr>rb_completed := x19\<rparr> = flat (st\<lparr>rb_completed := x19\<rparr>)"
  "flat st\<lparr>rp_params := x20\<rparr> = flat (st\<lparr>rp_params := x20\<rparr>)" "flat st\<lparr>rp_hasCompleted := x21\<rparr> = flat (st\<lparr>rp_hasCompleted := x21\<rparr>)"
  by (simp_all add: flat_def)

lemma flat_no_buffers [simp]:
  "flat st\<lparr>rb_postBodyBuffers := None\<rparr> = flat (st\<lparr>rb_postBodyBuffers := None\<rparr>)"
  "flat st\<lparr>rb_postBodyBuffers := Some []\<rparr> = flat (st\<lparr>rb_postBodyBuffers := Some []\<rparr>)"
  by (simp_all add: flat_def)

lemma flat_getHeader [simp]: "getHeader n (flat st) = getHeader n st"
  by (simp add: getHeader_def)

lemma flat_requestDone [simp]: "requestDone env (flat st) = flat (requestDone env st)"
  by (simp add: requestDone_def)

lemma flat_params [simp]:
  "parseApplicationJsonParams env (flat st) = flatR (parseApplicationJsonParams env st)"
  "parseQueryStringPostParams env (flat st) = flatR (parseQueryStringPostParams env st)"
  by (simp_all add: parseApplicationJsonParams_def parseQueryStringPostParams_def nonempty_body_def bindE_def
      split: option.split sum.split)

lemma flat_then_done [simp]: "bindE (flatR r) (\<lambda>st. Inr (requestDone env st)) = flatR (bindE r (\<lambda>st. Inr (requestDone env st)))"
  by (rule flatR_bind) simp

lemma flat_completeRequest [simp]: "completeRequest env (flat st) = flatR (completeRequest env st)"
proof -
  let ?json = "case getHeader ''content-type'' (st\<lparr>rb_state := Status, rb_completed := True\<rparr>) of None \<Rightarrow> False | Some v \<Rightarrow> prefix ''application/json'' v"
  show ?thesis
    by (cases ?json; cases "rb_multiPartyFormData st"; simp add: completeRequest_def Let_def)
qed

lemma flat_postRequestDone [simp]: "postRequestDone env (flat st) = flatR (postRequestDone env st)"
  by (cases "rb_postBodyBuffers st") (simp_all add: postRequestDone_def)

lemma flat_parse_line [simp]: "parse_line env line (flat st) = flatR (parse_line env line st)"
proof -
  have status: "parseStatusLine line (flat st) = flatR (parseStatusLine line st)"
    by (simp add: parseStatusLine_def split: option.split)
  have start: "start_body env (flat s) = flatR (start_body env s)" for s
    by (simp add: start_body_def Let_def split: option.split)
  have chunked: "isChunkedEncoding (flat s) = isChunkedEncoding s" for s by (simp add: isChunkedEncoding_def)
  have headers: "parseHeader env line (flat st) = flatR (parseHeader env line st)"
    by (simp add: parseHeader_def addHeader_def Let_def start chunked initializeChunkedBody_def split: option.split)
  have chunk_size: "parseChunkSizeLine line (flat st) = flatR (parseChunkSizeLine line st)"
    by (simp add: parseChunkSizeLine_def Let_def split: jsnum.split)
  have "finishChunkedBody (flat st) = flat (finishChunkedBody st)" by (simp add: finishChunkedBody_def split: option.split)
  with status headers chunk_size show ?thesis
    by (cases "rb_state st") (simp_all add: parse_line_def newFormDataPart_def split: option.split)
qed

lemma flat_formDataPartDone [simp]: "formDataPartDone env (flat st) = flatR (formDataPartDone env st)"
  by (simp add: formDataPartDone_def onFormDataPart_def bindE_def split: option.split sum.split)

lemma flat_feedByte [simp]: "feedByte env c (flat st) = flatR (feedByte env c st)"
proof -
  have part: "feed_part_byte env c (flat s) = flatR (feed_part_byte env c s)" for s
  proof -
    have "bindE (flatR r) (completeRequest env) = flatR (bindE r (completeRequest env))" for r
      by (rule flatR_bind) simp
    moreover have "bindE (flatR r) (\<lambda>st. Inr (newFormDataPart st)) = flatR (bindE r (\<lambda>st. Inr (newFormDataPart st)))" for r
      by (rule flatR_bind) (simp add: newFormDataPart_def)
    moreover have "bindE (flatR r) (\<lambda>_. Inl Part_Length_Stub) = flatR (bindE r (\<lambda>_. Inl Part_Length_Stub))" for r
      by (rule flatR_bind) simp
    ultimately show ?thesis
      by (simp add: feed_part_byte_def Let_def split: option.split)
  qed
  show ?thesis
    by (cases "rb_state st"; cases "rb_readingBody st")
      (simp_all add: feedByte_def Let_def part split: option.split)
qed

subsection \<open>One byte at a time\<close>

definition step_byte :: "request_env \<Rightarrow> char \<Rightarrow> request_parser \<Rightarrow> request_error + request_parser" where
  "step_byte env c st = bindE (feed_some env [c] st) (\<lambda>(st', _). Inr st')"

fun run_bytes :: "request_env \<Rightarrow> string \<Rightarrow> request_parser \<Rightarrow> request_error + (request_parser \<times> string option)" where
  "run_bytes env [] st = Inr (st, None)"
| "run_bytes env (c # cs) st =
     bindE (step_byte env c st) (\<lambda>st'. if rb_completed st' then Inr (st', Some cs) else run_bytes env cs st')"

definition flatF :: "request_error + (request_parser \<times> string option) \<Rightarrow> request_error + (request_parser \<times> string option)" where
  "flatF = map_sum id (apfst flat)"

lemma flatF_simps [simp]: "flatF (Inl e) = Inl e" "flatF (Inr (st, r)) = Inr (flat st, r)"
  by (simp_all add: flatF_def)

lemma step_byte_line:
  assumes "line_state (rb_state st)"
  shows "step_byte env c st =
    (let st1 = (if rb_readingBody st then st\<lparr>rb_bodyLength := rb_bodyLength st + 1\<rparr> else st) in
     if c = LF then parse_line env (rb_data st @ [LF]) (st1\<lparr>rb_data := []\<rparr>) else Inr (st1\<lparr>rb_data := rb_data st @ [c]\<rparr>))"
  using assms by (auto simp: step_byte_def feed_some_def feedLine_def bindE_def Let_def split: sum.split)

lemma step_byte_other:
  assumes "\<not> line_state (rb_state st)" "rb_state st \<noteq> Post_Body"
  shows "step_byte env c st = feedByte env c st"
  using assms by (auto simp: step_byte_def feed_some_def bindE_def split: sum.split)

text \<open>What happens once a step has been made, and runs from states that differ in the cutting only.\<close>

definition run_on :: "request_env \<Rightarrow> string \<Rightarrow> request_parser \<Rightarrow> request_error + (request_parser \<times> string option)" where
  "run_on env cs st = (if rb_completed st then Inr (st, Some cs) else run_bytes env cs st)"

lemma step_byte_post:
  assumes "rb_state st = Post_Body"
  shows "step_byte env c st =
    (case (rb_postBodyBuffers st, rb_contentLength st) of
       (None, _) \<Rightarrow> Inl (Not_Initialized ''postBodyBuffers'')
     | (Some bs, None) \<Rightarrow> Inl (Not_Initialized ''contentLength'')
     | (Some bs, Some n) \<Rightarrow>
         (let st1 = st\<lparr>rb_postBodyBuffers := Some (bs @ [[c]]), rb_bodyLength := rb_bodyLength st + 1\<rparr> in
          if length_reached (Some n) (rb_bodyLength st + 1) then postRequestDone env st1 else Inr st1))"
proof -
  have one: "body_bytes n k (Suc 0) = Suc 0" for n k
    by (auto simp: body_bytes_def min_def split: jsnum.split)
  show ?thesis
    by (auto simp: step_byte_def feed_some_def assms line_state_def feedPostBody_def one bindE_def Let_def
        split: option.split sum.split)
qed

lemma step_byte_flat: "flatR (step_byte env c (flat st)) = flatR (step_byte env c st)"
proof (cases "line_state (rb_state st)")
  case True
  then show ?thesis by (simp add: step_byte_line Let_def)
next
  case False
  show ?thesis
  proof (cases "rb_state st = Post_Body")
    case True
    have buffers: "flat (flat st\<lparr>rb_postBodyBuffers := Some (flatten bs @ [[c]]), rb_bodyLength := n\<rparr>) =
        flat (st\<lparr>rb_postBodyBuffers := Some (bs @ [[c]]), rb_bodyLength := n\<rparr>)" for bs n
      by (simp add: flat_def flatten_def)
    have "postRequestDone env (flat st\<lparr>rb_postBodyBuffers := Some (flatten bs @ [[c]]), rb_bodyLength := n\<rparr>) =
        postRequestDone env (st\<lparr>rb_postBodyBuffers := Some (bs @ [[c]]), rb_bodyLength := n\<rparr>)" for bs n
      by (simp add: postRequestDone_def flat_def)
    with True buffers show ?thesis
      by (auto simp: step_byte_post Let_def split: option.split)
  next
    case other: False
    show ?thesis using False other by (simp add: step_byte_other)
  qed
qed

lemma flatR_cases:
  assumes "flatR r = flatR r'"
  obtains e where "r = Inl e" "r' = Inl e" | s s' where "r = Inr s" "r' = Inr s'" "flat s = flat s'"
  using assms by (cases r; cases r') auto

lemma run_flat: "flat st = flat st' \<Longrightarrow> flatF (run_bytes env cs st) = flatF (run_bytes env cs st')"
proof (induction cs arbitrary: st st')
  case (Cons c cs)
  have "flatR (step_byte env c st) = flatR (step_byte env c st')"
    by (metis Cons.prems step_byte_flat)
  then show ?case
  proof (cases rule: flatR_cases)
    case (2 s s')
    then have "rb_completed s = rb_completed s'" by (metis flat_fields(9))
    with 2 Cons.IH [of s s'] show ?thesis by simp
  qed simp
qed simp

lemma run_on_flat: "flat st = flat st' \<Longrightarrow> flatF (run_on env cs st) = flatF (run_on env cs st')"
  using run_flat [of st st' env cs] flat_fields(9) [of st] flat_fields(9) [of st'] by (simp add: run_on_def)

lemma run_line:
  assumes "line_state (rb_state st)" "\<not> rb_completed st" "LF \<notin> set xs"
  shows "run_bytes env (xs @ ys) st = run_bytes env ys
    (st\<lparr>rb_bodyLength := (if rb_readingBody st then rb_bodyLength st + length xs else rb_bodyLength st), rb_data := rb_data st @ xs\<rparr>)"
  using assms
proof (induction xs arbitrary: st)
  case (Cons x xs)
  let ?st = "(if rb_readingBody st then st\<lparr>rb_bodyLength := rb_bodyLength st + 1\<rparr> else st)\<lparr>rb_data := rb_data st @ [x]\<rparr>"
  have "step_byte env x st = Inr ?st" using Cons.prems by (auto simp: step_byte_line Let_def)
  moreover have "rb_completed ?st = rb_completed st" "line_state (rb_state ?st)" using Cons.prems by simp_all
  ultimately show ?case using Cons.IH [of ?st] Cons.prems by (simp split: if_splits)
qed simp

lemma run_feedLine:
  assumes "line_state (rb_state st)" "\<not> rb_completed st"
  shows "run_bytes env data st = bindE (feedLine env data st) (\<lambda>(st', rest). run_on env rest st')"
proof (cases "dropWhile (\<lambda>c. c \<noteq> LF) data = []")
  case True
  then have "LF \<notin> set data" by (simp add: dropWhile_eq_Nil_conv) blast
  with run_line [OF assms, of data env "[]"] assms True show ?thesis
    by (simp add: feedLine_def Let_def run_on_def)
next
  case False
  let ?xs = "takeWhile (\<lambda>c. c \<noteq> LF) data" and ?n = "\<lambda>k. if rb_readingBody st then rb_bodyLength st + k else rb_bodyLength st"
  from False have "hd (dropWhile (\<lambda>c. c \<noteq> LF) data) = LF" using hd_dropWhile by blast
  with False obtain ys where ys: "dropWhile (\<lambda>c. c \<noteq> LF) data = LF # ys" by (cases "dropWhile (\<lambda>c. c \<noteq> LF) data") simp_all
  then have data: "data = ?xs @ LF # ys" by (metis takeWhile_dropWhile_id)
  have "LF \<notin> set ?xs" by (auto dest: set_takeWhileD)
  define st1 where "st1 = st\<lparr>rb_bodyLength := ?n (length ?xs), rb_data := rb_data st @ ?xs\<rparr>"
  have "run_bytes env data st = run_bytes env (LF # ys) st1"
    using run_line [OF assms \<open>LF \<notin> set ?xs\<close>, of env "LF # ys"] data by (simp add: st1_def)
  also have "\<dots> = bindE (step_byte env LF st1) (run_on env ys)"
    unfolding run_bytes.simps run_on_def ..
  also have "step_byte env LF st1 = parse_line env (rb_data st @ ?xs @ [LF]) (st\<lparr>rb_bodyLength := ?n (length ?xs + 1), rb_data := []\<rparr>)"
    using assms(1) by (simp add: step_byte_line st1_def Let_def)
  finally show ?thesis by (simp add: feedLine_def Let_def ys bindE_assoc)
qed

lemma not_reached_before:
  assumes "i < body_bytes n k m" "0 < i"
  shows "\<not> length_reached (Some n) (k + i)"
proof (cases n)
  case (Fin q)
  with assms have "int i < \<lfloor>q - of_nat k\<rfloor>" by (auto simp: body_bytes_def min_def max_def split: if_splits)
  then have "int i + 1 \<le> \<lfloor>q - of_nat k\<rfloor>" by simp
  then have "of_int (int i + 1) \<le> q - of_nat k" unfolding le_floor_iff .
  then have "\<not> q \<le> of_nat (k + i)" by simp
  with Fin show ?thesis by (simp add: length_reached_def count_at_least_def)
qed (use assms in \<open>auto simp: body_bytes_def length_reached_def count_at_least_def min_def split: if_splits\<close>)

definition after_block :: "request_env \<Rightarrow> jsnum \<Rightarrow> string list \<Rightarrow> string \<Rightarrow> request_parser \<Rightarrow> request_error + request_parser" where
  "after_block env n bs p st =
     (let st1 = st\<lparr>rb_postBodyBuffers := Some (bs @ [p]), rb_bodyLength := rb_bodyLength st + length p\<rparr> in
      if length_reached (Some n) (rb_bodyLength st + length p) then postRequestDone env st1 else Inr st1)"

lemma after_block_flat:
  "flatF (bindE (after_block env n (bs @ [[c]]) p (st\<lparr>rb_postBodyBuffers := Some (bs @ [[c]]), rb_bodyLength := rb_bodyLength st + 1\<rparr>)) (run_on env q)) =
   flatF (bindE (after_block env n bs (c # p) st) (run_on env q))"
proof -
  let ?l = "st\<lparr>rb_postBodyBuffers := Some (bs @ [[c], p]), rb_bodyLength := Suc (rb_bodyLength st + length p)\<rparr>"
  let ?r = "st\<lparr>rb_postBodyBuffers := Some (bs @ [c # p]), rb_bodyLength := Suc (rb_bodyLength st + length p)\<rparr>"
  have "flat ?l = flat ?r" by (simp add: flat_def flatten_def)
  moreover have "postRequestDone env ?l = postRequestDone env ?r" by (simp add: postRequestDone_def)
  ultimately show ?thesis
    using run_on_flat [of ?l ?r env q] by (simp add: after_block_def Let_def)
qed

lemma run_block:
  assumes "rb_state st = Post_Body" "\<not> rb_completed st" "rb_postBodyBuffers st = Some bs" "rb_contentLength st = Some n" "p \<noteq> []"
    and "\<And>i. 0 < i \<Longrightarrow> i < length p \<Longrightarrow> \<not> length_reached (Some n) (rb_bodyLength st + i)"
  shows "flatF (run_bytes env (p @ q) st) = flatF (bindE (after_block env n bs p st) (run_on env q))"
  using assms
proof (induction p arbitrary: st bs)
  case (Cons c p)
  let ?st = "st\<lparr>rb_postBodyBuffers := Some (bs @ [[c]]), rb_bodyLength := rb_bodyLength st + 1\<rparr>"
  have step: "step_byte env c st = after_block env n bs [c] st"
    using Cons.prems by (simp add: step_byte_post after_block_def Let_def)
  show ?case
  proof (cases "p = []")
    case True
    then show ?thesis by (simp add: step run_on_def [abs_def])
  next
    case False
    then have "\<not> length_reached (Some n) (rb_bodyLength st + 1)" using Cons.prems(6) [of 1] by simp
    then have go: "run_bytes env ((c # p) @ q) st = run_bytes env (p @ q) ?st"
      using Cons.prems(2) by (simp add: step after_block_def Let_def)
    have "\<not> length_reached (Some n) (rb_bodyLength ?st + i)" if "0 < i" "i < length p" for i
      using Cons.prems(6) [of "Suc i"] that by simp
    with Cons.IH [of ?st "bs @ [[c]]"] Cons.prems False show ?thesis
      unfolding go after_block_flat [symmetric] by simp
  qed
qed simp

lemma run_feed_some:
  assumes "\<not> rb_completed st" "data \<noteq> []"
  shows "flatF (run_bytes env data st) = flatF (bindE (feed_some env data st) (\<lambda>(st', rest). run_on env rest st'))"
proof (cases "line_state (rb_state st)")
  case True
  then show ?thesis by (simp add: run_feedLine [OF True assms(1)] feed_some_def)
next
  case other: False
  show ?thesis
  proof (cases "rb_state st = Post_Body")
    case False
    from assms(2) obtain c cs where "data = c # cs" by (cases data) simp_all
    with other False show ?thesis
      by (simp add: step_byte_other feed_some_def bindE_assoc run_on_def [abs_def])
  next
    case True
    show ?thesis
    proof (cases "rb_postBodyBuffers st = None \<or> rb_contentLength st = None")
      case bad: True
      from assms(2) obtain c cs where "data = c # cs" by (cases data) simp_all
      with bad True other show ?thesis
        by (auto simp: step_byte_post feed_some_def feedPostBody_def split: option.split)
    next
      case False
      then obtain bs n where f: "rb_postBodyBuffers st = Some bs" "rb_contentLength st = Some n" by auto
      let ?k = "body_bytes n (rb_bodyLength st) (length data)"
      have k: "0 < ?k" "?k \<le> length data"
        using assms(2) body_bytes_pos [of "length data"] by (auto simp: body_bytes_def split: jsnum.split)
      have "flatF (run_bytes env (take ?k data @ drop ?k data) st) =
          flatF (bindE (after_block env n bs (take ?k data) st) (run_on env (drop ?k data)))"
        using True assms f k not_reached_before by (intro run_block) auto
      moreover have "feed_some env data st = bindE (after_block env n bs (take ?k data) st) (\<lambda>st'. Inr (st', drop ?k data))"
        using other True f k by (simp add: feed_some_def feedPostBody_def after_block_def Let_def min_def)
      ultimately show ?thesis by (simp add: bindE_assoc)
    qed
  qed
qed

text \<open>Feeding is the byte-wise run.\<close>

lemma feed_run: "\<not> rb_completed st \<Longrightarrow> flatF (feed_buffer env data st) = flatF (run_bytes env data st)"
proof (induction env data st rule: feed_buffer.induct)
  case (1 env data st)
  show ?case
  proof (cases "data = []")
    case True
    then show ?thesis by (simp add: feed_buffer.simps)
  next
    case False
    show ?thesis
    proof (cases "feed_some env data st")
      case (Inl e)
      with run_feed_some [OF 1(2) False, of env] False show ?thesis by (simp add: feed_buffer.simps)
    next
      case (Inr x)
      obtain st' rest where x: "x = (st', rest)" by (cases x)
      from 1 Inr x False have "\<not> rb_completed st' \<Longrightarrow> flatF (feed_buffer env rest st') = flatF (run_bytes env rest st')" by simp
      with run_feed_some [OF 1(2) False, of env] Inr x False show ?thesis
        by (subst feed_buffer.simps) (simp add: run_on_def)
    qed
  qed
qed

lemma run_append:
  "run_bytes env (xs @ ys) st = bindE (run_bytes env xs st)
     (\<lambda>(st', r). case r of Some rest \<Rightarrow> Inr (st', Some (rest @ ys)) | None \<Rightarrow> run_bytes env ys st')"
  by (induction xs arbitrary: st) (auto simp: bindE_def split: sum.split)

lemma run_not_completed: "run_bytes env xs st = Inr (st', None) \<Longrightarrow> \<not> rb_completed st \<Longrightarrow> \<not> rb_completed st'"
  by (induction xs arbitrary: st) (auto simp: bindE_eq_Inr split: if_splits)

end
