(* ===== verification/Request_Framing.thy ===== *)
theory Request_Framing
  imports Request_Pieces
begin

text \<open>
  What a client writes and what the parser makes of it. \<open>http_request\<close> is a request as a client means
  it, \<open>render\<close> its bytes, and \<open>received\<close> what an application sees of it: the reference that
  the parser is compared with. Multipart bodies are not among the rendered ones.
\<close>

subsection \<open>Requests\<close>

datatype framing = No_Body | Fixed string | Chunked "(string \<times> string) list"

record http_request =
  rq_method :: string
  rq_path :: string
  rq_version :: string
  rq_headers :: "(string \<times> string) list"
  rq_body :: framing

definition header_line :: "string \<times> string \<Rightarrow> string" where
  "header_line h = fst h @ '': '' @ snd h @ CRLF"

definition chunk :: "string \<times> string \<Rightarrow> string" where
  "chunk c = fst c @ CRLF @ snd c @ CRLF"

definition render_body :: "framing \<Rightarrow> string" where
  "render_body b =
     (case b of No_Body \<Rightarrow> [] | Fixed s \<Rightarrow> s | Chunked cs \<Rightarrow> concat (map chunk cs) @ ''0'' @ CRLF @ CRLF)"

definition render :: "http_request \<Rightarrow> string" where
  "render r = (rq_method r @ '' '' @ rq_path r @ '' HTTP/'' @ rq_version r @ CRLF) @
     concat (map header_line (rq_headers r)) @ CRLF @ render_body (rq_body r)"

subsection \<open>Requests that can be written\<close>

definition plain :: "string \<Rightarrow> bool" where
  "plain s \<longleftrightarrow> s \<noteq> [] \<and> list_all (\<lambda>c. \<not> is_newline c) s"

definition plain_header :: "string \<times> string \<Rightarrow> bool" where
  "plain_header h \<longleftrightarrow> plain (fst h) \<and> plain (snd h) \<and> split_last '': '' (CHR '' '' # snd h) = None"

definition request_headers :: "http_request \<Rightarrow> header list" where
  "request_headers r = fold (\<lambda>h. put_header (new_header (fst h) (snd h))) (rq_headers r) []"

definition header_value :: "string \<Rightarrow> header list \<Rightarrow> string option" where
  "header_value name hs = map_option h_value (find_header name hs)"

definition says_chunked :: "header list \<Rightarrow> bool" where
  "says_chunked hs \<longleftrightarrow>
     (case header_value ''transfer-encoding'' hs of None \<Rightarrow> False | Some v \<Rightarrow> contains_text ''chunked'' (js_toLowerCase v))"

definition says_multipart :: "header list \<Rightarrow> bool" where
  "says_multipart hs \<longleftrightarrow>
     (case header_value ''content-type'' hs of None \<Rightarrow> False | Some v \<Rightarrow> match_multipart v \<noteq> None)"

definition says_length :: "header list \<Rightarrow> jsnum option" where
  "says_length hs = map_option (js_parseInt 10) (header_value ''content-length'' hs)"

definition plain_chunk :: "string \<times> string \<Rightarrow> bool" where
  "plain_chunk c \<longleftrightarrow> snd c \<noteq> [] \<and> LF \<notin> set (fst c) \<and>
     (let token = js_trim (hd (split_char CHR '';'' (js_trim (fst c @ CRLF)))) in
      token \<noteq> [] \<and> js_parseInt 16 token = Fin (of_nat (length (snd c))))"

text \<open>The headers announce the body as it is written.\<close>

definition announced :: "http_request \<Rightarrow> bool" where
  "announced r \<longleftrightarrow>
     (let hs = request_headers r in
      case rq_body r of
        No_Body \<Rightarrow>
          \<not> expectsRequestBody (rq_method r) \<or>
          \<not> says_chunked hs \<and> \<not> says_multipart hs \<and> (says_length hs = None \<or> says_length hs = Some (Fin 0))
      | Fixed s \<Rightarrow>
          expectsRequestBody (rq_method r) \<and> \<not> says_chunked hs \<and> \<not> says_multipart hs \<and>
          s \<noteq> [] \<and> says_length hs = Some (Fin (of_nat (length s)))
      | Chunked cs \<Rightarrow> expectsRequestBody (rq_method r) \<and> says_chunked hs \<and> list_all plain_chunk cs)"

definition well_formed :: "http_request \<Rightarrow> bool" where
  "well_formed r \<longleftrightarrow>
     rq_method r \<noteq> [] \<and> list_all is_method_char (rq_method r) \<and>
     plain (rq_path r) \<and> CHR '' '' \<notin> set (rq_path r) \<and> plain (rq_version r) \<and>
     list_all plain_header (rq_headers r) \<and> announced r"

subsection \<open>What an application sees\<close>

record request_view =
  rv_method :: "string option"
  rv_path :: "string option"
  rv_version :: "string option"
  rv_headers :: "header list"
  rv_body :: "string option"
  rv_params :: jsval

definition view :: "request_parser \<Rightarrow> request_view" where
  "view st = \<lparr>rv_method = rb_method st, rv_path = rb_path st, rv_version = rb_version st, rv_headers = rb_headers st,
     rv_body = rb_postBody st, rv_params = rp_params st\<rparr>"

definition body_text :: "framing \<Rightarrow> string option" where
  "body_text b = (case b of No_Body \<Rightarrow> None | Fixed s \<Rightarrow> Some s | Chunked cs \<Rightarrow> Some (concat (map snd cs)))"

text \<open>The parameters in a body: JSON, or the pairs of a query string.\<close>

definition body_params :: "request_env \<Rightarrow> header list \<Rightarrow> string option \<Rightarrow> request_error + jsval" where
  "body_params env hs body =
     (case body of
        None \<Rightarrow> Inr (JObj [])
      | Some b \<Rightarrow>
          if b = [] then Inr (JObj [])
          else if (case header_value ''content-type'' hs of None \<Rightarrow> False | Some v \<Rightarrow> prefix ''application/json'' v)
          then (case json_body env b of None \<Rightarrow> Inl Bad_Json | Some v \<Rightarrow> Inr (incorporate env (JObj []) v))
          else bindE (lift_error Bad_Params (toObject (query_pairs env b))) (\<lambda>v. Inr (incorporate env (JObj []) v)))"

definition received :: "request_env \<Rightarrow> http_request \<Rightarrow> request_error + request_view" where
  "received env r =
     bindE (body_params env (request_headers r) (body_text (rq_body r))) (\<lambda>params.
       Inr \<lparr>rv_method = Some (rq_method r), rv_path = Some (rq_path r), rv_version = Some (rq_version r),
            rv_headers = request_headers r, rv_body = body_text (rq_body r), rv_params = incorporate env (JObj []) params\<rparr>)"

definition viewF :: "request_error + (request_parser \<times> string option) \<Rightarrow> request_error + (request_view \<times> string option)" where
  "viewF = map_sum id (apfst view)"

lemma viewF_simps [simp]: "viewF (Inl e) = Inl e" "viewF (Inr (st, r)) = Inr (view st, r)"
  by (simp_all add: viewF_def)

lemma view_flat [simp]: "view (flat st) = view st"
  by (simp add: view_def flat_def)

lemma viewF_flatF [simp]: "viewF (flatF r) = viewF r"
  by (cases r) (auto simp: viewF_def flatF_def)

lemma viewF_eq: "flatF r = flatF r' \<Longrightarrow> viewF r = viewF r'"
  by (metis viewF_flatF)

end
