(* ===== verification/Request_Roundtrip.thy ===== *)
theory Request_Roundtrip
  imports Request_Framing
begin

text \<open>
  Parsing what a client wrote: the lines of the head, and the three ways a body is framed.
\<close>

subsection \<open>The head\<close>

lemma run_whole_line:
  assumes "line_state (rb_state st)" "\<not> rb_completed st" "rb_data st = []" "LF \<notin> set xs"
  shows "run_bytes env (xs @ CRLF @ ys) st =
    bindE (parse_line env (xs @ CRLF)
      (st\<lparr>rb_bodyLength := (if rb_readingBody st then rb_bodyLength st + length xs + 2 else rb_bodyLength st)\<rparr>)) (run_on env ys)"
proof -
  have CR: "LF \<notin> set (xs @ [CR])" using assms(4) by (simp add: LF_def CR_def)
  have "takeWhile (\<lambda>c. c \<noteq> LF) ((xs @ [CR]) @ LF # ys) = xs @ [CR]"
    "dropWhile (\<lambda>c. c \<noteq> LF) ((xs @ [CR]) @ LF # ys) = LF # ys"
    using CR by (subst takeWhile_append2 dropWhile_append2; auto)+
  moreover have blank: "st\<lparr>rb_bodyLength := n, rb_data := []\<rparr> = st\<lparr>rb_bodyLength := n\<rparr>" "st\<lparr>rb_data := []\<rparr> = st" for n
    using assms(3) by (cases st; simp)+
  ultimately show ?thesis
    using run_feedLine [OF assms(1,2), of env "xs @ CRLF @ ys"] assms(3)
    by (simp add: feedLine_def Let_def CRLF_def bindE_assoc blank)
qed

lemma plain_LF: "plain s \<Longrightarrow> LF \<notin> set s"
  by (auto simp: plain_def list_all_iff is_newline_def)

lemma method_plain: "list_all is_method_char m \<Longrightarrow> list_all (\<lambda>c. \<not> is_newline c) m"
  by (auto simp: list_all_iff is_newline_def is_method_char_def CR_def LF_def)

lemma split_at_space:
  assumes "CHR '' '' \<notin> set p" "v \<noteq> []"
  shows "split_first '' HTTP/'' (p @ '' HTTP/'' @ v) = Some (p, v)"
proof (rule split_first_found)
  fix a b
  assume e: "p @ '' HTTP/'' @ v = a @ '' HTTP/'' @ b"
  show "length p \<le> length a"
  proof (rule ccontr)
    assume "\<not> length p \<le> length a"
    then have "p ! length a = (a @ '' HTTP/'' @ b) ! length a" "p ! length a \<in> set p"
      unfolding e [symmetric] by (simp_all add: nth_append)
    with assms(1) show False by simp
  qed
qed (use assms(2) in simp_all)

lemma match_status_line_rendered:
  assumes "m \<noteq> []" "list_all is_method_char m" "plain p" "CHR '' '' \<notin> set p" "plain v"
  shows "match_status_line (m @ '' '' @ p @ '' HTTP/'' @ v @ CRLF) = Some (m, p, v)"
proof -
  let ?s = "m @ '' '' @ p @ '' HTTP/'' @ v"
  have "list_all (\<lambda>c. \<not> is_newline c) ?s"
    using assms method_plain by (simp add: plain_def is_newline_def CR_def LF_def)
  then have content: "line_content (?s @ CRLF) = Some ?s" by (rule line_content_CRLF)
  have "\<not> is_method_char CHR '' ''" by (simp add: is_method_char_def)
  then have taken: "takeWhile is_method_char ?s = m"
    using assms(2) by (simp add: takeWhile_append list_all_iff)
  obtain c cs where p: "p = c # cs" using assms(3) by (cases p) (simp_all add: plain_def)
  have "split_first '' HTTP/'' (cs @ '' HTTP/'' @ v) = Some (cs, v)"
    using assms by (intro split_at_space) (simp_all add: p plain_def)
  then have "after_first_char (split_first '' HTTP/'') (p @ '' HTTP/'' @ v) = Some (p, v)"
    by (simp add: p after_first_char_def)
  with content taken assms(1) show ?thesis by (simp add: match_status_line_def Let_def)
qed

lemma readHeader_rendered:
  assumes "plain_header h"
  shows "readHeaderFromLine (header_line h) = Some (new_header (fst h) (snd h))"
proof -
  obtain c cs where n: "fst h = c # cs" using assms by (cases "fst h") (simp_all add: plain_header_def plain_def)
  have "split_last '': '' ('': '' @ snd h) = Some ([], snd h)"
    using assms by (simp add: plain_header_def plain_def)
  then have "split_last '': '' (cs @ '': '' @ snd h) = Some (cs, snd h)"
    by (induction cs) simp_all
  moreover have "line_content ((fst h @ '': '' @ snd h) @ CRLF) = Some (fst h @ '': '' @ snd h)"
    using assms by (intro line_content_CRLF) (simp add: plain_header_def plain_def is_newline_def CR_def LF_def)
  ultimately show ?thesis
    by (simp add: readHeaderFromLine_def match_header_def header_line_def n after_first_char_def)
qed

lemma readHeader_blank: "readHeaderFromLine CRLF = None"
  using line_content_CRLF [of "[]"] by (simp add: readHeaderFromLine_def match_header_def after_first_char_def)

lemma addHeader_eq:
  assumes "rb_contentLength st = says_length (rb_headers st)"
  shows "addHeader h st = st\<lparr>rb_headers := put_header h (rb_headers st), rb_contentLength := says_length (put_header h (rb_headers st))\<rparr>"
proof -
  have "js_trim (js_toLowerCase ''content-length'') = ''content-length''" by code_simp
  with assms show ?thesis
    by (simp add: addHeader_def Let_def says_length_def header_value_def find_header_put)
qed

lemma run_headers:
  assumes "rb_state st = Headers" "\<not> rb_completed st" "rb_data st = []" "\<not> rb_readingBody st"
    "rb_contentLength st = says_length (rb_headers st)" "list_all plain_header hs"
  shows "run_bytes env (concat (map header_line hs) @ ys) st = run_bytes env ys
    (let headers = fold (\<lambda>h. put_header (new_header (fst h) (snd h))) hs (rb_headers st) in
     st\<lparr>rb_headers := headers, rb_contentLength := says_length headers\<rparr>)"
  using assms
proof (induction hs arbitrary: st)
  case Nil
  then have "st\<lparr>rb_headers := rb_headers st, rb_contentLength := says_length (rb_headers st)\<rparr> = st" by (cases st) simp
  then show ?case by (simp add: Let_def)
next
  case (Cons h hs)
  let ?st = "addHeader (new_header (fst h) (snd h)) st"
  from Cons.prems have h: "plain_header h" by simp
  from h have "LF \<notin> set (fst h)" "LF \<notin> set (snd h)" by (simp_all add: plain_header_def plain_LF)
  then have "LF \<notin> set (fst h @ '': '' @ snd h)" by (simp add: LF_def)
  moreover have "parse_line env (header_line h) st = Inr ?st"
    using Cons.prems by (simp add: parse_line_def parseHeader_def readHeader_rendered [OF h])
  moreover have "st\<lparr>rb_bodyLength := rb_bodyLength st\<rparr> = st" by simp
  ultimately have "run_bytes env (header_line h @ concat (map header_line hs) @ ys) st = run_on env (concat (map header_line hs) @ ys) ?st"
    using Cons.prems run_whole_line [of st "fst h @ '': '' @ snd h" env "concat (map header_line hs) @ ys"]
    by (simp add: line_state_def header_line_def)
  also have "\<dots> = run_bytes env (concat (map header_line hs) @ ys) ?st"
    using Cons.prems by (simp add: run_on_def addHeader_eq)
  finally show ?case
    using Cons.prems Cons.IH [of ?st] by (simp add: addHeader_eq Let_def)
qed

definition head_state :: "http_request \<Rightarrow> request_parser" where
  "head_state r = new_parser\<lparr>rb_state := Headers, rb_method := Some (rq_method r), rb_version := Some (rq_version r),
     rb_path := Some (rq_path r), rb_headers := request_headers r, rb_contentLength := says_length (request_headers r)\<rparr>"

lemma run_head:
  assumes "well_formed r"
  shows "run_bytes env (render r @ rest) new_parser =
    bindE (parseHeader env CRLF (head_state r)) (run_on env (render_body (rq_body r) @ rest))"
proof -
  let ?ys = "concat (map header_line (rq_headers r)) @ CRLF @ render_body (rq_body r) @ rest"
  let ?line = "rq_method r @ '' '' @ rq_path r @ '' HTTP/'' @ rq_version r"
  let ?st = "new_parser\<lparr>rb_method := Some (rq_method r), rb_version := Some (rq_version r), rb_path := Some (rq_path r), rb_state := Headers\<rparr>"
  have "match_status_line (?line @ CRLF) = Some (rq_method r, rq_path r, rq_version r)"
    using assms match_status_line_rendered [of "rq_method r" "rq_path r" "rq_version r"] by (simp add: well_formed_def)
  then have "parse_line env (?line @ CRLF) (new_parser\<lparr>rb_bodyLength := 0\<rparr>) = Inr ?st"
    by (simp add: parse_line_def parseStatusLine_def new_parser_def)
  moreover have "LF \<notin> set ?line"
    using assms plain_LF by (auto simp: well_formed_def list_all_iff is_method_char_def LF_def)
  ultimately have "run_bytes env (?line @ CRLF @ ?ys) new_parser = run_on env ?ys ?st"
    using run_whole_line [of new_parser ?line env ?ys] by (simp add: new_parser_def line_state_def)
  also have "\<dots> = run_bytes env ?ys ?st" by (simp add: run_on_def new_parser_def)
  also have "\<dots> = run_bytes env ([] @ CRLF @ render_body (rq_body r) @ rest) (head_state r)"
    using assms run_headers [of ?st "rq_headers r" env "CRLF @ render_body (rq_body r) @ rest"]
    by (simp add: well_formed_def new_parser_def says_length_def header_value_def find_header_def head_state_def request_headers_def Let_def)
  also have "\<dots> = bindE (parse_line env CRLF (head_state r)) (run_on env (render_body (rq_body r) @ rest))"
    using run_whole_line [of "head_state r" "[]" env "render_body (rq_body r) @ rest"]
    by (simp add: head_state_def new_parser_def line_state_def)
  finally show ?thesis by (simp add: render_def parse_line_def head_state_def)
qed

subsection \<open>The end of a request\<close>

lemma getHeader_value: "getHeader n st = header_value n (rb_headers st)"
  by (simp add: getHeader_def header_value_def)

definition complete_view :: "request_env \<Rightarrow> request_parser \<Rightarrow> request_error + request_view" where
  "complete_view env st =
     bindE (body_params env (rb_headers st) (rb_postBody st)) (\<lambda>params.
       Inr (view st\<lparr>rv_params := incorporate env (rp_params st) params\<rparr>))"

lemma completeRequest_completed: "completeRequest env st = Inr st' \<Longrightarrow> rb_completed st'"
  by (auto simp: completeRequest_def Let_def bindE_eq_Inr requestDone_def parseApplicationJsonParams_def
      parseQueryStringPostParams_def split: if_splits option.splits)

lemma completeRequest_view:
  assumes "rb_params st = JObj []" "\<not> rb_multiPartyFormData st"
  shows "map_sum id view (completeRequest env st) = complete_view env st"
  using assms
  by (auto simp: completeRequest_def complete_view_def body_params_def nonempty_body_def Let_def getHeader_value
      parseApplicationJsonParams_def parseQueryStringPostParams_def requestDone_def view_def lift_error_def
      bindE_def split: option.split sum.split)

lemma complete_then:
  assumes "rb_params st = JObj []" "\<not> rb_multiPartyFormData st"
  shows "viewF (bindE (completeRequest env st) (run_on env rest)) = bindE (complete_view env st) (\<lambda>v. Inr (v, Some rest))"
proof (cases "completeRequest env st")
  case (Inl e)
  with completeRequest_view [OF assms, of env] show ?thesis by (cases "complete_view env st") simp_all
next
  case (Inr st')
  with completeRequest_completed have "rb_completed st'" .
  with Inr completeRequest_view [OF assms, of env] show ?thesis
    by (cases "complete_view env st") (simp_all add: run_on_def)
qed

subsection \<open>Bodies\<close>

lemma run_fixed:
  assumes "rb_state st = Post_Body" "\<not> rb_completed st" "rb_postBodyBuffers st = Some []" "rb_bodyLength st = 0"
    and "rb_contentLength st = Some (Fin (of_nat (length s)))" "s \<noteq> []" "rb_params st = JObj []" "\<not> rb_multiPartyFormData st"
  shows "viewF (run_bytes env (s @ rest) st) =
    bindE (complete_view env (st\<lparr>rb_postBody := Some s\<rparr>)) (\<lambda>v. Inr (v, Some rest))"
proof -
  let ?n = "Fin (of_nat (length s))"
  have "\<not> length_reached (Some ?n) (rb_bodyLength st + i)" if "i < length s" for i
    using that assms(4) by (simp add: length_reached_def count_at_least_def)
  then have run: "viewF (run_bytes env (s @ rest) st) = viewF (bindE (after_block env ?n [] s st) (run_on env rest))"
    using assms by (intro viewF_eq run_block) auto
  have "length_reached (Some ?n) (length s)"
    using assms(6) by (simp add: length_reached_def count_at_least_def)
  then have after: "after_block env ?n [] s st =
      completeRequest env (st\<lparr>rb_bodyLength := length s, rb_postBody := Some s, rb_postBodyBuffers := None\<rparr>)"
    using assms(4) by (simp add: after_block_def postRequestDone_def Let_def)
  show ?thesis
    unfolding run after using assms
    by (subst complete_then) (simp_all add: complete_view_def view_def)
qed

text \<open>The bytes of a chunk.\<close>

lemma run_chunk_data:
  assumes "rb_state st = Chunked_Data" "\<not> rb_completed st" "rb_readingBody st" "rb_chunkedBodyChars st = Some acc"
    and "rb_currentChunkSize st = Some (Fin (of_nat (k + length d)))" "rb_currentChunkBytesRead st = k" "d \<noteq> []"
  shows "run_bytes env (d @ ys) st = run_bytes env ys (st\<lparr>rb_bodyLength := rb_bodyLength st + length d,
    rb_chunkedBodyChars := Some (acc @ d), rb_currentChunkBytesRead := k + length d, rb_currentChunkCrlfRead := 0,
    rb_state := Chunked_Data_Crlf\<rparr>)"
  using assms
proof (induction d arbitrary: st acc k)
  case (Cons c d)
  let ?st = "st\<lparr>rb_bodyLength := rb_bodyLength st + 1, rb_chunkedBodyChars := Some (acc @ [c]), rb_currentChunkBytesRead := k + 1\<rparr>"
  have step: "step_byte env c st =
      Inr (if d = [] then ?st\<lparr>rb_currentChunkCrlfRead := 0, rb_state := Chunked_Data_Crlf\<rparr> else ?st)"
    using Cons.prems by (cases d)
      (simp_all add: step_byte_other line_state_def feedByte_def Let_def count_at_least_def)
  show ?case
  proof (cases "d = []")
    case True
    with Cons.prems step show ?thesis by simp
  next
    case False
    with Cons.prems Cons.IH [of ?st "acc @ [c]" "k + 1"] step show ?thesis by simp
  qed
qed simp

lemma run_chunk_end:
  assumes "rb_state st = Chunked_Data_Crlf" "\<not> rb_completed st" "rb_readingBody st" "rb_currentChunkCrlfRead st = 0"
  shows "run_bytes env (CRLF @ ys) st = run_bytes env ys (st\<lparr>rb_bodyLength := rb_bodyLength st + 2,
    rb_currentChunkCrlfRead := Suc (Suc 0), rb_currentChunkBytesRead := 0, rb_state := Chunked_Size\<rparr>)"
  using assms by (simp add: CRLF_def step_byte_other line_state_def feedByte_def Let_def)

lemma run_chunk:
  assumes "rb_state st = Chunked_Size" "\<not> rb_completed st" "rb_readingBody st" "rb_data st = []"
    and "rb_chunkedBodyChars st = Some acc" "plain_chunk c"
  shows "\<exists>n k. run_bytes env (chunk c @ ys) st = run_bytes env ys (st\<lparr>rb_bodyLength := n, rb_chunkedBodyChars := Some (acc @ snd c),
    rb_currentChunkSize := Some (Fin (of_nat (length (snd c)))), rb_currentChunkBytesRead := 0, rb_currentChunkCrlfRead := k\<rparr>)"
proof -
  let ?n = "rb_bodyLength st + length (fst c) + 2"
  let ?size = "st\<lparr>rb_bodyLength := ?n, rb_currentChunkSize := Some (Fin (of_nat (length (snd c)))), rb_currentChunkBytesRead := 0, rb_state := Chunked_Data\<rparr>"
  let ?data = "?size\<lparr>rb_bodyLength := ?n + length (snd c), rb_chunkedBodyChars := Some (acc @ snd c), rb_currentChunkBytesRead := length (snd c),
     rb_currentChunkCrlfRead := 0, rb_state := Chunked_Data_Crlf\<rparr>"
  have c: "snd c \<noteq> []" "LF \<notin> set (fst c)" using assms(6) by (simp_all add: plain_chunk_def)
  have "js_trim (fst c @ CRLF) \<noteq> []"
  proof
    assume "js_trim (fst c @ CRLF) = []"
    moreover have "hd (split_char CHR '';'' []) = []" "js_trim [] = []" by code_simp+
    ultimately show False using assms(6) by (simp add: plain_chunk_def Let_def)
  qed
  then have "parse_line env (fst c @ CRLF) (st\<lparr>rb_bodyLength := ?n\<rparr>) = Inr ?size"
    using assms(1,6) by (simp add: parse_line_def parseChunkSizeLine_def plain_chunk_def Let_def)
  then have "run_bytes env (chunk c @ ys) st = run_on env (snd c @ CRLF @ ys) ?size"
    using assms(1-4) c run_whole_line [of st "fst c" env "snd c @ CRLF @ ys"] by (simp add: chunk_def line_state_def)
  also have "\<dots> = run_bytes env (CRLF @ ys) ?data"
    using assms c run_chunk_data [of ?size acc 0 "snd c" env "CRLF @ ys"] by (simp add: run_on_def)
  also have "\<dots> = run_bytes env ys (?data\<lparr>rb_bodyLength := ?n + length (snd c) + 2, rb_currentChunkCrlfRead := Suc (Suc 0),
      rb_currentChunkBytesRead := 0, rb_state := Chunked_Size\<rparr>)"
    using assms run_chunk_end [of ?data env ys] by simp
  also have "?data\<lparr>rb_bodyLength := ?n + length (snd c) + 2, rb_currentChunkCrlfRead := Suc (Suc 0), rb_currentChunkBytesRead := 0, rb_state := Chunked_Size\<rparr> =
      st\<lparr>rb_bodyLength := ?n + length (snd c) + 2, rb_chunkedBodyChars := Some (acc @ snd c),
        rb_currentChunkSize := Some (Fin (of_nat (length (snd c)))), rb_currentChunkBytesRead := 0, rb_currentChunkCrlfRead := Suc (Suc 0)\<rparr>"
    using assms(1) by (cases st) simp
  finally show ?thesis by blast
qed

lemma run_chunks:
  assumes "rb_state st = Chunked_Size" "\<not> rb_completed st" "rb_readingBody st" "rb_data st = []"
    and "rb_chunkedBodyChars st = Some acc" "list_all plain_chunk cs"
  shows "\<exists>st'. run_bytes env (concat (map chunk cs) @ ys) st = run_bytes env ys st' \<and> rb_state st' = Chunked_Size \<and> \<not> rb_completed st' \<and>
    rb_readingBody st' \<and> rb_data st' = [] \<and> rb_chunkedBodyChars st' = Some (acc @ concat (map snd cs)) \<and>
    rb_params st' = rb_params st \<and> rb_multiPartyFormData st' = rb_multiPartyFormData st \<and> view st' = view st"
  using assms
proof (induction cs arbitrary: st acc)
  case Nil
  then show ?case by (intro exI [of _ st]) simp
next
  case (Cons c cs)
  from run_chunk [OF Cons.prems(1-5), of c env "concat (map chunk cs) @ ys"] Cons.prems(6)
  obtain n k where one: "run_bytes env (concat (map chunk (c # cs)) @ ys) st = run_bytes env (concat (map chunk cs) @ ys)
      (st\<lparr>rb_bodyLength := n, rb_chunkedBodyChars := Some (acc @ snd c), rb_currentChunkSize := Some (Fin (of_nat (length (snd c)))),
        rb_currentChunkBytesRead := 0, rb_currentChunkCrlfRead := k\<rparr>)" (is "_ = run_bytes _ _ ?st")
    by auto
  have "view ?st = view st" by (simp add: view_def)
  with one Cons.prems Cons.IH [of ?st "acc @ snd c"] show ?case by (simp add: view_def)
qed

text \<open>The last chunk and the empty trailer.\<close>

lemma run_last_chunk:
  assumes "rb_state st = Chunked_Size" "\<not> rb_completed st" "rb_readingBody st" "rb_data st = []" "rb_chunkedBodyChars st = Some acc"
    and "rb_params st = JObj []" "\<not> rb_multiPartyFormData st"
  shows "viewF (run_bytes env (''0'' @ CRLF @ CRLF @ rest) st) =
    bindE (complete_view env (st\<lparr>rb_postBody := Some acc\<rparr>)) (\<lambda>v. Inr (v, Some rest))"
proof -
  let ?trailer = "st\<lparr>rb_bodyLength := rb_bodyLength st + 3, rb_state := Chunked_Trailer\<rparr>"
  let ?last = "?trailer\<lparr>rb_bodyLength := rb_bodyLength st + 3 + 2\<rparr>"
  have zero: "js_trim (''0'' @ CRLF) = ''0''" "js_trim (hd (split_char CHR '';'' ''0'')) = ''0''" "js_parseInt 16 ''0'' = Fin 0" by code_simp+
  have "parse_line env (''0'' @ CRLF) (st\<lparr>rb_bodyLength := rb_bodyLength st + 3\<rparr>) = Inr ?trailer"
    using assms(1) zero by (simp add: parse_line_def parseChunkSizeLine_def Let_def)
  moreover have "LF \<notin> set ''0''" by (simp add: LF_def)
  ultimately have "run_bytes env (''0'' @ CRLF @ CRLF @ rest) st = run_on env ([] @ CRLF @ rest) ?trailer"
    using assms(1-4) run_whole_line [of st "''0''" env "CRLF @ rest"] by (simp add: line_state_def numeral_3_eq_3)
  also have "\<dots> = bindE (parse_line env CRLF ?last) (run_on env rest)"
    using assms(1-4) run_whole_line [of ?trailer "[]" env rest] by (simp add: run_on_def line_state_def)
  also have "parse_line env CRLF ?last = completeRequest env (finishChunkedBody ?last)" by (simp add: parse_line_def)
  finally show ?thesis
    using assms(5-7) by (simp add: complete_then finishChunkedBody_def) (simp add: complete_view_def view_def)
qed

lemma run_chunked:
  assumes "rb_state st = Chunked_Size" "\<not> rb_completed st" "rb_readingBody st" "rb_data st = []" "rb_chunkedBodyChars st = Some []"
    and "rb_params st = JObj []" "\<not> rb_multiPartyFormData st" "list_all plain_chunk cs"
  shows "viewF (run_bytes env (concat (map chunk cs) @ ''0'' @ CRLF @ CRLF @ rest) st) =
    bindE (complete_view env (st\<lparr>rb_postBody := Some (concat (map snd cs))\<rparr>)) (\<lambda>v. Inr (v, Some rest))"
proof -
  let ?ys = "''0'' @ CRLF @ CRLF @ rest"
  from run_chunks [OF assms(1-5,8), of env ?ys] obtain st' where st':
    "run_bytes env (concat (map chunk cs) @ ?ys) st = run_bytes env ?ys st'" "rb_state st' = Chunked_Size" "\<not> rb_completed st'"
    "rb_readingBody st'" "rb_data st' = []" "rb_chunkedBodyChars st' = Some (concat (map snd cs))"
    "rb_params st' = rb_params st" "rb_multiPartyFormData st' = rb_multiPartyFormData st" "view st' = view st"
    by auto
  have "complete_view env (st'\<lparr>rb_postBody := b\<rparr>) = complete_view env (st\<lparr>rb_postBody := b\<rparr>)" for b
    using st'(9) by (simp add: complete_view_def view_def)
  moreover have "rb_params st' = JObj []" "\<not> rb_multiPartyFormData st'" using assms(6,7) st'(7,8) by simp_all
  ultimately show ?thesis using run_last_chunk [OF st'(2-6)] unfolding st'(1) by metis
qed

subsection \<open>The round trip\<close>

lemma complete_received:
  assumes "rb_headers st = request_headers r" "rb_postBody st = body_text (rq_body r)" "rp_params st = JObj []"
    "rb_method st = Some (rq_method r)" "rb_path st = Some (rq_path r)" "rb_version st = Some (rq_version r)"
  shows "complete_view env st = received env r"
  using assms by (simp add: complete_view_def received_def view_def)

lemma run_render:
  assumes "well_formed r"
  shows "viewF (run_bytes env (render r @ rest) new_parser) = bindE (received env r) (\<lambda>v. Inr (v, Some rest))"
proof -
  let ?body = "head_state r\<lparr>rb_readingBody := True, rb_bodyLength := 0\<rparr>"
  have m: "rq_method r \<noteq> []" and ann: "announced r" using assms by (simp_all add: well_formed_def)
  have chunked: "isChunkedEncoding (head_state r) \<longleftrightarrow> says_chunked (request_headers r)"
    by (simp add: isChunkedEncoding_def says_chunked_def getHeader_value head_state_def)
  have multi: "(case getHeader ''content-type'' ?body of None \<Rightarrow> None | Some v \<Rightarrow> match_multipart v) = None"
    if "\<not> says_multipart (request_headers r)"
    using that by (simp add: says_multipart_def getHeader_value head_state_def split: option.splits)
  have blank: "parseHeader env CRLF (head_state r) =
      (if \<not> expectsRequestBody (rq_method r) then completeRequest env (head_state r)
       else if says_chunked (request_headers r) then Inr (initializeChunkedBody ?body)
       else start_body env (head_state r))"
    using m chunked by (simp add: parseHeader_def readHeader_blank head_state_def)
  note head = run_head [OF assms, of env rest]
  show ?thesis
  proof (cases "rq_body r")
    case No_Body
    then have "parseHeader env CRLF (head_state r) = completeRequest env (head_state r) \<or>
        parseHeader env CRLF (head_state r) = completeRequest env ?body"
      using ann blank multi by (auto simp: announced_def start_body_def Let_def head_state_def)
    then show ?thesis
      unfolding head using No_Body by (auto simp: render_body_def complete_then complete_received body_text_def head_state_def new_parser_def)
  next
    case (Fixed s)
    then have "parseHeader env CRLF (head_state r) = Inr (?body\<lparr>rb_postBodyBuffers := Some [], rb_state := Post_Body\<rparr>)"
      using ann blank multi by (auto simp: announced_def start_body_def Let_def head_state_def)
    with Fixed ann show ?thesis
      unfolding head by (auto simp: run_on_def render_body_def run_fixed complete_received body_text_def head_state_def new_parser_def
          announced_def Let_def)
  next
    case (Chunked cs)
    let ?st = "initializeChunkedBody ?body"
    have start: "rb_state ?st = Chunked_Size" "\<not> rb_completed ?st" "rb_readingBody ?st" "rb_data ?st = []" "rb_chunkedBodyChars ?st = Some []"
      "rb_params ?st = JObj []" "\<not> rb_multiPartyFormData ?st"
      by (simp_all add: initializeChunkedBody_def head_state_def new_parser_def)
    from Chunked ann blank have "parseHeader env CRLF (head_state r) = Inr ?st" "list_all plain_chunk cs"
      by (simp_all add: announced_def Let_def)
    with run_chunked [OF start, of cs env rest] Chunked start show ?thesis
      by (simp add: head run_on_def render_body_def complete_received body_text_def)
        (simp add: complete_received body_text_def initializeChunkedBody_def head_state_def new_parser_def)
  qed
qed

end
