(* ===== verification/Request_Client.thy ===== *)
theory Request_Client
  imports Request_Buffer
begin

text \<open>
  One connection of the HTTP server (\<open>src/src/http-server/client/index.js\<close>): bytes are parsed
  into requests, every complete request gets a runner at once, and the responses of the runners are
  sent in the order of the requests. Runners are numbered in the order they are started; what a runner
  does, the bytes of a response and how long it takes to send are not modelled. A connection that has become a websocket
  hands its bytes to the session.
\<close>

datatype client_state = Initial | RequestStarted | Websocket

datatype client_output =
    Response nat
  | Broken_Response nat
  | Bad_Request
  | Bad_Upgrade
  | Switching_Protocols
  | To_Session string
  | Close

record runner =
  rn_id :: nat
  rn_request :: request_parser
  rn_done :: bool

record http_client =
  cl_state :: client_state
  cl_current :: "request_parser option"
  cl_session :: bool
  cl_started :: nat
  cl_runners :: "runner list"
  cl_sending :: "runner option"
  cl_output :: "client_output list"

definition new_client :: http_client where
  "new_client = \<lparr>cl_state = Initial, cl_current = None, cl_session = False, cl_started = 0, cl_runners = [], cl_sending = None, cl_output = []\<rparr>"

definition emit :: "client_output list \<Rightarrow> http_client \<Rightarrow> http_client" where
  "emit os cl = cl\<lparr>cl_output := cl_output cl @ os\<rparr>"

subsection \<open>Requests\<close>

definition isWebsocketUpgrade :: "request_parser \<Rightarrow> bool" where
  "isWebsocketUpgrade st \<longleftrightarrow>
     (case getHeader ''upgrade'' st of None \<Rightarrow> False | Some v \<Rightarrow> js_toLowerCase v = ''websocket'') \<and>
     (case getHeader ''connection'' st of None \<Rightarrow> False | Some v \<Rightarrow> contains_text ''upgrade'' (js_toLowerCase v))"

definition upgradeToWebsocket :: "request_parser \<Rightarrow> http_client \<Rightarrow> http_client" where
  "upgradeToWebsocket st cl =
     (case getHeader ''sec-websocket-key'' st of
        None \<Rightarrow> emit [Bad_Upgrade, Close] cl
      | Some k \<Rightarrow>
          if k = [] then emit [Bad_Upgrade, Close] cl
          else emit [Switching_Protocols] (cl\<lparr>cl_session := True, cl_state := Websocket\<rparr>))"

definition executeCurrentRequest :: "request_parser \<Rightarrow> http_client \<Rightarrow> http_client" where
  "executeCurrentRequest st cl =
     (if isWebsocketUpgrade st then upgradeToWebsocket st cl
      else cl\<lparr>cl_state := Initial, cl_started := Suc (cl_started cl),
              cl_runners := cl_runners cl @ [\<lparr>rn_id = cl_started cl, rn_request = st, rn_done = False\<rparr>]\<rparr>)"

definition handleBadRequest :: "http_client \<Rightarrow> http_client" where
  "handleBadRequest cl = emit [Bad_Request, Close] (cl\<lparr>cl_current := None, cl_state := Initial\<rparr>)"

text \<open>The loop of \<open>onWrite\<close>; it stops when the parser has used all bytes.\<close>

definition write_turn :: "request_env \<Rightarrow> string \<Rightarrow> http_client \<Rightarrow> http_client \<times> string" where
  "write_turn env remaining cl =
     (let cl1 = (if cl_state cl = Initial then cl\<lparr>cl_current := Some new_parser, cl_state := RequestStarted\<rparr> else cl) in
      if cl_state cl1 \<noteq> RequestStarted then (handleBadRequest cl1, [])
      else
        (case cl_current cl1 of
           None \<Rightarrow> (handleBadRequest cl1, [])
         | Some st \<Rightarrow>
             (case feed env remaining st of
                Inl e \<Rightarrow> (handleBadRequest cl1, [])
              | Inr (st', None) \<Rightarrow> (cl1\<lparr>cl_current := Some st'\<rparr>, [])
              | Inr (st', Some rest) \<Rightarrow>
                  (let cl2 = executeCurrentRequest st' (cl1\<lparr>cl_current := Some st'\<rparr>) in
                   (if rest = [] then cl2 else cl2\<lparr>cl_state := Initial\<rparr>, rest)))))"

lemma feed_buffer_length: "feed_buffer env data st = Inr (st', Some rest) \<Longrightarrow> length rest < length data"
proof (induction env data st rule: feed_buffer.induct)
  case (1 env data st)
  from 1(2) have ne: "data \<noteq> []" by (subst (asm) feed_buffer.simps) (simp split: if_splits)
  from 1(2) ne obtain st1 rest1 where some: "feed_some env data st = Inr (st1, rest1)"
    by (subst (asm) feed_buffer.simps) (auto split: sum.splits)
  note shorter = feed_some_length [OF some ne]
  show ?case
  proof (cases "rb_completed st1")
    case True
    with 1(2) ne some have "rest = rest1" by (subst (asm) feed_buffer.simps) simp
    with shorter show ?thesis by simp
  next
    case False
    with 1(2) ne some have "feed_buffer env rest1 st1 = Inr (st', Some rest)" by (subst (asm) feed_buffer.simps) simp
    with 1(1) [OF ne some _ False] shorter show ?thesis by simp
  qed
qed

lemma write_turn_length: "remaining \<noteq> [] \<Longrightarrow> length (snd (write_turn env remaining cl)) < length remaining"
  by (auto simp: write_turn_def Let_def feed_def split: option.split sum.split dest: feed_buffer_length)

function write_loop :: "request_env \<Rightarrow> string \<Rightarrow> http_client \<Rightarrow> http_client" where
  "write_loop env remaining cl =
     (if remaining = [] then cl
      else let (cl', rest) = write_turn env remaining cl in write_loop env rest cl')"
  by pat_completeness auto
termination
proof (relation "measure (\<lambda>(env, remaining, cl). length remaining)")
  fix env remaining cl x cl' rest
  assume "remaining \<noteq> []" "x = write_turn env remaining cl" "(cl', rest) = x"
  then show "((env, rest, cl'), env, remaining, cl) \<in> measure (\<lambda>(env, remaining, cl). length remaining)"
    using write_turn_length [of remaining env cl] by (metis case_prod_conv in_measure snd_conv)
qed simp

declare write_loop.simps [simp del]

definition onWrite :: "request_env \<Rightarrow> string \<Rightarrow> http_client \<Rightarrow> http_client" where
  "onWrite env data cl = (if cl_session cl then emit [To_Session data] cl else write_loop env data cl)"

subsection \<open>Responses\<close>

definition shouldCloseConnection :: "request_parser \<Rightarrow> bool" where
  "shouldCloseConnection st =
     (let connectionHeader = map_option (\<lambda>v. js_trim (js_toLowerCase v)) (getHeader ''connection'' st);
          tokens = (case connectionHeader of
                      None \<Rightarrow> []
                    | Some h \<Rightarrow> if h = [] then [] else filter (\<lambda>t. t \<noteq> []) (map js_trim (split_char CHR '','' h)))
      in rb_version st \<noteq> Some ''websocket'' \<and>
         (''close'' \<in> set tokens \<or> rb_version st = Some ''1.0'' \<and> connectionHeader \<noteq> Some ''keep-alive''))"

text \<open>
  \<open>sendDoneRequests\<close>: the first runner is taken once it is done, and the next only after its response
  has been sent.
\<close>

definition sendDoneRequests :: "http_client \<Rightarrow> http_client" where
  "sendDoneRequests cl =
     (case cl_runners cl of
        r # rs \<Rightarrow> if cl_sending cl = None \<and> rn_done r then cl\<lparr>cl_runners := rs, cl_sending := Some r\<rparr> else cl
      | [] \<Rightarrow> cl)"

definition requestDone_client :: "nat \<Rightarrow> http_client \<Rightarrow> http_client" where
  "requestDone_client i cl =
     sendDoneRequests (cl\<lparr>cl_runners := map (\<lambda>r. if rn_id r = i then r\<lparr>rn_done := True\<rparr> else r) (cl_runners cl)\<rparr>)"

text \<open>
  The response has been sent, or sending it failed, which ends the drain. In the state \<open>initial\<close> the
  current request is the one of the last runner.
\<close>

definition response_sent :: "http_client \<Rightarrow> http_client" where
  "response_sent cl =
     (case cl_sending cl of
        None \<Rightarrow> cl
      | Some r \<Rightarrow>
          (let cl1 = cl\<lparr>cl_sending := None,
                 cl_current := (if Suc (rn_id r) = cl_started cl \<and> cl_state cl = Initial then None else cl_current cl)\<rparr> in
           sendDoneRequests (emit (Response (rn_id r) # (if shouldCloseConnection (rn_request r) then [Close] else [])) cl1)))"

definition response_failed :: "http_client \<Rightarrow> http_client" where
  "response_failed cl =
     (case cl_sending cl of None \<Rightarrow> cl | Some r \<Rightarrow> emit [Broken_Response (rn_id r), Close] (cl\<lparr>cl_sending := None\<rparr>))"

end
