(* ===== verification/Request_Stream.thy ===== *)
theory Request_Stream
  imports Request_Roundtrip Request_Client
begin

text \<open>
  A connection that gets the bytes of several requests in pieces that need not end where a request
  ends: what its parser still waits for, and the requests it starts.
\<close>

subsection \<open>A parser in the middle of a request\<close>

text \<open>The parser of a request and its buffer complete together.\<close>

definition in_step :: "request_parser \<Rightarrow> bool" where
  "in_step st \<longleftrightarrow> rp_hasCompleted st = rb_completed st"

lemma in_step_complete: "completeRequest env st = Inr st' \<Longrightarrow> in_step st'"
  by (auto simp: completeRequest_def Let_def bindE_eq_Inr requestDone_def in_step_def parseApplicationJsonParams_def
      parseQueryStringPostParams_def split: if_splits option.splits)

lemma in_step_done: "formDataPartDone env st = Inr st' \<Longrightarrow> in_step st \<Longrightarrow> in_step st'"
  by (auto simp: formDataPartDone_def onFormDataPart_def bindE_eq_Inr in_step_def split: option.splits)

lemma in_step_line: "parse_line env line st = Inr st' \<Longrightarrow> in_step st \<Longrightarrow> in_step st'"
  by (auto simp: parse_line_def parseStatusLine_def parseHeader_def start_body_def Let_def addHeader_def initializeChunkedBody_def
      parseChunkSizeLine_def newFormDataPart_def in_step_def
      split: buffer_state.splits option.splits if_splits jsnum.splits dest!: in_step_complete [unfolded in_step_def])

lemma in_step_part: "feed_part_byte env c st = Inr st' \<Longrightarrow> in_step st \<Longrightarrow> in_step st'"
  by (auto simp: feed_part_byte_def Let_def bindE_eq_Inr newFormDataPart_def in_step_def
      split: option.splits if_splits dest!: in_step_complete [unfolded in_step_def] in_step_done [unfolded in_step_def])

lemma in_step_byte: "step_byte env c st = Inr st' \<Longrightarrow> in_step st \<Longrightarrow> in_step st'"
proof -
  assume step: "step_byte env c st = Inr st'" and st: "in_step st"
  consider "line_state (rb_state st)" | "rb_state st = Post_Body" | "\<not> line_state (rb_state st)" "rb_state st \<noteq> Post_Body" by blast
  then show "in_step st'"
  proof cases
    case 1
    have "in_step (s\<lparr>rb_data := d\<rparr>) = in_step s" "in_step (s\<lparr>rb_bodyLength := n\<rparr>) = in_step s" for s d n by (simp_all add: in_step_def)
    with 1 step st show ?thesis
      by (auto simp: step_byte_line Let_def split: if_splits dest!: in_step_line)
  next
    case 2
    with step st show ?thesis
      by (auto simp: step_byte_post Let_def postRequestDone_def in_step_def split: option.splits if_splits
          dest!: in_step_complete [unfolded in_step_def])
  next
    case 3
    have "in_step (s\<lparr>rb_bodyLength := n\<rparr>) = in_step s" for s n by (simp add: in_step_def)
    with 3 step st show ?thesis
      by (auto simp: step_byte_other feedByte_def Let_def split: buffer_state.splits option.splits if_splits
          dest!: in_step_part) (auto simp: in_step_def)
  qed
qed

lemma in_step_run: "run_bytes env xs st = Inr (st', r) \<Longrightarrow> in_step st \<Longrightarrow> in_step st'"
proof (induction xs arbitrary: st)
  case (Cons x xs)
  then show ?case by (auto simp: bindE_eq_Inr split: if_splits dest: in_step_byte)
qed simp

lemma in_step_flat: "flat s = flat s' \<Longrightarrow> in_step s = in_step s'"
proof -
  have "in_step (flat s) = in_step s" for s by (simp add: in_step_def flat_def)
  then show "flat s = flat s' \<Longrightarrow> in_step s = in_step s'" by metis
qed

text \<open>The bytes \<open>u\<close> are what is left of the request \<open>r\<close>.\<close>

definition waits_for :: "request_env \<Rightarrow> string \<Rightarrow> http_request \<Rightarrow> request_parser \<Rightarrow> bool" where
  "waits_for env u r st \<longleftrightarrow> \<not> rb_completed st \<and> in_step st \<and>
     viewF (run_bytes env u st) = bindE (received env r) (\<lambda>v. Inr (v, Some []))"

lemma waits_for_new: "well_formed r \<Longrightarrow> waits_for env (render r) r new_parser"
  using run_render [of r env "[]"] by (simp add: waits_for_def new_parser_def in_step_def)

lemma flatF_Inr: "flatF x = Inr (s', o') \<Longrightarrow> \<exists>s. x = Inr (s, o') \<and> flat s = s'"
  by (cases x) (auto simp: flatF_def)

lemma viewF_Inr: "viewF x = Inr (v, o') \<Longrightarrow> \<exists>s. x = Inr (s, o') \<and> view s = v"
  by (cases x) (auto simp: viewF_def)

lemma feed_flat:
  assumes "\<not> rb_completed st" "in_step st" "run_bytes env p st = Inr (s, left)"
  shows "\<exists>st'. feed env p st = Inr (st', left) \<and> flat st' = flat s \<and> in_step st'"
proof -
  from feed_run [OF assms(1), of env p] assms(3) obtain st' where "feed_buffer env p st = Inr (st', left)" "flat st' = flat s"
    by (auto dest: flatF_Inr)
  with assms in_step_run [OF assms(3)] in_step_flat [of st' s] show ?thesis by (simp add: feed_def in_step_def)
qed

lemma feed_part_of_request:
  assumes "waits_for env (p @ u) r st" "u \<noteq> []" "received env r = Inr v"
  shows "\<exists>st'. feed env p st = Inr (st', None) \<and> waits_for env u r st'"
proof -
  from assms obtain s where run: "run_bytes env (p @ u) st = Inr (s, Some [])" "view s = v"
    by (auto simp: waits_for_def dest: viewF_Inr)
  then obtain s1 left where s1: "run_bytes env p st = Inr (s1, left)"
    by (cases "run_bytes env p st") (auto simp: run_append)
  with run assms(2) have left: "left = None" by (cases left) (auto simp: run_append)
  with s1 run have rest: "run_bytes env u s1 = Inr (s, Some [])" by (simp add: run_append)
  from assms(1) s1 left feed_flat [of st env p s1 None] obtain st' where
    st': "feed env p st = Inr (st', None)" "flat st' = flat s1" "in_step st'" by (auto simp: waits_for_def)
  have "viewF (run_bytes env u st') = viewF (run_bytes env u s1)" by (intro viewF_eq run_flat st'(2))
  moreover have "\<not> rb_completed st'"
    using run_not_completed [of env p st s1] s1 left assms(1) flat_fields(9) [of st'] flat_fields(9) [of s1] st'(2)
    by (simp add: waits_for_def)
  ultimately show ?thesis using st' rest run(2) assms(3) by (auto simp: waits_for_def)
qed

lemma feed_whole_request:
  assumes "waits_for env u r st" "received env r = Inr v"
  shows "\<exists>st'. feed env (u @ q) st = Inr (st', Some q) \<and> view st' = v"
proof -
  from assms obtain s where "run_bytes env u st = Inr (s, Some [])" "view s = v"
    by (auto simp: waits_for_def dest: viewF_Inr)
  then have "run_bytes env (u @ q) st = Inr (s, Some q)" by (simp add: run_append)
  with assms(1) feed_flat [of st env "u @ q" s "Some q"] \<open>view s = v\<close> show ?thesis
    by (metis view_flat waits_for_def)
qed

text \<open>Feeding pieces one after the other, until the request is complete.\<close>

fun feed_pieces :: "request_env \<Rightarrow> string list \<Rightarrow> request_parser \<Rightarrow> request_error + (request_parser \<times> string option)" where
  "feed_pieces env [] st = Inr (st, None)"
| "feed_pieces env (p # ps) st =
     bindE (feed env p st) (\<lambda>(st', left).
       case left of Some rest \<Rightarrow> Inr (st', Some (rest @ concat ps)) | None \<Rightarrow> feed_pieces env ps st')"

lemma feed_eq_run: "\<not> rb_completed st \<Longrightarrow> in_step st \<Longrightarrow> flatF (feed env p st) = flatF (run_bytes env p st)"
  by (simp add: feed_def in_step_def feed_run)

lemma feed_pieces_run:
  "\<not> rb_completed st \<Longrightarrow> in_step st \<Longrightarrow> flatF (feed_pieces env ps st) = flatF (run_bytes env (concat ps) st)"
proof (induction ps arbitrary: st)
  case (Cons p ps)
  show ?case
  proof (cases "run_bytes env p st")
    case (Inl e)
    with feed_eq_run [OF Cons.prems, of env p] have "feed env p st = Inl e"
      by (cases "feed env p st") (auto simp: flatF_def)
    with Inl show ?thesis by (simp add: run_append)
  next
    case (Inr x)
    obtain s left where x: "x = (s, left)" by (cases x)
    from feed_flat [OF Cons.prems] Inr x obtain st' where
      st': "feed env p st = Inr (st', left)" "flat st' = flat s" "in_step st'" by blast
    show ?thesis
    proof (cases left)
      case None
      with run_not_completed Inr x Cons.prems(1) have "\<not> rb_completed s" by blast
      with st'(2) have "\<not> rb_completed st'" by (metis flat_fields(9))
      with Cons.IH [of st'] st' None run_flat [OF st'(2), of env "concat ps"] Inr x show ?thesis by (simp add: run_append)
    next
      case (Some rest)
      with Inr x st' show ?thesis by (simp add: run_append)
    qed
  qed
qed simp

subsection \<open>A connection in the middle of its requests\<close>

definition asks_upgrade :: "header list \<Rightarrow> bool" where
  "asks_upgrade hs \<longleftrightarrow>
     (case header_value ''upgrade'' hs of None \<Rightarrow> False | Some v \<Rightarrow> js_toLowerCase v = ''websocket'') \<and>
     (case header_value ''connection'' hs of None \<Rightarrow> False | Some v \<Rightarrow> contains_text ''upgrade'' (js_toLowerCase v))"

lemma isWebsocketUpgrade_view: "isWebsocketUpgrade st = asks_upgrade (rv_headers (view st))"
  by (simp add: isWebsocketUpgrade_def asks_upgrade_def getHeader_value view_def)

text \<open>Requests that are parsed and answered as such.\<close>

definition ordinary :: "request_env \<Rightarrow> http_request \<Rightarrow> bool" where
  "ordinary env r \<longleftrightarrow> well_formed r \<and> is_ok (received env r) \<and> \<not> asks_upgrade (request_headers r)"

definition started :: "http_client \<Rightarrow> request_view list" where
  "started cl = map (\<lambda>r. view (rn_request r)) (cl_runners cl)"

text \<open>\<open>bytes\<close> are those of \<open>rs\<close> that are still to come, the first request perhaps cut.\<close>

definition expects :: "request_env \<Rightarrow> string \<Rightarrow> http_request list \<Rightarrow> http_client \<Rightarrow> bool" where
  "expects env bytes rs cl \<longleftrightarrow> \<not> cl_session cl \<and>
     (cl_state cl = Initial \<and> bytes = concat (map render rs) \<or>
      (\<exists>u r rs' st. cl_state cl = RequestStarted \<and> cl_current cl = Some st \<and> rs = r # rs' \<and>
         bytes = u @ concat (map render rs') \<and> u \<noteq> [] \<and> waits_for env u r st))"

text \<open>The requests \<open>all\<close> are those started so far and those still to come.\<close>

definition on_course :: "request_env \<Rightarrow> http_request list \<Rightarrow> string \<Rightarrow> http_client \<Rightarrow> bool" where
  "on_course env all bytes cl \<longleftrightarrow>
     (\<exists>rs. expects env bytes rs cl \<and> list_all (ordinary env) rs \<and> cl_output cl = [] \<and>
        map Inr (started cl) @ map (received env) rs = map (received env) all)"

lemma append_split:
  assumes "p @ later = u @ w"
  obtains (cut) u' where "u = p @ u'" "u' \<noteq> []" "later = u' @ w" | (whole) q where "p = u @ q" "w = q @ later"
proof -
  from assms obtain us where "p = u @ us \<and> us @ later = w \<or> p @ us = u \<and> later = us @ w"
    by (auto simp: append_eq_append_conv2)
  with cut [of us] whole [of us] whole [of "[]"] show thesis by (cases "us = []") auto
qed

lemma write_turn_started:
  assumes "cl_state cl = RequestStarted" "cl_current cl = Some st" "waits_for env u r st" "u \<noteq> []" "list_all (ordinary env) (r # rs)"
    and "\<not> cl_session cl" "cl_output cl = []" "map Inr (started cl) @ map (received env) (r # rs) = map (received env) all"
    and "p @ later = u @ concat (map render rs)"
  shows "\<exists>cl' q. write_turn env p cl = (cl', q) \<and> on_course env all (q @ later) cl'"
proof -
  from assms(5) obtain v where v: "received env r = Inr v" by (auto simp: ordinary_def is_ok_def split: sum.splits)
  from assms(9) show ?thesis
  proof (cases rule: append_split)
    case (cut u')
    from feed_part_of_request [of env p u' r st v] assms(3) cut v obtain st' where
      st': "feed env p st = Inr (st', None)" "waits_for env u' r st'" by auto
    let ?cl = "cl\<lparr>cl_current := Some st'\<rparr>"
    have "write_turn env p cl = (?cl, [])" using assms(1,2) st' by (simp add: write_turn_def)
    moreover have "expects env later (r # rs) ?cl" using assms cut st' by (auto simp: expects_def)
    ultimately show ?thesis using assms by (auto simp: on_course_def started_def)
  next
    case (whole q)
    from feed_whole_request [OF assms(3) v, of q] obtain st' where
      st': "feed env p st = Inr (st', Some q)" "view st' = v" using whole by auto
    have "rv_headers v = request_headers r" using v by (auto simp: received_def bindE_eq_Inr)
    with assms(5) st'(2) have "\<not> isWebsocketUpgrade st'" by (simp add: isWebsocketUpgrade_view ordinary_def)
    then obtain cl' where cl': "write_turn env p cl = (cl', q)" "cl_state cl' = Initial" "\<not> cl_session cl'" "cl_output cl' = []"
      "started cl' = started cl @ [v]"
      using assms(1,2,6,7) st' by (auto simp: write_turn_def Let_def executeCurrentRequest_def started_def)
    moreover have "expects env (q @ later) rs cl'" using cl' whole by (simp add: expects_def)
    ultimately show ?thesis using assms(5,8) v by (auto simp: on_course_def)
  qed
qed

lemma write_turn_on_course:
  assumes "on_course env all (p @ later) cl" "p \<noteq> []"
  shows "\<exists>cl' q. write_turn env p cl = (cl', q) \<and> on_course env all (q @ later) cl'"
proof -
  from assms(1) obtain rs where rs: "expects env (p @ later) rs cl" "list_all (ordinary env) rs" "cl_output cl = []"
    "map Inr (started cl) @ map (received env) rs = map (received env) all" by (auto simp: on_course_def)
  show ?thesis
  proof (cases "cl_state cl = Initial")
    case True
    with rs(1) have bytes: "p @ later = concat (map render rs)" "\<not> cl_session cl" by (auto simp: expects_def)
    with assms(2) obtain r rs' where r: "rs = r # rs'" by (cases rs) auto
    let ?cl = "cl\<lparr>cl_current := Some new_parser, cl_state := RequestStarted\<rparr>"
    have "write_turn env p ?cl = write_turn env p cl" using True by (simp add: write_turn_def Let_def)
    moreover have "render r \<noteq> []" "started ?cl = started cl" by (simp_all add: render_def CRLF_def started_def)
    ultimately show ?thesis
      using write_turn_started [of ?cl new_parser env "render r" r rs' all p later] waits_for_new [of r env] bytes rs r
      by (simp add: ordinary_def)
  next
    case False
    with rs(1) obtain u r rs' st where "cl_state cl = RequestStarted" "cl_current cl = Some st" "rs = r # rs'"
      "p @ later = u @ concat (map render rs')" "u \<noteq> []" "waits_for env u r st" "\<not> cl_session cl" by (auto simp: expects_def)
    with write_turn_started [of cl st env u r rs' all p later] rs show ?thesis by simp
  qed
qed

lemma write_loop_on_course: "on_course env all (p @ later) cl \<Longrightarrow> on_course env all later (write_loop env p cl)"
proof (induction env p cl rule: write_loop.induct)
  case (1 env p cl)
  show ?case
  proof (cases "p = []")
    case True
    with 1(2) show ?thesis by (simp add: write_loop.simps)
  next
    case False
    with write_turn_on_course [OF 1(2)] obtain cl' q where turn: "write_turn env p cl = (cl', q)" "on_course env all (q @ later) cl'"
      by blast
    with 1(1) [OF False turn(1) [symmetric] refl] False show ?thesis by (subst write_loop.simps) simp
  qed
qed

lemma onWrite_on_course: "on_course env all (p @ later) cl \<Longrightarrow> on_course env all later (onWrite env p cl)"
  using write_loop_on_course [of env all p later cl] by (auto simp: onWrite_def on_course_def expects_def)

definition receive :: "request_env \<Rightarrow> string list \<Rightarrow> http_client \<Rightarrow> http_client" where
  "receive env pieces cl = foldl (\<lambda>cl p. onWrite env p cl) cl pieces"

lemma receive_on_course: "on_course env all (concat pieces @ later) cl \<Longrightarrow> on_course env all later (receive env pieces cl)"
  by (induction pieces arbitrary: cl) (simp_all add: receive_def onWrite_on_course)

lemma on_course_end:
  assumes "on_course env all [] cl"
  shows "cl_state cl = Initial \<and> cl_output cl = [] \<and> map Inr (started cl) = map (received env) all"
proof -
  from assms obtain rs where rs: "expects env [] rs cl" "cl_output cl = []"
    "map Inr (started cl) @ map (received env) rs = map (received env) all" by (auto simp: on_course_def)
  have "render r \<noteq> []" for r by (simp add: render_def CRLF_def)
  with rs(1) have "cl_state cl = Initial" "rs = []" by (auto simp: expects_def)
  with rs show ?thesis by simp
qed

end
