(* ===== verification/Request_Order.thy ===== *)
theory Request_Order
  imports Request_Client Prelude
begin

text \<open>
  The life of a connection as a transition system: bytes arrive, runners finish in any order, responses
  are sent or fail. Its invariant is that the responses written, the one being sent and the queue are the
  requests in the order they were started.
\<close>

inductive client_step :: "request_env \<Rightarrow> http_client \<Rightarrow> http_client \<Rightarrow> bool" for env where
  bytes_arrive: "client_step env cl (onWrite env data cl)"
| runner_done: "client_step env cl (requestDone_client i cl)"
| sent: "client_step env cl (response_sent cl)"
| failed: "client_step env cl (response_failed cl)"

definition client_start :: "http_client \<Rightarrow> bool" where "client_start cl \<longleftrightarrow> cl = new_client"

fun response_id :: "client_output \<Rightarrow> nat option" where
  "response_id (Response i) = Some i"
| "response_id (Broken_Response i) = Some i"
| "response_id _ = None"

definition answered :: "http_client \<Rightarrow> nat list" where
  "answered cl = List.map_filter response_id (cl_output cl)"

definition waiting :: "http_client \<Rightarrow> nat list" where
  "waiting cl = (case cl_sending cl of None \<Rightarrow> [] | Some r \<Rightarrow> [rn_id r]) @ map rn_id (cl_runners cl)"

definition in_order :: "http_client \<Rightarrow> bool" where
  "in_order cl \<longleftrightarrow> answered cl @ waiting cl = [0..<cl_started cl]"

lemma map_filter_append: "List.map_filter f (xs @ ys) = List.map_filter f xs @ List.map_filter f ys"
  by (simp add: List.map_filter_def)

lemma in_order_frame [simp]:
  "in_order (cl\<lparr>cl_state := s\<rparr>) = in_order cl" "in_order (cl\<lparr>cl_current := c\<rparr>) = in_order cl" "in_order (cl\<lparr>cl_session := b\<rparr>) = in_order cl"
  by (simp_all add: in_order_def answered_def waiting_def)

lemma in_order_emit: "List.map_filter response_id os = [] \<Longrightarrow> in_order (emit os cl) = in_order cl"
  by (simp add: in_order_def answered_def waiting_def emit_def map_filter_append)

lemma in_order_bad_request: "in_order cl \<Longrightarrow> in_order (handleBadRequest cl)"
  by (simp add: handleBadRequest_def in_order_emit List.map_filter_def)

lemma in_order_execute: "in_order cl \<Longrightarrow> in_order (executeCurrentRequest st cl)"
proof -
  assume cl: "in_order cl"
  then have "in_order (upgradeToWebsocket st cl)"
    by (simp add: upgradeToWebsocket_def in_order_emit List.map_filter_def split: option.split)
  moreover have "in_order (cl\<lparr>cl_state := Initial, cl_started := Suc (cl_started cl),
              cl_runners := cl_runners cl @ [\<lparr>rn_id = cl_started cl, rn_request = st, rn_done = False\<rparr>]\<rparr>)"
    using cl by (simp add: in_order_def answered_def waiting_def)
  ultimately show ?thesis by (simp add: executeCurrentRequest_def)
qed

lemma in_order_turn: "in_order cl \<Longrightarrow> in_order (fst (write_turn env p cl))"
  by (auto simp: write_turn_def Let_def in_order_bad_request in_order_execute split: option.split sum.split)

lemma in_order_loop: "in_order cl \<Longrightarrow> in_order (write_loop env p cl)"
proof (induction env p cl rule: write_loop.induct)
  case (1 env p cl)
  obtain cl' q where turn: "write_turn env p cl = (cl', q)" by (cases "write_turn env p cl")
  with in_order_turn [OF 1(2), of env p] have "in_order cl'" by simp
  with 1 turn show ?case by (subst write_loop.simps) simp
qed

lemma in_order_write: "in_order cl \<Longrightarrow> in_order (onWrite env data cl)"
  by (simp add: onWrite_def in_order_emit in_order_loop List.map_filter_def)

lemma in_order_drain: "in_order cl \<Longrightarrow> in_order (sendDoneRequests cl)"
  by (auto simp: sendDoneRequests_def in_order_def answered_def waiting_def split: list.split)

lemma in_order_done: "in_order cl \<Longrightarrow> in_order (requestDone_client i cl)"
proof -
  assume "in_order cl"
  moreover have "rn_id \<circ> (\<lambda>r :: runner. if rn_id r = i then r\<lparr>rn_done := True\<rparr> else r) = rn_id" by (rule ext) simp
  ultimately show ?thesis
    unfolding requestDone_client_def by (intro in_order_drain) (simp add: in_order_def answered_def waiting_def)
qed

lemma in_order_settled:
  assumes "in_order cl" "cl_sending cl = Some r" "List.map_filter response_id os = [rn_id r]"
  shows "in_order (emit os (cl\<lparr>cl_sending := None\<rparr>))"
  using assms by (simp add: in_order_def answered_def waiting_def emit_def map_filter_append)

lemma in_order_sent: "in_order cl \<Longrightarrow> in_order (response_sent cl)"
proof (cases "cl_sending cl")
  case (Some r)
  assume cl: "in_order cl"
  have "in_order (emit os (cl\<lparr>cl_sending := None, cl_current := c\<rparr>))" if "List.map_filter response_id os = [rn_id r]" for os c
    using in_order_settled [OF cl Some that] by (simp add: in_order_def answered_def waiting_def emit_def)
  then show ?thesis
    unfolding response_sent_def Some option.case Let_def by (intro in_order_drain) (simp add: List.map_filter_def)
qed (simp add: response_sent_def)

lemma in_order_failed: "in_order cl \<Longrightarrow> in_order (response_failed cl)"
  by (cases "cl_sending cl") (simp_all add: response_failed_def in_order_settled List.map_filter_def)

interpretation connection: invariant_system client_start "client_step env" in_order for env
proof
  show "client_start s \<Longrightarrow> in_order s" for s
    by (simp add: client_start_def new_client_def in_order_def answered_def waiting_def List.map_filter_def)
  show "in_order s \<Longrightarrow> client_step env s t \<Longrightarrow> in_order t" for s t
    by (erule client_step.cases) (simp_all add: in_order_write in_order_done in_order_sent in_order_failed)
qed

end
