(* ===== verification/Request_Params_Tree.thy ===== *)
theory Request_Params_Tree
  imports Request_Params
begin

text \<open>
  Nested parameters as a form writes them: a tree of values, the keys of its leaves, and the lemmas
  that assignments along paths of one subtree rebuild that subtree.
\<close>

datatype params_tree = is_Leaf: Leaf jsval | Single jsval | Nested "(string \<times> params_tree) list"

fun tree_value :: "params_tree \<Rightarrow> jsval" where
  "tree_value (Leaf v) = v"
| "tree_value (Single v) = JArr [v]"
| "tree_value (Nested fs) = JObj (map (\<lambda>(k, t). (k, tree_value t)) fs)"

definition bracket :: "string \<Rightarrow> string" where "bracket k = ''['' @ k @ '']''"

text \<open>The rest of the key of each leaf, as seen from the tree.\<close>

fun leaf_keys :: "params_tree \<Rightarrow> (string \<times> jsval) list" where
  "leaf_keys (Leaf v) = [([], v)]"
| "leaf_keys (Single v) = [(''[]'', v)]"
| "leaf_keys (Nested fs) = concat (map (\<lambda>(k, t). map (\<lambda>(rest, v). (bracket k @ rest, v)) (leaf_keys t)) fs)"

definition form_pairs :: "(string \<times> params_tree) list \<Rightarrow> (string \<times> jsval) list" where
  "form_pairs fs = concat (map (\<lambda>(k, t). map (\<lambda>(rest, v). (k @ rest, v)) (leaf_keys t)) fs)"

text \<open>
  Names that a form can use: not empty, no brackets or line breaks, not inherited by every object, and
  not an array index, which JavaScript would list first.
\<close>

definition form_name :: "string \<Rightarrow> bool" where
  "form_name k \<longleftrightarrow> k \<noteq> [] \<and> list_all (\<lambda>c. c \<noteq> CHR ''['' \<and> c \<noteq> CHR '']'' \<and> \<not> line_break c) k \<and>
     k \<notin> set inherited_names \<and> array_index k = None"

fun form_tree :: "params_tree \<Rightarrow> bool" where
  "form_tree (Nested fs) \<longleftrightarrow> fs \<noteq> [] \<and> distinct (map fst fs) \<and> list_all (\<lambda>(k, t). form_name k \<and> form_tree t) fs"
| "form_tree _ \<longleftrightarrow> True"

subsection \<open>One step of a path\<close>

lemma until_close_name: "list_all (\<lambda>c. c \<noteq> CHR '']'' \<and> \<not> line_break c) k \<Longrightarrow> until_close (k @ '']'' @ rest) = Some (k, rest)"
  by (induction k) simp_all

lemma second_match_bracket: "form_name k \<Longrightarrow> second_match (bracket k @ rest) = Some (k, rest)"
  using until_close_name [of k rest] by (simp add: second_match_def bracket_def form_name_def list_all_iff)

lemma bracket_not_empty_brackets: "form_name k \<Longrightarrow> bracket k @ rest \<noteq> ''[]''"
  by (cases k) (simp_all add: bracket_def form_name_def)

lemma match_bracket_name:
  "list_all (\<lambda>c. c \<noteq> CHR ''['' \<and> \<not> line_break c) k \<Longrightarrow> rest \<noteq> [] \<Longrightarrow> match_bracket (k @ ''['' @ rest) = Some (k, ''['' @ rest)"
  by (induction k) simp_all

lemma match_bracket_none: "list_all (\<lambda>c. c \<noteq> CHR ''['' \<and> \<not> line_break c) k \<Longrightarrow> match_bracket k = None"
  by (induction k) simp_all

lemma first_match_name:
  "form_name k \<Longrightarrow> r \<noteq> [] \<Longrightarrow> first_match (k @ ''['' @ r) = Some (k, ''['' @ r)" "form_name k \<Longrightarrow> first_match k = None"
  using match_bracket_name [of "tl k" r] match_bracket_none [of "tl k"]
  by (cases k; simp add: first_match_def form_name_def list_all_iff)+

lemma form_name_proto: "form_name k \<Longrightarrow> k \<noteq> ''__proto__''"
  by (auto simp: form_name_def inherited_names_def)

lemma assign_key_name: "form_name k \<Longrightarrow> assign_key (JObj fs) k v = Inr (JObj (obj_set fs k v))"
  by (simp add: assign_key_def form_name_proto)

definition fresh_for :: "string \<Rightarrow> jsval" where
  "fresh_for rest = (if rest = ''[]'' then JArr [] else JObj [])"

lemma child_name:
  "form_name k \<Longrightarrow> child (JObj fs) k rest = Inr (if k \<in> fst ` set fs then obj_get (JObj fs) k else fresh_for rest)"
  by (auto simp: child_def form_name_def fresh_for_def)

lemma treatSecond_leaf: "form_name k \<Longrightarrow> treatSecond v full (bracket k) (JObj fs) = Inr (JObj (obj_set fs k v))"
  using second_match_bracket [of k "[]"] bracket_not_empty_brackets [of k "[]"]
  by (simp add: treatSecond.simps [of _ _ "bracket k"] assign_key_name)

lemma treatSecond_bracket:
  assumes "form_name k" "rest \<noteq> []"
  shows "treatSecond v full (bracket k @ rest) (JObj fs) =
    bindE (treatSecond v full rest (if k \<in> fst ` set fs then obj_get (JObj fs) k else fresh_for rest))
      (\<lambda>inner. Inr (JObj (obj_set fs k inner)))"
proof -
  have "assign_key (JObj fs) k = (\<lambda>inner. Inr (JObj (obj_set fs k inner)))"
    by (rule ext) (rule assign_key_name [OF assms(1)])
  then show ?thesis
    using assms second_match_bracket [of k rest] bracket_not_empty_brackets [of k rest]
    by (subst treatSecond.simps) (simp add: child_name)
qed

subsection \<open>The assignments of a subtree\<close>

fun lays :: "(string \<times> jsval) list \<Rightarrow> jsval \<Rightarrow> jsval \<Rightarrow> bool" where
  "lays [] r r' \<longleftrightarrow> r = r'"
| "lays ((rest, v) # ps) r r' \<longleftrightarrow> (\<exists>m. (\<forall>full. treatSecond v full rest r = Inr m) \<and> lays ps m r')"

lemma lays_append: "lays (ps @ qs) r r' \<longleftrightarrow> (\<exists>m. lays ps r m \<and> lays qs m r')"
  by (induction ps r r' rule: lays.induct) auto

lemma obj_set_name:
  "form_name k \<Longrightarrow> obj_set fs k v =
    (if k \<in> fst ` set fs then map (\<lambda>(k', v'). if k' = k then (k', v) else (k', v')) fs else fs @ [(k, v)])"
  by (simp add: obj_set_def form_name_proto) (simp add: form_name_def)

lemma obj_set_in: "form_name k \<Longrightarrow> k \<in> fst ` set (obj_set fs k v)"
proof -
  assume k: "form_name k"
  have "fst \<circ> (\<lambda>(k', v'). if k' = k then (k', v) else (k', v')) = fst" by (rule ext) (simp add: case_prod_unfold)
  then have "fst ` set (map (\<lambda>(k', v'). if k' = k then (k', v) else (k', v')) fs) = fst ` set fs" by (simp add: image_comp)
  with obj_set_name [OF k, of fs v] show ?thesis by simp
qed

lemma obj_set_again: "form_name k \<Longrightarrow> obj_set (obj_set fs k v) k w = obj_set fs k w"
proof -
  assume k: "form_name k"
  then have "obj_set (obj_set fs k v) k w = map (\<lambda>(k', v'). if k' = k then (k', w) else (k', v')) (obj_set fs k v)"
    using obj_set_in [OF k] obj_set_name [OF k, of "obj_set fs k v" w] by simp
  also have "\<dots> = obj_set fs k w"
    using k by (force simp: obj_set_name intro!: map_idI)
  finally show ?thesis .
qed

lemma lays_inside:
  assumes "form_name k" "list_all (\<lambda>p. fst p \<noteq> []) ps" "ps \<noteq> []" "lays ps w w'"
    and "w = (if k \<in> fst ` set fs then obj_get (JObj fs) k else fresh_for (fst (hd ps)))"
  shows "lays (map (\<lambda>(rest, v). (bracket k @ rest, v)) ps) (JObj fs) (JObj (obj_set fs k w'))"
  using assms(2-)
proof (induction ps arbitrary: fs w)
  case (Cons p ps)
  obtain rest v where p: "p = (rest, v)" by (cases p)
  from Cons.prems(3) p obtain m where m: "\<And>full. treatSecond v full rest w = Inr m" "lays ps m w'" by auto
  have w: "w = (if k \<in> fst ` set fs then obj_get (JObj fs) k else fresh_for rest)"
    using Cons.prems(4) unfolding p list.sel fst_conv .
  have step: "treatSecond v full (bracket k @ rest) (JObj fs) = Inr (JObj (obj_set fs k m))" for full
    using Cons.prems(1) m(1) [of full, unfolded w] p by (subst treatSecond_bracket [OF assms(1)]) (simp_all split del: if_split)
  show ?case
  proof (cases "ps = []")
    case True
    with step m p show ?thesis by simp
  next
    case False
    have "k \<in> fst ` set (obj_set fs k m)" by (rule obj_set_in [OF assms(1)])
    moreover have "obj_get (JObj (obj_set fs k m)) k = m" using obj_get_obj_set_same form_name_proto assms(1) by blast
    ultimately have "lays (map (\<lambda>(rest, v). (bracket k @ rest, v)) ps) (JObj (obj_set fs k m)) (JObj (obj_set (obj_set fs k m) k w'))"
      using Cons.IH [of m "obj_set fs k m"] Cons.prems False m p by simp
    with step p show ?thesis by (simp add: obj_set_again assms(1))
  qed
qed simp

lemma leaf_keys_not_empty: "form_tree t \<Longrightarrow> leaf_keys t \<noteq> []"
proof (induction t)
  case (Nested fs)
  then obtain k t fs' where fs: "fs = (k, t) # fs'" "form_tree t" by (cases fs) auto
  with Nested.IH [of "(k, t)" t] show ?case by simp
qed simp_all

lemma leaf_keys_shape:
  assumes "form_tree t"
  shows "\<not> is_Leaf t \<Longrightarrow> list_all (\<lambda>p. fst p \<noteq> []) (leaf_keys t)"
    "\<not> is_Leaf t \<Longrightarrow> fresh_for (fst (hd (leaf_keys t))) = (case t of Nested _ \<Rightarrow> JObj [] | _ \<Rightarrow> JArr [])"
proof -
  show "list_all (\<lambda>p. fst p \<noteq> []) (leaf_keys t)" if "\<not> is_Leaf t"
    using that by (cases t) (auto simp: list_all_iff bracket_def)
  show "fresh_for (fst (hd (leaf_keys t))) = (case t of Nested _ \<Rightarrow> JObj [] | _ \<Rightarrow> JArr [])" if "\<not> is_Leaf t"
  proof (cases t)
    case (Nested fs)
    with assms obtain k t' fs' where fs: "fs = (k, t') # fs'" "form_name k" "form_tree t'" by (cases fs) auto
    have "leaf_keys t' \<noteq> []" by (rule leaf_keys_not_empty [OF fs(3)])
    then obtain p v ps where "leaf_keys t' = (p, v) # ps" by (cases "leaf_keys t'") auto
    with fs(1) Nested have "fst (hd (leaf_keys t)) = bracket k @ p" by simp
    with fs(2) Nested bracket_not_empty_brackets [of k p] show ?thesis by (simp add: fresh_for_def)
  qed (use that in \<open>simp_all add: fresh_for_def\<close>)
qed

lemma lays_field:
  assumes "form_name k" "form_tree t" "\<not> is_Leaf t \<Longrightarrow> lays (leaf_keys t) (case t of Nested _ \<Rightarrow> JObj [] | _ \<Rightarrow> JArr []) (tree_value t)"
    and "k \<notin> fst ` set fs"
  shows "lays (map (\<lambda>(rest, v). (bracket k @ rest, v)) (leaf_keys t)) (JObj fs) (JObj (fs @ [(k, tree_value t)]))"
proof (cases "is_Leaf t")
  case True
  with assms show ?thesis by (cases t) (auto simp: treatSecond_leaf obj_set_name)
next
  case False
  with leaf_keys_shape [OF assms(2)] leaf_keys_not_empty [OF assms(2)] assms lays_inside [OF assms(1), of "leaf_keys t" _ "tree_value t" fs] show ?thesis
    by (simp add: obj_set_name)
qed

lemma lays_fields:
  assumes "list_all (\<lambda>(k, t). form_name k \<and> form_tree t) fs" "distinct (map fst fs)" "fst ` set done_fs \<inter> fst ` set fs = {}"
    and "\<And>k t. (k, t) \<in> set fs \<Longrightarrow> \<not> is_Leaf t \<Longrightarrow>
      lays (leaf_keys t) (case t of Nested _ \<Rightarrow> JObj [] | _ \<Rightarrow> JArr []) (tree_value t)"
  shows "lays (leaf_keys (Nested fs)) (JObj done_fs) (JObj (done_fs @ map (\<lambda>(k, t). (k, tree_value t)) fs))"
  using assms
proof (induction fs arbitrary: done_fs)
  case (Cons p fs)
  obtain k t where p: "p = (k, t)" by (cases p)
  have "lays (map (\<lambda>(rest, v). (bracket k @ rest, v)) (leaf_keys t)) (JObj done_fs) (JObj (done_fs @ [(k, tree_value t)]))"
    using Cons.prems p by (intro lays_field) auto
  moreover have "lays (leaf_keys (Nested fs)) (JObj (done_fs @ [(k, tree_value t)])) (JObj ((done_fs @ [(k, tree_value t)]) @ map (\<lambda>(k, t). (k, tree_value t)) fs))"
    using Cons.prems p by (intro Cons.IH) auto
  ultimately show ?case using p by (auto simp: lays_append)
qed simp

lemma lays_tree:
  "form_tree t \<Longrightarrow> \<not> is_Leaf t \<Longrightarrow> lays (leaf_keys t) (case t of Nested _ \<Rightarrow> JObj [] | _ \<Rightarrow> JArr []) (tree_value t)"
proof (induction t)
  case (Single v)
  then show ?case by (simp add: treatSecond.simps second_match_def)
next
  case (Nested fs)
  then have "lays (leaf_keys (Nested fs)) (JObj []) (JObj ([] @ map (\<lambda>(k, t). (k, tree_value t)) fs))"
    by (intro lays_fields) (auto simp: list_all_iff)
  then show ?case by simp
qed simp

subsection \<open>Keys of whole parameters\<close>

lemma treatInitial_bracket:
  assumes "form_name k" "rest = [] \<or> (\<exists>r. rest = ''['' @ r \<and> r \<noteq> [])"
  shows "treatInitial (k @ rest) v (JObj fs) = treatSecond v (k @ rest) (bracket k @ rest) (JObj fs)"
proof (cases "rest = []")
  case True
  with assms(1) show ?thesis by (simp add: treatInitial_def first_match_name(2) assign_key_name treatSecond_leaf)
next
  case False
  with assms obtain r where r: "rest = ''['' @ r" "r \<noteq> []" by auto
  have "assign_key (JObj fs) k = (\<lambda>inner. Inr (JObj (obj_set fs k inner)))"
    by (rule ext) (rule assign_key_name [OF assms(1)])
  with False r first_match_name(1) [OF assms(1) r(2)] treatSecond_bracket [OF assms(1) False] show ?thesis
    by (simp add: treatInitial_def child_name [OF assms(1)])
qed

lemma leaf_keys_rest: "(rest, v) \<in> set (leaf_keys t) \<Longrightarrow> rest = [] \<or> (\<exists>r. rest = ''['' @ r \<and> r \<noteq> [])"
  by (cases t) (auto simp: bracket_def)

definition leaf_triples :: "(string \<times> params_tree) list \<Rightarrow> (string \<times> string \<times> jsval) list" where
  "leaf_triples fs = concat (map (\<lambda>(k, t). map (\<lambda>(rest, v). (k, rest, v)) (leaf_keys t)) fs)"

lemma leaf_triples_keys:
  "leaf_keys (Nested fs) = map (\<lambda>(k, rest, v). (bracket k @ rest, v)) (leaf_triples fs)"
  "form_pairs fs = map (\<lambda>(k, rest, v). (k @ rest, v)) (leaf_triples fs)"
  by (auto simp: leaf_triples_def form_pairs_def map_concat comp_def case_prod_unfold)

lemma lays_toObject:
  assumes "lays (map (\<lambda>(k, rest, v). (bracket k @ rest, v)) qs) (JObj fs) r"
    and "\<And>k rest v. (k, rest, v) \<in> set qs \<Longrightarrow> form_name k \<and> (rest = [] \<or> (\<exists>r. rest = ''['' @ r \<and> r \<noteq> []))"
  shows "foldE (\<lambda>(key, v). treatInitial key v) (map (\<lambda>(k, rest, v). (k @ rest, v)) qs) (JObj fs) = Inr r"
  using assms
proof (induction qs arbitrary: fs)
  case (Cons q qs)
  obtain k rest v where q: "q = (k, rest, v)" by (cases q) auto
  then have k: "form_name k" "rest = [] \<or> (\<exists>r. rest = ''['' @ r \<and> r \<noteq> [])" using Cons.prems(2) by auto
  from Cons.prems(1) q obtain m where m: "treatSecond v (k @ rest) (bracket k @ rest) (JObj fs) = Inr m"
    "lays (map (\<lambda>(k, rest, v). (bracket k @ rest, v)) qs) m r" by auto
  obtain fs' where fs': "m = JObj fs'"
    using m(1) treatSecond_leaf [OF k(1), of v "k @ rest" fs] treatSecond_bracket [OF k(1), of rest v "k @ rest" fs]
    by (cases "rest = []") (auto simp: bindE_eq_Inr)
  have "foldE (\<lambda>(key, v). treatInitial key v) (map (\<lambda>(k, rest, v). (k @ rest, v)) qs) (JObj fs') = Inr r"
    using m(2) Cons.prems(2) unfolding fs' by (intro Cons.IH) auto
  with m(1) fs' q k show ?case by (simp add: treatInitial_bracket)
qed simp

lemma toObject_form_pairs:
  assumes "form_tree (Nested fs)"
  shows "toObject (form_pairs fs) = Inr (tree_value (Nested fs))"
  unfolding toObject_def leaf_triples_keys
proof (rule lays_toObject)
  show "lays (map (\<lambda>(k, rest, v). (bracket k @ rest, v)) (leaf_triples fs)) (JObj []) (tree_value (Nested fs))"
    using lays_tree [OF assms] unfolding leaf_triples_keys [symmetric] by simp
  show "form_name k \<and> (rest = [] \<or> (\<exists>r. rest = ''['' @ r \<and> r \<noteq> []))" if "(k, rest, v) \<in> set (leaf_triples fs)" for k rest v
    using that assms by (auto simp: leaf_triples_def list_all_iff dest: leaf_keys_rest)
qed

end
