(* ===== verification/Request_Claims.thy ===== *)
theory Request_Claims
  imports Request_Stream Request_Order Request_Params_Tree
begin

text \<open>
  The properties of the HTTP request parser and of a connection, with a concrete environment, requests
  and pieces on which they are evaluated.
\<close>

subsection \<open>An environment and requests\<close>

definition merge_params :: "jsval \<Rightarrow> jsval \<Rightarrow> jsval" where
  "merge_params a b = (case (a, b) of (JObj fs, JObj gs) \<Rightarrow> JObj (foldl (\<lambda>m (k, v). obj_set m k v) fs gs) | _ \<Rightarrow> a)"

definition pair_of :: "string \<Rightarrow> string \<times> jsval" where
  "pair_of s = (takeWhile (\<lambda>c. c \<noteq> CHR ''='') s, JStr (tl (dropWhile (\<lambda>c. c \<noteq> CHR ''='') s)))"

definition example_env :: request_env where
  "example_env = \<lparr>utf8_text = (\<lambda>b. b), json_body = (\<lambda>b. None), query_pairs = (\<lambda>b. map pair_of (split_char CHR ''&'' b)),
     uploaded_file = (\<lambda>part name b. JStr name), incorporate = merge_params\<rparr>"

definition get_request :: http_request where
  "get_request = \<lparr>rq_method = ''GET'', rq_path = ''/tasks?page=2'', rq_version = ''1.1'',
     rq_headers = [(''Host'', ''example.com'')], rq_body = No_Body\<rparr>"

definition post_request :: http_request where
  "post_request = \<lparr>rq_method = ''POST'', rq_path = ''/tasks'', rq_version = ''1.1'',
     rq_headers = [(''Content-Length'', ''12'')], rq_body = Fixed ''t[n]=1&t[m]=''\<rparr>"

definition chunked_request :: http_request where
  "chunked_request = \<lparr>rq_method = ''PUT'', rq_path = ''/tasks/1'', rq_version = ''1.1'',
     rq_headers = [(''Transfer-Encoding'', ''chunked'')], rq_body = Chunked [(''3;x=y'', ''n=1''), (''3'', ''&m='')]\<rparr>"

lemma example_requests:
  "list_all (ordinary example_env) [get_request, post_request, chunked_request]"
  by code_simp

subsection \<open>Requests\<close>

text \<open>
  C31: Parsing inverts writing. The parser, fed the bytes of a well-formed request without a body, with a
  body of the announced length, or with a chunked body, returns the request that was written: method,
  path, version, headers, body and parameters, or the error of decoding its parameters. It stops at the
  request's last byte and hands back whatever follows.
\<close>

theorem request_round_trip:
  assumes "well_formed r"
  shows "viewF (feed env (render r @ rest) new_parser) = bindE (received env r) (\<lambda>v. Inr (v, Some rest))"
proof -
  have "\<not> rb_completed new_parser" "in_step new_parser" by (simp_all add: new_parser_def in_step_def)
  then show ?thesis using viewF_eq [OF feed_eq_run] run_render [OF assms] by metis
qed

theorem request_round_trip_witness:
  "viewF (feed example_env (render chunked_request @ ''GET'') new_parser) =
     Inr (\<lparr>rv_method = Some ''PUT'', rv_path = Some ''/tasks/1'', rv_version = Some ''1.1'',
       rv_headers = [new_header ''Transfer-Encoding'' ''chunked''], rv_body = Some ''n=1&m='',
       rv_params = JObj [(''n'', JStr ''1''), (''m'', JStr [])]\<rparr>, Some ''GET'')"
proof -
  have "well_formed chunked_request" by code_simp
  moreover have "received example_env chunked_request = Inr \<lparr>rv_method = Some ''PUT'', rv_path = Some ''/tasks/1'', rv_version = Some ''1.1'',
       rv_headers = [new_header ''Transfer-Encoding'' ''chunked''], rv_body = Some ''n=1&m='',
       rv_params = JObj [(''n'', JStr ''1''), (''m'', JStr [])]\<rparr>" by code_simp
  ultimately show ?thesis using request_round_trip [of chunked_request example_env "''GET''"] by simp
qed

text \<open>
  C32: How the bytes arrive does not matter. Feeding the parser of an unfinished request any pieces one
  after the other, empty ones included, gives the same request, the same bytes left over or the same
  error as feeding it all bytes at once; this holds for every body, multipart ones too.
\<close>

theorem feeding_in_pieces:
  assumes "\<not> rb_completed st" "in_step st"
  shows "viewF (feed_pieces env ps st) = viewF (feed env (concat ps) st)"
  using viewF_eq [OF feed_pieces_run] viewF_eq [OF feed_eq_run] assms by metis

theorem feeding_in_pieces_witness:
  "viewF (feed_pieces example_env [''GET /a HTT'', [], ''P/1.1'' @ [CR], [LF], CRLF @ ''PUT''] new_parser) =
     viewF (feed example_env (''GET /a HTTP/1.1'' @ CRLF @ CRLF @ ''PUT'') new_parser)"
proof -
  have "\<not> rb_completed new_parser" "in_step new_parser" by (simp_all add: new_parser_def in_step_def)
  from feeding_in_pieces [OF this, of example_env "[''GET /a HTT'', [], ''P/1.1'' @ [CR], [LF], CRLF @ ''PUT'']"]
  show ?thesis by (simp add: CRLF_def)
qed

text \<open>
  C33: Pipelined requests on one connection. When the bytes of any list of ordinary requests (well-formed,
  with parameters that can be decoded, and no websocket upgrade) arrive on a new connection, cut into
  pieces anywhere, then exactly these requests are started, each once, in order and as they were written;
  no error response is sent and the connection is ready for the next request.
\<close>

theorem pipelined_requests:
  assumes "list_all (ordinary env) rs" "concat pieces = concat (map render rs)"
  shows "map Inr (started (receive env pieces new_client)) = map (received env) rs \<and>
    cl_output (receive env pieces new_client) = [] \<and> cl_state (receive env pieces new_client) = Initial"
proof -
  have "on_course env rs (concat pieces @ []) new_client"
    using assms by (auto simp: on_course_def expects_def new_client_def started_def intro!: exI [of _ rs])
  then show ?thesis using on_course_end receive_on_course by blast
qed

theorem pipelined_requests_witness:
  "map Inr (started (receive example_env (map (\<lambda>c. [c]) (render post_request @ render get_request)) new_client)) =
     map (received example_env) [post_request, get_request]"
proof -
  have "list_all (ordinary example_env) [post_request, get_request]" using example_requests by simp
  moreover have "concat (map (\<lambda>c. [c]) (render post_request @ render get_request)) = concat (map render [post_request, get_request])"
    by simp
  ultimately show ?thesis by (rule conjunct1 [OF pipelined_requests])
qed

text \<open>
  C34: Responses keep the order of the requests. Whatever bytes arrive, in whatever order the runners
  finish, and whether responses are sent or fail: the responses written so far, then the one being sent,
  then the queue are the requests of the connection in the order they were started, each exactly once.
\<close>

theorem responses_in_request_order:
  assumes "reaches client_start (client_step env) cl"
  shows "answered cl @ waiting cl = [0..<cl_started cl]"
  using connection.reaches_inv [OF assms] by (simp add: in_order_def)

theorem responses_in_request_order_witness:
  "answered (response_sent (requestDone_client 0 (requestDone_client 1 (onWrite example_env (render get_request @ render get_request) new_client)))) @
   waiting (response_sent (requestDone_client 0 (requestDone_client 1 (onWrite example_env (render get_request @ render get_request) new_client)))) = [0, 1]"
proof -
  let ?cl = "response_sent (requestDone_client 0 (requestDone_client 1 (onWrite example_env (render get_request @ render get_request) new_client)))"
  have "reaches client_start (client_step example_env) new_client" by (rule reaches_start) (simp add: client_start_def)
  from reaches_step [OF this client_step.bytes_arrive [of example_env new_client "render get_request @ render get_request"]]
  have "reaches client_start (client_step example_env) (onWrite example_env (render get_request @ render get_request) new_client)" .
  from reaches_step [OF this client_step.runner_done [where i = 1]]
  have "reaches client_start (client_step example_env) (requestDone_client 1 (onWrite example_env (render get_request @ render get_request) new_client))" .
  from reaches_step [OF reaches_step [OF this client_step.runner_done [where i = 0]] client_step.sent]
  have "reaches client_start (client_step example_env) ?cl" .
  moreover have "cl_started ?cl = 2" by code_simp
  ultimately show ?thesis using responses_in_request_order [of example_env ?cl] by (simp add: upt_rec)
qed



subsection \<open>Outside of well-formed requests\<close>

text \<open>The first group of the header pattern is greedy: a value with a colon and a blank splits at the last one.\<close>

lemma colon_in_header_value:
  "readHeaderFromLine (''X-Note: from: home'' @ CRLF) = Some (new_header ''X-Note: from'' ''home'')"
  by code_simp

text \<open>A header without a blank after its colon is no header; the body it announces is parsed as a request.\<close>

lemma unspaced_length_hides_body:
  "map rv_path (started (onWrite example_env
     (''POST /a HTTP/1.1'' @ CRLF @ ''Content-Length:18'' @ CRLF @ CRLF @ ''GET /b HTTP/1.1'' @ CRLF @ CRLF) new_client)) =
   [Some ''/a'', Some ''/b'']"
  by code_simp

text \<open>The line end after the closing boundary is taken for the start of a request.\<close>

definition multipart_bytes :: string where
  "multipart_bytes = ''POST /a HTTP/1.1'' @ CRLF @ ''Content-Type: multipart/form-data; boundary=xy'' @ CRLF @ CRLF @
     ''--xy'' @ CRLF @ ''Content-Disposition: form-data; name='' @ [CHR 0x22, CHR ''n'', CHR 0x22] @ CRLF @ CRLF @ ''v'' @ CRLF @ ''--xy--''"

lemma multipart_parsed:
  "map rv_params (started (onWrite example_env multipart_bytes new_client)) = [JObj [(''n'', JStr ''v'')]]"
  by code_simp

lemma multipart_line_end_rejected:
  "cl_output (onWrite example_env (multipart_bytes @ CRLF) new_client) = [Bad_Request, Close]"
  by code_simp

text \<open>A repeated key of a query string has an array as its value, which becomes the only element of a list.\<close>

lemma repeated_list_parameter:
  "toObject [(''tags[]'', JArr [JStr ''a'', JStr ''b''])] = Inr (JObj [(''tags'', JArr [JArr [JStr ''a'', JStr ''b'']])])"
  by code_simp

lemma malformed_key: "toObject [(''task[]]'', JStr ''Broken'')] = Inl (Malformed_Key ''task[]]'' '']'')"
  by code_simp

lemma inherited_name: "toObject [(''__proto__[x]'', JStr ''1'')] = Inl (Inherited_Name ''__proto__'')"
  by code_simp

end
