(* ===== verification/Ws_Buffer.thy ===== *)
theory Ws_Buffer
  imports Prelude "HOL-Library.Word" "HOL-Library.Sublist"
begin

text \<open>
  The queue of chunks that a websocket session buffers its socket's bytes in
  (\<open>_peekBufferedBytes\<close>, \<open>_consumeBufferedBytes\<close> and \<open>_clearBufferedFrameChunks\<close> of
  \<open>src/src/http-server/client/websocket-session.js\<close>). Chunks are kept as they arrived; a read index
  and an offset say what has been consumed. A client of the queue needs its contents only: the locale
  \<open>byte_queue\<close> is that contract, interpreted here on the code's queue.
\<close>

type_synonym octet = "8 word"

record frame_buffer =
  bufferChunks :: "octet list list"
  bufferChunkIndex :: nat
  bufferChunkOffset :: nat
  bufferedBytes :: nat
  bufferedFrameCopyBytes :: nat

definition empty_buffer :: frame_buffer where
  "empty_buffer = \<lparr>bufferChunks = [], bufferChunkIndex = 0, bufferChunkOffset = 0, bufferedBytes = 0, bufferedFrameCopyBytes = 0\<rparr>"

definition clearBufferedFrameChunks :: "frame_buffer \<Rightarrow> frame_buffer" where
  "clearBufferedFrameChunks b = b\<lparr>bufferChunks := [], bufferChunkIndex := 0, bufferChunkOffset := 0, bufferedBytes := 0\<rparr>"

definition push_chunk :: "octet list \<Rightarrow> frame_buffer \<Rightarrow> frame_buffer" where
  "push_chunk data b = b\<lparr>bufferChunks := bufferChunks b @ [data], bufferedBytes := bufferedBytes b + length data\<rparr>"

text \<open>The loops run over the chunks from the read index on.\<close>

fun peek_loop :: "octet list list \<Rightarrow> nat \<Rightarrow> nat \<Rightarrow> octet list" where
  "peek_loop [] offset n = []"
| "peek_loop (c # cs) offset n =
     (let k = min (length c - offset) n in
      take k (drop offset c) @ (if k = n then [] else peek_loop cs 0 (n - k)))"

definition peekBufferedBytes :: "nat \<Rightarrow> frame_buffer \<Rightarrow> octet list" where
  "peekBufferedBytes n b = peek_loop (drop (bufferChunkIndex b) (bufferChunks b)) (bufferChunkOffset b) n"

text \<open>\<open>None\<close>: there is no chunk left to copy from, which is a \<open>TypeError\<close>.\<close>

fun consume_loop :: "octet list list \<Rightarrow> nat \<Rightarrow> nat \<Rightarrow> nat \<Rightarrow> (octet list \<times> nat \<times> nat) option" where
  "consume_loop cs idx offset 0 = Some ([], idx, offset)"
| "consume_loop [] idx offset (Suc n) = None"
| "consume_loop (c # cs) idx offset (Suc n) =
     (let k = min (length c - offset) (Suc n); bytes = take k (drop offset c) in
      if offset + k = length c
      then map_option (\<lambda>(more, idx', offset'). (bytes @ more, idx', offset')) (consume_loop cs (Suc idx) 0 (Suc n - k))
      else Some (bytes, idx, offset + k))"

definition drop_read_chunks :: "frame_buffer \<Rightarrow> frame_buffer" where
  "drop_read_chunks b =
     (if bufferChunkIndex b = length (bufferChunks b) then b\<lparr>bufferChunks := [], bufferChunkIndex := 0\<rparr>
      else if 64 \<le> bufferChunkIndex b \<and> length (bufferChunks b) \<le> bufferChunkIndex b * 2
      then b\<lparr>bufferChunks := drop (bufferChunkIndex b) (bufferChunks b), bufferChunkIndex := 0\<rparr>
      else b)"

definition consumeBufferedBytes :: "nat \<Rightarrow> frame_buffer \<Rightarrow> (octet list \<times> frame_buffer) option" where
  "consumeBufferedBytes n b =
     (case consume_loop (drop (bufferChunkIndex b) (bufferChunks b)) (bufferChunkIndex b) (bufferChunkOffset b) n of
        None \<Rightarrow> None
      | Some (bytes, idx, offset) \<Rightarrow>
          Some (bytes, (drop_read_chunks (b\<lparr>bufferChunkIndex := idx, bufferChunkOffset := offset\<rparr>))
            \<lparr>bufferedBytes := bufferedBytes b - n, bufferedFrameCopyBytes := bufferedFrameCopyBytes b + n\<rparr>))"

subsection \<open>The contract\<close>

locale byte_queue =
  fixes ok :: "'q \<Rightarrow> bool"
    and contents :: "'q \<Rightarrow> octet list"
    and buffered :: "'q \<Rightarrow> nat"
    and push :: "octet list \<Rightarrow> 'q \<Rightarrow> 'q"
    and peek :: "nat \<Rightarrow> 'q \<Rightarrow> octet list"
    and consume :: "nat \<Rightarrow> 'q \<Rightarrow> (octet list \<times> 'q) option"
  assumes buffered_contents: "ok q \<Longrightarrow> buffered q = length (contents q)"
    and push_ok: "ok q \<Longrightarrow> ok (push data q)"
    and push_contents: "ok q \<Longrightarrow> contents (push data q) = contents q @ data"
    and peek_contents: "ok q \<Longrightarrow> n \<le> length (contents q) \<Longrightarrow> peek n q = take n (contents q)"
    and consume_contents: "ok q \<Longrightarrow> n \<le> length (contents q) \<Longrightarrow>
      \<exists>q'. consume n q = Some (take n (contents q), q') \<and> ok q' \<and> contents q' = drop n (contents q)"
begin

definition same :: "'q \<Rightarrow> 'q \<Rightarrow> bool" where
  "same q r \<longleftrightarrow> ok q \<and> ok r \<and> contents q = contents r"

lemma same_buffered: "same q r \<Longrightarrow> buffered q = buffered r"
  by (simp add: same_def buffered_contents)

lemma same_push: "same q r \<Longrightarrow> same (push data q) (push data r)"
  by (simp add: same_def push_ok push_contents)

lemma same_push_push: "same q r \<Longrightarrow> same (push ys (push xs q)) (push (xs @ ys) r)"
  by (simp add: same_def push_ok push_contents)

lemma same_peek: "same q r \<Longrightarrow> n \<le> buffered q \<Longrightarrow> peek n q = peek n r"
  by (simp add: same_def buffered_contents peek_contents)

lemma same_consume:
  assumes "same q r" "n \<le> buffered q"
  obtains bytes q' r' where "consume n q = Some (bytes, q')" "consume n r = Some (bytes, r')" "same q' r'"
  using consume_contents [of q n] consume_contents [of r n] assms
  by (auto simp: same_def buffered_contents)

lemma peek_pushed: "ok q \<Longrightarrow> n \<le> buffered q \<Longrightarrow> peek n (push data q) = peek n q"
  by (simp add: buffered_contents push_ok push_contents peek_contents)

lemma consume_pushed:
  assumes "ok q" "n \<le> buffered q"
  obtains bytes q' r' where "consume n q = Some (bytes, q')" "consume n (push data q) = Some (bytes, r')" "same r' (push data q')"
  using consume_contents [of q n] consume_contents [of "push data q" n] assms
  by (auto simp: same_def buffered_contents push_ok push_contents)

lemma consume_buffered:
  assumes "ok q" "n \<le> buffered q" "consume n q = Some (bytes, q')"
  shows "ok q' \<and> buffered q' = buffered q - n \<and> length bytes = n"
  using consume_contents [of q n] assms by (auto simp: buffered_contents)

end

subsection \<open>The code's queue\<close>

definition buffer_contents :: "frame_buffer \<Rightarrow> octet list" where
  "buffer_contents b = drop (bufferChunkOffset b) (concat (drop (bufferChunkIndex b) (bufferChunks b)))"

definition buffer_ok :: "frame_buffer \<Rightarrow> bool" where
  "buffer_ok b \<longleftrightarrow> bufferedBytes b = length (buffer_contents b) \<and> bufferChunkIndex b \<le> length (bufferChunks b) \<and>
     (if bufferChunkIndex b = length (bufferChunks b) then bufferChunkOffset b = 0
      else bufferChunkOffset b \<le> length (bufferChunks b ! bufferChunkIndex b))"

lemma peek_loop_take: "offset \<le> length (concat (take 1 cs)) \<Longrightarrow> peek_loop cs offset n = take n (drop offset (concat cs))"
  by (induction cs offset n rule: peek_loop.induct) (auto simp: Let_def min_def)

lemma consume_loop_take:
  assumes "offset \<le> length (concat (take 1 cs))" "n \<le> length (drop offset (concat cs))"
  shows "\<exists>idx' offset'. consume_loop cs idx offset n = Some (take n (drop offset (concat cs)), idx + idx', offset') \<and>
    idx' \<le> length cs \<and> (if idx' = length cs then offset' = 0 else offset' \<le> length (cs ! idx')) \<and>
    drop offset' (concat (drop idx' cs)) = drop n (drop offset (concat cs))"
  using assms
proof (induction cs idx offset n rule: consume_loop.induct)
  case (1 cs idx offset)
  then show ?case by (cases cs) (auto intro!: exI [of _ "0 :: nat"])
next
  case (3 c cs idx offset n)
  let ?k = "min (length c - offset) (Suc n)"
  have off: "offset \<le> length c" using 3(2) by simp
  show ?case
  proof (cases "offset + ?k = length c")
    case True
    then have k: "?k = length c - offset" by simp
    have "Suc n - ?k \<le> length (drop 0 (concat cs))" using 3(3) off k by simp
    with 3(1) [of ?k, OF refl refl True] obtain idx' offset' where
      ih: "consume_loop cs (Suc idx) 0 (Suc n - ?k) = Some (take (Suc n - ?k) (concat cs), Suc idx + idx', offset')"
        "idx' \<le> length cs" "if idx' = length cs then offset' = 0 else offset' \<le> length (cs ! idx')"
        "drop offset' (concat (drop idx' cs)) = drop (Suc n - ?k) (concat cs)" by auto
    have "take ?k (drop offset c) = drop offset c" using k by simp
    moreover have "take (Suc n) (drop offset (concat (c # cs))) = drop offset c @ take (Suc n - ?k) (concat cs)"
      "drop (Suc n) (drop offset (concat (c # cs))) = drop (Suc n - ?k) (concat cs)"
      using off k by (auto simp: min_def split: if_splits)
    ultimately show ?thesis
      using ih True by (intro exI [of _ "Suc idx'"] exI [of _ offset']) (simp add: Let_def)
  next
    case False
    then have k: "?k = Suc n" "Suc n < length c - offset" using off by (auto simp: min_def split: if_splits)
    then show ?thesis
      using off by (intro exI [of _ "0 :: nat"] exI [of _ "offset + Suc n"]) (auto simp: Let_def add.commute)
  qed
qed simp

lemma buffer_ok_suffix: "buffer_ok b \<Longrightarrow> bufferChunkOffset b \<le> length (concat (take 1 (drop (bufferChunkIndex b) (bufferChunks b))))"
  by (auto simp: buffer_ok_def take_Suc hd_drop_conv_nth split: if_splits)

lemma buffer_ok_offset: "buffer_ok b \<Longrightarrow> bufferChunkOffset b \<le> length (concat (drop (bufferChunkIndex b) (bufferChunks b)))"
proof -
  assume b: "buffer_ok b"
  have "length (concat (take 1 cs)) \<le> length (concat cs)" for cs :: "octet list list" by (cases cs) simp_all
  with buffer_ok_suffix [OF b] show ?thesis by (rule le_trans)
qed

lemma drop_read_chunks_same:
  assumes "bufferChunkIndex b \<le> length (bufferChunks b)"
    and "if bufferChunkIndex b = length (bufferChunks b) then bufferChunkOffset b = 0 else bufferChunkOffset b \<le> length (bufferChunks b ! bufferChunkIndex b)"
  shows "buffer_contents (drop_read_chunks b) = buffer_contents b \<and>
    bufferChunkIndex (drop_read_chunks b) \<le> length (bufferChunks (drop_read_chunks b)) \<and>
    (if bufferChunkIndex (drop_read_chunks b) = length (bufferChunks (drop_read_chunks b)) then bufferChunkOffset (drop_read_chunks b) = 0
     else bufferChunkOffset (drop_read_chunks b) \<le> length (bufferChunks (drop_read_chunks b) ! bufferChunkIndex (drop_read_chunks b)))"
  using assms by (auto simp: drop_read_chunks_def buffer_contents_def)

interpretation chunk_queue: byte_queue buffer_ok buffer_contents bufferedBytes push_chunk peekBufferedBytes consumeBufferedBytes
proof
  fix q :: frame_buffer and n data
  assume q: "buffer_ok q"
  show "bufferedBytes q = length (buffer_contents q)" using q by (simp add: buffer_ok_def)
  show push: "buffer_contents (push_chunk data q) = buffer_contents q @ data"
    using q buffer_ok_offset [OF q] by (auto simp: buffer_contents_def push_chunk_def buffer_ok_def)
  then show "buffer_ok (push_chunk data q)"
    using q by (auto simp: buffer_ok_def push_chunk_def nth_append)
  assume n: "n \<le> length (buffer_contents q)"
  show "peekBufferedBytes n q = take n (buffer_contents q)"
    using peek_loop_take [OF buffer_ok_suffix [OF q]] by (simp add: peekBufferedBytes_def buffer_contents_def)
  from consume_loop_take [OF buffer_ok_suffix [OF q], of n "bufferChunkIndex q"] n obtain idx' offset' where
    loop: "consume_loop (drop (bufferChunkIndex q) (bufferChunks q)) (bufferChunkIndex q) (bufferChunkOffset q) n =
      Some (take n (buffer_contents q), bufferChunkIndex q + idx', offset')"
    "idx' \<le> length (bufferChunks q) - bufferChunkIndex q"
    "if idx' = length (bufferChunks q) - bufferChunkIndex q then offset' = 0 else offset' \<le> length (drop (bufferChunkIndex q) (bufferChunks q) ! idx')"
    "drop offset' (concat (drop idx' (drop (bufferChunkIndex q) (bufferChunks q)))) = drop n (buffer_contents q)"
    by (auto simp: buffer_contents_def)
  let ?r = "q\<lparr>bufferChunkIndex := bufferChunkIndex q + idx', bufferChunkOffset := offset'\<rparr>"
  have r: "bufferChunkIndex ?r \<le> length (bufferChunks ?r)"
    "if bufferChunkIndex ?r = length (bufferChunks ?r) then bufferChunkOffset ?r = 0 else bufferChunkOffset ?r \<le> length (bufferChunks ?r ! bufferChunkIndex ?r)"
    using loop(2,3) q by (auto simp: buffer_ok_def split: if_splits)
  have "buffer_contents ?r = drop n (buffer_contents q)" using loop(4) by (simp add: buffer_contents_def add.commute)
  with drop_read_chunks_same [OF r] loop(1) q n
  show "\<exists>q'. consumeBufferedBytes n q = Some (take n (buffer_contents q), q') \<and> buffer_ok q' \<and> buffer_contents q' = drop n (buffer_contents q)"
    by (auto simp: consumeBufferedBytes_def buffer_ok_def) (auto simp: buffer_contents_def)
qed

end
