(* ===== verification/Ws_Session.thy ===== *)
theory Ws_Session
  imports Ws_Buffer Js_Value
begin

unbundle bit_operations_syntax

text \<open>
  The socket side of a websocket session (\<open>src/src/http-server/client/websocket-session.js\<close>): bytes
  are cut into frames, fragments are joined to messages, messages are admitted under a backlog budget and
  dispatched one at a time, and frames are written. Bytes are 8-bit words.

  What a message makes the application do is not modelled; a dispatch starts and is settled by two
  operations, and everything else may happen in between. An admission is released with its work, which
  is then gone, so that the flag \<open>released\<close> needs no place in the state.
\<close>

record ws_env =
  json_message :: "octet list \<Rightarrow> jsval option"
  json_bytes :: "jsval \<Rightarrow> octet list"

record admission =
  ad_byteLength :: nat
  ad_generation :: nat

record work =
  wk_admission :: admission
  wk_message :: jsval

datatype chain_item = Message work | Resolved bool

record ws_session =
  ws_buffer :: frame_buffer
  ws_fragmentedPayloads :: "octet list list option"
  ws_fragmentedOpcode :: "nat option"
  ws_fragmentedBytes :: nat
  ws_maxPendingBytes :: nat
  ws_maxPendingMessages :: nat
  ws_pendingBytes :: int
  ws_pendingMessages :: int
  ws_generation :: nat
  ws_inboundClosed :: bool
  ws_backlogOverloaded :: bool
  ws_heartbeat :: bool
  ws_heartbeatAlive :: bool
  ws_resumable :: bool
  ws_paused :: bool
  ws_outboundQueue :: "jsval list"
  ws_output :: "octet list list"
  ws_pendingMessageHandler :: bool
  ws_messageQueue :: "work list"
  ws_flushing :: "work list"
  ws_messageChain :: "chain_item list"
  ws_running :: "work option"
  ws_admitted :: "jsval list"
  ws_dispatched :: "jsval list"

definition FINAL_FRAME :: octet where "FINAL_FRAME = 0x80"
definition OPCODE_CONTINUATION :: nat where "OPCODE_CONTINUATION = 0"
definition OPCODE_TEXT :: nat where "OPCODE_TEXT = 1"
definition OPCODE_BINARY :: nat where "OPCODE_BINARY = 2"
definition OPCODE_CLOSE :: nat where "OPCODE_CLOSE = 8"
definition OPCODE_PING :: nat where "OPCODE_PING = 9"
definition OPCODE_PONG :: nat where "OPCODE_PONG = 10"

lemmas opcodes = OPCODE_CONTINUATION_def OPCODE_TEXT_def OPCODE_BINARY_def OPCODE_CLOSE_def OPCODE_PING_def OPCODE_PONG_def

definition CLOSE_POLICY_VIOLATION :: nat where "CLOSE_POLICY_VIOLATION = 1008"
definition BACKLOG_CLOSE_REASON :: string where "BACKLOG_CLOSE_REASON = ''Inbound message backlog exceeded''"
definition MAX_CLOSE_REASON_BYTES :: nat where "MAX_CLOSE_REASON_BYTES = 123"
definition PAUSED_QUEUE_CAP :: nat where "PAUSED_QUEUE_CAP = 1000"
definition MAX_FRAGMENTED_MESSAGE_BYTES :: nat where "MAX_FRAGMENTED_MESSAGE_BYTES = 16777216"
definition MAX_FINAL_FRAME_BYTES :: nat where "MAX_FINAL_FRAME_BYTES = MAX_FRAGMENTED_MESSAGE_BYTES"
definition MAX_FRAGMENTED_MESSAGE_FRAGMENTS :: nat where "MAX_FRAGMENTED_MESSAGE_FRAGMENTS = 1024"

definition new_session :: "nat \<Rightarrow> nat \<Rightarrow> bool \<Rightarrow> ws_session" where
  "new_session maxBytes maxMessages resolver = \<lparr>ws_buffer = empty_buffer, ws_fragmentedPayloads = None, ws_fragmentedOpcode = None,
     ws_fragmentedBytes = 0, ws_maxPendingBytes = maxBytes, ws_maxPendingMessages = maxMessages, ws_pendingBytes = 0,
     ws_pendingMessages = 0, ws_generation = 0, ws_inboundClosed = False, ws_backlogOverloaded = False, ws_heartbeat = False,
     ws_heartbeatAlive = True, ws_resumable = False, ws_paused = False, ws_outboundQueue = [], ws_output = [],
     ws_pendingMessageHandler = resolver, ws_messageQueue = [], ws_flushing = [], ws_messageChain = [], ws_running = None,
     ws_admitted = [], ws_dispatched = []\<rparr>"

subsection \<open>Writing frames\<close>

text \<open>\<open>writeUInt16BE\<close>, \<open>writeBigUInt64BE\<close> and their readers.\<close>

fun big_endian :: "nat \<Rightarrow> nat \<Rightarrow> octet list" where
  "big_endian 0 n = []"
| "big_endian (Suc k) n = big_endian k (n div 256) @ [word_of_nat n]"

definition read_big_endian :: "octet list \<Rightarrow> nat" where
  "read_big_endian bs = foldl (\<lambda>n b. 256 * n + unat b) 0 bs"

lemma read_big_endian_append: "read_big_endian (bs @ [b]) = 256 * read_big_endian bs + unat b"
  by (simp add: read_big_endian_def)

definition send_frame :: "octet list \<Rightarrow> ws_session \<Rightarrow> ws_session" where
  "send_frame frame st = st\<lparr>ws_output := ws_output st @ [frame]\<rparr>"

text \<open>A byte of a buffer keeps the value modulo 256.\<close>

definition sendControlFrame :: "nat \<Rightarrow> octet list \<Rightarrow> ws_session \<Rightarrow> ws_session" where
  "sendControlFrame opcode payload st =
     send_frame ([FINAL_FRAME OR word_of_nat opcode, word_of_nat (length payload)] @ payload) st"

definition text_frame :: "octet list \<Rightarrow> octet list" where
  "text_frame payload =
     (FINAL_FRAME OR word_of_nat OPCODE_TEXT) #
     (if length payload < 126 then [word_of_nat (length payload)]
      else if length payload < 65536 then 126 # big_endian 2 (length payload)
      else 127 # big_endian 8 (length payload)) @ payload"

definition sendJson :: "ws_env \<Rightarrow> jsval \<Rightarrow> ws_session \<Rightarrow> ws_session" where
  "sendJson env body st =
     (if ws_paused st then
        st\<lparr>ws_outboundQueue :=
            (if PAUSED_QUEUE_CAP \<le> length (ws_outboundQueue st) then tl (ws_outboundQueue st) else ws_outboundQueue st) @ [body]\<rparr>
      else send_frame (text_frame (json_bytes env body)) st)"

definition flushOutboundQueue :: "ws_env \<Rightarrow> ws_session \<Rightarrow> ws_session" where
  "flushOutboundQueue env st = fold (sendJson env) (ws_outboundQueue st) (st\<lparr>ws_outboundQueue := []\<rparr>)"

text \<open>\<open>None\<close> is the \<open>RangeError\<close> of a reason that is too long.\<close>

definition sendGoodbye :: "(nat \<times> octet list) option \<Rightarrow> ws_session \<Rightarrow> ws_session option" where
  "sendGoodbye status st =
     (case status of
        None \<Rightarrow> Some (send_frame [FINAL_FRAME OR word_of_nat OPCODE_CLOSE, 0] st)
      | Some (code, reason) \<Rightarrow>
          if MAX_CLOSE_REASON_BYTES < length reason then None
          else Some (send_frame ([FINAL_FRAME OR word_of_nat OPCODE_CLOSE, word_of_nat (2 + length reason)] @ big_endian 2 code @ reason) st))"

subsection \<open>Closing\<close>

definition resetFragmentBuffer :: "ws_session \<Rightarrow> ws_session" where
  "resetFragmentBuffer st = st\<lparr>ws_fragmentedPayloads := None, ws_fragmentedOpcode := None, ws_fragmentedBytes := 0\<rparr>"

definition clear_buffer :: "ws_session \<Rightarrow> ws_session" where
  "clear_buffer st = st\<lparr>ws_buffer := clearBufferedFrameChunks (ws_buffer st)\<rparr>"

definition abandonInboundMessages :: "ws_session \<Rightarrow> ws_session" where
  "abandonInboundMessages st = st\<lparr>ws_inboundClosed := True, ws_generation := Suc (ws_generation st), ws_pendingBytes := 0,
     ws_pendingMessages := 0, ws_messageQueue := []\<rparr>"

text \<open>A session with live connections or channel subscriptions is paused, any other one torn down.\<close>

definition handleClose :: "bool \<Rightarrow> ws_session \<Rightarrow> ws_session" where
  "handleClose allowResume st =
     (let st1 = abandonInboundMessages (clear_buffer (resetFragmentBuffer st)) in
      if allowResume \<and> ws_resumable st1 \<and> \<not> ws_paused st1 then st1\<lparr>ws_heartbeat := False, ws_paused := True\<rparr>
      else st1\<lparr>ws_heartbeat := False, ws_resumable := False\<rparr>)"

definition finalizeGraceExpiry :: "ws_session \<Rightarrow> ws_session" where
  "finalizeGraceExpiry st =
     (abandonInboundMessages (clear_buffer (resetFragmentBuffer st)))\<lparr>ws_heartbeat := False, ws_resumable := False\<rparr>"

definition destroy_session :: "ws_session \<Rightarrow> ws_session" where
  "destroy_session st =
     (abandonInboundMessages (clear_buffer (resetFragmentBuffer st)))\<lparr>ws_heartbeat := False, ws_paused := False, ws_resumable := False\<rparr>"

definition goodbye_and_close :: "(nat \<times> octet list) option \<Rightarrow> bool \<Rightarrow> ws_session \<Rightarrow> ws_session" where
  "goodbye_and_close status allowResume st =
     (case sendGoodbye status st of None \<Rightarrow> st | Some st' \<Rightarrow> handleClose allowResume st')"

definition closeForInboundLimit :: "ws_session \<Rightarrow> ws_session" where
  "closeForInboundLimit st = goodbye_and_close None True (clear_buffer (resetFragmentBuffer st))"

definition closeForInboundBacklog :: "ws_session \<Rightarrow> ws_session" where
  "closeForInboundBacklog st =
     (if ws_backlogOverloaded st \<or> ws_inboundClosed st then st
      else goodbye_and_close (Some (CLOSE_POLICY_VIOLATION, map of_char BACKLOG_CLOSE_REASON)) False (st\<lparr>ws_backlogOverloaded := True\<rparr>))"

subsection \<open>Admissions\<close>

definition admitInboundMessage :: "nat \<Rightarrow> ws_session \<Rightarrow> admission option \<times> ws_session" where
  "admitInboundMessage byteLength st =
     (if ws_inboundClosed st then (None, st)
      else if int (ws_maxPendingMessages st) < ws_pendingMessages st + 1 \<or> int (ws_maxPendingBytes st) < ws_pendingBytes st + int byteLength
      then (None, closeForInboundBacklog st)
      else (Some \<lparr>ad_byteLength = byteLength, ad_generation = ws_generation st\<rparr>,
            st\<lparr>ws_pendingMessages := ws_pendingMessages st + 1, ws_pendingBytes := ws_pendingBytes st + int byteLength\<rparr>))"

definition releaseInboundAdmission :: "admission \<Rightarrow> ws_session \<Rightarrow> ws_session" where
  "releaseInboundAdmission ad st =
     (if ad_generation ad \<noteq> ws_generation st then st
      else st\<lparr>ws_pendingMessages := ws_pendingMessages st - 1, ws_pendingBytes := ws_pendingBytes st - int (ad_byteLength ad)\<rparr>)"

definition handleMessageWork :: "work \<Rightarrow> ws_session \<Rightarrow> ws_session" where
  "handleMessageWork w st =
     st\<lparr>ws_messageChain := ws_messageChain st @ [Message w], ws_admitted := ws_admitted st @ [wk_message w]\<rparr>"

definition handleMessage :: "jsval \<Rightarrow> ws_session \<Rightarrow> ws_session" where
  "handleMessage message st =
     (case admitInboundMessage 0 st of
        (None, st1) \<Rightarrow> st1
      | (Some ad, st1) \<Rightarrow> handleMessageWork \<lparr>wk_admission = ad, wk_message = message\<rparr> st1)"

subsection \<open>Reading frames\<close>

datatype frame_header = Incomplete | Too_Long | Header bool nat bool nat nat

definition read_header :: "frame_buffer \<Rightarrow> frame_header" where
  "read_header b =
     (let initialHeader = peekBufferedBytes 2 b; firstByte = initialHeader ! 0; secondByte = initialHeader ! 1;
          header = Header (firstByte AND FINAL_FRAME = FINAL_FRAME) (unat (firstByte AND 0x0F)) (secondByte AND 0x80 = 0x80);
          payloadLength = unat (secondByte AND 0x7F) in
      if payloadLength = 126 then
        (if bufferedBytes b < 4 then Incomplete else header (read_big_endian (drop 2 (peekBufferedBytes 4 b))) 4)
      else if payloadLength = 127 then
        (if bufferedBytes b < 10 then Incomplete
         else
           (let bigLength = read_big_endian (drop 2 (peekBufferedBytes 10 b)) in
            if MAX_FINAL_FRAME_BYTES < bigLength then Too_Long else header bigLength 10))
      else header payloadLength 2)"

definition unmaskPayload :: "octet list \<Rightarrow> octet list \<Rightarrow> octet list" where
  "unmaskPayload payload key = map (\<lambda>(i, b). b XOR key ! (i mod 4)) (enumerate 0 payload)"

text \<open>\<open>False\<close>: the loop over the buffer returns.\<close>

definition enforceFragmentLimits :: "ws_session \<Rightarrow> ws_session \<times> bool" where
  "enforceFragmentLimits st =
     (case ws_fragmentedPayloads st of
        None \<Rightarrow> (st, True)
      | Some payloads \<Rightarrow>
          if ws_fragmentedBytes st \<le> MAX_FRAGMENTED_MESSAGE_BYTES \<and> length payloads \<le> MAX_FRAGMENTED_MESSAGE_FRAGMENTS then (st, True)
          else (closeForInboundLimit st, False))"

definition appendFragment :: "octet list \<Rightarrow> ws_session \<Rightarrow> ws_session \<times> bool" where
  "appendFragment payload st =
     enforceFragmentLimits (st\<lparr>ws_fragmentedPayloads := map_option (\<lambda>ps. ps @ [payload]) (ws_fragmentedPayloads st),
       ws_fragmentedBytes := ws_fragmentedBytes st + length payload\<rparr>)"

text \<open>A complete message: it is admitted before it is decoded.\<close>

definition invalid_message :: jsval where
  "invalid_message = JObj [(''error'', JStr ''Invalid websocket message''), (''type'', JStr ''error'')]"

definition complete_message :: "ws_env \<Rightarrow> nat \<Rightarrow> octet list \<Rightarrow> ws_session \<Rightarrow> ws_session \<times> bool" where
  "complete_message env finalOpcode finalPayload st =
     (if finalOpcode \<noteq> OPCODE_TEXT then (st, True)
      else
        (case admitInboundMessage (length finalPayload) st of
           (None, st1) \<Rightarrow> (st1, False)
         | (Some ad, st1) \<Rightarrow>
             (case json_message env finalPayload of
                Some message \<Rightarrow> (handleMessageWork \<lparr>wk_admission = ad, wk_message = message\<rparr> st1, True)
              | None \<Rightarrow> (sendJson env invalid_message (releaseInboundAdmission ad st1), True))))"

definition continuation_frame :: "ws_env \<Rightarrow> bool \<Rightarrow> octet list \<Rightarrow> ws_session \<Rightarrow> ws_session \<times> bool" where
  "continuation_frame env isFinal payload st =
     (if ws_fragmentedPayloads st = None then (st, True)
      else
        (case appendFragment payload st of
           (st1, False) \<Rightarrow> (st1, False)
         | (st1, True) \<Rightarrow>
             if \<not> isFinal then (st1, True)
             else
               (case ws_fragmentedPayloads st1 of
                  None \<Rightarrow> complete_message env OPCODE_CONTINUATION payload st1
                | Some payloads \<Rightarrow>
                    complete_message env (case ws_fragmentedOpcode st1 of None \<Rightarrow> OPCODE_TEXT | Some c \<Rightarrow> c) (concat payloads)
                      (resetFragmentBuffer st1))))"

definition data_frame :: "ws_env \<Rightarrow> bool \<Rightarrow> nat \<Rightarrow> octet list \<Rightarrow> ws_session \<Rightarrow> ws_session \<times> bool" where
  "data_frame env isFinal opcode payload st =
     (let st1 = (if ws_fragmentedPayloads st \<noteq> None then resetFragmentBuffer st else st) in
      if \<not> isFinal then
        enforceFragmentLimits (st1\<lparr>ws_fragmentedPayloads := Some [payload], ws_fragmentedOpcode := Some opcode, ws_fragmentedBytes := length payload\<rparr>)
      else complete_message env opcode payload st1)"

definition handle_frame :: "ws_env \<Rightarrow> bool \<Rightarrow> nat \<Rightarrow> octet list \<Rightarrow> ws_session \<Rightarrow> ws_session \<times> bool" where
  "handle_frame env isFinal opcode payload st =
     (if opcode = OPCODE_PING then (sendControlFrame OPCODE_PONG payload st, True)
      else if opcode = OPCODE_CLOSE then (goodbye_and_close None True st, True)
      else if 8 \<le> opcode then (st, True)
      else if opcode = OPCODE_CONTINUATION then continuation_frame env isFinal payload st
      else if opcode = OPCODE_TEXT \<or> opcode = OPCODE_BINARY then data_frame env isFinal opcode payload st
      else (st, True))"

definition process_turn :: "ws_env \<Rightarrow> ws_session \<Rightarrow> ws_session \<times> bool" where
  "process_turn env st =
     (case read_header (ws_buffer st) of
        Incomplete \<Rightarrow> (st, False)
      | Too_Long \<Rightarrow> (closeForInboundLimit st, False)
      | Header isFinal opcode isMasked payloadLength offset \<Rightarrow>
          (let maskLength = (if isMasked then 4 else 0); frameLength = offset + maskLength + payloadLength in
           if bufferedBytes (ws_buffer st) < frameLength then (st, False)
           else
             (case consumeBufferedBytes frameLength (ws_buffer st) of
                None \<Rightarrow> (st, False)
              | Some (frame, b) \<Rightarrow>
                  (let payload = drop (offset + maskLength) frame in
                   handle_frame env isFinal opcode
                     (if isMasked then unmaskPayload payload (take maskLength (drop offset frame)) else payload)
                     (st\<lparr>ws_buffer := b\<rparr>)))))"

text \<open>Every frame that is handled has been taken from the buffer, and nothing is put back.\<close>

lemma close_buffered [simp]:
  "bufferedBytes (ws_buffer (handleClose r st)) = 0" "bufferedBytes (ws_buffer (send_frame f st)) = bufferedBytes (ws_buffer st)"
  "bufferedBytes (ws_buffer (resetFragmentBuffer st)) = bufferedBytes (ws_buffer st)"
  "bufferedBytes (ws_buffer (releaseInboundAdmission ad st)) = bufferedBytes (ws_buffer st)"
  "bufferedBytes (ws_buffer (handleMessageWork w st)) = bufferedBytes (ws_buffer st)"
  "bufferedBytes (ws_buffer (sendJson env v st)) = bufferedBytes (ws_buffer st)"
  "bufferedBytes (ws_buffer (sendControlFrame c p st)) = bufferedBytes (ws_buffer st)"
  by (simp_all add: handleClose_def abandonInboundMessages_def clear_buffer_def clearBufferedFrameChunks_def resetFragmentBuffer_def
      send_frame_def releaseInboundAdmission_def handleMessageWork_def sendJson_def sendControlFrame_def Let_def)

lemma goodbye_buffered: "bufferedBytes (ws_buffer (goodbye_and_close status r st)) \<le> bufferedBytes (ws_buffer st)"
  by (simp add: goodbye_and_close_def split: option.split)

lemma limit_buffered: "bufferedBytes (ws_buffer (closeForInboundLimit st)) = 0"
  by (simp add: closeForInboundLimit_def goodbye_and_close_def sendGoodbye_def)

lemma admit_buffered: "bufferedBytes (ws_buffer (snd (admitInboundMessage n st))) \<le> bufferedBytes (ws_buffer st)"
  using goodbye_buffered [of _ False "st\<lparr>ws_backlogOverloaded := True\<rparr>"]
  by (simp add: admitInboundMessage_def closeForInboundBacklog_def)

lemma complete_buffered: "bufferedBytes (ws_buffer (fst (complete_message env c p st))) \<le> bufferedBytes (ws_buffer st)"
  using admit_buffered [of "length p" st] by (auto simp: complete_message_def split: prod.split option.split)

lemma enforce_buffered: "bufferedBytes (ws_buffer (fst (enforceFragmentLimits st))) \<le> bufferedBytes (ws_buffer st)"
  by (simp add: enforceFragmentLimits_def limit_buffered split: option.split)

lemma append_buffered: "bufferedBytes (ws_buffer (fst (appendFragment p st))) \<le> bufferedBytes (ws_buffer st)"
  unfolding appendFragment_def by (rule order_trans [OF enforce_buffered]) simp

lemma continuation_buffered: "bufferedBytes (ws_buffer (fst (continuation_frame env f p st))) \<le> bufferedBytes (ws_buffer st)"
proof -
  obtain st1 go where a: "appendFragment p st = (st1, go)" by (cases "appendFragment p st")
  have "bufferedBytes (ws_buffer (fst (complete_message env c q (resetFragmentBuffer st1)))) \<le> bufferedBytes (ws_buffer st)"
    "bufferedBytes (ws_buffer (fst (complete_message env c q st1))) \<le> bufferedBytes (ws_buffer st)" for c q
    using append_buffered [of p st] complete_buffered [of env c q st1] complete_buffered [of env c q "resetFragmentBuffer st1"] a by simp_all
  with append_buffered [of p st] a show ?thesis
    by (simp add: continuation_frame_def split: bool.split option.split)
qed

lemma data_buffered: "bufferedBytes (ws_buffer (fst (data_frame env f c p st))) \<le> bufferedBytes (ws_buffer st)"
proof -
  have "bufferedBytes (ws_buffer (fst (complete_message env c p (resetFragmentBuffer st)))) \<le> bufferedBytes (ws_buffer st)"
    "bufferedBytes (ws_buffer (fst (complete_message env c p st))) \<le> bufferedBytes (ws_buffer st)"
    using complete_buffered [of env c p "resetFragmentBuffer st"] complete_buffered [of env c p st] by simp_all
  moreover have "bufferedBytes (ws_buffer (fst (enforceFragmentLimits (st1\<lparr>ws_fragmentedPayloads := a, ws_fragmentedOpcode := b, ws_fragmentedBytes := n\<rparr>)))) \<le> bufferedBytes (ws_buffer st1)" for st1 a b n
    by (rule order_trans [OF enforce_buffered]) simp
  moreover have "bufferedBytes (ws_buffer (fst (enforceFragmentLimits (resetFragmentBuffer st\<lparr>ws_fragmentedPayloads := a, ws_fragmentedOpcode := b, ws_fragmentedBytes := n\<rparr>)))) \<le> bufferedBytes (ws_buffer st)" for a b n
    by (rule order_trans [OF enforce_buffered]) simp
  ultimately show ?thesis by (simp add: data_frame_def Let_def)
qed

lemma handle_frame_buffered: "bufferedBytes (ws_buffer (fst (handle_frame env f c p st))) \<le> bufferedBytes (ws_buffer st)"
  by (simp add: handle_frame_def goodbye_buffered continuation_buffered data_buffered)

lemma process_turn_buffered:
  assumes "process_turn env st = (st', True)" "2 \<le> bufferedBytes (ws_buffer st)"
  shows "bufferedBytes (ws_buffer st') < bufferedBytes (ws_buffer st)"
proof -
  from assms(1) obtain isFinal opcode isMasked payloadLength offset where h: "read_header (ws_buffer st) = Header isFinal opcode isMasked payloadLength offset"
    by (auto simp: process_turn_def split: frame_header.splits)
  then have "2 \<le> offset" by (auto simp: read_header_def Let_def split: if_splits)
  let ?n = "offset + (if isMasked then 4 else 0) + payloadLength"
  from assms(1) h obtain frame b p where b: "consumeBufferedBytes ?n (ws_buffer st) = Some (frame, b)"
    "handle_frame env isFinal opcode p (st\<lparr>ws_buffer := b\<rparr>) = (st', True)"
    by (auto simp: process_turn_def Let_def split: if_splits option.splits)
  have "bufferedBytes b = bufferedBytes (ws_buffer st) - ?n" using b(1) by (auto simp: consumeBufferedBytes_def split: option.splits)
  with handle_frame_buffered [of env isFinal opcode p "st\<lparr>ws_buffer := b\<rparr>"] b(2) \<open>2 \<le> offset\<close> assms(2) show ?thesis by simp
qed

function process_buffer :: "ws_env \<Rightarrow> ws_session \<Rightarrow> ws_session" where
  "process_buffer env st =
     (if bufferedBytes (ws_buffer st) < 2 then st
      else case process_turn env st of (st', True) \<Rightarrow> process_buffer env st' | (st', False) \<Rightarrow> st')"
  by pat_completeness auto
termination
  by (relation "measure (\<lambda>(env, st). bufferedBytes (ws_buffer st))") (auto dest!: sym [of _ "process_turn _ _"] process_turn_buffered)

declare process_buffer.simps [simp del]

definition onData :: "ws_env \<Rightarrow> octet list \<Rightarrow> ws_session \<Rightarrow> ws_session" where
  "onData env data st =
     (let st1 = st\<lparr>ws_heartbeatAlive := True\<rparr> in
      if ws_inboundClosed st1 \<or> data = [] then st1
      else process_buffer env (st1\<lparr>ws_buffer := push_chunk data (ws_buffer st1)\<rparr>))"

subsection \<open>Heartbeat\<close>

definition startHeartbeat :: "nat \<Rightarrow> ws_session \<Rightarrow> ws_session" where
  "startHeartbeat intervalSeconds st = (if intervalSeconds = 0 then st else st\<lparr>ws_heartbeat := True\<rparr>)"

definition stopHeartbeat :: "ws_session \<Rightarrow> ws_session" where
  "stopHeartbeat st = st\<lparr>ws_heartbeat := False\<rparr>"

definition heartbeatTick :: "ws_session \<Rightarrow> ws_session" where
  "heartbeatTick st =
     (if ws_paused st then st
      else if \<not> ws_heartbeatAlive st then handleClose True (stopHeartbeat st)
      else sendControlFrame OPCODE_PING [] (st\<lparr>ws_heartbeatAlive := False\<rparr>))"

subsection \<open>Dispatching messages\<close>

text \<open>
  The promise chain: the next item runs when nothing is being dispatched. Messages that arrive while the
  application's message handler is being resolved are set aside; the resolution is an item of the chain
  itself (\<open>_finishMessageHandlerResolution\<close>) and hands them over in order
  (\<open>_flushQueuedMessages\<close>).
\<close>

definition start_dispatch :: "work \<Rightarrow> ws_session \<Rightarrow> ws_session" where
  "start_dispatch w st = st\<lparr>ws_running := Some w, ws_dispatched := ws_dispatched st @ [wk_message w]\<rparr>"

definition runMessageWork :: "work \<Rightarrow> ws_session \<Rightarrow> ws_session" where
  "runMessageWork w st =
     (if ws_inboundClosed st then releaseInboundAdmission (wk_admission w) st
      else if ws_pendingMessageHandler st then st\<lparr>ws_messageQueue := ws_messageQueue st @ [w]\<rparr>
      else start_dispatch w st)"

definition finish_resolution :: "ws_session \<Rightarrow> ws_session" where
  "finish_resolution st =
     (if ws_inboundClosed st then st\<lparr>ws_pendingMessageHandler := False, ws_messageQueue := []\<rparr>
      else st\<lparr>ws_pendingMessageHandler := False, ws_flushing := ws_messageQueue st, ws_messageQueue := []\<rparr>)"

definition flush_next :: "work \<Rightarrow> ws_session \<Rightarrow> ws_session" where
  "flush_next w st =
     (if ws_inboundClosed st then releaseInboundAdmission (wk_admission w) st else start_dispatch w st)"

definition run_next :: "ws_session \<Rightarrow> ws_session" where
  "run_next st =
     (if ws_running st \<noteq> None then st
      else
        (case ws_flushing st of
           w # ws \<Rightarrow> flush_next w (st\<lparr>ws_flushing := ws\<rparr>)
         | [] \<Rightarrow>
             (case ws_messageChain st of
                [] \<Rightarrow> st
              | Message w # items \<Rightarrow> runMessageWork w (st\<lparr>ws_messageChain := items\<rparr>)
              | Resolved h # items \<Rightarrow> finish_resolution (st\<lparr>ws_messageChain := items\<rparr>))))"

definition queue_resolution :: "bool \<Rightarrow> ws_session \<Rightarrow> ws_session" where
  "queue_resolution useHandler st = st\<lparr>ws_messageChain := ws_messageChain st @ [Resolved useHandler]\<rparr>"

text \<open>\<open>None\<close>: the resolver gave no handler or failed. The handler's \<open>onOpen\<close> may take its time before its resolution is queued.\<close>

definition resolve_handler :: "bool option \<Rightarrow> ws_session \<Rightarrow> ws_session" where
  "resolve_handler handler st =
     (case handler of
        None \<Rightarrow> queue_resolution False st
      | Some useHandler \<Rightarrow>
          if ws_inboundClosed st then st\<lparr>ws_pendingMessageHandler := False\<rparr> else queue_resolution useHandler st)"

text \<open>A dispatch ends, with the text of an error if it failed.\<close>

definition settle_dispatch :: "ws_env \<Rightarrow> string option \<Rightarrow> ws_session \<Rightarrow> ws_session" where
  "settle_dispatch env error st =
     (case ws_running st of
        None \<Rightarrow> st
      | Some w \<Rightarrow>
          (let st1 = releaseInboundAdmission (wk_admission w) (st\<lparr>ws_running := None\<rparr>) in
           case error of None \<Rightarrow> st1 | Some text \<Rightarrow> sendJson env (JObj [(''error'', JStr text), (''type'', JStr ''error'')]) st1))"

end
