(* ===== verification/Ws_Frames.thy ===== *)
theory Ws_Frames
  imports Ws_Session
begin

text \<open>
  What the socket side of a session makes of bytes depends on their sequence only, not on the chunks
  they arrive in; and of the bytes of frames it makes those frames.
\<close>

subsection \<open>Sessions up to their buffer\<close>

definition sans_buffer :: "ws_session \<Rightarrow> ws_session" where
  "sans_buffer st = st\<lparr>ws_buffer := empty_buffer\<rparr>"

text \<open>The buffer after an operation that may have closed the session: only a close empties it.\<close>

definition kept :: "ws_session \<Rightarrow> ws_session \<Rightarrow> frame_buffer \<Rightarrow> frame_buffer" where
  "kept st st' b = (if ws_generation st' = ws_generation st then b else clearBufferedFrameChunks b)"

definition on_buffer :: "frame_buffer \<Rightarrow> ws_session \<Rightarrow> ws_session \<times> bool \<Rightarrow> ws_session \<times> bool" where
  "on_buffer b st r = (fst r\<lparr>ws_buffer := kept st (fst r) b\<rparr>, snd r)"

lemma clear_clear [simp]: "clearBufferedFrameChunks (clearBufferedFrameChunks b) = clearBufferedFrameChunks b"
  by (simp add: clearBufferedFrameChunks_def)

lemma buffer_last [simp]:
  "st\<lparr>ws_buffer := b, ws_backlogOverloaded := x0\<rparr> = st\<lparr>ws_backlogOverloaded := x0, ws_buffer := b\<rparr>" "st\<lparr>ws_buffer := b, ws_output := x1\<rparr> = st\<lparr>ws_output := x1, ws_buffer := b\<rparr>"
  "st\<lparr>ws_buffer := b, ws_pendingMessages := x2\<rparr> = st\<lparr>ws_pendingMessages := x2, ws_buffer := b\<rparr>" "st\<lparr>ws_buffer := b, ws_pendingBytes := x3\<rparr> = st\<lparr>ws_pendingBytes := x3, ws_buffer := b\<rparr>"
  "st\<lparr>ws_buffer := b, ws_messageChain := x4\<rparr> = st\<lparr>ws_messageChain := x4, ws_buffer := b\<rparr>" "st\<lparr>ws_buffer := b, ws_admitted := x5\<rparr> = st\<lparr>ws_admitted := x5, ws_buffer := b\<rparr>"
  "st\<lparr>ws_buffer := b, ws_fragmentedPayloads := x6\<rparr> = st\<lparr>ws_fragmentedPayloads := x6, ws_buffer := b\<rparr>" "st\<lparr>ws_buffer := b, ws_fragmentedOpcode := x7\<rparr> = st\<lparr>ws_fragmentedOpcode := x7, ws_buffer := b\<rparr>"
  "st\<lparr>ws_buffer := b, ws_fragmentedBytes := x8\<rparr> = st\<lparr>ws_fragmentedBytes := x8, ws_buffer := b\<rparr>" "st\<lparr>ws_buffer := b, ws_outboundQueue := x9\<rparr> = st\<lparr>ws_outboundQueue := x9, ws_buffer := b\<rparr>"
  "st\<lparr>ws_buffer := b, ws_heartbeatAlive := x10\<rparr> = st\<lparr>ws_heartbeatAlive := x10, ws_buffer := b\<rparr>"
  by simp_all

lemma goodbye_on_buffer:
  "goodbye_and_close status r (st\<lparr>ws_buffer := b\<rparr>) = (goodbye_and_close status r st)\<lparr>ws_buffer := kept st (goodbye_and_close status r st) b\<rparr>"
proof -
  have close: "handleClose r (s\<lparr>ws_buffer := b\<rparr>) = (handleClose r s)\<lparr>ws_buffer := clearBufferedFrameChunks b\<rparr>"
    "ws_generation (handleClose r s) = Suc (ws_generation s)" for s
    by (simp_all add: handleClose_def abandonInboundMessages_def clear_buffer_def resetFragmentBuffer_def Let_def)
  show ?thesis
  proof (cases "sendGoodbye status st")
    case None
    then show ?thesis by (auto simp: goodbye_and_close_def sendGoodbye_def kept_def split: option.splits if_splits)
  next
    case (Some st')
    then show ?thesis
      by (auto simp: goodbye_and_close_def sendGoodbye_def send_frame_def kept_def close split: option.splits if_splits)
  qed
qed

lemma limit_on_buffer:
  "closeForInboundLimit (st\<lparr>ws_buffer := b\<rparr>) = (closeForInboundLimit st)\<lparr>ws_buffer := kept st (closeForInboundLimit st) b\<rparr>"
proof -
  have "clear_buffer (resetFragmentBuffer (st\<lparr>ws_buffer := b\<rparr>)) = (clear_buffer (resetFragmentBuffer st))\<lparr>ws_buffer := clearBufferedFrameChunks b\<rparr>"
    "ws_generation (clear_buffer (resetFragmentBuffer st)) = ws_generation st"
    by (simp_all add: clear_buffer_def resetFragmentBuffer_def)
  then show ?thesis
    by (simp add: closeForInboundLimit_def goodbye_on_buffer) (simp add: kept_def goodbye_and_close_def sendGoodbye_def handleClose_def
        abandonInboundMessages_def clear_buffer_def resetFragmentBuffer_def send_frame_def Let_def)
qed

lemma backlog_on_buffer:
  "closeForInboundBacklog (st\<lparr>ws_buffer := b\<rparr>) = (closeForInboundBacklog st)\<lparr>ws_buffer := kept st (closeForInboundBacklog st) b\<rparr>"
  using goodbye_on_buffer [where r = False and st = "st\<lparr>ws_backlogOverloaded := True\<rparr>" and b = b]
  by (simp add: closeForInboundBacklog_def kept_def)

lemma admit_on_buffer:
  "admitInboundMessage n (st\<lparr>ws_buffer := b\<rparr>) =
    (fst (admitInboundMessage n st), snd (admitInboundMessage n st)\<lparr>ws_buffer := kept st (snd (admitInboundMessage n st)) b\<rparr>)"
  by (simp add: admitInboundMessage_def backlog_on_buffer) (simp add: kept_def)

lemma enforce_on_buffer: "enforceFragmentLimits (st\<lparr>ws_buffer := b\<rparr>) = on_buffer b st (enforceFragmentLimits st)"
  by (simp add: enforceFragmentLimits_def on_buffer_def limit_on_buffer split: option.split) (simp add: kept_def)

lemma complete_on_buffer: "complete_message env c p (st\<lparr>ws_buffer := b\<rparr>) = on_buffer b st (complete_message env c p st)"
  by (simp add: complete_message_def admit_on_buffer on_buffer_def split: prod.split option.split)
    (simp add: kept_def handleMessageWork_def sendJson_def releaseInboundAdmission_def send_frame_def)

lemma enforce_go: "enforceFragmentLimits st = (st1, True) \<Longrightarrow> st1 = st"
  by (auto simp: enforceFragmentLimits_def split: option.splits if_splits)

lemma append_go: "appendFragment p st = (st1, True) \<Longrightarrow> ws_generation st1 = ws_generation st"
  by (auto simp: appendFragment_def dest: enforce_go)

lemma append_on_buffer: "appendFragment p (st\<lparr>ws_buffer := b\<rparr>) = on_buffer b st (appendFragment p st)"
  by (simp add: appendFragment_def enforce_on_buffer) (simp add: on_buffer_def kept_def)

lemma on_buffer_pair: "on_buffer b st (st1, go) = (st1\<lparr>ws_buffer := kept st st1 b\<rparr>, go)"
  by (simp add: on_buffer_def)

lemma reset_on_buffer: "resetFragmentBuffer (st\<lparr>ws_buffer := b\<rparr>) = (resetFragmentBuffer st)\<lparr>ws_buffer := b\<rparr>"
  "ws_generation (resetFragmentBuffer st) = ws_generation st"
  by (simp_all add: resetFragmentBuffer_def)

lemma continuation_on_buffer: "continuation_frame env f p (st\<lparr>ws_buffer := b\<rparr>) = on_buffer b st (continuation_frame env f p st)"
proof (cases "ws_fragmentedPayloads st")
  case None
  then show ?thesis by (simp add: continuation_frame_def on_buffer_pair kept_def)
next
  case (Some ps)
  obtain st1 go where a: "appendFragment p st = (st1, go)" by (cases "appendFragment p st")
  show ?thesis
  proof (cases go)
    case False
    with Some a show ?thesis by (simp add: continuation_frame_def append_on_buffer on_buffer_pair)
  next
    case True
    have gen: "ws_generation st1 = ws_generation st" using a True append_go [of p st st1] by simp
    then have "kept st st1 b = b" "on_buffer b st r = on_buffer b st1 r" for r by (simp_all add: kept_def on_buffer_def)
    moreover have "on_buffer b (resetFragmentBuffer st1) r = on_buffer b st1 r" for r by (simp add: on_buffer_def kept_def reset_on_buffer)
    ultimately show ?thesis
      using Some a True
      by (simp add: continuation_frame_def append_on_buffer on_buffer_pair complete_on_buffer reset_on_buffer split: option.split)
        (simp add: kept_def)
  qed
qed

lemma data_on_buffer: "data_frame env f c p (st\<lparr>ws_buffer := b\<rparr>) = on_buffer b st (data_frame env f c p st)"
proof -
  have r: "on_buffer b (resetFragmentBuffer st) r = on_buffer b st r" for r by (simp add: on_buffer_def kept_def reset_on_buffer)
  have e: "enforceFragmentLimits (s\<lparr>ws_fragmentedPayloads := x, ws_fragmentedOpcode := y, ws_fragmentedBytes := n, ws_buffer := b\<rparr>) =
      on_buffer b s (enforceFragmentLimits (s\<lparr>ws_fragmentedPayloads := x, ws_fragmentedOpcode := y, ws_fragmentedBytes := n\<rparr>))" for s x y n
    by (subst enforce_on_buffer) (simp add: on_buffer_def kept_def)
  show ?thesis
  proof (cases "ws_fragmentedPayloads st = None")
    case True
    then show ?thesis by (simp add: data_frame_def complete_on_buffer e)
  next
    case False
    then show ?thesis
      using e [where s = "resetFragmentBuffer st" and x = "Some [p]" and y = "Some c" and n = "length p"]
      by (simp add: data_frame_def complete_on_buffer reset_on_buffer r Let_def)
  qed
qed

lemma handle_frame_on_buffer: "handle_frame env f c p (st\<lparr>ws_buffer := b\<rparr>) = on_buffer b st (handle_frame env f c p st)"
  by (simp add: handle_frame_def on_buffer_pair goodbye_on_buffer continuation_on_buffer data_on_buffer)
    (simp add: kept_def sendControlFrame_def send_frame_def)

subsection \<open>The order of chunks\<close>

definition alike :: "ws_session \<Rightarrow> ws_session \<Rightarrow> bool" where
  "alike st st' \<longleftrightarrow> sans_buffer st = sans_buffer st' \<and> chunk_queue.same (ws_buffer st) (ws_buffer st')"

lemma alikeE:
  assumes "alike st st'"
  obtains "st' = st\<lparr>ws_buffer := ws_buffer st'\<rparr>" "chunk_queue.same (ws_buffer st) (ws_buffer st')"
proof (rule that)
  have "st' = (sans_buffer st')\<lparr>ws_buffer := ws_buffer st'\<rparr>" by (simp add: sans_buffer_def)
  also have "sans_buffer st' = sans_buffer st" using assms by (simp add: alike_def)
  finally show "st' = st\<lparr>ws_buffer := ws_buffer st'\<rparr>" by (simp add: sans_buffer_def)
qed (use assms in \<open>simp add: alike_def\<close>)

lemma alike_buffers: "chunk_queue.same b b' \<Longrightarrow> alike (st\<lparr>ws_buffer := b\<rparr>) (st\<lparr>ws_buffer := b'\<rparr>)"
  by (simp add: alike_def sans_buffer_def)

lemma alike_sym: "alike st st' \<Longrightarrow> alike st' st"
  by (auto simp: alike_def chunk_queue.same_def)

lemma alike_trans: "alike st st' \<Longrightarrow> alike st' st'' \<Longrightarrow> alike st st''"
  by (simp add: alike_def chunk_queue.same_def)

lemma alike_refl: "buffer_ok (ws_buffer st) \<Longrightarrow> alike st st"
  by (simp add: alike_def chunk_queue.same_def)

lemma cleared_buffer: "buffer_ok (clearBufferedFrameChunks b)" "buffer_contents (clearBufferedFrameChunks b) = []"
  by (simp_all add: clearBufferedFrameChunks_def buffer_ok_def buffer_contents_def)

lemma kept_same: "chunk_queue.same b b' \<Longrightarrow> chunk_queue.same (kept st st1 b) (kept st st1 b')"
  by (simp add: kept_def chunk_queue.same_def cleared_buffer)

text \<open>What the header of a frame says depends on the contents.\<close>

lemma read_header_same:
  assumes "chunk_queue.same b b'" "2 \<le> bufferedBytes b"
  shows "read_header b = read_header b'"
proof -
  have eq: "bufferedBytes b' = bufferedBytes b" using chunk_queue.same_buffered [OF assms(1)] by simp
  have two: "peekBufferedBytes 2 b' = peekBufferedBytes 2 b" using chunk_queue.same_peek [OF assms] by simp
  have more: "n \<le> bufferedBytes b \<Longrightarrow> peekBufferedBytes n b' = peekBufferedBytes n b" for n
    using chunk_queue.same_peek [OF assms(1), of n] by simp
  show ?thesis
    using more [of 4] more [of 10] by (auto simp: read_header_def eq two Let_def)
qed

text \<open>A turn ends without a frame, or hands a frame over.\<close>

datatype turn_kind = Waits | Refuses | Takes bool nat "octet list" frame_buffer

definition turn_of :: "frame_buffer \<Rightarrow> turn_kind" where
  "turn_of b =
     (case read_header b of
        Incomplete \<Rightarrow> Waits
      | Too_Long \<Rightarrow> Refuses
      | Header isFinal opcode isMasked payloadLength offset \<Rightarrow>
          (let maskLength = (if isMasked then 4 else 0); frameLength = offset + maskLength + payloadLength in
           if bufferedBytes b < frameLength then Waits
           else
             (case consumeBufferedBytes frameLength b of
                None \<Rightarrow> Waits
              | Some (frame, b') \<Rightarrow>
                  (let payload = drop (offset + maskLength) frame in
                   Takes isFinal opcode (if isMasked then unmaskPayload payload (take maskLength (drop offset frame)) else payload) b'))))"

lemma process_turn_kind:
  "process_turn env st =
    (case turn_of (ws_buffer st) of
       Waits \<Rightarrow> (st, False)
     | Refuses \<Rightarrow> (closeForInboundLimit st, False)
     | Takes isFinal opcode payload b \<Rightarrow> handle_frame env isFinal opcode payload (st\<lparr>ws_buffer := b\<rparr>))"
  by (simp add: process_turn_def turn_of_def Let_def split: frame_header.split option.split)

lemma turn_of_same:
  assumes "chunk_queue.same b b'" "2 \<le> bufferedBytes b"
  shows "(turn_of b = Waits \<and> turn_of b' = Waits) \<or> (turn_of b = Refuses \<and> turn_of b' = Refuses) \<or>
    (\<exists>f c p r r'. turn_of b = Takes f c p r \<and> turn_of b' = Takes f c p r' \<and> chunk_queue.same r r')"
proof (cases "read_header b")
  case (Header f c m n offset)
  let ?n = "offset + (if m then 4 else 0) + n"
  have h': "read_header b' = Header f c m n offset" using read_header_same [OF assms] Header by simp
  have eq: "bufferedBytes b' = bufferedBytes b" using chunk_queue.same_buffered [OF assms(1)] by simp
  show ?thesis
  proof (cases "bufferedBytes b < ?n")
    case True
    then show ?thesis by (simp add: turn_of_def Header h' eq)
  next
    case False
    then have "?n \<le> bufferedBytes b" by simp
    from chunk_queue.same_consume [OF assms(1) this] obtain bytes r r' where
      "consumeBufferedBytes ?n b = Some (bytes, r)" "consumeBufferedBytes ?n b' = Some (bytes, r')" "chunk_queue.same r r'" .
    with False show ?thesis by (simp add: turn_of_def Header h' eq Let_def)
  qed
qed (use read_header_same [OF assms] in \<open>auto simp: turn_of_def\<close>)

text \<open>What a frame does to the marks of a session that is open, and to one that it closes.\<close>

definition open_session :: "ws_session \<Rightarrow> bool" where
  "open_session st \<longleftrightarrow> \<not> ws_inboundClosed st \<and> \<not> ws_backlogOverloaded st \<and> ws_heartbeatAlive st"

definition goes_on :: "ws_session \<Rightarrow> ws_session \<times> bool \<Rightarrow> bool" where
  "goes_on st r \<longleftrightarrow> ws_heartbeatAlive (fst r) \<and>
     (if ws_generation (fst r) = ws_generation st then snd r \<and> open_session (fst r) else ws_inboundClosed (fst r))"

lemma goes_on_close: "open_session st \<Longrightarrow> goes_on st (goodbye_and_close None r st, go)" "open_session st \<Longrightarrow> goes_on st (closeForInboundLimit st, go)"
  by (simp_all add: goes_on_def open_session_def closeForInboundLimit_def goodbye_and_close_def sendGoodbye_def handleClose_def
      abandonInboundMessages_def clear_buffer_def resetFragmentBuffer_def send_frame_def Let_def)

lemma backlog_reason_fits: "length BACKLOG_CLOSE_REASON \<le> MAX_CLOSE_REASON_BYTES"
  by (simp add: BACKLOG_CLOSE_REASON_def MAX_CLOSE_REASON_BYTES_def)

lemma goes_on_backlog: "open_session st \<Longrightarrow> goes_on st (closeForInboundBacklog st, go)"
  using backlog_reason_fits
  by (simp add: goes_on_def open_session_def closeForInboundBacklog_def goodbye_and_close_def sendGoodbye_def handleClose_def
      abandonInboundMessages_def clear_buffer_def resetFragmentBuffer_def send_frame_def Let_def)

lemma goes_on_enforce: "open_session st \<Longrightarrow> goes_on st (enforceFragmentLimits st)"
  using goes_on_close(2) [of st False] by (auto simp: enforceFragmentLimits_def split: option.split) (auto simp: goes_on_def open_session_def)

lemma goes_on_complete: "open_session st \<Longrightarrow> goes_on st (complete_message env c p st)"
  using goes_on_backlog [of st False]
  by (auto simp: complete_message_def admitInboundMessage_def split: option.split)
    (auto simp: goes_on_def open_session_def handleMessageWork_def sendJson_def releaseInboundAdmission_def send_frame_def)

lemma goes_on_frame:
  assumes "ws_generation st1 = ws_generation st" "goes_on st1 r"
  shows "goes_on st r"
  using assms by (simp add: goes_on_def)

lemma open_reset: "open_session (resetFragmentBuffer st) = open_session st"
  by (simp add: open_session_def resetFragmentBuffer_def)

lemma open_fragments:
  "open_session (st\<lparr>ws_fragmentedPayloads := x, ws_fragmentedBytes := n\<rparr>) = open_session st"
  "open_session (st\<lparr>ws_fragmentedPayloads := x, ws_fragmentedOpcode := y, ws_fragmentedBytes := n\<rparr>) = open_session st"
  by (simp_all add: open_session_def)

lemma goes_on_append: "open_session st \<Longrightarrow> goes_on st (appendFragment p st)"
  unfolding appendFragment_def by (rule goes_on_frame [OF _ goes_on_enforce]) (simp_all add: open_fragments)

lemma goes_on_continuation: "open_session st \<Longrightarrow> goes_on st (continuation_frame env f p st)"
proof (cases "ws_fragmentedPayloads st")
  case None
  then show "open_session st \<Longrightarrow> ?thesis" by (simp add: continuation_frame_def goes_on_def open_session_def)
next
  case (Some ps)
  assume "open_session st"
  then have a: "goes_on st (appendFragment p st)" by (rule goes_on_append)
  obtain st1 go where st1: "appendFragment p st = (st1, go)" by (cases "appendFragment p st")
  show ?thesis
  proof (cases go)
    case False
    with Some a st1 show ?thesis by (simp add: continuation_frame_def)
  next
    case True
    with st1 append_go [of p st st1] have gen: "ws_generation st1 = ws_generation st" by simp
    with a st1 True have "open_session st1" by (simp add: goes_on_def)
    then have "goes_on st (complete_message env c q (resetFragmentBuffer st1))" "goes_on st (complete_message env c q st1)" for c q
      using goes_on_complete [of "resetFragmentBuffer st1" env c q] goes_on_complete [of st1 env c q] gen
      by (simp_all add: open_reset goes_on_def reset_on_buffer(2))
    with Some a st1 True show ?thesis by (simp add: continuation_frame_def split: option.split)
  qed
qed

lemma goes_on_data: "open_session st \<Longrightarrow> goes_on st (data_frame env f c p st)"
proof -
  assume st: "open_session st"
  let ?r = "if ws_fragmentedPayloads st \<noteq> None then resetFragmentBuffer st else st"
  have r: "open_session ?r" "ws_generation ?r = ws_generation st" using st by (simp_all add: open_reset reset_on_buffer)
  have "goes_on ?r (complete_message env c p ?r)" by (rule goes_on_complete [OF r(1)])
  moreover have "goes_on ?r (enforceFragmentLimits (?r\<lparr>ws_fragmentedPayloads := x, ws_fragmentedOpcode := y, ws_fragmentedBytes := n\<rparr>))" for x y n
    using r(1) by (intro goes_on_frame [OF _ goes_on_enforce]) (simp_all add: open_fragments del: if_split)
  ultimately show ?thesis
    unfolding data_frame_def Let_def using r(2) by (cases f) (auto intro: goes_on_frame simp del: if_split)
qed

lemma goes_on_handle: "open_session st \<Longrightarrow> goes_on st (handle_frame env f c p st)"
  by (simp add: handle_frame_def goes_on_close goes_on_continuation goes_on_data)
    (simp add: goes_on_def open_session_def sendControlFrame_def send_frame_def)

subsection \<open>Chunks may be joined\<close>

lemma handle_frame_pair:
  assumes "handle_frame env f c p st = (st1, go)"
  shows "handle_frame env f c p (st\<lparr>ws_buffer := b\<rparr>) = (st1\<lparr>ws_buffer := kept st st1 b\<rparr>, go)"
  using assms by (simp add: handle_frame_on_buffer on_buffer_pair)

lemma process_idle: "bufferedBytes (ws_buffer st) < 2 \<Longrightarrow> process_buffer env st = st"
  by (simp add: process_buffer.simps)

lemma process_turns:
  "2 \<le> bufferedBytes b \<Longrightarrow> process_buffer env (st\<lparr>ws_buffer := b\<rparr>) =
    (case turn_of b of
       Waits \<Rightarrow> st\<lparr>ws_buffer := b\<rparr>
     | Refuses \<Rightarrow> (closeForInboundLimit st)\<lparr>ws_buffer := clearBufferedFrameChunks b\<rparr>
     | Takes f c p r \<Rightarrow>
         (let (st1, go) = handle_frame env f c p st; st2 = st1\<lparr>ws_buffer := kept st st1 r\<rparr> in
          if go then process_buffer env st2 else st2))"
proof -
  have "kept st (closeForInboundLimit st) b = clearBufferedFrameChunks b"
    by (simp add: kept_def closeForInboundLimit_def goodbye_and_close_def sendGoodbye_def handleClose_def
        abandonInboundMessages_def clear_buffer_def resetFragmentBuffer_def send_frame_def Let_def)
  then show "2 \<le> bufferedBytes b \<Longrightarrow> ?thesis"
    by (subst process_buffer.simps)
      (simp add: process_turn_kind handle_frame_on_buffer on_buffer_def limit_on_buffer Let_def split: turn_kind.split prod.split bool.split)
qed

lemma turn_of_less: "turn_of b = Takes f c p r \<Longrightarrow> 2 \<le> bufferedBytes b \<Longrightarrow> bufferedBytes r < bufferedBytes b"
  by (auto simp: turn_of_def read_header_def consumeBufferedBytes_def Let_def split: frame_header.splits if_splits option.splits)

lemma kept_less: "bufferedBytes r < n \<Longrightarrow> bufferedBytes (kept st st1 r) < n"
  by (simp add: kept_def clearBufferedFrameChunks_def)

lemma alike_cleared: "alike (st\<lparr>ws_buffer := clearBufferedFrameChunks b\<rparr>) (st\<lparr>ws_buffer := clearBufferedFrameChunks b'\<rparr>)"
  by (rule alike_buffers) (simp add: chunk_queue.same_def cleared_buffer)

lemma process_alike:
  "chunk_queue.same b b' \<Longrightarrow> alike (process_buffer env (st\<lparr>ws_buffer := b\<rparr>)) (process_buffer env (st\<lparr>ws_buffer := b'\<rparr>))"
proof (induction "bufferedBytes b" arbitrary: b b' st rule: less_induct)
  case less
  have n: "bufferedBytes b' = bufferedBytes b" using chunk_queue.same_buffered [OF less.prems] by simp
  show ?case
  proof (cases "bufferedBytes b < 2")
    case True
    with n less.prems show ?thesis by (simp add: process_idle alike_buffers)
  next
    case False
    then have two: "2 \<le> bufferedBytes b" "2 \<le> bufferedBytes b'" using n by simp_all
    from turn_of_same [OF less.prems two(1)] show ?thesis
    proof (elim disjE exE conjE)
      fix f c p r r'
      assume t: "turn_of b = Takes f c p r" "turn_of b' = Takes f c p r'" "chunk_queue.same r r'"
      obtain st1 go where h: "handle_frame env f c p st = (st1, go)" by (cases "handle_frame env f c p st")
      have "alike (process_buffer env (st1\<lparr>ws_buffer := kept st st1 r\<rparr>)) (process_buffer env (st1\<lparr>ws_buffer := kept st st1 r'\<rparr>))"
        using turn_of_less [OF t(1) two(1)] kept_same [OF t(3)] by (intro less.hyps kept_less)
      with alike_buffers [OF kept_same [OF t(3)]] two t h show ?thesis by (simp add: process_turns Let_def)
    qed (use two less.prems in \<open>simp_all add: process_turns alike_buffers alike_cleared\<close>)
  qed
qed

text \<open>What a turn does does not change when more bytes have arrived.\<close>

lemma turn_of_pushed:
  assumes "buffer_ok b" "2 \<le> bufferedBytes b" "turn_of b \<noteq> Waits"
  shows "(turn_of b = Refuses \<and> turn_of (push_chunk ys b) = Refuses) \<or>
    (\<exists>f c p r r'. turn_of b = Takes f c p r \<and> turn_of (push_chunk ys b) = Takes f c p r' \<and> chunk_queue.same r' (push_chunk ys r))"
proof -
  have more: "n \<le> bufferedBytes b \<Longrightarrow> peekBufferedBytes n (push_chunk ys b) = peekBufferedBytes n b" for n
    by (rule chunk_queue.peek_pushed [OF assms(1)])
  have grows: "bufferedBytes b \<le> bufferedBytes (push_chunk ys b)" by (simp add: push_chunk_def)
  have header: "read_header (push_chunk ys b) = read_header b" if "read_header b \<noteq> Incomplete"
    using that more [of 2] more [of 4] more [of 10] assms(2) grows by (auto simp: read_header_def Let_def split: if_splits)
  show ?thesis
  proof (cases "read_header b")
    case (Header f c m n offset)
    let ?n = "offset + (if m then 4 else 0) + n"
    from Header assms(3) have "?n \<le> bufferedBytes b" by (auto simp: turn_of_def Let_def split: if_splits)
    from chunk_queue.consume_pushed [OF assms(1) this, of ys] obtain bytes r r' where
      "consumeBufferedBytes ?n b = Some (bytes, r)" "consumeBufferedBytes ?n (push_chunk ys b) = Some (bytes, r')" "chunk_queue.same r' (push_chunk ys r)" .
    with Header header \<open>?n \<le> bufferedBytes b\<close> grows show ?thesis by (simp add: turn_of_def Let_def)
  qed (use header assms(3) in \<open>simp_all add: turn_of_def\<close>)
qed

lemma turn_of_ok: "buffer_ok b \<Longrightarrow> 2 \<le> bufferedBytes b \<Longrightarrow> turn_of b = Takes f c p r \<Longrightarrow> buffer_ok r"
  using turn_of_same [of b b] by (auto simp: chunk_queue.same_def)

lemma process_ok: "buffer_ok b \<Longrightarrow> buffer_ok (ws_buffer (process_buffer env (st\<lparr>ws_buffer := b\<rparr>)))"
  using process_alike [of b b env st] by (simp add: chunk_queue.same_def alike_def)

lemma onData_open:
  "open_session st \<Longrightarrow> ys \<noteq> [] \<Longrightarrow> onData env ys (st\<lparr>ws_buffer := b\<rparr>) = process_buffer env (st\<lparr>ws_buffer := push_chunk ys b\<rparr>)"
proof -
  assume st: "open_session st" "ys \<noteq> []"
  then have alive: "st\<lparr>ws_heartbeatAlive := True\<rparr> = st" by (cases st) (simp add: open_session_def)
  from st show ?thesis by (simp add: onData_def open_session_def alive)
qed

lemma onData_closed: "ws_inboundClosed st \<Longrightarrow> ws_heartbeatAlive st \<Longrightarrow> onData env ys st = st"
  by (cases st) (simp add: onData_def)

lemma process_split:
  "open_session st \<Longrightarrow> buffer_ok b \<Longrightarrow> ys \<noteq> [] \<Longrightarrow>
    alike (onData env ys (process_buffer env (st\<lparr>ws_buffer := b\<rparr>))) (process_buffer env (st\<lparr>ws_buffer := push_chunk ys b\<rparr>))"
proof (induction "bufferedBytes b" arbitrary: b st rule: less_induct)
  case less
  have pushed: "buffer_ok (push_chunk ys b)" by (rule chunk_queue.push_ok [OF less.prems(2)])
  have wait: "alike (onData env ys (st\<lparr>ws_buffer := b\<rparr>)) (process_buffer env (st\<lparr>ws_buffer := push_chunk ys b\<rparr>))"
    using process_ok [OF pushed] by (simp add: onData_open [OF less.prems(1,3)] alike_refl)
  show ?case
  proof (cases "bufferedBytes b < 2 \<or> turn_of b = Waits")
    case True
    with wait show ?thesis by (cases "bufferedBytes b < 2") (simp_all add: process_idle process_turns)
  next
    case False
    then have two: "2 \<le> bufferedBytes b" and t: "turn_of b \<noteq> Waits" by simp_all
    have two': "2 \<le> bufferedBytes (push_chunk ys b)" using two by (simp add: push_chunk_def)
    from turn_of_pushed [OF less.prems(2) two t, of ys] show ?thesis
    proof (elim disjE exE conjE)
      assume "turn_of b = Refuses" "turn_of (push_chunk ys b) = Refuses"
      moreover have "ws_inboundClosed (closeForInboundLimit st)" "ws_heartbeatAlive (closeForInboundLimit st)"
        using goes_on_close(2) [OF less.prems(1), of True] less.prems(1)
        by (simp_all add: goes_on_def open_session_def closeForInboundLimit_def goodbye_and_close_def sendGoodbye_def handleClose_def
            abandonInboundMessages_def clear_buffer_def resetFragmentBuffer_def send_frame_def Let_def)
      ultimately show ?thesis using two two' by (simp add: process_turns onData_closed alike_cleared)
    next
      fix f c p r r'
      assume r: "turn_of b = Takes f c p r" "turn_of (push_chunk ys b) = Takes f c p r'" "chunk_queue.same r' (push_chunk ys r)"
      obtain st1 go where h: "handle_frame env f c p st = (st1, go)" by (cases "handle_frame env f c p st")
      have on: "goes_on st (st1, go)" using goes_on_handle [OF less.prems(1), of env f c p] h by simp
      have ok: "buffer_ok r" by (rule turn_of_ok [OF less.prems(2) two r(1)])
      show ?thesis
      proof (cases "ws_generation st1 = ws_generation st")
        case True
        with on have go: "go" "open_session st1" "\<And>b. kept st st1 b = b" by (simp_all add: goes_on_def kept_def)
        have "alike (onData env ys (process_buffer env (st1\<lparr>ws_buffer := r\<rparr>))) (process_buffer env (st1\<lparr>ws_buffer := push_chunk ys r\<rparr>))"
          by (rule less.hyps [OF turn_of_less [OF r(1) two] go(2) ok less.prems(3)])
        then have "alike (onData env ys (process_buffer env (st1\<lparr>ws_buffer := r\<rparr>))) (process_buffer env (st1\<lparr>ws_buffer := r'\<rparr>))"
          using process_alike [OF r(3)] alike_trans alike_sym by blast
        with go two two' r h show ?thesis by (simp add: process_turns Let_def)
      next
        case False
        with on have "ws_inboundClosed st1" "ws_heartbeatAlive st1" "\<And>b. kept st st1 b = clearBufferedFrameChunks b"
          by (simp_all add: goes_on_def kept_def)
        moreover have "bufferedBytes (clearBufferedFrameChunks q) < 2" for q by (simp add: clearBufferedFrameChunks_def)
        ultimately show ?thesis using two two' r h by (simp add: process_turns process_idle onData_closed alike_cleared Let_def)
      qed
    qed
  qed
qed

lemma alike_onData:
  assumes "alike st st'"
  shows "alike (onData env ys st) (onData env ys st')"
proof -
  from assms obtain b' where st': "st' = st\<lparr>ws_buffer := b'\<rparr>" and same: "chunk_queue.same (ws_buffer st) b'"
    by (rule alikeE) simp
  have "alike (process_buffer env (s\<lparr>ws_buffer := push_chunk ys (ws_buffer st)\<rparr>)) (process_buffer env (s\<lparr>ws_buffer := push_chunk ys b'\<rparr>))" for s
    by (rule process_alike [OF chunk_queue.same_push [OF same]])
  moreover have "alike (st\<lparr>ws_heartbeatAlive := True\<rparr>) (st\<lparr>ws_heartbeatAlive := True, ws_buffer := b'\<rparr>)"
    using same by (simp add: alike_def sans_buffer_def)
  ultimately show ?thesis by (simp add: onData_def Let_def st')
qed

text \<open>Pieces of bytes, whatever their number and sizes, are worth their concatenation.\<close>

definition receive_chunks :: "ws_env \<Rightarrow> octet list list \<Rightarrow> ws_session \<Rightarrow> ws_session" where
  "receive_chunks env pieces st = foldl (\<lambda>st p. onData env p st) st pieces"

lemma onData_ok: "buffer_ok (ws_buffer st) \<Longrightarrow> buffer_ok (ws_buffer (onData env p st))"
  using alike_onData [OF alike_refl, of st env p] by (simp add: alike_def chunk_queue.same_def)

lemma receive_alike: "alike st st' \<Longrightarrow> alike (receive_chunks env ps st) (receive_chunks env ps st')"
  by (induction ps arbitrary: st st') (simp_all add: receive_chunks_def alike_onData)

lemma onData_Nil: "open_session st \<Longrightarrow> onData env [] st = st"
  by (cases st) (simp add: onData_def open_session_def)

lemma onData_onData:
  assumes "open_session st" "buffer_ok (ws_buffer st)" "xs \<noteq> []" "ys \<noteq> []"
  shows "alike (onData env ys (onData env xs st)) (onData env (xs @ ys) st)"
proof -
  let ?b = "push_chunk xs (ws_buffer st)"
  have b: "buffer_ok ?b" by (rule chunk_queue.push_ok [OF assms(2)])
  have on: "onData env zs st = process_buffer env (st\<lparr>ws_buffer := push_chunk zs (ws_buffer st)\<rparr>)" if "zs \<noteq> []" for zs
    using onData_open [OF assms(1) that, of env "ws_buffer st"] by simp
  have "alike (onData env ys (process_buffer env (st\<lparr>ws_buffer := ?b\<rparr>))) (process_buffer env (st\<lparr>ws_buffer := push_chunk ys ?b\<rparr>))"
    by (rule process_split [OF assms(1) b assms(4)])
  moreover have "chunk_queue.same (push_chunk ys ?b) (push_chunk (xs @ ys) (ws_buffer st))"
    using assms(2) by (intro chunk_queue.same_push_push) (simp add: chunk_queue.same_def)
  then have "alike (process_buffer env (st\<lparr>ws_buffer := push_chunk ys ?b\<rparr>)) (process_buffer env (st\<lparr>ws_buffer := push_chunk (xs @ ys) (ws_buffer st)\<rparr>))"
    by (rule process_alike)
  ultimately show ?thesis
    using on [OF assms(3)] on [of "xs @ ys"] assms(3) by (simp add: alike_trans)
qed

lemma process_alive: "open_session st \<Longrightarrow> ws_heartbeatAlive (process_buffer env (st\<lparr>ws_buffer := b\<rparr>))"
proof (induction "bufferedBytes b" arbitrary: b st rule: less_induct)
  case less
  show ?case
  proof (cases "bufferedBytes b < 2")
    case True
    with less.prems show ?thesis by (simp add: process_idle open_session_def)
  next
    case False
    then have two: "2 \<le> bufferedBytes b" by simp
    show ?thesis
    proof (cases "turn_of b")
      case Waits
      with two less.prems show ?thesis by (simp add: process_turns open_session_def)
    next
      case Refuses
      with two goes_on_close(2) [OF less.prems, of True] show ?thesis by (simp add: process_turns goes_on_def)
    next
      case (Takes f c p r)
      obtain st1 go where h: "handle_frame env f c p st = (st1, go)" by (cases "handle_frame env f c p st")
      have on: "goes_on st (st1, go)" using goes_on_handle [OF less.prems, of env f c p] h by simp
      have "ws_heartbeatAlive (process_buffer env (st1\<lparr>ws_buffer := kept st st1 r\<rparr>))"
      proof (cases "ws_generation st1 = ws_generation st")
        case True
        with on have "open_session st1" by (simp add: goes_on_def)
        then show ?thesis using turn_of_less [OF Takes two] by (intro less.hyps kept_less)
      next
        case False
        with on show ?thesis by (simp add: kept_def process_idle clearBufferedFrameChunks_def goes_on_def)
      qed
      with on two Takes h show ?thesis by (simp add: process_turns Let_def goes_on_def)
    qed
  qed
qed

lemma onData_alive: "open_session st \<Longrightarrow> ws_heartbeatAlive (onData env xs st)"
  using process_alive [of st env "push_chunk xs (ws_buffer st)"] onData_open [of st xs env "ws_buffer st"] onData_Nil [of st env]
  by (cases "xs = []") (simp_all add: open_session_def)

lemma receive_joined:
  assumes "open_session st" "buffer_ok (ws_buffer st)"
  shows "alike (receive_chunks env ps st) (onData env (concat ps) st)"
proof (induction ps rule: rev_induct)
  case Nil
  then show ?case using assms by (simp add: receive_chunks_def onData_Nil alike_refl)
next
  case (snoc p ps)
  have "alike (receive_chunks env (ps @ [p]) st) (onData env p (onData env (concat ps) st))"
    using alike_onData [OF snoc] by (simp add: receive_chunks_def)
  moreover have "alike (onData env p (onData env (concat ps) st)) (onData env (concat ps @ p) st)"
  proof (cases "concat ps = [] \<or> p = []")
    case True
    have "st'\<lparr>ws_heartbeatAlive := True\<rparr> = st'" if "ws_heartbeatAlive st'" for st' :: ws_session using that by (cases st') simp
    then have "onData env [] (onData env xs st) = onData env xs st" for xs
      using onData_alive [OF assms(1), of env xs] by (simp add: onData_def [of env "[]"])
    moreover have "onData env [] st = st" by (rule onData_Nil [OF assms(1)])
    ultimately have "onData env p (onData env (concat ps) st) = onData env (concat ps @ p) st"
      using True by (cases "p = []") (simp_all del: concat_eq_Nil_conv)
    then show ?thesis using assms(2) by (simp add: alike_refl onData_ok)
  next
    case False
    with onData_onData [OF assms, of "concat ps" p] show ?thesis by simp
  qed
  ultimately show ?case using alike_trans by simp
qed

end
