(* ===== verification/Ws_Wire.thy ===== *)
theory Ws_Wire
  imports Ws_Frames
begin

text \<open>
  Frames as a client writes them (RFC 6455), and what a session makes of their bytes: the reference is the
  list of frames handled one after the other.
\<close>

record wire_frame =
  wf_final :: bool
  wf_opcode :: nat
  wf_key :: "octet list option"
  wf_payload :: "octet list"

definition frame_ok :: "wire_frame \<Rightarrow> bool" where
  "frame_ok f \<longleftrightarrow> wf_opcode f < 16 \<and> length (wf_payload f) \<le> MAX_FINAL_FRAME_BYTES \<and>
     (case wf_key f of None \<Rightarrow> True | Some k \<Rightarrow> length k = 4)"

definition length_field :: "octet \<Rightarrow> nat \<Rightarrow> octet list" where
  "length_field m n =
     (if n < 126 then [m OR word_of_nat n]
      else if n < 65536 then (m OR 126) # big_endian 2 n
      else (m OR 127) # big_endian 8 n)"

definition masked :: "wire_frame \<Rightarrow> octet list" where
  "masked f = (case wf_key f of None \<Rightarrow> wf_payload f | Some k \<Rightarrow> k @ unmaskPayload (wf_payload f) k)"

definition encode :: "wire_frame \<Rightarrow> octet list" where
  "encode f =
     ((if wf_final f then FINAL_FRAME else 0) OR word_of_nat (wf_opcode f)) #
     length_field (if wf_key f = None then 0 else 0x80) (length (wf_payload f)) @ masked f"

subsection \<open>Bytes and numbers\<close>

lemma read_big_endian_inverse: "n < 256 ^ k \<Longrightarrow> read_big_endian (big_endian k n) = n"
proof (induction k arbitrary: n)
  case 0
  then show ?case by (simp add: read_big_endian_def)
next
  case (Suc k)
  from Suc.prems have "n div 256 < 256 ^ k" by (simp add: less_mult_imp_div_less mult.commute)
  with Suc.IH show ?case by (simp add: read_big_endian_append unat_of_nat)
qed

lemma length_big_endian [simp]: "length (big_endian k n) = k"
  by (induction k arbitrary: n) simp_all

lemma first_byte_bits:
  assumes "op < 16"
  shows "((if fin then FINAL_FRAME else 0) OR word_of_nat op) AND FINAL_FRAME = FINAL_FRAME \<longleftrightarrow> fin"
    "unat (((if fin then FINAL_FRAME else 0) OR word_of_nat op) AND 0x0F) = op"
proof -
  have "list_all (\<lambda>op. (((if fin then FINAL_FRAME else 0) OR word_of_nat op) AND FINAL_FRAME = FINAL_FRAME \<longleftrightarrow> fin) \<and>
      unat (((if fin then FINAL_FRAME else 0) OR word_of_nat op) AND 0x0F) = op) [0..<16]"
    by (cases fin) (simp_all, code_simp+)
  with assms show "((if fin then FINAL_FRAME else 0) OR word_of_nat op) AND FINAL_FRAME = FINAL_FRAME \<longleftrightarrow> fin"
    "unat (((if fin then FINAL_FRAME else 0) OR word_of_nat op) AND 0x0F) = op"
    by (auto simp: list_all_iff)
qed

lemma second_byte_bits:
  assumes "n < 128"
  shows "((if masks then 0x80 else 0 :: octet) OR word_of_nat n) AND 0x80 = 0x80 \<longleftrightarrow> masks"
    "unat (((if masks then 0x80 else 0 :: octet) OR word_of_nat n) AND 0x7F) = n"
proof -
  have "list_all (\<lambda>n. (((if masks then 0x80 else 0 :: octet) OR word_of_nat n) AND 0x80 = 0x80 \<longleftrightarrow> masks) \<and>
      unat (((if masks then 0x80 else 0 :: octet) OR word_of_nat n) AND 0x7F) = n) [0..<128]"
    by (cases masks) (simp_all, code_simp+)
  with assms show "((if masks then 0x80 else 0 :: octet) OR word_of_nat n) AND 0x80 = 0x80 \<longleftrightarrow> masks"
    "unat (((if masks then 0x80 else 0 :: octet) OR word_of_nat n) AND 0x7F) = n"
    by (auto simp: list_all_iff)
qed

lemma length_unmask [simp]: "length (unmaskPayload p k) = length p"
  by (simp add: unmaskPayload_def)

lemma unmask_unmask: "unmaskPayload (unmaskPayload p k) k = p"
  by (rule nth_equalityI) (simp_all add: unmaskPayload_def nth_enumerate_eq xor.assoc)

subsection \<open>Reading an encoded frame\<close>

definition header_length :: "wire_frame \<Rightarrow> nat" where
  "header_length f = (if length (wf_payload f) < 126 then 2 else if length (wf_payload f) < 65536 then 4 else 10)"

lemma length_length_field: "length (length_field m n) = (if n < 126 then 1 else if n < 65536 then 3 else 9)"
  by (simp add: length_field_def)

lemma length_encode: "frame_ok f \<Longrightarrow> length (encode f) = header_length f + (if wf_key f = None then 0 else 4) + length (wf_payload f)"
  by (auto simp: encode_def header_length_def length_length_field masked_def frame_ok_def split: option.splits)

lemma drop_header: "drop (header_length f) (encode f @ rest) = masked f @ rest"
proof -
  have "encode f = (hd (encode f) # length_field (if wf_key f = None then 0 else 0x80) (length (wf_payload f))) @ masked f"
    by (simp add: encode_def)
  moreover have "length (hd (encode f) # length_field (if wf_key f = None then 0 else 0x80) (length (wf_payload f))) = header_length f"
    by (simp add: header_length_def length_length_field)
  ultimately show ?thesis by (metis append.assoc append_eq_conv_conj)
qed

lemma read_header_encoded:
  assumes ok: "frame_ok f" and b: "buffer_ok b" and eq: "buffer_contents b = encode f @ rest"
  shows "read_header b = Header (wf_final f) (wf_opcode f) (wf_key f \<noteq> None) (length (wf_payload f)) (header_length f)"
proof -
  let ?n = "length (wf_payload f)" and ?m = "if wf_key f = None then 0 else 0x80 :: octet"
  let ?w = "if ?n < 126 then ?n else if ?n < 65536 then 126 else 127"
  have len: "bufferedBytes b = length (buffer_contents b)" by (rule chunk_queue.buffered_contents [OF b])
  have enough: "2 \<le> bufferedBytes b" "header_length f \<le> bufferedBytes b"
    using length_encode [OF ok] by (simp_all add: len eq header_length_def)
  have peek: "k \<le> bufferedBytes b \<Longrightarrow> peekBufferedBytes k b = take k (encode f @ rest)" for k
    using chunk_queue.peek_contents [OF b, of k] len eq by simp
  have field: "length_field ?m ?n = (?m OR word_of_nat ?w) # (if ?n < 126 then [] else if ?n < 65536 then big_endian 2 ?n else big_endian 8 ?n)"
    by (simp add: length_field_def)
  let ?first = "(if wf_final f then FINAL_FRAME else 0) OR word_of_nat (wf_opcode f) :: octet"
  have two: "peekBufferedBytes 2 b ! 0 = ?first" "peekBufferedBytes 2 b ! 1 = ?m OR word_of_nat ?w"
    using peek [OF enough(1)] by (simp_all add: encode_def field)
  have first: "(?first AND FINAL_FRAME = FINAL_FRAME) = wf_final f" "unat (?first AND 0x0F) = wf_opcode f"
    using first_byte_bits [of "wf_opcode f" "wf_final f"] ok by (simp_all add: frame_ok_def)
  have second: "((?m OR word_of_nat ?w) AND 0x80 = 0x80) = (wf_key f \<noteq> None)" "unat ((?m OR word_of_nat ?w) AND 0x7F) = ?w"
  proof -
    have w: "?w < 128" and m: "?m = (if wf_key f \<noteq> None then 0x80 else 0)" by simp_all
    show "((?m OR word_of_nat ?w) AND 0x80 = 0x80) = (wf_key f \<noteq> None)" "unat ((?m OR word_of_nat ?w) AND 0x7F) = ?w"
      unfolding m using second_byte_bits [OF w, of "wf_key f \<noteq> None"] by blast+
  qed
  have four: "drop 2 (peekBufferedBytes 4 b) = big_endian 2 ?n" if "4 \<le> bufferedBytes b" "\<not> ?n < 126" "?n < 65536"
    using that peek [of 4] by (simp add: encode_def field)
  have ten: "drop 2 (peekBufferedBytes 10 b) = big_endian 8 ?n" if "10 \<le> bufferedBytes b" "\<not> ?n < 65536"
    using that peek [of 10] by (simp add: encode_def field)
  have small: "?n \<le> MAX_FINAL_FRAME_BYTES" "?n < 256 ^ 8" using ok
    by (simp_all add: frame_ok_def MAX_FINAL_FRAME_BYTES_def MAX_FRAGMENTED_MESSAGE_BYTES_def)
  show ?thesis
  proof (cases "?n < 126")
    case True
    with two first second show ?thesis by (simp add: read_header_def Let_def header_length_def)
  next
    case False
    show ?thesis
    proof (cases "?n < 65536")
      case True
      with False two first second four read_big_endian_inverse [of ?n 2] enough(2) show ?thesis
        by (auto simp: read_header_def Let_def header_length_def)
    next
      case big: False
      with False two first second ten read_big_endian_inverse [OF small(2)] small(1) enough(2) show ?thesis
        by (auto simp: read_header_def Let_def header_length_def)
    qed
  qed
qed

lemma turn_of_encoded:
  assumes "frame_ok f" "buffer_ok b" "buffer_contents b = encode f @ rest"
  shows "\<exists>r. turn_of b = Takes (wf_final f) (wf_opcode f) (wf_payload f) r \<and> buffer_ok r \<and> buffer_contents r = rest"
proof -
  let ?n = "header_length f + (if wf_key f = None then 0 else 4) + length (wf_payload f)"
  have n: "?n = length (encode f)" using length_encode [OF assms(1)] by simp
  then have "?n \<le> length (buffer_contents b)" using assms(3) by simp
  from chunk_queue.consume_contents [OF assms(2) this] obtain r where
    r: "consumeBufferedBytes ?n b = Some (encode f, r)" "buffer_ok r" "buffer_contents r = rest"
    using assms(3) n by auto
  have drop: "drop (header_length f) (encode f) = masked f" using drop_header [of f "[]"] by simp
  have payload: "drop (header_length f + (if wf_key f \<noteq> None then 4 else 0)) (encode f) =
      (case wf_key f of None \<Rightarrow> wf_payload f | Some k \<Rightarrow> unmaskPayload (wf_payload f) k)"
  proof -
    have "drop (header_length f + 4) (encode f) = drop 4 (masked f)" unfolding drop [symmetric] by (simp add: add.commute)
    then show ?thesis using assms(1) by (auto simp: drop masked_def frame_ok_def split: option.splits)
  qed
  have key: "take 4 (drop (header_length f) (encode f)) = k" if "wf_key f = Some k" for k
    using assms(1) that by (simp add: drop masked_def frame_ok_def)
  have "\<not> bufferedBytes b < ?n" using n assms(3) by (simp add: chunk_queue.buffered_contents [OF assms(2)])
  then show ?thesis
    using read_header_encoded [OF assms] r payload key
    by (cases "wf_key f") (simp_all add: turn_of_def Let_def unmask_unmask)
qed

text \<open>The frames one after the other, until one of them closes the session.\<close>

fun run_frames :: "ws_env \<Rightarrow> wire_frame list \<Rightarrow> ws_session \<Rightarrow> ws_session" where
  "run_frames env [] st = st"
| "run_frames env (f # fs) st =
     (let (st1, go) = handle_frame env (wf_final f) (wf_opcode f) (wf_payload f) st in
      if ws_inboundClosed st1 \<or> \<not> go then st1 else run_frames env fs st1)"

lemma process_frames:
  assumes "list_all frame_ok fs" "open_session st" "buffer_ok b" "buffer_contents b = concat (map encode fs)"
  shows "sans_buffer (process_buffer env (st\<lparr>ws_buffer := b\<rparr>)) = sans_buffer (run_frames env fs st) \<and>
    buffer_contents (ws_buffer (process_buffer env (st\<lparr>ws_buffer := b\<rparr>))) = []"
  using assms
proof (induction fs arbitrary: st b)
  case Nil
  then show ?case by (simp add: process_idle chunk_queue.buffered_contents sans_buffer_def)
next
  case (Cons f fs)
  then obtain r where r: "turn_of b = Takes (wf_final f) (wf_opcode f) (wf_payload f) r" "buffer_ok r" "buffer_contents r = concat (map encode fs)"
    using turn_of_encoded [of f b "concat (map encode fs)"] by auto
  have two: "2 \<le> bufferedBytes b"
    using Cons.prems length_encode [of f] by (simp add: chunk_queue.buffered_contents header_length_def)
  obtain st1 go where h: "handle_frame env (wf_final f) (wf_opcode f) (wf_payload f) st = (st1, go)"
    by (cases "handle_frame env (wf_final f) (wf_opcode f) (wf_payload f) st")
  have on: "goes_on st (st1, go)" using goes_on_handle [OF Cons.prems(2), of env "wf_final f" "wf_opcode f" "wf_payload f"] h by simp
  show ?case
  proof (cases "ws_generation st1 = ws_generation st")
    case True
    with on have go: "go" "open_session st1" "kept st st1 r = r" by (simp_all add: goes_on_def kept_def)
    then have "\<not> ws_inboundClosed st1" by (simp add: open_session_def)
    with go Cons.IH [OF _ go(2) r(2,3)] Cons.prems(1) two r(1) h show ?thesis by (simp add: process_turns Let_def)
  next
    case False
    with on have "ws_inboundClosed st1" "kept st st1 r = clearBufferedFrameChunks r" by (simp_all add: goes_on_def kept_def)
    moreover have "bufferedBytes (clearBufferedFrameChunks r) < 2" by (simp add: clearBufferedFrameChunks_def)
    ultimately show ?thesis
      using two r(1) h by (simp add: process_turns process_idle Let_def cleared_buffer sans_buffer_def)
  qed
qed

lemma receive_frames:
  assumes "list_all frame_ok fs" "open_session st" "buffer_ok (ws_buffer st)" "buffer_contents (ws_buffer st) = []"
    and "concat pieces = concat (map encode fs)"
  shows "sans_buffer (receive_chunks env pieces st) = sans_buffer (run_frames env fs st) \<and>
    buffer_contents (ws_buffer (receive_chunks env pieces st)) = []"
proof -
  have joined: "alike (receive_chunks env pieces st) (onData env (concat (map encode fs)) st)"
    using receive_joined [OF assms(2,3), of env pieces] assms(5) by simp
  have "sans_buffer (onData env (concat (map encode fs)) st) = sans_buffer (run_frames env fs st) \<and>
      buffer_contents (ws_buffer (onData env (concat (map encode fs)) st)) = []"
  proof (cases "concat (map encode fs) = []")
    case True
    then have "fs = []" by (cases fs) (simp_all add: encode_def)
    then show ?thesis using assms by (simp add: onData_Nil)
  next
    case False
    let ?b = "push_chunk (concat (map encode fs)) (ws_buffer st)"
    have "buffer_ok ?b" "buffer_contents ?b = concat (map encode fs)"
      using chunk_queue.push_ok [OF assms(3)] chunk_queue.push_contents [OF assms(3)] assms(4) by simp_all
    with process_frames [OF assms(1,2)] onData_open [OF assms(2) False, of env "ws_buffer st"] show ?thesis by simp
  qed
  with joined show ?thesis by (simp add: alike_def chunk_queue.same_def)
qed

end
