(* ===== verification/Ws_Messages.thy ===== *)
theory Ws_Messages
  imports Ws_Wire
begin

text \<open>
  Text messages as a client sends them: in one frame or in fragments, each frame masked or not, with pings
  and pongs between the fragments.
\<close>

record client_part =
  cp_before :: "wire_frame list"
  cp_key :: "octet list option"
  cp_payload :: "octet list"

fun part_frames :: "nat \<Rightarrow> client_part list \<Rightarrow> wire_frame list" where
  "part_frames opcode [] = []"
| "part_frames opcode (p # ps) =
     cp_before p @ \<lparr>wf_final = (ps = []), wf_opcode = opcode, wf_key = cp_key p, wf_payload = cp_payload p\<rparr> #
     part_frames OPCODE_CONTINUATION ps"

definition message_frames :: "client_part list \<Rightarrow> wire_frame list" where
  "message_frames ps = part_frames OPCODE_TEXT ps"

definition message_text :: "client_part list \<Rightarrow> octet list" where
  "message_text ps = concat (map cp_payload ps)"

text \<open>Pings and pongs, with the payloads that the protocol allows.\<close>

definition is_control :: "wire_frame \<Rightarrow> bool" where
  "is_control f \<longleftrightarrow> (wf_opcode f = OPCODE_PING \<or> wf_opcode f = OPCODE_PONG) \<and> length (wf_payload f) \<le> 125"

definition part_ok :: "client_part \<Rightarrow> bool" where
  "part_ok p \<longleftrightarrow> list_all (\<lambda>f. is_control f \<and> frame_ok f) (cp_before p) \<and> (case cp_key p of None \<Rightarrow> True | Some k \<Rightarrow> length k = 4)"

definition message_ok :: "client_part list \<Rightarrow> bool" where
  "message_ok ps \<longleftrightarrow> ps \<noteq> [] \<and> list_all part_ok ps \<and> length ps \<le> MAX_FRAGMENTED_MESSAGE_FRAGMENTS \<and>
     length (message_text ps) \<le> MAX_FRAGMENTED_MESSAGE_BYTES"

definition pong :: "wire_frame \<Rightarrow> octet list list" where
  "pong f = (if wf_opcode f = OPCODE_PING then [encode \<lparr>wf_final = True, wf_opcode = OPCODE_PONG, wf_key = None, wf_payload = wf_payload f\<rparr>] else [])"

definition pongs :: "client_part list \<Rightarrow> octet list list" where
  "pongs ps = concat (map pong (concat (map cp_before ps)))"

lemma frame_ok_parts:
  "list_all part_ok ps \<Longrightarrow> op < 16 \<Longrightarrow> length (message_text ps) \<le> MAX_FRAGMENTED_MESSAGE_BYTES \<Longrightarrow> list_all frame_ok (part_frames op ps)"
proof (induction op ps rule: part_frames.induct)
  case (2 op p ps)
  from "2.prems" have "list_all frame_ok (cp_before p)" by (simp add: part_ok_def list_all_iff)
  moreover have "frame_ok \<lparr>wf_final = (ps = []), wf_opcode = op, wf_key = cp_key p, wf_payload = cp_payload p\<rparr>"
    using "2.prems" by (simp add: part_ok_def frame_ok_def message_text_def MAX_FINAL_FRAME_BYTES_def)
  moreover have "list_all frame_ok (part_frames OPCODE_CONTINUATION ps)"
    using "2.prems" by (intro "2.IH") (simp_all add: message_text_def OPCODE_CONTINUATION_def)
  ultimately show ?case by simp
qed simp

lemma frame_ok_messages: "list_all message_ok msgs \<Longrightarrow> list_all frame_ok (concat (map message_frames msgs))"
  using frame_ok_parts [of _ OPCODE_TEXT] by (induction msgs) (simp_all add: message_ok_def message_frames_def OPCODE_TEXT_def)

subsection \<open>What the frames do\<close>

lemma control_frame_encoded:
  "length p \<le> 125 \<Longrightarrow> [FINAL_FRAME OR word_of_nat OPCODE_PONG, word_of_nat (length p)] @ p =
    encode \<lparr>wf_final = True, wf_opcode = OPCODE_PONG, wf_key = None, wf_payload = p\<rparr>"
  by (simp add: encode_def length_field_def masked_def)

lemma run_controls:
  "list_all is_control cs \<Longrightarrow> \<not> ws_inboundClosed st \<Longrightarrow>
    run_frames env (cs @ fs) st = run_frames env fs (st\<lparr>ws_output := ws_output st @ concat (map pong cs)\<rparr>)"
proof (induction cs arbitrary: st)
  case (Cons c cs)
  have "handle_frame env (wf_final c) (wf_opcode c) (wf_payload c) st = (st\<lparr>ws_output := ws_output st @ pong c\<rparr>, True)"
    using Cons.prems(1) control_frame_encoded [of "wf_payload c"]
    by (auto simp: is_control_def handle_frame_def opcodes sendControlFrame_def send_frame_def pong_def)
  with Cons show ?case by simp
qed simp

text \<open>A message is admitted.\<close>

definition taken :: "nat \<Rightarrow> jsval \<Rightarrow> ws_session \<Rightarrow> ws_session" where
  "taken n m st = handleMessageWork \<lparr>wk_admission = \<lparr>ad_byteLength = n, ad_generation = ws_generation st\<rparr>, wk_message = m\<rparr>
     (st\<lparr>ws_pendingMessages := ws_pendingMessages st + 1, ws_pendingBytes := ws_pendingBytes st + int n\<rparr>)"

definition room_for :: "nat \<Rightarrow> ws_session \<Rightarrow> bool" where
  "room_for n st \<longleftrightarrow> \<not> ws_inboundClosed st \<and> ws_pendingMessages st + 1 \<le> int (ws_maxPendingMessages st) \<and>
     ws_pendingBytes st + int n \<le> int (ws_maxPendingBytes st)"

lemma complete_taken:
  "room_for (length p) st \<Longrightarrow> json_message env p = Some m \<Longrightarrow> complete_message env OPCODE_TEXT p st = (taken (length p) m st, True)"
  by (simp add: complete_message_def admitInboundMessage_def room_for_def taken_def)

lemma taken_marks [simp]:
  "ws_inboundClosed (taken n m st) = ws_inboundClosed st" "ws_fragmentedPayloads (taken n m st) = ws_fragmentedPayloads st"
  "ws_output (taken n m st) = ws_output st" "ws_admitted (taken n m st) = ws_admitted st @ [m]"
  "ws_pendingMessages (taken n m st) = ws_pendingMessages st + 1" "ws_pendingBytes (taken n m st) = ws_pendingBytes st + int n"
  "ws_maxPendingMessages (taken n m st) = ws_maxPendingMessages st" "ws_maxPendingBytes (taken n m st) = ws_maxPendingBytes st"
  by (simp_all add: taken_def handleMessageWork_def)

text \<open>The fragments after the first one.\<close>

definition collecting :: "octet list list \<Rightarrow> ws_session \<Rightarrow> ws_session" where
  "collecting acc st = st\<lparr>ws_fragmentedPayloads := Some acc, ws_fragmentedOpcode := Some OPCODE_TEXT, ws_fragmentedBytes := length (concat acc)\<rparr>"

lemma collecting_simps [simp]:
  "collecting acc (st\<lparr>ws_output := out\<rparr>) = collecting acc st\<lparr>ws_output := out\<rparr>"
  "ws_inboundClosed (collecting acc st) = ws_inboundClosed st" "ws_output (collecting acc st) = ws_output st"
  "ws_fragmentedPayloads (collecting acc st) = Some acc" "ws_fragmentedOpcode (collecting acc st) = Some OPCODE_TEXT"
  "ws_fragmentedBytes (collecting acc st) = length (concat acc)" "resetFragmentBuffer (collecting acc st) = resetFragmentBuffer st"
  by (cases st, simp_all add: collecting_def resetFragmentBuffer_def)

lemma run_fragments:
  assumes "ps \<noteq> []" "list_all part_ok ps" "\<not> ws_inboundClosed st" "json_message env (concat acc @ message_text ps) = Some m"
    and "length acc + length ps \<le> MAX_FRAGMENTED_MESSAGE_FRAGMENTS"
    and "length (concat acc @ message_text ps) \<le> MAX_FRAGMENTED_MESSAGE_BYTES" "room_for (length (concat acc @ message_text ps)) st"
  shows "run_frames env (part_frames OPCODE_CONTINUATION ps @ fs) (collecting acc st) =
    run_frames env fs (taken (length (concat acc @ message_text ps)) m (resetFragmentBuffer (st\<lparr>ws_output := ws_output st @ pongs ps\<rparr>)))"
  using assms
proof (induction ps arbitrary: acc st)
  case (Cons p ps)
  let ?st = "st\<lparr>ws_output := ws_output st @ concat (map pong (cp_before p))\<rparr>" and ?acc = "acc @ [cp_payload p]"
  let ?frame = "\<lparr>wf_final = (ps = []), wf_opcode = OPCODE_CONTINUATION, wf_key = cp_key p, wf_payload = cp_payload p\<rparr>"
  have controls: "list_all is_control (cp_before p)" using Cons.prems(2) by (simp add: part_ok_def list_all_iff)
  have "\<not> ws_inboundClosed (collecting acc st)" using Cons.prems(3) by (simp add: collecting_def)
  from run_controls [OF controls this]
  have "run_frames env (part_frames OPCODE_CONTINUATION (p # ps) @ fs) (collecting acc st) =
      run_frames env (?frame # part_frames OPCODE_CONTINUATION ps @ fs) (collecting acc ?st)"
    by simp
  moreover have append: "appendFragment (cp_payload p) (collecting acc ?st) = (collecting ?acc ?st, True)"
    using Cons.prems(5,6) by (simp add: appendFragment_def enforceFragmentLimits_def collecting_def message_text_def)
  ultimately show ?case
  proof (cases "ps = []")
    case True
    have "room_for (length (concat ?acc)) (resetFragmentBuffer ?st)" "json_message env (concat ?acc) = Some m"
      using Cons.prems(4,7) True by (simp_all add: room_for_def message_text_def resetFragmentBuffer_def)
    from complete_taken [OF this] append True Cons.prems(3)
    have "handle_frame env True OPCODE_CONTINUATION (cp_payload p) (collecting acc ?st) = (taken (length (concat ?acc)) m (resetFragmentBuffer ?st), True)"
      by (simp add: handle_frame_def continuation_frame_def opcodes) (simp add: collecting_def resetFragmentBuffer_def opcodes)
    with \<open>run_frames env (part_frames _ (p # ps) @ fs) _ = _\<close> True Cons.prems(3) show ?thesis
      by (simp add: message_text_def pongs_def resetFragmentBuffer_def)
  next
    case False
    have open_st: "\<not> ws_inboundClosed ?st" using Cons.prems(3) by simp
    have rest: "concat ?acc @ message_text ps = concat acc @ message_text (p # ps)" by (simp add: message_text_def)
    have room: "room_for (length (concat ?acc @ message_text ps)) ?st" unfolding rest using Cons.prems(7) by (simp add: room_for_def)
    have fits: "list_all part_ok ps" "length ?acc + length ps \<le> MAX_FRAGMENTED_MESSAGE_FRAGMENTS"
      "json_message env (concat ?acc @ message_text ps) = Some m" "length (concat ?acc @ message_text ps) \<le> MAX_FRAGMENTED_MESSAGE_BYTES"
      unfolding rest using Cons.prems(2,4-6) by simp_all
    from Cons.IH [OF False fits(1) open_st fits(3,2,4) room]
    have "run_frames env (part_frames OPCODE_CONTINUATION ps @ fs) (collecting ?acc ?st) =
        run_frames env fs (taken (length (concat acc @ message_text (p # ps))) m (resetFragmentBuffer (?st\<lparr>ws_output := ws_output ?st @ pongs ps\<rparr>)))"
      unfolding rest .
    moreover have "handle_frame env False OPCODE_CONTINUATION (cp_payload p) (collecting acc ?st) = (collecting ?acc ?st, True)"
      using append by (simp add: handle_frame_def continuation_frame_def opcodes)
    ultimately show ?thesis
      using \<open>run_frames env (part_frames _ (p # ps) @ fs) _ = _\<close> False open_st by (simp add: pongs_def)
  qed
qed simp

text \<open>A whole message, for a session that is not in the middle of another one.\<close>

definition between_messages :: "ws_session \<Rightarrow> bool" where
  "between_messages st \<longleftrightarrow> ws_fragmentedPayloads st = None \<and> ws_fragmentedOpcode st = None \<and> ws_fragmentedBytes st = 0"

lemma reset_between: "between_messages st \<Longrightarrow> resetFragmentBuffer st = st"
  by (simp add: between_messages_def resetFragmentBuffer_def)

lemma between_taken [simp]:
  "between_messages (taken n m st) = between_messages st" "between_messages (st\<lparr>ws_output := out\<rparr>) = between_messages st"
  by (simp_all add: between_messages_def taken_def handleMessageWork_def)

lemma room_output [simp]: "room_for n (st\<lparr>ws_output := out\<rparr>) = room_for n st"
  by (simp add: room_for_def)

lemma room_within: "room_for n st \<Longrightarrow> \<not> ws_inboundClosed st"
  by (simp add: room_for_def)

lemma run_message:
  assumes "message_ok ps" "between_messages st" "json_message env (message_text ps) = Some m" "room_for (length (message_text ps)) st"
  shows "run_frames env (message_frames ps @ fs) st =
    run_frames env fs (taken (length (message_text ps)) m (st\<lparr>ws_output := ws_output st @ pongs ps\<rparr>))"
proof -
  obtain p qs where ps: "ps = p # qs" using assms(1) by (cases ps) (simp_all add: message_ok_def)
  let ?st = "st\<lparr>ws_output := ws_output st @ concat (map pong (cp_before p))\<rparr>"
  let ?frame = "\<lparr>wf_final = (qs = []), wf_opcode = OPCODE_TEXT, wf_key = cp_key p, wf_payload = cp_payload p\<rparr>"
  have open_st: "\<not> ws_inboundClosed st" using room_within [OF assms(4)] .
  have controls: "list_all is_control (cp_before p)" using assms(1) by (simp add: ps message_ok_def part_ok_def list_all_iff)
  from run_controls [OF controls open_st]
  have first: "run_frames env (message_frames ps @ fs) st = run_frames env (?frame # part_frames OPCODE_CONTINUATION qs @ fs) ?st"
    by (simp add: message_frames_def ps)
  have fresh: "ws_fragmentedPayloads ?st = None" "between_messages ?st" using assms(2) by (simp_all add: between_messages_def)
  show ?thesis
  proof (cases "qs = []")
    case True
    have "handle_frame env True OPCODE_TEXT (cp_payload p) ?st = (taken (length (cp_payload p)) m ?st, True)"
      using complete_taken [of "cp_payload p" ?st env m] assms(3,4) fresh(1) True
      by (simp add: handle_frame_def data_frame_def opcodes ps message_text_def)
    with first open_st True show ?thesis by (simp add: ps message_text_def pongs_def)
  next
    case False
    let ?c = "collecting [cp_payload p] ?st"
    have "handle_frame env False OPCODE_TEXT (cp_payload p) ?st = enforceFragmentLimits ?c"
      using fresh(1) by (simp add: handle_frame_def data_frame_def opcodes collecting_def del: collecting_simps)
    moreover have "enforceFragmentLimits ?c = (?c, True)"
      using assms(1) by (simp add: enforceFragmentLimits_def message_ok_def ps message_text_def MAX_FRAGMENTED_MESSAGE_FRAGMENTS_def)
    ultimately have start: "run_frames env (message_frames ps @ fs) st = run_frames env (part_frames OPCODE_CONTINUATION qs @ fs) ?c"
      using first open_st False by simp
    have joined: "concat [cp_payload p] @ message_text qs = message_text ps" by (simp add: ps message_text_def)
    have "list_all part_ok qs" "length [cp_payload p] + length qs \<le> MAX_FRAGMENTED_MESSAGE_FRAGMENTS"
      "length (message_text ps) \<le> MAX_FRAGMENTED_MESSAGE_BYTES" "\<not> ws_inboundClosed ?st" "room_for (length (message_text ps)) ?st"
      using assms(1,4) open_st by (simp_all add: message_ok_def ps)
    with run_fragments [OF False, where acc = "[cp_payload p]" and st = "?st", unfolded joined, of env m fs] assms(3) start
    show ?thesis using fresh(2) by (simp add: reset_between ps pongs_def)
  qed
qed

text \<open>Any number of messages, as long as they fit in the backlog.\<close>

definition fits_backlog :: "client_part list list \<Rightarrow> ws_session \<Rightarrow> bool" where
  "fits_backlog msgs st \<longleftrightarrow> ws_pendingMessages st + int (length msgs) \<le> int (ws_maxPendingMessages st) \<and>
     ws_pendingBytes st + int (sum_list (map (length \<circ> message_text) msgs)) \<le> int (ws_maxPendingBytes st)"

lemma run_messages:
  assumes "list_all message_ok msgs" "between_messages st" "\<not> ws_inboundClosed st" "map (\<lambda>ps. json_message env (message_text ps)) msgs = map Some ms"
    and "fits_backlog msgs st" "st' = run_frames env (concat (map message_frames msgs)) st"
  shows "ws_admitted st' = ws_admitted st @ ms \<and> ws_output st' = ws_output st @ concat (map pongs msgs) \<and>
    between_messages st' \<and> \<not> ws_inboundClosed st' \<and> ws_pendingMessages st' = ws_pendingMessages st + int (length msgs) \<and>
    ws_pendingBytes st' = ws_pendingBytes st + int (sum_list (map (length \<circ> message_text) msgs))"
  using assms
proof (induction msgs arbitrary: st ms)
  case (Cons ps msgs)
  obtain m ms' where ms: "ms = m # ms'" "json_message env (message_text ps) = Some m" "map (\<lambda>ps. json_message env (message_text ps)) msgs = map Some ms'"
    using Cons.prems(4) by (cases ms) (simp_all del: map_map)
  let ?st = "taken (length (message_text ps)) m (st\<lparr>ws_output := ws_output st @ pongs ps\<rparr>)"
  have "room_for (length (message_text ps)) st" using Cons.prems(3,5) by (simp add: fits_backlog_def room_for_def)
  from run_message [OF _ Cons.prems(2) ms(2) this] Cons.prems(1,6)
  have "st' = run_frames env (concat (map message_frames msgs)) ?st" by simp
  moreover have "fits_backlog msgs ?st" using Cons.prems(5) by (simp add: fits_backlog_def)
  ultimately show ?case using Cons.IH [of ?st ms'] Cons.prems(1-3) ms by simp
qed simp

text \<open>Sessions that differ in their buffers only.\<close>

lemma same_apart_from_buffer:
  assumes "sans_buffer s = sans_buffer t"
  shows "ws_output s = ws_output t" "ws_admitted s = ws_admitted t" "ws_inboundClosed s = ws_inboundClosed t"
    "between_messages s = between_messages t"
  using arg_cong [OF assms, of ws_output] arg_cong [OF assms, of ws_admitted] arg_cong [OF assms, of ws_inboundClosed]
    arg_cong [OF assms, of between_messages] by (simp_all add: sans_buffer_def between_messages_def)

end
