(* ===== verification/Ws_Invariant.thy ===== *)
theory Ws_Invariant
  imports Ws_Frames
begin

text \<open>
  The life of a session as a transition system: bytes arrive, messages are dispatched and settled, the
  application's handler is resolved, the heart beats, the session is paused or ends. Its invariant: the
  accounting of admitted messages is exact and within the budget, messages are dispatched in the order
  they arrived, and what is buffered is bounded.
\<close>

inductive ws_step :: "ws_env \<Rightarrow> ws_session \<Rightarrow> ws_session \<Rightarrow> bool" for env where
  data_arrives: "ws_step env st (onData env data st)"
| local_message: "ws_step env st (handleMessage message st)"
| chain_runs: "ws_step env st (run_next st)"
| handler_resolved: "ws_step env st (resolve_handler handler st)"
| handler_opened: "ws_step env st (queue_resolution useHandler st)"
| dispatch_settled: "ws_step env st (settle_dispatch env error st)"
| established: "ws_step env st (startHeartbeat seconds st)"
| tick: "ws_step env st (heartbeatTick st)"
| json_sent: "ws_step env st (sendJson env body st)"
| queue_flushed: "ws_step env st (flushOutboundQueue env st)"
| registered: "ws_step env st (st\<lparr>ws_resumable := live\<rparr>)"
| grace_expired: "ws_step env st (finalizeGraceExpiry st)"
| destroyed: "ws_step env st (destroy_session st)"

definition ws_start :: "ws_session \<Rightarrow> bool" where
  "ws_start st \<longleftrightarrow> (\<exists>maxBytes maxMessages resolver. st = new_session maxBytes maxMessages resolver)"

subsection \<open>The invariant\<close>

fun item_works :: "chain_item list \<Rightarrow> work list" where
  "item_works [] = []"
| "item_works (Message w # items) = w # item_works items"
| "item_works (Resolved h # items) = item_works items"

definition waiting_works :: "ws_session \<Rightarrow> work list" where
  "waiting_works st = ws_flushing st @ ws_messageQueue st @ item_works (ws_messageChain st)"

definition works :: "ws_session \<Rightarrow> work list" where
  "works st = (case ws_running st of None \<Rightarrow> [] | Some w \<Rightarrow> [w]) @ waiting_works st"

definition accounted :: "ws_session \<Rightarrow> bool" where
  "accounted st \<longleftrightarrow>
     ws_pendingMessages st \<le> int (ws_maxPendingMessages st) \<and> ws_pendingBytes st \<le> int (ws_maxPendingBytes st) \<and>
     (ws_backlogOverloaded st \<longrightarrow> ws_inboundClosed st) \<and>
     (if ws_inboundClosed st
      then ws_pendingMessages st = 0 \<and> ws_pendingBytes st = 0 \<and> (\<forall>w \<in> set (works st). ad_generation (wk_admission w) < ws_generation st)
      else ws_pendingMessages st = int (length (works st)) \<and>
           ws_pendingBytes st = int (sum_list (map (\<lambda>w. ad_byteLength (wk_admission w)) (works st))) \<and>
           (\<forall>w \<in> set (works st). ad_generation (wk_admission w) = ws_generation st))"

definition in_sequence :: "ws_session \<Rightarrow> bool" where
  "in_sequence st \<longleftrightarrow>
     prefix (ws_dispatched st) (ws_admitted st) \<and>
     (\<not> ws_inboundClosed st \<longrightarrow>
        ws_dispatched st @ map wk_message (waiting_works st) = ws_admitted st \<and>
        (ws_messageQueue st \<noteq> [] \<longrightarrow> ws_pendingMessageHandler st) \<and> (ws_pendingMessageHandler st \<longrightarrow> ws_flushing st = []))"

definition fragments_bounded :: "ws_session \<Rightarrow> bool" where
  "fragments_bounded st \<longleftrightarrow>
     (case ws_fragmentedPayloads st of
        None \<Rightarrow> ws_fragmentedBytes st = 0
      | Some ps \<Rightarrow> ws_fragmentedBytes st = length (concat ps) \<and> length ps \<le> MAX_FRAGMENTED_MESSAGE_FRAGMENTS \<and>
          ws_fragmentedBytes st \<le> MAX_FRAGMENTED_MESSAGE_BYTES)"

definition session_inv :: "ws_session \<Rightarrow> bool" where
  "session_inv st \<longleftrightarrow> accounted st \<and> in_sequence st \<and> fragments_bounded st"

lemmas inv_defs = session_inv_def accounted_def in_sequence_def fragments_bounded_def works_def waiting_works_def

lemma item_works_append [simp]: "item_works (xs @ ys) = item_works xs @ item_works ys"
  by (induction xs rule: item_works.induct) simp_all

subsection \<open>Frame conditions\<close>

lemma inv_frame [simp]:
  "session_inv (st\<lparr>ws_buffer := b\<rparr>) = session_inv st" "session_inv (st\<lparr>ws_output := out\<rparr>) = session_inv st"
  "session_inv (st\<lparr>ws_outboundQueue := q\<rparr>) = session_inv st" "session_inv (st\<lparr>ws_heartbeatAlive := h\<rparr>) = session_inv st"
  "session_inv (st\<lparr>ws_heartbeat := h\<rparr>) = session_inv st" "session_inv (st\<lparr>ws_paused := h\<rparr>) = session_inv st"
  "session_inv (st\<lparr>ws_resumable := h\<rparr>) = session_inv st"
  by (simp_all add: inv_defs cong: option.case_cong)

lemma inv_send [simp]:
  "session_inv (send_frame f st) = session_inv st" "session_inv (sendControlFrame c p st) = session_inv st"
  "session_inv (sendJson env v st) = session_inv st"
  by (simp_all add: send_frame_def sendControlFrame_def sendJson_def)

lemma inv_reset: "session_inv st \<Longrightarrow> session_inv (resetFragmentBuffer st)"
  by (simp add: resetFragmentBuffer_def inv_defs cong: option.case_cong)

lemma inv_abandon: "session_inv st \<Longrightarrow> session_inv (abandonInboundMessages st)"
  by (auto simp: abandonInboundMessages_def inv_defs less_Suc_eq split: if_splits option.splits)

lemma inv_overload_abandon: "session_inv st \<Longrightarrow> session_inv (abandonInboundMessages (st\<lparr>ws_backlogOverloaded := True\<rparr>))"
  by (auto simp: abandonInboundMessages_def inv_defs less_Suc_eq split: if_splits option.splits)

lemma inv_clear: "session_inv (clear_buffer st) = session_inv st"
  by (simp add: clear_buffer_def)

subsection \<open>Frames\<close>

lemma inv_close: "session_inv st \<Longrightarrow> session_inv (handleClose r st)"
  by (simp add: handleClose_def Let_def inv_abandon inv_clear inv_reset)

lemma inv_overload_close: "session_inv st \<Longrightarrow> session_inv (handleClose r (st\<lparr>ws_backlogOverloaded := True\<rparr>))"
proof -
  assume "session_inv st"
  then have "session_inv (abandonInboundMessages ((clear_buffer (resetFragmentBuffer st))\<lparr>ws_backlogOverloaded := True\<rparr>))"
    by (intro inv_overload_abandon) (simp add: inv_clear inv_reset)
  moreover have "clear_buffer (resetFragmentBuffer (st\<lparr>ws_backlogOverloaded := True\<rparr>)) = (clear_buffer (resetFragmentBuffer st))\<lparr>ws_backlogOverloaded := True\<rparr>"
    by (simp add: clear_buffer_def resetFragmentBuffer_def)
  ultimately show ?thesis by (simp add: handleClose_def Let_def)
qed

lemma inv_goodbye: "session_inv st \<Longrightarrow> session_inv (goodbye_and_close status r st)"
  by (auto simp: goodbye_and_close_def sendGoodbye_def inv_close split: option.split)

lemma inv_limit: "session_inv st \<Longrightarrow> session_inv (closeForInboundLimit st)"
  by (simp add: closeForInboundLimit_def inv_goodbye inv_clear inv_reset)

lemma inv_backlog: "session_inv st \<Longrightarrow> session_inv (closeForInboundBacklog st)"
proof -
  assume "session_inv st"
  moreover have "send_frame f (st\<lparr>ws_backlogOverloaded := True\<rparr>) = (send_frame f st)\<lparr>ws_backlogOverloaded := True\<rparr>" for f
    by (simp add: send_frame_def)
  ultimately show ?thesis
    using backlog_reason_fits by (simp add: closeForInboundBacklog_def goodbye_and_close_def sendGoodbye_def inv_overload_close)
qed

lemma inv_enforce:
  assumes "accounted st" "in_sequence st" "ws_fragmentedPayloads st = Some ps" "ws_fragmentedBytes st = length (concat ps)"
  shows "session_inv (fst (enforceFragmentLimits st))"
proof -
  have "session_inv (resetFragmentBuffer st)" using assms by (simp add: resetFragmentBuffer_def inv_defs cong: option.case_cong)
  then have "session_inv (closeForInboundLimit st)" by (simp add: closeForInboundLimit_def inv_goodbye inv_clear)
  moreover have "session_inv st" if "ws_fragmentedBytes st \<le> MAX_FRAGMENTED_MESSAGE_BYTES" "length ps \<le> MAX_FRAGMENTED_MESSAGE_FRAGMENTS"
    using assms that by (simp add: session_inv_def fragments_bounded_def)
  ultimately show ?thesis using assms(3) by (auto simp: enforceFragmentLimits_def)
qed

lemma inv_fragments:
  "session_inv st \<Longrightarrow> accounted (st\<lparr>ws_fragmentedPayloads := x, ws_fragmentedBytes := n\<rparr>) \<and> in_sequence (st\<lparr>ws_fragmentedPayloads := x, ws_fragmentedBytes := n\<rparr>)"
  "session_inv st \<Longrightarrow> accounted (st\<lparr>ws_fragmentedPayloads := x, ws_fragmentedOpcode := y, ws_fragmentedBytes := n\<rparr>) \<and>
     in_sequence (st\<lparr>ws_fragmentedPayloads := x, ws_fragmentedOpcode := y, ws_fragmentedBytes := n\<rparr>)"
  by (simp_all add: inv_defs cong: option.case_cong)

lemma inv_append:
  assumes "session_inv st" "ws_fragmentedPayloads st = Some ps"
  shows "session_inv (fst (appendFragment p st))"
  unfolding appendFragment_def using assms inv_fragments(1) [OF assms(1)]
  by (intro inv_enforce [where ps = "ps @ [p]"]) (simp_all add: session_inv_def fragments_bounded_def)

lemma admit_someD:
  assumes "admitInboundMessage n st = (Some ad, st1)"
  shows "\<not> ws_inboundClosed st" "ws_pendingMessages st + 1 \<le> int (ws_maxPendingMessages st)" "ws_pendingBytes st + int n \<le> int (ws_maxPendingBytes st)"
    "ad = \<lparr>ad_byteLength = n, ad_generation = ws_generation st\<rparr>"
    "st1 = st\<lparr>ws_pendingMessages := ws_pendingMessages st + 1, ws_pendingBytes := ws_pendingBytes st + int n\<rparr>"
  using assms by (simp_all add: admitInboundMessage_def split: if_splits)

lemma inv_admit_work:
  assumes "session_inv st" "admitInboundMessage n st = (Some ad, st1)"
  shows "session_inv (handleMessageWork \<lparr>wk_admission = ad, wk_message = m\<rparr> st1)"
proof -
  note d = admit_someD [OF assms(2)]
  have "ws_dispatched st @ map wk_message (waiting_works st) = ws_admitted st" using assms(1) d(1) by (simp add: session_inv_def in_sequence_def)
  then have "prefix (ws_dispatched st) (ws_admitted st @ [m])" by (metis append.assoc prefixI)
  with assms(1) d show ?thesis by (simp add: handleMessageWork_def inv_defs cong: option.case_cong)
qed

lemma release_admitted: "admitInboundMessage n st = (Some ad, st1) \<Longrightarrow> releaseInboundAdmission ad st1 = st"
  by (frule admit_someD(4), drule admit_someD(5)) (cases st, simp add: releaseInboundAdmission_def)

lemma inv_admit_none: "session_inv st \<Longrightarrow> admitInboundMessage n st = (None, st1) \<Longrightarrow> session_inv st1"
  by (auto simp: admitInboundMessage_def inv_backlog split: if_splits)

lemma inv_complete: "session_inv st \<Longrightarrow> session_inv (fst (complete_message env c p st))"
  by (auto simp: complete_message_def release_admitted intro: inv_admit_work inv_admit_none split: prod.split option.split)

lemma inv_continuation: "session_inv st \<Longrightarrow> session_inv (fst (continuation_frame env f p st))"
proof -
  assume st: "session_inv st"
  obtain st1 go where a: "appendFragment p st = (st1, go)" by (cases "appendFragment p st")
  show ?thesis
  proof (cases "ws_fragmentedPayloads st")
    case None
    with st show ?thesis by (simp add: continuation_frame_def)
  next
    case (Some ps)
    from inv_append [OF st Some, of p] a have "session_inv st1" by simp
    with Some a show ?thesis
      by (auto simp: continuation_frame_def inv_complete inv_reset split: bool.split option.split)
  qed
qed

lemma inv_data: "session_inv st \<Longrightarrow> session_inv (fst (data_frame env f c p st))"
proof -
  assume st: "session_inv st"
  then have "session_inv (if ws_fragmentedPayloads st \<noteq> None then resetFragmentBuffer st else st)" (is "session_inv ?r")
    by (simp add: inv_reset)
  moreover from this have "session_inv (fst (enforceFragmentLimits (?r\<lparr>ws_fragmentedPayloads := Some [p], ws_fragmentedOpcode := Some c, ws_fragmentedBytes := length p\<rparr>)))"
    using inv_fragments(2) by (intro inv_enforce [where ps = "[p]"]) (simp_all del: if_split)
  ultimately show ?thesis
    unfolding data_frame_def Let_def by (cases f) (simp_all add: inv_complete del: if_split)
qed

lemma inv_handle: "session_inv st \<Longrightarrow> session_inv (fst (handle_frame env f c p st))"
  by (simp add: handle_frame_def inv_goodbye inv_continuation inv_data)

lemma process_invariant:
  assumes "\<And>st f c p. P st \<Longrightarrow> P (fst (handle_frame env f c p st))" "\<And>st. P st \<Longrightarrow> P (closeForInboundLimit st)"
    and "\<And>st b. P st \<Longrightarrow> P (st\<lparr>ws_buffer := b\<rparr>)" "P st"
  shows "P (process_buffer env st)"
  using assms(4)
proof (induction "bufferedBytes (ws_buffer st)" arbitrary: st rule: less_induct)
  case less
  show ?case
  proof (cases "bufferedBytes (ws_buffer st) < 2")
    case True
    with less.prems show ?thesis by (simp add: process_idle)
  next
    case False
    obtain st' go where turn: "process_turn env st = (st', go)" by (cases "process_turn env st")
    then have "st' = fst (process_turn env st)" by simp
    also have "P \<dots>" using less.prems assms(1-3) by (simp add: process_turn_kind split: turn_kind.split)
    finally have "P st'" .
    with less.hyps [of st'] process_turn_buffered [of env st st'] turn False show ?thesis
      by (subst process_buffer.simps) (simp split: bool.split)
  qed
qed

lemma inv_onData: "session_inv st \<Longrightarrow> session_inv (onData env data st)"
  by (simp add: onData_def Let_def process_invariant [where P = session_inv] inv_handle inv_limit)

subsection \<open>Dispatches\<close>

lemma inv_local: "session_inv st \<Longrightarrow> session_inv (handleMessage m st)"
  by (auto simp: handleMessage_def intro: inv_admit_work inv_admit_none split: prod.split option.split)

lemma inv_take_chain:
  assumes "session_inv st" "ws_running st = None" "ws_flushing st = []" "ws_messageChain st = Message w # items"
  shows "session_inv (runMessageWork w (st\<lparr>ws_messageChain := items\<rparr>))"
proof -
  consider (closed) "ws_inboundClosed st" | (waiting) "\<not> ws_inboundClosed st" "ws_pendingMessageHandler st"
    | (ready) "\<not> ws_inboundClosed st" "\<not> ws_pendingMessageHandler st" by blast
  then show ?thesis
  proof cases
    case closed
    with assms show ?thesis
      by (simp add: runMessageWork_def releaseInboundAdmission_def inv_defs less_imp_neq cong: option.case_cong)
  next
    case waiting
    with assms show ?thesis by (simp add: runMessageWork_def inv_defs cong: option.case_cong)
  next
    case ready
    with assms have "ws_messageQueue st = []" by (auto simp: session_inv_def in_sequence_def)
    with ready assms show ?thesis
      by (simp add: runMessageWork_def start_dispatch_def inv_defs cong: option.case_cong) (auto simp: prefix_def)
  qed
qed

lemma inv_take_flushing:
  assumes "session_inv st" "ws_running st = None" "ws_flushing st = w # ws"
  shows "session_inv (flush_next w (st\<lparr>ws_flushing := ws\<rparr>))"
proof (cases "ws_inboundClosed st")
  case True
  with assms show ?thesis
    by (simp add: flush_next_def releaseInboundAdmission_def inv_defs less_imp_neq cong: option.case_cong)
next
  case False
  with assms show ?thesis
    by (simp add: flush_next_def start_dispatch_def inv_defs cong: option.case_cong) (auto simp: prefix_def)
qed

lemma inv_chain: "session_inv st \<Longrightarrow> session_inv (run_next st)"
proof (cases "ws_running st")
  case None
  assume st: "session_inv st"
  have "session_inv (finish_resolution (st\<lparr>ws_messageChain := items\<rparr>))" if "ws_flushing st = []" "ws_messageChain st = Resolved h # items" for h items
    using that None st by (auto simp: finish_resolution_def inv_defs cong: option.case_cong)
  with None st inv_take_chain inv_take_flushing show ?thesis
    by (auto simp: run_next_def split: list.split chain_item.split)
qed (simp add: run_next_def)

lemma inv_queue: "session_inv st \<Longrightarrow> session_inv (queue_resolution h st)"
  by (simp add: queue_resolution_def inv_defs cong: option.case_cong)

lemma inv_resolve: "session_inv st \<Longrightarrow> session_inv (resolve_handler handler st)"
proof -
  assume st: "session_inv st"
  have "session_inv (st\<lparr>ws_pendingMessageHandler := False\<rparr>)" if "ws_inboundClosed st"
    using that st by (simp add: inv_defs cong: option.case_cong)
  with st inv_queue show ?thesis by (simp add: resolve_handler_def split: option.split)
qed

lemma inv_settle: "session_inv st \<Longrightarrow> session_inv (settle_dispatch env e st)"
proof -
  assume st: "session_inv st"
  have "session_inv (releaseInboundAdmission (wk_admission w) (st\<lparr>ws_running := None\<rparr>))" if "ws_running st = Some w" for w
    using that st by (auto simp: releaseInboundAdmission_def inv_defs cong: option.case_cong)
  with st show ?thesis by (simp add: settle_dispatch_def Let_def split: option.split)
qed

lemma inv_tick: "session_inv st \<Longrightarrow> session_inv (heartbeatTick st)"
  by (simp add: heartbeatTick_def stopHeartbeat_def inv_close)

lemma inv_flush: "session_inv st \<Longrightarrow> session_inv (flushOutboundQueue env st)"
proof -
  have "session_inv s \<Longrightarrow> session_inv (fold (sendJson env) vs s)" for vs s
    by (induction vs arbitrary: s) simp_all
  then show "session_inv st \<Longrightarrow> ?thesis" by (simp add: flushOutboundQueue_def)
qed

lemma inv_start: "ws_start st \<Longrightarrow> session_inv st"
  by (auto simp: ws_start_def new_session_def inv_defs)

subsection \<open>What is buffered\<close>

text \<open>An incomplete frame with its header, and nothing after it.\<close>

definition MAX_BUFFERED_BYTES :: nat where "MAX_BUFFERED_BYTES = MAX_FINAL_FRAME_BYTES + 14"

lemma read_big_endian_less: "read_big_endian bs < 256 ^ length bs"
proof (induction bs rule: rev_induct)
  case (snoc b bs)
  have "unat b < 256" using unsigned_less [of b] by simp
  with snoc show ?case by (simp add: read_big_endian_append)
qed (simp add: read_big_endian_def)

lemma waits_bounded:
  assumes "buffer_ok b" "2 \<le> bufferedBytes b" "turn_of b = Waits"
  shows "bufferedBytes b < MAX_BUFFERED_BYTES"
proof (cases "read_header b")
  case (Header f c m n offset)
  have "unat (x AND 0x7F :: octet) \<le> 16777216" for x
  proof -
    have "unat (x AND 0x7F) \<le> unat (0x7F :: octet)" using word_and_le1 [of x "0x7F"] by (simp add: word_le_nat_alt)
    also have "\<dots> \<le> 16777216" by simp
    finally show ?thesis .
  qed
  moreover have "read_big_endian (drop 2 (peekBufferedBytes 4 b)) < 65536" if "4 \<le> bufferedBytes b"
    using read_big_endian_less [of "drop 2 (peekBufferedBytes 4 b)"] chunk_queue.peek_contents [OF assms(1), of 4]
      chunk_queue.buffered_contents [OF assms(1)] that by simp
  ultimately have "n \<le> MAX_FINAL_FRAME_BYTES" "offset \<le> 10"
    using Header by (auto simp: read_header_def Let_def MAX_FINAL_FRAME_BYTES_def MAX_FRAGMENTED_MESSAGE_BYTES_def
        split: if_splits intro: order_trans less_imp_le)
  moreover have "bufferedBytes b < offset + (if m then 4 else 0) + n"
  proof (rule ccontr)
    assume big: "\<not> bufferedBytes b < offset + (if m then 4 else 0) + n"
    then have "offset + (if m then 4 else 0) + n \<le> length (buffer_contents b)" using chunk_queue.buffered_contents [OF assms(1)] by simp
    from chunk_queue.consume_contents [OF assms(1) this] obtain frame q where
      "consumeBufferedBytes (offset + (if m then 4 else 0) + n) b = Some (frame, q)" by blast
    with big assms(3) Header show False by (simp add: turn_of_def Let_def)
  qed
  ultimately show ?thesis by (simp add: MAX_BUFFERED_BYTES_def split: if_splits)
next
  case Incomplete
  then show ?thesis
    by (auto simp: read_header_def Let_def MAX_BUFFERED_BYTES_def MAX_FINAL_FRAME_BYTES_def MAX_FRAGMENTED_MESSAGE_BYTES_def split: if_splits)
qed (use assms(3) in \<open>simp add: turn_of_def\<close>)

lemma process_bounded:
  "open_session st \<Longrightarrow> buffer_ok b \<Longrightarrow> bufferedBytes (ws_buffer (process_buffer env (st\<lparr>ws_buffer := b\<rparr>))) < MAX_BUFFERED_BYTES"
proof (induction "bufferedBytes b" arbitrary: b st rule: less_induct)
  case less
  have pos: "2 \<le> MAX_BUFFERED_BYTES" "0 < MAX_BUFFERED_BYTES" by (simp_all add: MAX_BUFFERED_BYTES_def)
  show ?case
  proof (cases "bufferedBytes b < 2")
    case True
    with pos show ?thesis by (simp add: process_idle)
  next
    case False
    then have two: "2 \<le> bufferedBytes b" by simp
    show ?thesis
    proof (cases "turn_of b")
      case Waits
      with two waits_bounded [OF less.prems(2) two] show ?thesis by (simp add: process_turns)
    next
      case Refuses
      with two pos show ?thesis by (simp add: process_turns clearBufferedFrameChunks_def)
    next
      case (Takes f c p r)
      obtain st1 go where h: "handle_frame env f c p st = (st1, go)" by (cases "handle_frame env f c p st")
      have on: "goes_on st (st1, go)" using goes_on_handle [OF less.prems(1), of env f c p] h by simp
      show ?thesis
      proof (cases "ws_generation st1 = ws_generation st")
        case True
        with on have go: go "open_session st1" "kept st st1 r = r" by (simp_all add: goes_on_def kept_def)
        have "bufferedBytes (ws_buffer (process_buffer env (st1\<lparr>ws_buffer := r\<rparr>))) < MAX_BUFFERED_BYTES"
          by (rule less.hyps [OF turn_of_less [OF Takes two] go(2) turn_of_ok [OF less.prems(2) two Takes]])
        with go two Takes h show ?thesis by (simp add: process_turns Let_def)
      next
        case False
        then have "kept st st1 r = clearBufferedFrameChunks r" by (simp add: kept_def)
        with two Takes h pos show ?thesis by (simp add: process_turns process_idle clearBufferedFrameChunks_def Let_def)
      qed
    qed
  qed
qed

definition buffer_bounded :: "ws_session \<Rightarrow> bool" where
  "buffer_bounded st \<longleftrightarrow> buffer_ok (ws_buffer st) \<and> bufferedBytes (ws_buffer st) < MAX_BUFFERED_BYTES"

lemma bounded_onData:
  assumes "session_inv st" "buffer_bounded st"
  shows "buffer_bounded (onData env data st)"
proof (cases "ws_inboundClosed st \<or> data = []")
  case True
  with assms(2) show ?thesis by (simp add: onData_def Let_def buffer_bounded_def)
next
  case False
  let ?st = "st\<lparr>ws_heartbeatAlive := True\<rparr>"
  from False assms(1) have "open_session ?st" by (simp add: open_session_def session_inv_def accounted_def)
  moreover have "buffer_ok (push_chunk data (ws_buffer st))" using assms(2) by (simp add: buffer_bounded_def chunk_queue.push_ok)
  ultimately show ?thesis
    using False process_bounded [of ?st "push_chunk data (ws_buffer st)" env] process_ok [of "push_chunk data (ws_buffer st)" env ?st]
    by (simp add: onData_def Let_def buffer_bounded_def)
qed

lemma bounded_same: "buffer_bounded st \<Longrightarrow> ws_buffer st' = ws_buffer st \<or> ws_buffer st' = clearBufferedFrameChunks (ws_buffer st) \<Longrightarrow> buffer_bounded st'"
  by (auto simp: buffer_bounded_def cleared_buffer) (simp add: clearBufferedFrameChunks_def MAX_BUFFERED_BYTES_def)

lemma other_buffers:
  "ws_buffer (handleClose r st) = clearBufferedFrameChunks (ws_buffer st)" "ws_buffer (run_next st) = ws_buffer st"
  "ws_buffer (resolve_handler handler st) = ws_buffer st" "ws_buffer (queue_resolution h st) = ws_buffer st" "ws_buffer (sendJson env v st) = ws_buffer st"
  "ws_buffer (releaseInboundAdmission ad st) = ws_buffer st" "ws_buffer (handleMessageWork w st) = ws_buffer st"
  "ws_buffer (startHeartbeat n st) = ws_buffer st" "ws_buffer (send_frame f st) = ws_buffer st"
  "ws_buffer (finalizeGraceExpiry st) = clearBufferedFrameChunks (ws_buffer st)" "ws_buffer (destroy_session st) = clearBufferedFrameChunks (ws_buffer st)"
  by (auto simp: handleClose_def abandonInboundMessages_def clear_buffer_def resetFragmentBuffer_def run_next_def flush_next_def
      runMessageWork_def finish_resolution_def start_dispatch_def releaseInboundAdmission_def resolve_handler_def queue_resolution_def sendJson_def
      send_frame_def handleMessageWork_def startHeartbeat_def finalizeGraceExpiry_def destroy_session_def Let_def
      split: list.split chain_item.split option.split)

lemma other_buffers2:
  "ws_buffer (settle_dispatch env e st) = ws_buffer st" "ws_buffer (flushOutboundQueue env st) = ws_buffer st"
  "ws_buffer (heartbeatTick st) = ws_buffer st \<or> ws_buffer (heartbeatTick st) = clearBufferedFrameChunks (ws_buffer st)"
  "ws_buffer (handleMessage m st) = ws_buffer st \<or> ws_buffer (handleMessage m st) = clearBufferedFrameChunks (ws_buffer st)"
proof -
  show "ws_buffer (settle_dispatch env e st) = ws_buffer st"
    by (simp add: settle_dispatch_def Let_def other_buffers split: option.split)
  have "ws_buffer (fold (sendJson env) vs s) = ws_buffer s" for vs s
    by (induction vs arbitrary: s) (simp_all add: other_buffers)
  then show "ws_buffer (flushOutboundQueue env st) = ws_buffer st" by (simp add: flushOutboundQueue_def)
  show "ws_buffer (heartbeatTick st) = ws_buffer st \<or> ws_buffer (heartbeatTick st) = clearBufferedFrameChunks (ws_buffer st)"
    by (simp add: heartbeatTick_def other_buffers sendControlFrame_def stopHeartbeat_def)
  show "ws_buffer (handleMessage m st) = ws_buffer st \<or> ws_buffer (handleMessage m st) = clearBufferedFrameChunks (ws_buffer st)"
    by (simp add: handleMessage_def admitInboundMessage_def closeForInboundBacklog_def goodbye_and_close_def sendGoodbye_def
        other_buffers split: option.split)
qed

definition ws_inv :: "ws_session \<Rightarrow> bool" where
  "ws_inv st \<longleftrightarrow> session_inv st \<and> buffer_bounded st"

interpretation websocket: invariant_system ws_start "ws_step env" ws_inv for env
proof
  show "ws_start s \<Longrightarrow> ws_inv s" for s
    using inv_start [of s]
    by (auto simp: ws_inv_def ws_start_def new_session_def buffer_bounded_def empty_buffer_def buffer_ok_def buffer_contents_def MAX_BUFFERED_BYTES_def)
  fix s t
  assume s: "ws_inv s" and "ws_step env s t"
  from this(2) have "session_inv t"
    using s by cases
      (simp_all add: ws_inv_def inv_onData inv_local inv_chain inv_resolve inv_queue inv_settle inv_tick inv_flush startHeartbeat_def
        finalizeGraceExpiry_def destroy_session_def inv_abandon inv_clear inv_reset)
  moreover from \<open>ws_step env s t\<close> have "buffer_bounded t"
    using s bounded_same [OF _ other_buffers2(3)] bounded_same [OF _ other_buffers2(4)]
    by cases (auto simp: ws_inv_def bounded_onData other_buffers other_buffers2(1,2) intro: bounded_same)
  ultimately show "ws_inv t" by (simp add: ws_inv_def)
qed

end
