(* ===== verification/Ws_Claims.thy ===== *)
theory Ws_Claims
  imports Ws_Messages Ws_Invariant
begin

text \<open>
  What a websocket session guarantees: bytes of frames in any pieces are the frames, messages arrive as the
  client sent them, the backlog and the buffers stay within their bounds, and messages are dispatched in
  order.
\<close>

subsection \<open>An example\<close>

definition plain_env :: ws_env where
  "plain_env = \<lparr>json_message = (\<lambda>bs. if bs = [123, 125] then Some (JObj []) else None), json_bytes = (\<lambda>v. [123, 125])\<rparr>"

definition example_session :: ws_session where
  "example_session = new_session 64 2 False"

definition example_ping :: wire_frame where
  "example_ping = \<lparr>wf_final = True, wf_opcode = OPCODE_PING, wf_key = Some [1, 2, 3, 4], wf_payload = [104, 105]\<rparr>"

definition example_message :: "client_part list" where
  "example_message = [\<lparr>cp_before = [], cp_key = None, cp_payload = [123]\<rparr>, \<lparr>cp_before = [example_ping], cp_key = Some [5, 6, 7, 8], cp_payload = [125]\<rparr>]"

definition example_bytes :: "octet list" where
  "example_bytes = concat (map encode (message_frames example_message))"

lemma example_bytes_eq: "example_bytes = [1, 1, 123, 137, 130, 1, 2, 3, 4, 105, 107, 128, 129, 5, 6, 7, 8, 120]"
  by code_simp

lemma example_message_ok: "message_ok example_message"
  by (simp add: message_ok_def example_message_def part_ok_def is_control_def frame_ok_def example_ping_def opcodes message_text_def
      MAX_FRAGMENTED_MESSAGE_FRAGMENTS_def MAX_FRAGMENTED_MESSAGE_BYTES_def MAX_FINAL_FRAME_BYTES_def)

lemma example_session_simps [simp]:
  "ws_inboundClosed example_session = False" "ws_admitted example_session = []" "ws_output example_session = []"
  "ws_pendingMessages example_session = 0" "ws_pendingBytes example_session = 0" "open_session example_session"
  "buffer_ok (ws_buffer example_session)" "buffer_contents (ws_buffer example_session) = []" "between_messages example_session"
  "ws_maxPendingMessages example_session = 2" "ws_maxPendingBytes example_session = 64" "ws_dispatched example_session = []"
  by (simp_all add: example_session_def new_session_def open_session_def buffer_ok_def empty_buffer_def buffer_contents_def between_messages_def)

subsection \<open>Frames\<close>

text \<open>
  C36: The byte parser of a session (chunk queue, header and length parsing, unmasking) refines handling
  the frames one after the other: the bytes of any well-formed frames, masked or not, with 7-bit, 16-bit or
  64-bit lengths, received in any pieces by an open session with nothing buffered, leave the session as
  handling the decoded frames in order does, up to the one that closes it, and nothing stays buffered.
\<close>

theorem frames_refined:
  assumes "list_all frame_ok fs" "open_session st" "buffer_ok (ws_buffer st)" "buffer_contents (ws_buffer st) = []"
    and "concat pieces = concat (map encode fs)"
  shows "sans_buffer (receive_chunks env pieces st) = sans_buffer (run_frames env fs st) \<and>
    buffer_contents (ws_buffer (receive_chunks env pieces st)) = []"
  by (rule receive_frames [OF assms])

theorem frames_refined_witness:
  "ws_output (receive_chunks plain_env [[137, 130, 1], [2, 3, 4, 105], [], [107, 136, 0, 129, 0]] example_session) = [[138, 2, 104, 105], [136, 0]]"
proof -
  let ?close = "\<lparr>wf_final = True, wf_opcode = OPCODE_CLOSE, wf_key = None, wf_payload = []\<rparr>"
  let ?late = "\<lparr>wf_final = True, wf_opcode = OPCODE_TEXT, wf_key = None, wf_payload = []\<rparr>"
  let ?pieces = "[[137, 130, 1], [2, 3, 4, 105], [], [107, 136, 0, 129, 0]] :: octet list list"
  have "list_all frame_ok [example_ping, ?close, ?late]" 
    by (simp add: frame_ok_def example_ping_def opcodes MAX_FINAL_FRAME_BYTES_def MAX_FRAGMENTED_MESSAGE_BYTES_def)
  moreover have "concat ?pieces = concat (map encode [example_ping, ?close, ?late])" by code_simp
  ultimately have "sans_buffer (receive_chunks plain_env ?pieces example_session) = sans_buffer (run_frames plain_env [example_ping, ?close, ?late] example_session)"
    by (intro conjunct1 [OF frames_refined]) simp_all
  then have "ws_output (receive_chunks plain_env ?pieces example_session) = ws_output (run_frames plain_env [example_ping, ?close, ?late] example_session)"
    by (rule same_apart_from_buffer)
  also have "\<dots> = [[138, 2, 104, 105], [136, 0]]" by code_simp
  finally show ?thesis .
qed

text \<open>
  C37: Messages arrive as they were sent: text messages that a client sends whole or in fragments, with
  pings and pongs between the fragments, masked or not, and cut into pieces anywhere, are decoded and
  admitted in the order they were sent, every ping is answered by a pong with its payload, and the
  session stays open with no fragment left, as long as they fit in the backlog.
\<close>

theorem messages_round_trip:
  assumes "list_all message_ok msgs" "open_session st" "between_messages st" "fits_backlog msgs st"
    and "buffer_ok (ws_buffer st)" "buffer_contents (ws_buffer st) = []"
    and "map (\<lambda>ps. json_message env (message_text ps)) msgs = map Some ms"
    and "concat pieces = concat (map encode (concat (map message_frames msgs)))"
  shows "let st' = receive_chunks env pieces st in
    ws_admitted st' = ws_admitted st @ ms \<and> ws_output st' = ws_output st @ concat (map pongs msgs) \<and>
    between_messages st' \<and> \<not> ws_inboundClosed st'"
proof -
  let ?fs = "concat (map message_frames msgs)"
  have "list_all frame_ok ?fs" using assms(1) by (rule frame_ok_messages)
  from receive_frames [OF this assms(2,5,6,8)]
  have "sans_buffer (receive_chunks env pieces st) = sans_buffer (run_frames env ?fs st)" by blast
  moreover have "\<not> ws_inboundClosed st" using assms(2) by (simp add: open_session_def)
  ultimately show ?thesis
    using run_messages [OF assms(1,3) _ assms(7,4) refl] same_apart_from_buffer [of "receive_chunks env pieces st" "run_frames env ?fs st"] by (simp add: Let_def)
qed

text \<open>Two fragments with a masked ping between them.\<close>

theorem messages_round_trip_witness:
  "let st' = receive_chunks plain_env [[1, 1, 123, 137], [130, 1, 2, 3, 4, 105, 107], [128, 129, 5, 6, 7, 8, 120]] example_session in
     ws_admitted st' = [JObj []] \<and> ws_output st' = [[138, 2, 104, 105]] \<and> between_messages st' \<and> \<not> ws_inboundClosed st'"
proof -
  have "fits_backlog [example_message] example_session" by (simp add: fits_backlog_def message_text_def example_message_def)
  moreover have "map (\<lambda>ps. json_message plain_env (message_text ps)) [example_message] = map Some [JObj []]" by code_simp
  moreover have "concat [[1, 1, 123, 137], [130, 1, 2, 3, 4, 105, 107], [128, 129, 5, 6, 7, 8, 120 :: octet]] = concat (map encode (concat (map message_frames [example_message])))"
    using example_bytes_eq by (simp add: example_bytes_def)
  moreover have "concat (map pongs [example_message]) = [[138, 2, 104, 105]]" by code_simp
  ultimately show ?thesis
    using messages_round_trip [of "[example_message]" example_session plain_env "[JObj []]" "[[1, 1, 123, 137], [130, 1, 2, 3, 4, 105, 107], [128, 129, 5, 6, 7, 8, 120]]"]
      example_message_ok by simp
qed

subsection \<open>Bounds\<close>

text \<open>
  C38: What a peer can make a session hold is bounded, at every point of its life, whatever bytes arrive:
  the admitted messages that are not settled are counted exactly and stay within both limits of the backlog
  budget (and an ended session owes nothing), the fragments of a message stay within 16 MiB and
  1024 pieces, and less than 16 MiB and 14 bytes are buffered for a frame.
\<close>

theorem session_bounds:
  assumes "reaches ws_start (ws_step env) st"
  shows "0 \<le> ws_pendingMessages st \<and> ws_pendingMessages st \<le> int (ws_maxPendingMessages st) \<and>
    0 \<le> ws_pendingBytes st \<and> ws_pendingBytes st \<le> int (ws_maxPendingBytes st) \<and>
    ws_pendingMessages st = (if ws_inboundClosed st then 0 else int (length (works st))) \<and>
    ws_pendingBytes st = (if ws_inboundClosed st then 0 else int (sum_list (map (\<lambda>w. ad_byteLength (wk_admission w)) (works st)))) \<and>
    (case ws_fragmentedPayloads st of None \<Rightarrow> True | Some ps \<Rightarrow> length ps \<le> 1024 \<and> length (concat ps) \<le> 16777216) \<and>
    bufferedBytes (ws_buffer st) = length (buffer_contents (ws_buffer st)) \<and> length (buffer_contents (ws_buffer st)) < 16777230"
proof -
  have inv: "session_inv st" "buffer_bounded st" using websocket.reaches_inv [OF assms] by (simp_all add: ws_inv_def)
  have "case ws_fragmentedPayloads st of None \<Rightarrow> True | Some ps \<Rightarrow> length ps \<le> 1024 \<and> length (concat ps) \<le> 16777216"
    using inv(1) by (simp add: session_inv_def fragments_bounded_def MAX_FRAGMENTED_MESSAGE_FRAGMENTS_def MAX_FRAGMENTED_MESSAGE_BYTES_def split: option.splits)
  moreover have "bufferedBytes (ws_buffer st) = length (buffer_contents (ws_buffer st))" "bufferedBytes (ws_buffer st) < 16777230"
    using inv(2) chunk_queue.buffered_contents [of "ws_buffer st"] by (simp_all add: buffer_bounded_def MAX_BUFFERED_BYTES_def MAX_FINAL_FRAME_BYTES_def MAX_FRAGMENTED_MESSAGE_BYTES_def)
  moreover have "accounted st" using inv(1) by (simp add: session_inv_def)
  then have "0 \<le> ws_pendingMessages st" "ws_pendingMessages st \<le> int (ws_maxPendingMessages st)"
    "0 \<le> ws_pendingBytes st" "ws_pendingBytes st \<le> int (ws_maxPendingBytes st)"
    "ws_pendingMessages st = (if ws_inboundClosed st then 0 else int (length (works st)))"
    "ws_pendingBytes st = (if ws_inboundClosed st then 0 else int (sum_list (map (\<lambda>w. ad_byteLength (wk_admission w)) (works st))))"
    by (auto simp: accounted_def split: if_splits)
  ultimately show ?thesis by simp
qed

text \<open>Three messages arrive at a session with room for two: it closes with status 1008, and nothing is owed.\<close>

definition overflowing :: ws_session where
  "overflowing = onData plain_env [129, 2, 123, 125, 129, 2, 123, 125, 129, 2, 123, 125] example_session"

lemma overflowing_reached: "reaches ws_start (ws_step plain_env) overflowing"
proof -
  have "reaches ws_start (ws_step plain_env) example_session"
    by (rule reaches_start) (auto simp: ws_start_def example_session_def)
  then show ?thesis unfolding overflowing_def by (rule reaches_step) (rule ws_step.data_arrives)
qed

theorem session_bounds_witness:
  "ws_pendingMessages overflowing = 0 \<and> take 4 (concat (ws_output overflowing)) = [136, 34, 3, 240] \<and> ws_admitted overflowing = [JObj [], JObj []]"
proof -
  have "ws_inboundClosed overflowing" "take 4 (concat (ws_output overflowing)) = [136, 34, 3, 240]" "ws_admitted overflowing = [JObj [], JObj []]"
    by code_simp+
  with session_bounds [OF overflowing_reached] show ?thesis by (auto simp del: of_nat_eq_0_iff)
qed

subsection \<open>Dispatches\<close>

text \<open>
  C39: Messages are dispatched in the order they arrived, without a gap or a repetition, whatever arrives,
  is resolved or fails in between: the dispatched messages are a prefix of the admitted ones, and
  while the session is open the rest is what waits in the chain, in the queue of the handler's resolution
  or in its drain, in that order.
\<close>

theorem dispatched_in_order:
  assumes "reaches ws_start (ws_step env) st"
  shows "prefix (ws_dispatched st) (ws_admitted st) \<and>
    (ws_inboundClosed st \<or> ws_admitted st = ws_dispatched st @ map wk_message (waiting_works st))"
  using websocket.reaches_inv [OF assms] by (auto simp: ws_inv_def session_inv_def in_sequence_def)

text \<open>Messages that arrive while the handler is being resolved.\<close>

definition resolving :: ws_session where
  "resolving = run_next (onData plain_env [129, 2, 123, 125] (new_session 64 2 True))"

lemma resolving_reached: "reaches ws_start (ws_step plain_env) resolving"
proof -
  have "reaches ws_start (ws_step plain_env) (new_session 64 2 True)"
    by (rule reaches_start) (auto simp: ws_start_def)
  then have "reaches ws_start (ws_step plain_env) (onData plain_env [129, 2, 123, 125] (new_session 64 2 True))"
    by (rule reaches_step) (rule ws_step.data_arrives)
  then show ?thesis unfolding resolving_def by (rule reaches_step) (rule ws_step.chain_runs)
qed

theorem dispatched_in_order_witness:
  "ws_dispatched resolving = [] \<and> ws_admitted resolving = [JObj []] \<and> map wk_message (ws_messageQueue resolving) = [JObj []] \<and>
     ws_admitted resolving = ws_dispatched resolving @ map wk_message (waiting_works resolving)"
proof -
  have "\<not> ws_inboundClosed resolving" "ws_dispatched resolving = []" "ws_admitted resolving = [JObj []]"
    "map wk_message (ws_messageQueue resolving) = [JObj []]" by code_simp+
  with dispatched_in_order [OF resolving_reached] show ?thesis by simp
qed









subsection \<open>Outside of the protocol\<close>

text \<open>
  A ping with a payload of 126 bytes or more (control frames are not longer than 125) is answered by a pong whose
  length byte is the length modulo 256; its bit 7 would mark the frame as masked.
\<close>

lemma long_ping_length_byte:
  "map (take 2) (ws_output (fst (handle_frame plain_env True OPCODE_PING (replicate 256 7) example_session))) = [[138, 0]]"
  "map (take 2) (ws_output (fst (handle_frame plain_env True OPCODE_PING (replicate 130 7) example_session))) = [[138, 130]]"
  by code_simp+

end
